(* ===== verification/Flash_Prelude.thy ===== *)
theory Flash_Prelude
  imports Complex_Main "HOL-Library.Word" "HOL-Library.Monad_Syntax"
begin

text \<open>
  Shared ground of the FlashSim / ZNS development.

  \<^item> Machine integers. The RTL, the driver and the NBD server keep their values at
    their width, as \<open>'w word\<close>. The flash hierarchy counts in \<open>uint\<close> and \<open>ulong\<close>
    values that stay far below their bounds; there they are \<open>nat\<close> with the
    wrap-around of every unguarded increment and decrement written out
    (\<open>inc32\<close>, \<open>dec32\<close>, \<open>add64\<close>, \dots).
  \<^item> Time is a C++ \<open>double\<close>; it is modelled by \<open>real\<close>, so rounding is not part of the model.
  \<^item> A computation that aborts (a failed \<open>assert\<close>, an access outside an array, a null
    dereference, an uncaught exception) has the value \<open>None\<close>; \<open>FAILURE\<close> is an ordinary
    returned status.
  \<^item> \<open>wear_scan\<close> is the loop that \<open>update_wear_stats\<close> has in four classes, and the
    locale \<open>storage_unit\<close> is the contract by which a parent of the flash hierarchy
    lifts an invariant of its children through the operations it forwards.
  \<^item> A \<open>std::map\<close> that is iterated in the order of its keys is a sorted association list
    with \<open>smap_put\<close> and \<open>smap_erase\<close>.
\<close>

named_theorems unit_defs \<open>definitions of the flash hierarchy operations\<close>
named_theorems zone_word_simps \<open>reading back the fields of a packed zone descriptor\<close>
named_theorems hw_defs \<open>definitions of the RTL and of the bridge\<close>

section \<open>Machine integers\<close>

type_synonym u8 = "8 word"
type_synonym u16 = "16 word"
type_synonym u32 = "32 word"
type_synonym u64 = "64 word"

type_synonym uint = nat
type_synonym ulong = nat
type_synonym time = real

definition inc32 :: "nat \<Rightarrow> nat" where
  "inc32 n = (n + 1) mod 2 ^ 32"

definition dec32 :: "nat \<Rightarrow> nat" where
  "dec32 n = (n + (2 ^ 32 - 1)) mod 2 ^ 32"

definition add32 :: "nat \<Rightarrow> nat \<Rightarrow> nat" where
  "add32 a b = (a + b) mod 2 ^ 32"

definition mul32 :: "nat \<Rightarrow> nat \<Rightarrow> nat" where
  "mul32 a b = (a * b) mod 2 ^ 32"

definition inc64 :: "nat \<Rightarrow> nat" where
  "inc64 n = (n + 1) mod 2 ^ 64"

definition dec64 :: "nat \<Rightarrow> nat" where
  "dec64 n = (n + (2 ^ 64 - 1)) mod 2 ^ 64"

definition add64 :: "nat \<Rightarrow> nat \<Rightarrow> nat" where
  "add64 a b = (a + b) mod 2 ^ 64"

definition sub64 :: "nat \<Rightarrow> nat \<Rightarrow> nat" where
  "sub64 a b = (a + (2 ^ 64 - b mod 2 ^ 64)) mod 2 ^ 64"

lemma inc32_small [simp]: "n < 2 ^ 32 - 1 \<Longrightarrow> inc32 n = Suc n"
  by (simp add: inc32_def)

lemma dec32_pos [simp]: "0 < n \<Longrightarrow> n < 2 ^ 32 \<Longrightarrow> dec32 n = n - 1"
proof -
  assume n: "0 < n" "n < 2 ^ 32"
  have "n + (2 ^ 32 - 1) = (n - 1) + 2 ^ 32" using n by simp
  then have "dec32 n = ((n - 1) + 2 ^ 32) mod 2 ^ 32" by (simp only: dec32_def)
  also have "\<dots> = n - 1" using n by (simp only: mod_add_self2) (simp add: mod_less)
  finally show ?thesis .
qed

lemma inc64_small [simp]: "n < 2 ^ 64 - 1 \<Longrightarrow> inc64 n = Suc n"
  by (simp add: inc64_def)

lemma dec64_pos [simp]: "0 < n \<Longrightarrow> n < 2 ^ 64 \<Longrightarrow> dec64 n = n - 1"
proof -
  assume n: "0 < n" "n < 2 ^ 64"
  have "n + (2 ^ 64 - 1) = (n - 1) + 2 ^ 64" using n by simp
  then have "dec64 n = ((n - 1) + 2 ^ 64) mod 2 ^ 64" by (simp only: dec64_def)
  also have "\<dots> = n - 1" using n by (simp only: mod_add_self2) (simp add: mod_less)
  finally show ?thesis .
qed

lemma add64_small [simp]: "a + b < 2 ^ 64 \<Longrightarrow> add64 a b = a + b"
  by (simp add: add64_def)

lemma sub64_exact:
  assumes "b \<le> a" "a < 2 ^ 64"
  shows "sub64 a b = a - b"
proof -
  have "a + (2 ^ 64 - b) = 2 ^ 64 + (a - b)" using assms by simp
  then have "sub64 a b = (2 ^ 64 + (a - b)) mod 2 ^ 64" using assms by (simp add: sub64_def)
  moreover have "a - b < 2 ^ 64" using assms by simp
  ultimately show ?thesis by (simp only: mod_add_self1 mod_less)
qed

lemma add32_small [simp]: "a + b < 2 ^ 32 \<Longrightarrow> add32 a b = a + b"
  by (simp add: add32_def)

lemma mul32_small [simp]: "a * b < 2 ^ 32 \<Longrightarrow> mul32 a b = a * b"
  by (simp add: mul32_def)

section \<open>Status, assertions and arrays\<close>

text \<open>\<open>enum status\<close> of \<open>ssd.h\<close>.\<close>

datatype status = FAILURE | SUCCESS

definition cassert :: "bool \<Rightarrow> unit option" where
  "cassert b = (if b then Some () else None)"

lemma cassert_Some [simp]: "cassert b = Some u \<longleftrightarrow> b"
  by (simp add: cassert_def)

lemma cassert_bind [simp]: "Option.bind (cassert b) f = (if b then f () else None)"
  by (simp add: cassert_def)

definition aget :: "'a list \<Rightarrow> nat \<Rightarrow> 'a option" where
  "aget xs i = (if i < length xs then Some (xs ! i) else None)"

lemma aget_Some [simp]: "aget xs i = Some x \<longleftrightarrow> i < length xs \<and> xs ! i = x"
  by (auto simp: aget_def)

lemma aget_nth: "i < length xs \<Longrightarrow> aget xs i = Some (xs ! i)"
  by simp

lemma aget_None [simp]: "aget xs i = None \<longleftrightarrow> length xs \<le> i"
  by (auto simp: aget_def)

lemma list_all_update:
  "list_all P xs \<Longrightarrow> P x \<Longrightarrow> list_all P (xs[i := x])"
  by (auto simp: list_all_iff dest!: set_update_subset_insert [THEN subsetD])

lemma list_all_nthD: "list_all P xs \<Longrightarrow> i < length xs \<Longrightarrow> P (xs ! i)"
  by (simp add: list_all_length)

section \<open>Counting list elements with a property\<close>

definition count_if :: "('a \<Rightarrow> bool) \<Rightarrow> 'a list \<Rightarrow> nat" where
  "count_if P xs = length (filter P xs)"

lemma count_if_Nil [simp]: "count_if P [] = 0"
  by (simp add: count_if_def)

lemma count_if_Cons [simp]:
  "count_if P (x # xs) = (if P x then Suc (count_if P xs) else count_if P xs)"
  by (simp add: count_if_def)

lemma count_if_le_length: "count_if P xs \<le> length xs"
  by (simp add: count_if_def)

lemma count_if_pos_nth: "i < length xs \<Longrightarrow> P (xs ! i) \<Longrightarrow> 0 < count_if P xs"
  by (auto simp: count_if_def filter_empty_conv)

lemma count_if_less_length: "i < length xs \<Longrightarrow> \<not> P (xs ! i) \<Longrightarrow> count_if P xs < length xs"
  unfolding count_if_def by (rule length_filter_less) simp_all

lemma count_if_update:
  "i < length xs \<Longrightarrow>
   count_if P (xs[i := y]) + of_bool (P (xs ! i)) = count_if P xs + of_bool (P y)"
proof (induction xs arbitrary: i)
  case Nil
  then show ?case by simp
next
  case (Cons x xs)
  then show ?case
  proof (cases i)
    case 0
    then show ?thesis by simp
  next
    case (Suc j)
    with Cons.IH [of j] Cons.prems show ?thesis by simp
  qed
qed

lemma count_if_mono: "(\<And>x. P x \<Longrightarrow> Q x) \<Longrightarrow> count_if P xs \<le> count_if Q xs"
  by (induction xs) auto

lemma count_if_all_false: "list_all (\<lambda>x. \<not> P x) xs \<Longrightarrow> count_if P xs = 0"
  by (simp add: count_if_def filter_empty_conv list_all_iff)

lemma count_if_map: "count_if P (map f xs) = count_if (\<lambda>x. P (f x)) xs"
  by (induction xs) auto

lemma count_if_eq_length: "count_if P xs = length xs \<longleftrightarrow> list_all P xs"
proof (induction xs)
  case Nil
  then show ?case by simp
next
  case (Cons x xs)
  then show ?case using count_if_le_length [of P xs] by auto
qed

section \<open>Ordered maps\<close>

text \<open>\<open>std::map\<close> with integer keys: an association list with ascending keys.\<close>

fun smap_put :: "int \<Rightarrow> 'v \<Rightarrow> (int \<times> 'v) list \<Rightarrow> (int \<times> 'v) list" where
  "smap_put k v [] = [(k, v)]"
| "smap_put k v ((k', v') # r) =
     (if k < k' then (k, v) # (k', v') # r
      else if k = k' then (k, v) # r
      else (k', v') # smap_put k v r)"

definition smap_erase :: "int \<Rightarrow> (int \<times> 'v) list \<Rightarrow> (int \<times> 'v) list" where
  "smap_erase k m = filter (\<lambda>q. fst q \<noteq> k) m"

lemma map_of_smap_put: "map_of (smap_put k v m) = (map_of m)(k \<mapsto> v)"
  by (induction k v m rule: smap_put.induct) auto

lemma map_of_smap_erase: "map_of (smap_erase k m) = (map_of m)(k := None)"
  by (induction m) (auto simp: smap_erase_def)

lemma smap_put_keys: "fst ` set (smap_put k v m) = insert k (fst ` set m)"
  by (induction k v m rule: smap_put.induct) auto

lemma smap_put_sorted:
  "sorted (map fst m) \<and> distinct (map fst m) \<Longrightarrow>
   sorted (map fst (smap_put k v m)) \<and> distinct (map fst (smap_put k v m))"
proof (induction k v m rule: smap_put.induct)
  case (2 k v k' v' r)
  have "fst ` set (smap_put k v r) = insert k (fst ` set r)" by (rule smap_put_keys)
  with 2 show ?case by (auto simp: image_iff)
qed simp

lemma smap_erase_sorted:
  "sorted (map fst m) \<and> distinct (map fst m) \<Longrightarrow>
   sorted (map fst (smap_erase k m)) \<and> distinct (map fst (smap_erase k m))"
  by (simp add: smap_erase_def sorted_filter distinct_map_filter)

section \<open>The wear statistics loop\<close>

text \<open>
  \<open>for(i = 1; i < size; i++) if(data[i].get_erases_remaining() > max) max_index = i;\<close>
  with \<open>max = data[0].get_erases_remaining()\<close>: the loop of \<open>update_wear_stats\<close> in
  \<open>Plane\<close>, \<open>Die\<close>, \<open>Package\<close> and \<open>Ssd\<close>. The source never assigns \<open>max\<close> inside the loop.
\<close>

fun wear_scan :: "nat \<Rightarrow> nat list \<Rightarrow> nat \<Rightarrow> nat \<Rightarrow> nat" where
  "wear_scan mx [] i best = best"
| "wear_scan mx (e # es) i best = wear_scan mx es (Suc i) (if mx < e then i else best)"

definition wear_index :: "nat list \<Rightarrow> nat" where
  "wear_index es = wear_scan (hd es) (tl es) 1 0"

lemma wear_scan_bound: "best < i \<Longrightarrow> wear_scan mx es i best < i + length es"
proof (induction es arbitrary: i best)
  case Nil
  then show ?case by simp
next
  case (Cons e es)
  then have "wear_scan mx es (Suc i) (if mx < e then i else best) < Suc i + length es"
    by (intro Cons.IH) simp
  then show ?case by simp
qed

lemma wear_index_bound: "es \<noteq> [] \<Longrightarrow> wear_index es < length es"
  using wear_scan_bound [of 0 1 "hd es" "tl es"] by (cases es) (simp_all add: wear_index_def)

lemma wear_scan_none: "list_all (\<lambda>e. e \<le> mx) es \<Longrightarrow> wear_scan mx es i best = best"
  by (induction es arbitrary: i) auto

lemma wear_scan_last:
  "mx < e \<Longrightarrow> list_all (\<lambda>e. e \<le> mx) es \<Longrightarrow> wear_scan mx (ds @ e # es) i best = i + length ds"
  by (induction ds arbitrary: i best) (auto simp: wear_scan_none)

lemma wear_index_first:
  "list_all (\<lambda>e. e \<le> hd es) (tl es) \<Longrightarrow> wear_index es = 0"
  by (simp add: wear_index_def wear_scan_none)

lemma wear_index_last:
  "es = d # ds @ e # fs \<Longrightarrow> d < e \<Longrightarrow> list_all (\<lambda>f. f \<le> d) fs \<Longrightarrow> wear_index es = Suc (length ds)"
  by (simp add: wear_index_def wear_scan_last)

text \<open>The index found: nothing after it exceeds the first entry, and it does unless it is 0.\<close>

lemma wear_scan_spec:
  "(\<forall>j<length es. wear_scan mx es i best < i + j \<longrightarrow> es ! j \<le> mx) \<and>
   (wear_scan mx es i best = best \<or>
     (\<exists>j<length es. wear_scan mx es i best = i + j \<and> mx < es ! j))"
proof (induction es arbitrary: i best)
  case (Cons e es)
  let ?b = "if mx < e then i else best"
  have later: "es ! j \<le> mx" if "j < length es" "wear_scan mx es (Suc i) ?b < Suc i + j" for j
    using Cons that by blast
  from Cons consider "wear_scan mx es (Suc i) ?b = ?b"
    | j where "j < length es" "wear_scan mx es (Suc i) ?b = Suc i + j" "mx < es ! j" by blast
  then show ?case
  proof cases
    case 1
    then show ?thesis using later by (auto simp: nth_Cons' split: if_splits)
  next
    case 2
    then have "wear_scan mx (e # es) i best = i + Suc j" "mx < (e # es) ! Suc j" "Suc j < length (e # es)" by simp_all
    then show ?thesis using later 2(2) by (auto simp: nth_Cons' intro!: exI [of _ "Suc j"])
  qed
qed simp

lemma wear_index_spec:
  assumes "es \<noteq> []"
  shows "wear_index es < i \<Longrightarrow> i < length es \<Longrightarrow> es ! i \<le> es ! 0"
    and "wear_index es \<noteq> 0 \<Longrightarrow> es ! 0 < es ! wear_index es"
  using assms wear_scan_spec [of "tl es" "hd es" 1 0]
  by (auto simp: wear_index_def neq_Nil_conv nth_Cons' less_Suc_eq_0_disj split: if_splits)

end
