(* ===== verification/Flash_Config.thy ===== *)
theory Flash_Config
  imports Flash_Prelude
begin

text \<open>
  \<open>ssd_config.cpp\<close>: the global configuration variables as a record that every other
  component takes as an argument, their defaults, and the loading of \<open>ssd.conf\<close>. Lines
  are split as \<open>fgets\<close> does and scanned as \<open>sscanf\<close> does for decimal numbers (hexadecimal
  numbers, infinities and NaN in the file are outside the model); a conversion of a
  \<open>double\<close> that does not fit an \<open>unsigned int\<close> is undefined behaviour, here \<open>None\<close>.
\<close>

section \<open>Configuration variables\<close>

record config =
  RAM_READ_DELAY :: time
  RAM_WRITE_DELAY :: time
  BUS_CTRL_DELAY :: time
  BUS_DATA_DELAY :: time
  BUS_MAX_CONNECT :: uint
  BUS_TABLE_SIZE :: uint
  BUS_CHANNEL_FREE_FLAG :: time
  SSD_SIZE :: uint
  PACKAGE_SIZE :: uint
  DIE_SIZE :: uint
  PLANE_SIZE :: uint
  PLANE_REG_READ_DELAY :: time
  PLANE_REG_WRITE_DELAY :: time
  BLOCK_SIZE :: uint
  BLOCK_ERASES :: uint
  BLOCK_ERASE_DELAY :: time
  PAGE_READ_DELAY :: time
  PAGE_WRITE_DELAY :: time
  PAGE_SIZE :: uint
  PAGE_ENABLE_DATA :: bool
  MAP_DIRECTORY_SIZE :: uint
  FTL_IMPLEMENTATION :: uint
  BAST_LOG_BLOCK_LIMIT :: uint
  FAST_LOG_BLOCK_LIMIT :: uint
  CACHE_DFTL_LIMIT :: uint
  PARALLELISM_MODE :: uint
  VIRTUAL_BLOCK_SIZE :: uint
  VIRTUAL_PAGE_SIZE :: uint
  NUMBER_OF_ADDRESSABLE_BLOCKS :: uint
  RAID_NUMBER_OF_PHYSICAL_SSDS :: uint

definition default_config :: config where
  "default_config = \<lparr>
     RAM_READ_DELAY = 1 / 10 ^ 8, RAM_WRITE_DELAY = 1 / 10 ^ 8,
     BUS_CTRL_DELAY = 5 / 10 ^ 9, BUS_DATA_DELAY = 1 / 10 ^ 8,
     BUS_MAX_CONNECT = 8, BUS_TABLE_SIZE = 64, BUS_CHANNEL_FREE_FLAG = - 1,
     SSD_SIZE = 4, PACKAGE_SIZE = 8, DIE_SIZE = 2, PLANE_SIZE = 64,
     PLANE_REG_READ_DELAY = 1 / 10 ^ 10, PLANE_REG_WRITE_DELAY = 1 / 10 ^ 10,
     BLOCK_SIZE = 16, BLOCK_ERASES = 1048675, BLOCK_ERASE_DELAY = 1 / 10 ^ 3,
     PAGE_READ_DELAY = 1 / 10 ^ 6, PAGE_WRITE_DELAY = 1 / 10 ^ 5,
     PAGE_SIZE = 4096, PAGE_ENABLE_DATA = True, MAP_DIRECTORY_SIZE = 0,
     FTL_IMPLEMENTATION = 0, BAST_LOG_BLOCK_LIMIT = 100, FAST_LOG_BLOCK_LIMIT = 4,
     CACHE_DFTL_LIMIT = 8, PARALLELISM_MODE = 0, VIRTUAL_BLOCK_SIZE = 1,
     VIRTUAL_PAGE_SIZE = 1, NUMBER_OF_ADDRESSABLE_BLOCKS = 0,
     RAID_NUMBER_OF_PHYSICAL_SSDS = 0\<rparr>"

section \<open>Loading the configuration\<close>

text \<open>\<open>(uint) value\<close>: truncation towards zero, undefined outside the range of the type.\<close>

definition to_uint :: "real \<Rightarrow> uint option" where
  "to_uint v = (if - 1 < v \<and> v < 2 ^ 32 then Some (nat \<lfloor>v\<rfloor>) else None)"

definition load_entry :: "string \<Rightarrow> real \<Rightarrow> config \<Rightarrow> config option" where
  "load_entry name v c =
     (if name = ''RAM_READ_DELAY'' then Some (c\<lparr>RAM_READ_DELAY := v\<rparr>)
      else if name = ''RAM_WRITE_DELAY'' then Some (c\<lparr>RAM_WRITE_DELAY := v\<rparr>)
      else if name = ''BUS_CTRL_DELAY'' then Some (c\<lparr>BUS_CTRL_DELAY := v\<rparr>)
      else if name = ''BUS_DATA_DELAY'' then Some (c\<lparr>BUS_DATA_DELAY := v\<rparr>)
      else if name = ''BUS_MAX_CONNECT'' then map_option (\<lambda>n. c\<lparr>BUS_MAX_CONNECT := n\<rparr>) (to_uint v)
      else if name = ''BUS_TABLE_SIZE'' then map_option (\<lambda>n. c\<lparr>BUS_TABLE_SIZE := n\<rparr>) (to_uint v)
      else if name = ''SSD_SIZE'' then map_option (\<lambda>n. c\<lparr>SSD_SIZE := n\<rparr>) (to_uint v)
      else if name = ''PACKAGE_SIZE'' then map_option (\<lambda>n. c\<lparr>PACKAGE_SIZE := n\<rparr>) (to_uint v)
      else if name = ''DIE_SIZE'' then map_option (\<lambda>n. c\<lparr>DIE_SIZE := n\<rparr>) (to_uint v)
      else if name = ''PLANE_SIZE'' then map_option (\<lambda>n. c\<lparr>PLANE_SIZE := n\<rparr>) (to_uint v)
      else if name = ''PLANE_REG_READ_DELAY'' then Some (c\<lparr>PLANE_REG_READ_DELAY := v\<rparr>)
      else if name = ''PLANE_REG_WRITE_DELAY'' then Some (c\<lparr>PLANE_REG_WRITE_DELAY := v\<rparr>)
      else if name = ''BLOCK_SIZE'' then map_option (\<lambda>n. c\<lparr>BLOCK_SIZE := n\<rparr>) (to_uint v)
      else if name = ''BLOCK_ERASES'' then map_option (\<lambda>n. c\<lparr>BLOCK_ERASES := n\<rparr>) (to_uint v)
      else if name = ''BLOCK_ERASE_DELAY'' then Some (c\<lparr>BLOCK_ERASE_DELAY := v\<rparr>)
      else if name = ''PAGE_READ_DELAY'' then Some (c\<lparr>PAGE_READ_DELAY := v\<rparr>)
      else if name = ''PAGE_WRITE_DELAY'' then Some (c\<lparr>PAGE_WRITE_DELAY := v\<rparr>)
      else if name = ''PAGE_SIZE'' then map_option (\<lambda>n. c\<lparr>PAGE_SIZE := n\<rparr>) (to_uint v)
      else if name = ''FTL_IMPLEMENTATION'' then map_option (\<lambda>n. c\<lparr>FTL_IMPLEMENTATION := n\<rparr>) (to_uint v)
      else if name = ''PAGE_ENABLE_DATA'' then Some (c\<lparr>PAGE_ENABLE_DATA := (v = 1)\<rparr>)
      else if name = ''MAP_DIRECTORY_SIZE'' then map_option (\<lambda>n. c\<lparr>MAP_DIRECTORY_SIZE := n\<rparr>) (to_uint v)
      else if name = ''BAST_LOG_BLOCK_LIMIT'' then map_option (\<lambda>n. c\<lparr>BAST_LOG_BLOCK_LIMIT := n\<rparr>) (to_uint v)
      else if name = ''FAST_LOG_BLOCK_LIMIT'' then map_option (\<lambda>n. c\<lparr>FAST_LOG_BLOCK_LIMIT := n\<rparr>) (to_uint v)
      else if name = ''CACHE_DFTL_LIMIT'' then map_option (\<lambda>n. c\<lparr>CACHE_DFTL_LIMIT := n\<rparr>) (to_uint v)
      else if name = ''PARALLELISM_MODE'' then map_option (\<lambda>n. c\<lparr>PARALLELISM_MODE := n\<rparr>) (to_uint v)
      else if name = ''VIRTUAL_BLOCK_SIZE'' then map_option (\<lambda>n. c\<lparr>VIRTUAL_BLOCK_SIZE := n\<rparr>) (to_uint v)
      else if name = ''VIRTUAL_PAGE_SIZE'' then map_option (\<lambda>n. c\<lparr>VIRTUAL_PAGE_SIZE := n\<rparr>) (to_uint v)
      else if name = ''RAID_NUMBER_OF_PHYSICAL_SSDS''
        then map_option (\<lambda>n. c\<lparr>RAID_NUMBER_OF_PHYSICAL_SSDS := n\<rparr>) (to_uint v)
      else Some c)"

definition ignored_line :: "string \<Rightarrow> bool" where
  "ignored_line line \<longleftrightarrow> line \<noteq> [] \<and> (hd line = CHR ''#'' \<or> hd line = CHR 0x0A)"

text \<open>
  \<open>sscanf(line, "%127s %lf", name, &value)\<close>: a name without white space, then a decimal
  number. A number that ends in an exponent mark without digits does not match.
\<close>

definition is_space :: "char \<Rightarrow> bool" where
  "is_space ch \<longleftrightarrow> ch = CHR 0x20 \<or> ch = CHR 0x09 \<or> ch = CHR 0x0A \<or> ch = CHR 0x0B \<or> ch = CHR 0x0C \<or> ch = CHR 0x0D"

definition is_digit :: "char \<Rightarrow> bool" where
  "is_digit ch \<longleftrightarrow> 48 \<le> (of_char ch :: nat) \<and> (of_char ch :: nat) \<le> 57"

definition digits_value :: "string \<Rightarrow> nat" where
  "digits_value s = foldl (\<lambda>n ch. 10 * n + (of_char ch - 48)) 0 s"

fun scan_sign :: "string \<Rightarrow> real \<times> string" where
  "scan_sign [] = (1, [])"
| "scan_sign (ch # s) = (if ch = CHR ''-'' then (- 1, s) else if ch = CHR ''+'' then (1, s) else (1, ch # s))"

definition scan_exponent :: "real \<Rightarrow> string \<Rightarrow> real option" where
  "scan_exponent m s =
     (if s \<noteq> [] \<and> (hd s = CHR ''e'' \<or> hd s = CHR ''E'') then
        (let (sg, s1) = scan_sign (tl s); ds = takeWhile is_digit s1 in
         if ds = [] then None
         else Some (if sg < 0 then m / 10 ^ digits_value ds else m * 10 ^ digits_value ds))
      else Some m)"

definition scan_real :: "string \<Rightarrow> real option" where
  "scan_real s =
     (let (sg, s1) = scan_sign s; ip = takeWhile is_digit s1; s2 = dropWhile is_digit s1;
          dot = (s2 \<noteq> [] \<and> hd s2 = CHR ''.'');
          fp = (if dot then takeWhile is_digit (tl s2) else []);
          s3 = (if dot then dropWhile is_digit (tl s2) else s2)
      in if ip = [] \<and> fp = [] then None
         else scan_exponent (sg * real (digits_value (ip @ fp)) / 10 ^ length fp) s3)"

definition scan_line :: "string \<Rightarrow> (string \<times> real) option" where
  "scan_line line =
     (let s = dropWhile is_space line; nm = take 127 (takeWhile (\<lambda>ch. \<not> is_space ch) s) in
      if nm = [] then None
      else map_option (\<lambda>v. (nm, v)) (scan_real (dropWhile is_space (drop (length nm) s))))"

text \<open>\<open>fgets(line, n + 1, file)\<close>: up to and including the next newline, at most \<open>n\<close> characters.\<close>

definition fgets_line :: "nat \<Rightarrow> string \<Rightarrow> string" where
  "fgets_line n s = take n (takeWhile (\<lambda>ch. ch \<noteq> CHR 0x0A) s @ take 1 (dropWhile (\<lambda>ch. ch \<noteq> CHR 0x0A) s))"

lemma fgets_line_nonempty: "0 < n \<Longrightarrow> s \<noteq> [] \<Longrightarrow> fgets_line n s \<noteq> []"
  by (cases s) (auto simp: fgets_line_def)

function file_lines :: "nat \<Rightarrow> string \<Rightarrow> string list" where
  "file_lines n s = (if n = 0 \<or> s = [] then [] else fgets_line n s # file_lines n (drop (length (fgets_line n s)) s))"
  by auto
termination by (relation "measure (length \<circ> snd)") (simp_all add: fgets_line_nonempty)

declare file_lines.simps [simp del]

fun load_lines :: "string list \<Rightarrow> config \<Rightarrow> config option" where
  "load_lines [] c = Some c"
| "load_lines (line # lines) c =
     (if ignored_line line then load_lines lines c
      else case scan_line line of
        Some (name, v) \<Rightarrow> Option.bind (load_entry name v c) (load_lines lines)
      | None \<Rightarrow> load_lines lines c)"

text \<open>The argument is the content of \<open>ssd.conf\<close>; a missing file ends the program.\<close>

definition load_config :: "string option \<Rightarrow> config \<Rightarrow> config option" where
  "load_config file c0 = do {
     content \<leftarrow> file;
     c \<leftarrow> load_lines (file_lines 127 content) c0;
     cassert (VIRTUAL_PAGE_SIZE c \<noteq> 0);
     Some (c\<lparr>NUMBER_OF_ADDRESSABLE_BLOCKS :=
       mul32 (mul32 (mul32 (SSD_SIZE c) (PACKAGE_SIZE c)) (DIE_SIZE c)) (PLANE_SIZE c)
         div VIRTUAL_PAGE_SIZE c\<rparr>)
   }"

section \<open>Facts about loading\<close>

text \<open>Every entry that fits its variable is accepted, unknown names included.\<close>

lemma to_uint_nat [simp]: "n < 2 ^ 32 \<Longrightarrow> to_uint (real n) = Some n"
proof -
  assume "n < 2 ^ 32"
  then have "real n < real (2 ^ 32)" by (simp only: of_nat_less_iff)
  then show ?thesis by (simp add: to_uint_def)
qed

lemma to_uint_bound: "to_uint v = Some n \<Longrightarrow> n < 2 ^ 32"
proof -
  assume "to_uint v = Some n"
  then have n: "n = nat \<lfloor>v\<rfloor>" and v: "v < 2 ^ 32" by (auto simp: to_uint_def split: if_splits)
  from v have "\<lfloor>v\<rfloor> < 2 ^ 32" by (simp add: floor_less_iff)
  then show ?thesis unfolding n nat_less_numeral_power_cancel_iff .
qed

lemma load_entry_total: "- 1 < v \<Longrightarrow> v < 2 ^ 32 \<Longrightarrow> \<exists>c'. load_entry name v c = Some c'"
  by (simp add: load_entry_def to_uint_def)

text \<open>The bus flag and the derived block count are not configurable.\<close>

lemma load_entry_fixed:
  "load_entry name v c = Some c' \<Longrightarrow>
   BUS_CHANNEL_FREE_FLAG c' = BUS_CHANNEL_FREE_FLAG c \<and>
   NUMBER_OF_ADDRESSABLE_BLOCKS c' = NUMBER_OF_ADDRESSABLE_BLOCKS c"
  by (auto simp: load_entry_def split: if_splits)

definition line_ok :: "string \<Rightarrow> bool" where
  "line_ok l \<longleftrightarrow> ignored_line l \<or>
     (case scan_line l of None \<Rightarrow> True | Some entry \<Rightarrow> - 1 < snd entry \<and> snd entry < 2 ^ 32)"

lemma load_lines_total: "list_all line_ok lines \<Longrightarrow> \<exists>c'. load_lines lines c = Some c'"
proof (induction lines arbitrary: c)
  case (Cons l lines)
  then have l: "line_ok l" and IH: "\<exists>c'. load_lines lines c = Some c'" for c by simp_all
  show ?case
  proof (cases "ignored_line l \<or> scan_line l = None")
    case True
    then show ?thesis using IH by auto
  next
    case False
    then obtain nm v where sc: "scan_line l = Some (nm, v)" "\<not> ignored_line l" by auto
    with l have "- 1 < v" "v < 2 ^ 32" by (simp_all add: line_ok_def)
    with load_entry_total [of v nm c] obtain c1 where "load_entry nm v c = Some c1" by blast
    then show ?thesis using sc IH [of c1] by simp
  qed
qed simp

lemma load_lines_fixed:
  "load_lines lines c = Some c' \<Longrightarrow> BUS_CHANNEL_FREE_FLAG c' = BUS_CHANNEL_FREE_FLAG c"
  by (induction lines arbitrary: c)
     (auto split: if_splits option.splits bind_splits dest!: load_entry_fixed)

end
