(* ===== verification/Ssd_Address.thy ===== *)
theory Ssd_Address
  imports Flash_Config
begin

text \<open>
  \<open>ssd_address.cpp\<close>: physical addresses. \<open>address_valid\<close> is ordered as the C++ enum is.
  A division by a zero geometry constant is undefined, so \<open>set_linear_address\<close> is partial.
  The default constructor leaves \<open>real_address\<close> uninitialised; that value is an argument.
  \<open>linear_of\<close> is the page number an address denotes; the lemmas show that setting a
  linear address and reading the coordinates are inverse inside the device.
\<close>

section \<open>Address validity\<close>

datatype address_valid = NONE | PACKAGE | DIE | PLANE | BLOCK | PAGE

fun av_rank :: "address_valid \<Rightarrow> nat" where
  "av_rank NONE = 0"
| "av_rank PACKAGE = 1"
| "av_rank DIE = 2"
| "av_rank PLANE = 3"
| "av_rank BLOCK = 4"
| "av_rank PAGE = 5"

lemma av_rank_inj: "av_rank a = av_rank b \<Longrightarrow> a = b"
  by (cases a; cases b) simp_all

instantiation address_valid :: linorder
begin

definition less_eq_address_valid :: "address_valid \<Rightarrow> address_valid \<Rightarrow> bool" where
  "less_eq_address_valid a b \<longleftrightarrow> av_rank a \<le> av_rank b"

definition less_address_valid :: "address_valid \<Rightarrow> address_valid \<Rightarrow> bool" where
  "less_address_valid a b \<longleftrightarrow> av_rank a < av_rank b"

instance
  by standard (auto simp: less_eq_address_valid_def less_address_valid_def av_rank_inj)

end

lemma av_le_simps [simp]: "(a \<le> b) = (av_rank a \<le> av_rank b)" "(a < b) = (av_rank a < av_rank b)"
  for a b :: address_valid
  by (simp_all add: less_eq_address_valid_def less_address_valid_def)

section \<open>Addresses\<close>

record address =
  package :: uint
  die :: uint
  plane :: uint
  block :: uint
  page :: uint
  real_address :: ulong
  valid :: address_valid

definition Address_default :: "ulong \<Rightarrow> address" where
  "Address_default junk = \<lparr>package = 0, die = 0, plane = 0, block = 0, page = 0,
     real_address = junk, valid = NONE\<rparr>"

definition Address_fields :: "ulong \<Rightarrow> uint \<Rightarrow> uint \<Rightarrow> uint \<Rightarrow> uint \<Rightarrow> uint \<Rightarrow> address_valid \<Rightarrow> address" where
  "Address_fields junk pk di pl bl pg v = \<lparr>package = pk, die = di, plane = pl, block = bl, page = pg,
     real_address = junk, valid = v\<rparr>"

definition set_linear_address :: "config \<Rightarrow> ulong \<Rightarrow> address \<Rightarrow> address option" where
  "set_linear_address c n a = do {
     cassert (BLOCK_SIZE c \<noteq> 0 \<and> PLANE_SIZE c \<noteq> 0 \<and> DIE_SIZE c \<noteq> 0 \<and> PACKAGE_SIZE c \<noteq> 0 \<and> SSD_SIZE c \<noteq> 0);
     let n1 = n div BLOCK_SIZE c;
     let n2 = n1 div PLANE_SIZE c;
     let n3 = n2 div DIE_SIZE c;
     let n4 = n3 div PACKAGE_SIZE c;
     Some (a\<lparr>real_address := n, page := n mod BLOCK_SIZE c, block := n1 mod PLANE_SIZE c,
             plane := n2 mod DIE_SIZE c, die := n3 mod PACKAGE_SIZE c, package := n4 mod SSD_SIZE c\<rparr>)
   }"

definition set_linear_address_valid :: "config \<Rightarrow> ulong \<Rightarrow> address_valid \<Rightarrow> address \<Rightarrow> address option" where
  "set_linear_address_valid c n v a = map_option (\<lambda>b. b\<lparr>valid := v\<rparr>) (set_linear_address c n a)"

definition Address_linear :: "config \<Rightarrow> uint \<Rightarrow> address_valid \<Rightarrow> address option" where
  "Address_linear c n v = set_linear_address c n (Address_default 0\<lparr>valid := v\<rparr>)"

definition get_linear_address :: "address \<Rightarrow> ulong" where
  "get_linear_address a = real_address a"

definition Address_plus_int :: "config \<Rightarrow> int \<Rightarrow> address \<Rightarrow> address option" where
  "Address_plus_int c i a = set_linear_address c (nat ((int (real_address a) + i) mod 2 ^ 64)) a"

definition Address_plus :: "config \<Rightarrow> uint \<Rightarrow> address \<Rightarrow> address option" where
  "Address_plus c i a = set_linear_address c (add64 (real_address a) i) a"

definition check_valid :: "uint \<Rightarrow> uint \<Rightarrow> uint \<Rightarrow> uint \<Rightarrow> uint \<Rightarrow> address \<Rightarrow> address_valid \<times> address" where
  "check_valid ssd_size package_size die_size plane_size block_size a =
     (let v = (if PACKAGE \<le> valid a \<and> package a < ssd_size then
                 (if DIE \<le> valid a \<and> die a < package_size then
                    (if PLANE \<le> valid a \<and> plane a < die_size then
                       (if BLOCK \<le> valid a \<and> block a < plane_size then
                          (if PAGE \<le> valid a \<and> page a < block_size then PAGE else BLOCK)
                        else PLANE)
                     else DIE)
                  else PACKAGE)
               else NONE)
      in (v, a\<lparr>valid := v\<rparr>))"

definition check_valid_default :: "config \<Rightarrow> address \<Rightarrow> address_valid \<times> address" where
  "check_valid_default c =
     check_valid (SSD_SIZE c) (PACKAGE_SIZE c) (DIE_SIZE c) (PLANE_SIZE c) (BLOCK_SIZE c)"

definition Address_compare :: "address \<Rightarrow> address \<Rightarrow> address_valid" where
  "Address_compare a b =
     (if package a = package b \<and> PACKAGE \<le> valid a \<and> PACKAGE \<le> valid b then
        (if die a = die b \<and> DIE \<le> valid a \<and> DIE \<le> valid b then
           (if plane a = plane b \<and> PLANE \<le> valid a \<and> PLANE \<le> valid b then
              (if block a = block b \<and> BLOCK \<le> valid a \<and> BLOCK \<le> valid b then
                 (if page a = page b \<and> PAGE \<le> valid a \<and> PAGE \<le> valid b then PAGE else BLOCK)
               else PLANE)
            else DIE)
         else PACKAGE)
      else NONE)"

section \<open>Linear addresses and coordinates\<close>

definition geometry_ok :: "config \<Rightarrow> bool" where
  "geometry_ok c \<longleftrightarrow> 0 < BLOCK_SIZE c \<and> 0 < PLANE_SIZE c \<and> 0 < DIE_SIZE c \<and> 0 < PACKAGE_SIZE c \<and> 0 < SSD_SIZE c"

definition total_pages :: "config \<Rightarrow> nat" where
  "total_pages c = SSD_SIZE c * PACKAGE_SIZE c * DIE_SIZE c * PLANE_SIZE c * BLOCK_SIZE c"

definition linear_of :: "config \<Rightarrow> address \<Rightarrow> nat" where
  "linear_of c a = (((package a * PACKAGE_SIZE c + die a) * DIE_SIZE c + plane a) * PLANE_SIZE c + block a)
     * BLOCK_SIZE c + page a"

definition in_device :: "config \<Rightarrow> address \<Rightarrow> bool" where
  "in_device c a \<longleftrightarrow> package a < SSD_SIZE c \<and> die a < PACKAGE_SIZE c \<and> plane a < DIE_SIZE c
     \<and> block a < PLANE_SIZE c \<and> page a < BLOCK_SIZE c"

lemma set_linear_Some:
  "geometry_ok c \<Longrightarrow> set_linear_address c n a = Some (a\<lparr>real_address := n, page := n mod BLOCK_SIZE c,
     block := n div BLOCK_SIZE c mod PLANE_SIZE c,
     plane := n div BLOCK_SIZE c div PLANE_SIZE c mod DIE_SIZE c,
     die := n div BLOCK_SIZE c div PLANE_SIZE c div DIE_SIZE c mod PACKAGE_SIZE c,
     package := n div BLOCK_SIZE c div PLANE_SIZE c div DIE_SIZE c div PACKAGE_SIZE c mod SSD_SIZE c\<rparr>)"
  by (simp add: set_linear_address_def geometry_ok_def Let_def)

lemma set_linear_in_device:
  "geometry_ok c \<Longrightarrow> set_linear_address c n a = Some b \<Longrightarrow> in_device c b \<and> real_address b = n \<and> valid b = valid a"
  by (auto simp: set_linear_Some in_device_def) (auto simp: geometry_ok_def)

lemma set_linear_roundtrip:
  assumes "geometry_ok c" "n < total_pages c" "set_linear_address c n a = Some b"
  shows "linear_of c b = n"
proof -
  have "n < BLOCK_SIZE c * (PLANE_SIZE c * (DIE_SIZE c * (PACKAGE_SIZE c * SSD_SIZE c)))"
    using assms(2) by (simp add: total_pages_def mult_ac)
  then have "n div BLOCK_SIZE c div PLANE_SIZE c div DIE_SIZE c div PACKAGE_SIZE c < SSD_SIZE c"
    by (simp add: div_mult2_eq [symmetric] less_mult_imp_div_less mult_ac)
  then show ?thesis
    using assms(1,3)
    by (auto simp: set_linear_Some linear_of_def)
qed

lemma coord_step: "x < m \<Longrightarrow> (y * m + x) mod m = x \<and> (y * m + x) div m = y" for x y m :: nat
  by simp

lemma linear_roundtrip:
  assumes "geometry_ok c" "in_device c a"
  shows "set_linear_address c (linear_of c a) a = Some (a\<lparr>real_address := linear_of c a\<rparr>)"
  using assms
  by (simp add: set_linear_Some linear_of_def in_device_def)

lemma linear_of_bound:
  assumes "in_device c a"
  shows "linear_of c a < total_pages c"
proof -
  have step: "y * m + x < n * m" if "x < m" "y < n" for x y m n :: nat
  proof -
    have "y * m + x < Suc y * m" using that by simp
    also have "\<dots> \<le> n * m" using that by (intro mult_le_mono1) simp
    finally show ?thesis .
  qed
  show ?thesis
    using assms unfolding linear_of_def total_pages_def in_device_def
    by (intro step) auto
qed

section \<open>Validity and comparison\<close>

lemma check_valid_le: "fst (check_valid a1 a2 a3 a4 a5 x) \<le> valid x"
  by (cases "valid x") (simp_all add: check_valid_def Let_def)

lemma check_valid_inside:
  "in_device c a \<Longrightarrow> check_valid_default c a = (valid a, a)"
  by (cases "valid a") (simp_all add: check_valid_default_def check_valid_def in_device_def)

lemma compare_sym: "Address_compare a b = Address_compare b a"
  by (auto simp: Address_compare_def)

lemma compare_page_iff:
  "Address_compare a b = PAGE \<longleftrightarrow>
     valid a = PAGE \<and> valid b = PAGE \<and> package a = package b \<and> die a = die b \<and> plane a = plane b
     \<and> block a = block b \<and> page a = page b"
  by (cases "valid a"; cases "valid b") (auto simp: Address_compare_def)

lemma compare_block_fields:
  "BLOCK \<le> Address_compare a b \<Longrightarrow>
   package a = package b \<and> die a = die b \<and> plane a = plane b \<and> block a = block b"
  by (auto simp: Address_compare_def split: if_splits)

end
