(* ===== verification/Ssd_Event.thy ===== *)
theory Ssd_Event
  imports Ssd_Address
begin

text \<open>
  \<open>ssd_event.cpp\<close>, \<open>ssd_stats.cpp\<close> and \<open>ssd_ram.cpp\<close>: the requests that travel through
  the simulator, the counters of the controller, and the buffer RAM that only adds delay.
  An event chained by \<open>next\<close> pointers is a list of events. Also here is \<open>env\<close>, the global
  state that the flash hierarchy shares: the page data area, the read buffer pointer and
  the cost table of the block manager.
\<close>

section \<open>Global state of the flash hierarchy\<close>

text \<open>
  A payload pointer refers to a caller's page buffer or to a page of the data area itself
  (the flash translation layers pass such pointers when they move a page).
\<close>

datatype payload = UserBuf "u8 list" | PagePtr nat

record env =
  page_data :: "nat \<Rightarrow> u8 list"
  global_buffer :: "nat option"
  active_cost :: "(nat \<times> uint) list"

section \<open>Events\<close>

datatype event_type = READ | WRITE | ERASE | MERGE | TRIM

record event =
  start_time :: time
  time_taken :: time
  bus_wait_time :: time
  etype :: event_type
  logical_address :: ulong
  ev_address :: address
  merge_address :: address
  log_address :: address
  replace_address :: address
  ev_size :: uint
  ev_payload :: "payload option"
  noop :: bool

definition Event_new :: "ulong \<Rightarrow> event_type \<Rightarrow> ulong \<Rightarrow> uint \<Rightarrow> time \<Rightarrow> event option" where
  "Event_new junk ty la sz st =
     (if st < 0 then None
      else Some \<lparr>start_time = st, time_taken = 0, bus_wait_time = 0, etype = ty, logical_address = la,
        ev_address = Address_default junk, merge_address = Address_default junk,
        log_address = Address_default junk, replace_address = Address_default junk,
        ev_size = sz, ev_payload = None, noop = False\<rparr>)"

definition get_start_time :: "event \<Rightarrow> time option" where
  "get_start_time e = (if 0 \<le> start_time e then Some (start_time e) else None)"

definition get_time_taken :: "event \<Rightarrow> time option" where
  "get_time_taken e = (if 0 \<le> time_taken e then Some (time_taken e) else None)"

definition get_bus_wait_time :: "event \<Rightarrow> time option" where
  "get_bus_wait_time e = (if 0 \<le> bus_wait_time e then Some (bus_wait_time e) else None)"

definition incr_bus_wait_time :: "time \<Rightarrow> event \<Rightarrow> event" where
  "incr_bus_wait_time t e = (if 0 < t then e\<lparr>bus_wait_time := bus_wait_time e + t\<rparr> else e)"

definition incr_time_taken :: "time \<Rightarrow> event \<Rightarrow> event" where
  "incr_time_taken t e = (if 0 < t then e\<lparr>time_taken := time_taken e + t\<rparr> else e)"

fun consolidate_loop :: "time \<Rightarrow> event list \<Rightarrow> time \<Rightarrow> time \<Rightarrow> (time \<times> time) option" where
  "consolidate_loop st [] mx wait = Some (mx, wait)"
| "consolidate_loop st (cur # rest) mx wait =
     (let tmp = st - start_time cur + time_taken cur in do {
        w \<leftarrow> get_bus_wait_time cur;
        consolidate_loop st rest (if mx < tmp then tmp else mx) (wait + w)
      })"

text \<open>The argument \<open>l # rest\<close> is the chain that starts at the event passed by reference.\<close>

definition consolidate_metaevent :: "event \<Rightarrow> event list \<Rightarrow> event \<Rightarrow> event option" where
  "consolidate_metaevent l rest e = do {
     cassert (0 \<le> start_time e);
     (mx, wait) \<leftarrow> consolidate_loop (start_time e) rest (start_time e - start_time l + time_taken l)
                     (bus_wait_time e);
     cassert (0 \<le> mx);
     cassert (0 \<le> wait);
     Some (e\<lparr>time_taken := mx, bus_wait_time := wait\<rparr>)
   }"

section \<open>Statistics\<close>

record stats =
  numFTLRead :: int
  numFTLWrite :: int
  numFTLErase :: int
  numFTLTrim :: int
  numGCRead :: int
  numGCWrite :: int
  numGCErase :: int
  numWLRead :: int
  numWLWrite :: int
  numWLErase :: int
  numLogMergeSwitch :: int
  numLogMergePartial :: int
  numLogMergeFull :: int
  numPageBlockToPageConversion :: int
  numCacheHits :: int
  numCacheFaults :: int
  numMemoryTranslation :: int
  numMemoryCache :: int
  numMemoryRead :: int
  numMemoryWrite :: int

definition Stats_reset :: "stats \<Rightarrow> stats" where
  "Stats_reset s = s\<lparr>numFTLRead := 0, numFTLWrite := 0, numFTLErase := 0, numFTLTrim := 0,
     numGCRead := 0, numGCWrite := 0, numGCErase := 0,
     numWLRead := 0, numWLWrite := 0, numWLErase := 0,
     numLogMergeSwitch := 0, numLogMergePartial := 0, numLogMergeFull := 0,
     numPageBlockToPageConversion := 0, numCacheHits := 0, numCacheFaults := 0,
     numMemoryTranslation := 0, numMemoryCache := 0, numMemoryRead := 0, numMemoryWrite := 0\<rparr>"

section \<open>RAM\<close>

record ram =
  ram_read_delay :: time
  ram_write_delay :: time

text \<open>
  The constructor's clamping assigns the parameters, which shadow the members that the
  initialiser list has already set: a negative delay stays in the object.
\<close>

definition Ram_new :: "time \<Rightarrow> time \<Rightarrow> ram" where
  "Ram_new rd wd = \<lparr>ram_read_delay = rd, ram_write_delay = wd\<rparr>"

definition Ram_read :: "ram \<Rightarrow> event \<Rightarrow> (status \<times> event) option" where
  "Ram_read r e = do {
     cassert (0 \<le> ram_read_delay r);
     Some (SUCCESS, incr_time_taken (ram_read_delay r * real (ev_size e)) e)
   }"

definition Ram_write :: "ram \<Rightarrow> event \<Rightarrow> (status \<times> event) option" where
  "Ram_write r e = do {
     cassert (0 \<le> ram_write_delay r);
     Some (SUCCESS, incr_time_taken (ram_write_delay r * real (ev_size e)) e)
   }"

section \<open>What an operation may do to its event\<close>

text \<open>
  Events only accumulate time on their way through the device: \<open>same_request\<close> says that
  nothing but the two time counters changed, \<open>time_grows\<close> that they did not shrink.
\<close>

definition same_request :: "event \<Rightarrow> event \<Rightarrow> bool" where
  "same_request e e' \<longleftrightarrow> e' = e\<lparr>time_taken := time_taken e', bus_wait_time := bus_wait_time e'\<rparr>"

definition time_grows :: "event \<Rightarrow> event \<Rightarrow> bool" where
  "time_grows e e' \<longleftrightarrow> time_taken e \<le> time_taken e' \<and> bus_wait_time e \<le> bus_wait_time e'"

definition progress :: "event \<Rightarrow> event \<Rightarrow> bool" where
  "progress e e' \<longleftrightarrow> same_request e e' \<and> time_grows e e'"

lemma progress_refl [simp]: "progress e e"
  by (simp add: progress_def same_request_def time_grows_def)

lemma same_request_trans: "same_request a b \<Longrightarrow> same_request b c \<Longrightarrow> same_request a c"
  by (cases a; cases b; cases c) (simp add: same_request_def)

lemma progress_trans: "progress a b \<Longrightarrow> progress b c \<Longrightarrow> progress a c"
  using same_request_trans [of a b c] by (auto simp: progress_def time_grows_def)

lemma progress_incr_time [simp]: "progress e (incr_time_taken t e)"
  by (simp add: progress_def same_request_def time_grows_def incr_time_taken_def)

lemma progress_incr_wait [simp]: "progress e (incr_bus_wait_time t e)"
  by (simp add: progress_def same_request_def time_grows_def incr_bus_wait_time_def)

lemma progress_fields:
  "progress e e' \<Longrightarrow> ev_address e' = ev_address e \<and> start_time e' = start_time e \<and> noop e' = noop e
     \<and> ev_payload e' = ev_payload e \<and> replace_address e' = replace_address e
     \<and> merge_address e' = merge_address e \<and> ev_size e' = ev_size e"
  by (cases e; cases e') (simp add: progress_def same_request_def)

lemma incr_time_simps [simp]:
  "start_time (incr_time_taken t e) = start_time e"
  "ev_address (incr_time_taken t e) = ev_address e" "noop (incr_time_taken t e) = noop e"
  "replace_address (incr_time_taken t e) = replace_address e"
  "ev_payload (incr_time_taken t e) = ev_payload e"
  "0 \<le> t \<Longrightarrow> time_taken (incr_time_taken t e) = time_taken e + t"
  "bus_wait_time (incr_time_taken t e) = bus_wait_time e"
  by (simp_all add: incr_time_taken_def)

lemma incr_wait_simps [simp]:
  "start_time (incr_bus_wait_time t e) = start_time e"
  "ev_address (incr_bus_wait_time t e) = ev_address e"
  "time_taken (incr_bus_wait_time t e) = time_taken e"
  "0 \<le> t \<Longrightarrow> bus_wait_time (incr_bus_wait_time t e) = bus_wait_time e + t"
  by (simp_all add: incr_bus_wait_time_def)

section \<open>Consolidation of a metaevent\<close>

lemma consolidate_loop_spec:
  "list_all (\<lambda>x. 0 \<le> bus_wait_time x) rest \<Longrightarrow>
   consolidate_loop st rest mx wait =
     Some (fold max (map (\<lambda>x. st - start_time x + time_taken x) rest) mx,
           wait + sum_list (map bus_wait_time rest))"
  by (induction rest arbitrary: mx wait)
     (simp_all add: get_bus_wait_time_def Let_def max_def algebra_simps if_distrib [symmetric] cong: if_cong)

lemma fold_max_real: "fold max xs m = Max (set (m # xs))" for m :: real
  by (simp only: Max.set_eq_fold)

end
