(* ===== verification/Flash_Unit.thy ===== *)
theory Flash_Unit
  imports Ssd_Event
begin

text \<open>
  The contract every level of the flash hierarchy keeps. A unit (block, plane, die,
  package, device) executes one of five operations for an event; \<open>None\<close> is an abort.
  \<open>forward\<close> is how a parent hands an event to the child the address selects. The locale
  \<open>storage_unit\<close> asks of a level that its operations keep its invariant and only add time
  to the event, and proves once what parents and request sequences get from it.
\<close>

datatype unit_op = URead | UWrite | UErase | UReplace | UMerge

text \<open>Reads, writes and erases go where the event's address says.\<close>

fun addressed :: "unit_op \<Rightarrow> bool" where
  "addressed URead = True"
| "addressed UWrite = True"
| "addressed UErase = True"
| "addressed UReplace = False"
| "addressed UMerge = False"

type_synonym 'u outcome = "(status \<times> event \<times> 'u \<times> env) option"

definition forward :: "nat \<Rightarrow> ('u \<Rightarrow> env \<Rightarrow> 'u outcome) \<Rightarrow> 'u list \<Rightarrow> env \<Rightarrow> 'u list outcome" where
  "forward i f us g = do {
     u \<leftarrow> aget us i;
     (s, e', u', g') \<leftarrow> f u g;
     Some (s, e', us[i := u'], g')
   }"

lemma forward_Some:
  "forward i f us g = Some (s, e', us', g') \<longleftrightarrow>
   i < length us \<and> (\<exists>u'. f (us ! i) g = Some (s, e', u', g') \<and> us' = us[i := u'])"
  by (auto simp: forward_def bind_eq_Some_conv)

fun run_requests :: "(unit_op \<Rightarrow> event \<Rightarrow> 'u \<Rightarrow> env \<Rightarrow> 'u outcome) \<Rightarrow> (unit_op \<times> event) list \<Rightarrow>
    'u \<Rightarrow> env \<Rightarrow> ('u \<times> env) option" where
  "run_requests f [] u g = Some (u, g)"
| "run_requests f ((a, e) # rs) u g = do {
     (s, e', u', g') \<leftarrow> f a e u g;
     run_requests f rs u' g'
   }"

locale storage_unit =
  fixes exec :: "config \<Rightarrow> unit_op \<Rightarrow> event \<Rightarrow> 'u \<Rightarrow> env \<Rightarrow> 'u outcome"
    and inv :: "config \<Rightarrow> 'u \<Rightarrow> bool"
  assumes keeps: "exec c a e u g = Some (s, e', u', g') \<Longrightarrow> inv c u \<Longrightarrow> inv c u'"
    and adds_time: "exec c a e u g = Some (s, e', u', g') \<Longrightarrow> progress e e'"
    and cost_size: "exec c a e u g = Some (s, e', u', g') \<Longrightarrow> inv c u \<Longrightarrow> length (active_cost g') = length (active_cost g)"
begin

lemma forward_keeps:
  "forward i (exec c a e) us g = Some (s, e', us', g') \<Longrightarrow> list_all (inv c) us \<Longrightarrow>
   list_all (inv c) us' \<and> length us' = length us"
  by (auto simp: forward_Some list_all_update list_all_nthD dest: keeps)

lemma forward_adds_time:
  "forward i (exec c a e) us g = Some (s, e', us', g') \<Longrightarrow> progress e e'"
  by (auto simp: forward_Some dest: adds_time)

lemma forward_cost_size:
  "forward i (exec c a e) us g = Some (s, e', us', g') \<Longrightarrow> list_all (inv c) us \<Longrightarrow>
   length (active_cost g') = length (active_cost g)"
  by (auto simp: forward_Some list_all_nthD dest: cost_size)

lemmas forward_facts = forward_keeps forward_adds_time forward_cost_size

text \<open>Every sequence of requests keeps the invariant.\<close>

lemma run_keeps:
  "run_requests (exec c) rs u g = Some (u', g') \<Longrightarrow> inv c u \<Longrightarrow>
   inv c u' \<and> length (active_cost g') = length (active_cost g)"
proof (induction "exec c" rs u g rule: run_requests.induct)
  case (2 a e rs u g)
  then show ?case by (fastforce simp: bind_eq_Some_conv dest: keeps cost_size)
qed simp

end

end
