(* ===== verification/Ssd_Block.thy ===== *)
theory Ssd_Block
  imports Flash_Unit
begin

text \<open>
  \<open>ssd_page.cpp\<close> and \<open>ssd_block.cpp\<close>: pages with their state and delays, blocks with
  their page array, counters and wear. \<open>update_block\<close> is the block manager's cost table
  update, which every state change of a block performs; the position is not checked in
  the source, so a table that is too short is undefined behaviour. \<open>block_ok\<close> relates the
  counters and the block state to the page states.
\<close>

section \<open>Pages\<close>

datatype page_state = EMPTY | VALID | INVALID
datatype block_state = FREE | ACTIVE | INACTIVE
datatype block_type = LOG | DATA | LOG_SEQ

record page =
  pg_state :: page_state
  pg_read_delay :: time
  pg_write_delay :: time

definition Page_new :: "time \<Rightarrow> time \<Rightarrow> page" where
  "Page_new rd wd = \<lparr>pg_state = EMPTY, pg_read_delay = (if rd < 0 then 0 else rd),
     pg_write_delay = (if wd < 0 then 0 else wd)\<rparr>"

text \<open>The \<open>PAGE_SIZE\<close> bytes that \<open>memcpy\<close> reads; a shorter buffer is undefined behaviour.\<close>

definition payload_bytes :: "config \<Rightarrow> env \<Rightarrow> payload \<Rightarrow> u8 list option" where
  "payload_bytes c g p = (case p of
       UserBuf bs \<Rightarrow> if PAGE_SIZE c \<le> length bs then Some (take (PAGE_SIZE c) bs) else None
     | PagePtr n \<Rightarrow> if n < total_pages c then Some (page_data g n) else None)"

definition store_payload :: "config \<Rightarrow> event \<Rightarrow> env \<Rightarrow> env option" where
  "store_payload c e g =
     (case ev_payload e of
        Some p \<Rightarrow>
          if PAGE_ENABLE_DATA c \<and> \<not> noop e then do {
            let n = get_linear_address (ev_address e);
            bs \<leftarrow> payload_bytes c g p;
            cassert (n < total_pages c);
            Some (g\<lparr>page_data := (page_data g)(n := bs)\<rparr>)
          } else Some g
      | None \<Rightarrow> Some g)"

definition Page_read :: "config \<Rightarrow> event \<Rightarrow> page \<Rightarrow> env \<Rightarrow> page outcome" where
  "Page_read c e p g = do {
     cassert (0 \<le> pg_read_delay p);
     let e1 = incr_time_taken (pg_read_delay p) e;
     let g1 = (if \<not> noop e \<and> PAGE_ENABLE_DATA c
               then g\<lparr>global_buffer := Some (get_linear_address (ev_address e))\<rparr> else g);
     Some (SUCCESS, e1, p, g1)
   }"

definition Page_write :: "config \<Rightarrow> event \<Rightarrow> page \<Rightarrow> env \<Rightarrow> page outcome" where
  "Page_write c e p g = do {
     cassert (0 \<le> pg_write_delay p);
     let e1 = incr_time_taken (pg_write_delay p) e;
     g1 \<leftarrow> store_payload c e1 g;
     cassert (noop e1 \<or> pg_state p = EMPTY);
     Some (SUCCESS, e1, if noop e1 then p else p\<lparr>pg_state := VALID\<rparr>, g1)
   }"

section \<open>Blocks\<close>

record blk =
  physical_address :: nat
  pages_invalid :: uint
  bsize :: uint
  bdata :: "page list"
  pages_valid :: uint
  bstate :: block_state
  erases_remaining :: ulong
  last_erase_time :: time
  erase_delay :: time
  modification_time :: time
  btype :: "block_type option"

definition Block_new :: "config \<Rightarrow> uint \<Rightarrow> ulong \<Rightarrow> time \<Rightarrow> nat \<Rightarrow> blk" where
  "Block_new c sz er dl pa = \<lparr>physical_address = pa, pages_invalid = 0, bsize = sz,
     bdata = replicate sz (Page_new (PAGE_READ_DELAY c) (PAGE_WRITE_DELAY c)), pages_valid = 0,
     bstate = FREE, erases_remaining = er, last_erase_time = 0, erase_delay = dl,
     modification_time = - 1, btype = None\<rparr>"

definition update_block :: "config \<Rightarrow> blk \<Rightarrow> env \<Rightarrow> env option" where
  "update_block c b g = do {
     cassert (BLOCK_SIZE c \<noteq> 0);
     let pos = physical_address b div BLOCK_SIZE c;
     cassert (pos < length (active_cost g));
     Some (g\<lparr>active_cost := (active_cost g)[pos := (physical_address b, pages_invalid b)]\<rparr>)
   }"

definition Block_read :: "config \<Rightarrow> event \<Rightarrow> blk \<Rightarrow> env \<Rightarrow> blk outcome" where
  "Block_read c e b g = do {
     p \<leftarrow> aget (bdata b) (page (ev_address e));
     (s, e1, p1, g1) \<leftarrow> Page_read c e p g;
     Some (s, e1, b\<lparr>bdata := (bdata b)[page (ev_address e) := p1]\<rparr>, g1)
   }"

definition Block_write :: "config \<Rightarrow> event \<Rightarrow> blk \<Rightarrow> env \<Rightarrow> blk outcome" where
  "Block_write c e b g = do {
     p \<leftarrow> aget (bdata b) (page (ev_address e));
     (s, e1, p1, g1) \<leftarrow> Page_write c e p g;
     let b1 = b\<lparr>bdata := (bdata b)[page (ev_address e) := p1]\<rparr>;
     if noop e1 then Some (s, e1, b1, g1)
     else do {
       st \<leftarrow> get_start_time e1;
       let b2 = b1\<lparr>pages_valid := inc32 (pages_valid b1), bstate := ACTIVE, modification_time := st\<rparr>;
       g2 \<leftarrow> update_block c b2 g1;
       Some (s, e1, b2, g2)
     }
   }"

definition invalidated_state :: "blk \<Rightarrow> block_state" where
  "invalidated_state b =
     (if bsize b \<le> pages_invalid b then INACTIVE
      else if 0 < pages_valid b \<or> 0 < pages_invalid b then ACTIVE else FREE)"

definition invalidate_page :: "config \<Rightarrow> uint \<Rightarrow> blk \<Rightarrow> env \<Rightarrow> (blk \<times> env) option" where
  "invalidate_page c i b g = do {
     cassert (i < bsize b);
     p \<leftarrow> aget (bdata b) i;
     if pg_state p = INVALID then Some (b, g)
     else do {
       let b1 = b\<lparr>bdata := (bdata b)[i := p\<lparr>pg_state := INVALID\<rparr>], pages_invalid := inc32 (pages_invalid b)\<rparr>;
       g1 \<leftarrow> update_block c b1 g;
       Some (b1\<lparr>bstate := invalidated_state b1\<rparr>, g1)
     }
   }"

definition Block_replace :: "config \<Rightarrow> event \<Rightarrow> blk \<Rightarrow> env \<Rightarrow> blk outcome" where
  "Block_replace c e b g = do {
     (b1, g1) \<leftarrow> invalidate_page c (page (replace_address e)) b g;
     Some (SUCCESS, e, b1, g1)
   }"

definition Block_erase :: "config \<Rightarrow> event \<Rightarrow> blk \<Rightarrow> env \<Rightarrow> blk outcome" where
  "Block_erase c e b g = do {
     cassert (0 \<le> erase_delay b);
     if noop e then Some (SUCCESS, e, b, g)
     else if erases_remaining b < 1 then Some (FAILURE, e, b, g)
     else do {
       let e1 = incr_time_taken (erase_delay b) e;
       st \<leftarrow> get_start_time e1;
       tt \<leftarrow> get_time_taken e1;
       let b1 = b\<lparr>bdata := map (\<lambda>p. p\<lparr>pg_state := EMPTY\<rparr>) (bdata b), last_erase_time := st + tt,
                  erases_remaining := dec64 (erases_remaining b), pages_valid := 0, pages_invalid := 0,
                  bstate := FREE\<rparr>;
       g1 \<leftarrow> update_block c b1 g;
       Some (SUCCESS, e1, b1, g1)
     }
   }"

definition get_page_state :: "blk \<Rightarrow> uint \<Rightarrow> page_state option" where
  "get_page_state b i = do { cassert (i < bsize b); p \<leftarrow> aget (bdata b) i; Some (pg_state p) }"

definition Block_get_state_at :: "blk \<Rightarrow> address \<Rightarrow> page_state option" where
  "Block_get_state_at b a = do {
     cassert (page a < bsize b \<and> BLOCK \<le> valid a);
     p \<leftarrow> aget (bdata b) (page a);
     Some (pg_state p)
   }"

fun first_empty :: "page list \<Rightarrow> nat \<Rightarrow> nat option" where
  "first_empty [] i = None"
| "first_empty (p # ps) i = (if pg_state p = EMPTY then Some i else first_empty ps (Suc i))"

definition Block_get_next_page :: "config \<Rightarrow> blk \<Rightarrow> address \<Rightarrow> (status \<times> address) option" where
  "Block_get_next_page c b a = (case first_empty (bdata b) 0 of
       None \<Rightarrow> Some (FAILURE, a)
     | Some i \<Rightarrow> do {
         cassert (BLOCK_SIZE c \<noteq> 0);
         a1 \<leftarrow> set_linear_address_valid c (i + physical_address b - physical_address b mod BLOCK_SIZE c) PAGE a;
         Some (SUCCESS, a1)
       })"

definition Block_exec :: "config \<Rightarrow> unit_op \<Rightarrow> event \<Rightarrow> blk \<Rightarrow> env \<Rightarrow> blk outcome" where
  "Block_exec c a e b g = (case a of
       URead \<Rightarrow> Block_read c e b g | UWrite \<Rightarrow> Block_write c e b g | UErase \<Rightarrow> Block_erase c e b g
     | UReplace \<Rightarrow> Block_replace c e b g | UMerge \<Rightarrow> None)"

lemmas block_defs [unit_defs] =
  Block_read_def Block_write_def Block_erase_def Block_replace_def invalidate_page_def
  Page_read_def Page_write_def store_payload_def update_block_def Let_def

section \<open>The block invariant\<close>

definition pages_in :: "page_state \<Rightarrow> blk \<Rightarrow> nat" where
  "pages_in st b = count_if (\<lambda>p. pg_state p = st) (bdata b)"

definition state_of_pages :: "blk \<Rightarrow> block_state" where
  "state_of_pages b =
     (if pages_in EMPTY b = bsize b then FREE
      else if pages_in INVALID b = bsize b then INACTIVE else ACTIVE)"

definition block_ok :: "config \<Rightarrow> blk \<Rightarrow> bool" where
  "block_ok c b \<longleftrightarrow> length (bdata b) = bsize b \<and> 0 < bsize b \<and> bsize b < 2 ^ 32
     \<and> pages_invalid b = pages_in INVALID b
     \<and> pages_in VALID b \<le> pages_valid b \<and> pages_valid b \<le> pages_in VALID b + pages_in INVALID b
     \<and> bstate b = state_of_pages b
     \<and> erases_remaining b \<le> BLOCK_ERASES c \<and> erases_remaining b < 2 ^ 64"

lemma pages_in_frame [simp]:
  "pages_in st (b\<lparr>pages_valid := n\<rparr>) = pages_in st b" "pages_in st (b\<lparr>pages_invalid := n\<rparr>) = pages_in st b"
  "pages_in st (b\<lparr>bstate := x\<rparr>) = pages_in st b" "pages_in st (b\<lparr>modification_time := t\<rparr>) = pages_in st b"
  "pages_in st (b\<lparr>last_erase_time := t\<rparr>) = pages_in st b" "pages_in st (b\<lparr>erases_remaining := n\<rparr>) = pages_in st b"
  "pages_in st (b\<lparr>btype := y\<rparr>) = pages_in st b"
  by (simp_all add: pages_in_def)

lemma pages_in_bdata: "pages_in st (b\<lparr>bdata := ps\<rparr>) = count_if (\<lambda>p. pg_state p = st) ps"
  by (simp add: pages_in_def)

lemma pages_partition: "pages_in EMPTY b + pages_in VALID b + pages_in INVALID b = length (bdata b)"
proof -
  have "count_if (\<lambda>p. pg_state p = EMPTY) ps + count_if (\<lambda>p. pg_state p = VALID) ps
      + count_if (\<lambda>p. pg_state p = INVALID) ps = length ps" for ps
    by (induction ps) (auto, (metis page_state.exhaust)+)
  then show ?thesis by (simp add: pages_in_def)
qed

lemma pages_in_update:
  assumes "i < length (bdata b)"
  shows "pages_in st (b\<lparr>bdata := (bdata b)[i := p]\<rparr>) + of_bool (pg_state (bdata b ! i) = st)
    = pages_in st b + of_bool (pg_state p = st)"
  using count_if_update [OF assms, of "\<lambda>p. pg_state p = st" p] by (simp add: pages_in_def)

lemma block_ok_new:
  "0 < sz \<Longrightarrow> sz < 2 ^ 32 \<Longrightarrow> er \<le> BLOCK_ERASES c \<Longrightarrow> er < 2 ^ 64 \<Longrightarrow> block_ok c (Block_new c sz er dl pa)"
  by (simp add: block_ok_def Block_new_def pages_in_def state_of_pages_def count_if_def Page_new_def)

lemma update_block_Some:
  "update_block c b g = Some g' \<longleftrightarrow> BLOCK_SIZE c \<noteq> 0 \<and> physical_address b div BLOCK_SIZE c < length (active_cost g) \<and>
   g' = g\<lparr>active_cost := (active_cost g)[physical_address b div BLOCK_SIZE c := (physical_address b, pages_invalid b)]\<rparr>"
  by (auto simp: update_block_def Let_def)

lemma store_payload_cost: "store_payload c e g = Some g' \<Longrightarrow> active_cost g' = active_cost g"
  by (auto simp: store_payload_def bind_eq_Some_conv Let_def split: option.splits if_splits)

lemma Page_read_frame: "Page_read c e p g = Some (s, e', p', g') \<Longrightarrow>
   p' = p \<and> s = SUCCESS \<and> progress e e' \<and> active_cost g' = active_cost g"
  by (auto simp: Page_read_def Let_def split: if_splits)

lemma Page_write_frame: "Page_write c e p g = Some (s, e', p', g') \<Longrightarrow>
   s = SUCCESS \<and> progress e e' \<and> active_cost g' = active_cost g \<and> noop e' = noop e \<and>
   (if noop e then p' = p else pg_state p = EMPTY \<and> p' = p\<lparr>pg_state := VALID\<rparr>)"
  by (auto simp: Page_write_def Let_def bind_eq_Some_conv dest: store_payload_cost split: if_splits)

subsection \<open>The operations keep it\<close>

lemma Block_read_same:
  assumes "Block_read c e b g = Some (s, e', b', g')"
  shows "b' = b \<and> progress e e' \<and> active_cost g' = active_cost g"
proof -
  from assms obtain p1 where pr: "Page_read c e (bdata b ! page (ev_address e)) g = Some (s, e', p1, g')"
    and b': "b' = b\<lparr>bdata := (bdata b)[page (ev_address e) := p1]\<rparr>"
    unfolding Block_read_def by (auto simp: bind_eq_Some_conv)
  from Page_read_frame [OF pr] b' show ?thesis by simp
qed

lemma Block_write_noop:
  assumes "Block_write c e b g = Some (s, e', b', g')" "noop e"
  shows "b' = b"
proof -
  from assms(1) obtain p1 g1 where pw: "Page_write c e (bdata b ! page (ev_address e)) g = Some (s, e', p1, g1)"
    and b': "noop e' \<longrightarrow> b' = b\<lparr>bdata := (bdata b)[page (ev_address e) := p1]\<rparr>"
    unfolding Block_write_def by (auto simp: bind_eq_Some_conv Let_def split: if_splits)
  from Page_write_frame [OF pw] b' assms(2) show ?thesis by simp
qed

lemma Block_write_step:
  assumes "Block_write c e b g = Some (s, e', b', g')" "\<not> noop e"
  obtains g1 where "page (ev_address e) < length (bdata b)"
    and "Page_write c e (bdata b ! page (ev_address e)) g =
      Some (s, e', (bdata b ! page (ev_address e))\<lparr>pg_state := VALID\<rparr>, g1)"
    and "b' = b\<lparr>bdata := (bdata b)[page (ev_address e) := (bdata b ! page (ev_address e))\<lparr>pg_state := VALID\<rparr>],
       pages_valid := inc32 (pages_valid b), bstate := ACTIVE, modification_time := start_time e\<rparr>"
    and "update_block c b' g1 = Some g'"
proof -
  from assms(1) obtain p1 g1 where i: "page (ev_address e) < length (bdata b)"
    and pw: "Page_write c e (bdata b ! page (ev_address e)) g = Some (s, e', p1, g1)"
    unfolding Block_write_def by (auto simp: bind_eq_Some_conv Let_def split: if_splits)
  note f = Page_write_frame [OF pw]
  from f have "progress e e'" by simp
  then have "start_time e' = start_time e" by (simp add: progress_fields)
  with i pw f assms show thesis
    by (intro that [of g1])
       (auto simp: Block_write_def Let_def bind_eq_Some_conv get_start_time_def split: if_splits)
qed

lemma Block_write_done:
  assumes "Block_write c e b g = Some (s, e', b', g')" "\<not> noop e"
  shows "page (ev_address e) < length (bdata b)" "pg_state (bdata b ! page (ev_address e)) = EMPTY" "s = SUCCESS"
    "b' = b\<lparr>bdata := (bdata b)[page (ev_address e) := (bdata b ! page (ev_address e))\<lparr>pg_state := VALID\<rparr>],
       pages_valid := inc32 (pages_valid b), bstate := ACTIVE, modification_time := start_time e\<rparr>"
proof -
  from Block_write_step [OF assms] obtain g1 where st: "page (ev_address e) < length (bdata b)"
    "Page_write c e (bdata b ! page (ev_address e)) g =
      Some (s, e', (bdata b ! page (ev_address e))\<lparr>pg_state := VALID\<rparr>, g1)"
    "b' = b\<lparr>bdata := (bdata b)[page (ev_address e) := (bdata b ! page (ev_address e))\<lparr>pg_state := VALID\<rparr>],
       pages_valid := inc32 (pages_valid b), bstate := ACTIVE, modification_time := start_time e\<rparr>"
    by metis
  show "page (ev_address e) < length (bdata b)" by (rule st)
  show "pg_state (bdata b ! page (ev_address e)) = EMPTY" "s = SUCCESS"
    using Page_write_frame [OF st(2)] assms(2) by simp_all
  show "b' = b\<lparr>bdata := (bdata b)[page (ev_address e) := (bdata b ! page (ev_address e))\<lparr>pg_state := VALID\<rparr>],
       pages_valid := inc32 (pages_valid b), bstate := ACTIVE, modification_time := start_time e\<rparr>" by (rule st)
qed

lemma Block_write_env:
  assumes "Block_write c e b g = Some (s, e', b', g')"
  shows "progress e e' \<and> length (active_cost g') = length (active_cost g) \<and> s = SUCCESS"
proof (cases "noop e")
  case True
  from assms obtain p p1 g1 where pw: "Page_write c e p g = Some (s, e', p1, g1)"
    and g': "noop e' \<longrightarrow> g' = g1"
    unfolding Block_write_def by (auto simp: bind_eq_Some_conv Let_def split: if_splits)
  from Page_write_frame [OF pw] g' True show ?thesis by simp
next
  case False
  from Block_write_step [OF assms False] obtain g1 p1 where
    pw: "Page_write c e (bdata b ! page (ev_address e)) g = Some (s, e', p1, g1)"
    and up: "update_block c b' g1 = Some g'" by metis
  from Page_write_frame [OF pw] up show ?thesis by (auto simp: update_block_Some)
qed

lemma Block_write_ok:
  assumes w: "Block_write c e b g = Some (s, e', b', g')" and ok: "block_ok c b"
  shows "block_ok c b'"
proof (cases "noop e")
  case True
  then show ?thesis using Block_write_noop [OF w] ok by simp
next
  case False
  note d = Block_write_done [OF w False]
  let ?i = "page (ev_address e)"
  have u: "pages_in st b' + of_bool (EMPTY = st) = pages_in st b + of_bool (VALID = st)" for st
    using pages_in_update [OF d(1), of st "(bdata b ! ?i)\<lparr>pg_state := VALID\<rparr>"] d(2) by (simp add: d(4))
  note u3 = u [of EMPTY] u [of VALID] u [of INVALID]
  have "pages_in EMPTY b' + pages_in VALID b' + pages_in INVALID b' = bsize b"
    using pages_partition [of b'] ok by (simp add: d(4) block_ok_def)
  moreover have "inc32 (pages_valid b) = Suc (pages_valid b)"
    using ok u3 calculation by (intro inc32_small) (simp add: block_ok_def)
  ultimately show ?thesis
    using ok u3 by (auto simp: block_ok_def state_of_pages_def d(4))
qed

lemma invalidate_page_done:
  assumes "invalidate_page c i b g = Some (b', g')"
  shows "i < length (bdata b)"
    and "if pg_state (bdata b ! i) = INVALID then b' = b \<and> g' = g
     else b' = (let b1 = b\<lparr>bdata := (bdata b)[i := (bdata b ! i)\<lparr>pg_state := INVALID\<rparr>],
                   pages_invalid := inc32 (pages_invalid b)\<rparr> in b1\<lparr>bstate := invalidated_state b1\<rparr>)"
  using assms
  by (auto simp: invalidate_page_def bind_eq_Some_conv Let_def update_block_Some split: if_splits)

lemma invalidate_page_cost:
  "invalidate_page c i b g = Some (b', g') \<Longrightarrow> length (active_cost g') = length (active_cost g)"
  by (auto simp: invalidate_page_def bind_eq_Some_conv Let_def update_block_Some split: if_splits)

lemma invalidate_page_ok:
  assumes w: "invalidate_page c i b g = Some (b', g')" and ok: "block_ok c b"
  shows "block_ok c b'"
proof (cases "pg_state (bdata b ! i) = INVALID")
  case True
  then show ?thesis using invalidate_page_done(2) [OF w] ok by simp
next
  case False
  note i = invalidate_page_done(1) [OF w]
  from invalidate_page_done(2) [OF w] False
  have b': "b' = b\<lparr>bdata := (bdata b)[i := (bdata b ! i)\<lparr>pg_state := INVALID\<rparr>],
      pages_invalid := inc32 (pages_invalid b), bstate := bstate b'\<rparr>"
    and st: "bstate b' = invalidated_state b'"
    by (simp_all add: Let_def invalidated_state_def)
  have u: "pages_in st b' + of_bool (pg_state (bdata b ! i) = st) = pages_in st b + of_bool (INVALID = st)" for st
    using pages_in_update [OF i, of st "(bdata b ! i)\<lparr>pg_state := INVALID\<rparr>"] by (subst b') simp
  note u3 = u [of EMPTY] u [of VALID] u [of INVALID]
  have fields: "bsize b' = bsize b" "pages_valid b' = pages_valid b" "erases_remaining b' = erases_remaining b"
    "length (bdata b') = length (bdata b)" "pages_invalid b' = inc32 (pages_invalid b)"
    by (subst b', simp)+
  have sum: "pages_in EMPTY b' + pages_in VALID b' + pages_in INVALID b' = bsize b"
    using pages_partition [of b'] ok by (simp add: fields block_ok_def)
  have "inc32 (pages_invalid b) = Suc (pages_invalid b)"
    using ok u3 sum False by (intro inc32_small) (auto simp: block_ok_def)
  moreover have "pages_in VALID b' \<le> pages_in VALID b" "pages_in VALID b \<le> Suc (pages_in VALID b')"
    using u3(2) by (cases "pg_state (bdata b ! i) = VALID"; simp)+
  ultimately show ?thesis
    using ok u3 sum False st
    by (auto simp: block_ok_def state_of_pages_def invalidated_state_def fields)
qed

lemma Block_erase_cases:
  assumes "Block_erase c e b g = Some (s, e', b', g')"
  obtains (skip) "noop e" "s = SUCCESS" "e' = e" "b' = b" "g' = g"
  | (worn) "\<not> noop e" "erases_remaining b = 0" "s = FAILURE" "e' = e" "b' = b" "g' = g"
  | (erased) "\<not> noop e" "0 < erases_remaining b" "s = SUCCESS" "e' = incr_time_taken (erase_delay b) e"
      "b' = b\<lparr>bdata := map (\<lambda>p. p\<lparr>pg_state := EMPTY\<rparr>) (bdata b),
         last_erase_time := start_time e + time_taken e',
         erases_remaining := dec64 (erases_remaining b), pages_valid := 0, pages_invalid := 0, bstate := FREE\<rparr>"
      "update_block c b' g = Some g'"
  using assms
  by (auto simp: Block_erase_def bind_eq_Some_conv Let_def get_start_time_def get_time_taken_def
      split: if_splits)

lemma pages_in_erased:
  "pages_in st (b\<lparr>bdata := map (\<lambda>p. p\<lparr>pg_state := EMPTY\<rparr>) (bdata b)\<rparr>) = (if st = EMPTY then length (bdata b) else 0)"
proof -
  have "count_if (\<lambda>p. pg_state p = st) (map (\<lambda>p. p\<lparr>pg_state := EMPTY\<rparr>) ps) = (if st = EMPTY then length ps else 0)" for ps
    by (induction ps) auto
  from this [of "bdata b"] show ?thesis by (simp only: pages_in_bdata)
qed

lemma Block_erase_ok:
  assumes w: "Block_erase c e b g = Some (s, e', b', g')" and ok: "block_ok c b"
  shows "block_ok c b'"
  using w
proof (cases rule: Block_erase_cases)
  case erased
  have p: "pages_in st b' = (if st = EMPTY then bsize b else 0)" for st
    using pages_in_erased [of st b] ok by (simp add: erased(5) block_ok_def)
  have "dec64 (erases_remaining b) \<le> erases_remaining b"
    using erased(2) ok by (simp add: block_ok_def)
  then show ?thesis
    using ok p by (simp add: erased(5) block_ok_def state_of_pages_def)
qed (use ok in simp_all)

lemma Block_erase_env:
  assumes "Block_erase c e b g = Some (s, e', b', g')"
  shows "progress e e' \<and> length (active_cost g') = length (active_cost g)"
  using assms by (cases rule: Block_erase_cases) (auto simp: update_block_Some)

lemma Block_replace_Some:
  "Block_replace c e b g = Some (s, e', b', g') \<longleftrightarrow>
   s = SUCCESS \<and> e' = e \<and> invalidate_page c (page (replace_address e)) b g = Some (b', g')"
  by (auto simp: Block_replace_def bind_eq_Some_conv)

lemma Block_exec_keeps:
  "Block_exec c a e b g = Some (s, e', b', g') \<Longrightarrow> block_ok c b \<Longrightarrow> block_ok c b'"
  using Block_read_same Block_write_ok Block_erase_ok invalidate_page_ok
  by (cases a) (fastforce simp: Block_exec_def Block_replace_Some)+

lemma Block_exec_env:
  "Block_exec c a e b g = Some (s, e', b', g') \<Longrightarrow>
   progress e e' \<and> length (active_cost g') = length (active_cost g)"
  using Block_read_same Block_write_env Block_erase_env invalidate_page_cost
  by (cases a) (fastforce simp: Block_exec_def Block_replace_Some)+

interpretation block_unit: storage_unit Block_exec block_ok
  by unfold_locales (simp_all add: Block_exec_keeps Block_exec_env)

section \<open>Behaviour\<close>

text \<open>A write to an empty page of a block whose cost slot exists succeeds.\<close>

lemma Page_write_total:
  assumes "0 \<le> pg_write_delay p" "pg_state p = EMPTY \<or> noop e"
    "ev_payload e = None \<or> noop e \<or> \<not> PAGE_ENABLE_DATA c \<or>
      (real_address (ev_address e) < total_pages c \<and> payload_bytes c g (the (ev_payload e)) \<noteq> None)"
  shows "\<exists>e' p' g'. Page_write c e p g = Some (SUCCESS, e', p', g')"
  using assms
  by (auto simp: Page_write_def store_payload_def Let_def get_linear_address_def split: option.splits)

lemma Block_write_not_empty:
  "page (ev_address e) < length (bdata b) \<Longrightarrow> pg_state (bdata b ! page (ev_address e)) \<noteq> EMPTY \<Longrightarrow>
   \<not> noop e \<Longrightarrow> Block_write c e b g = None"
  using Block_write_done(2) [of c e b g] by (cases "Block_write c e b g") auto

lemma Block_write_no_table:
  assumes "active_cost g = []" "\<not> noop e"
  shows "Block_write c e b g = None"
proof (rule ccontr)
  assume "Block_write c e b g \<noteq> None"
  then obtain s e' b' g' where w: "Block_write c e b g = Some (s, e', b', g')" by auto
  from Block_write_step [OF w assms(2)] obtain p1 g1 where
    pw: "Page_write c e (bdata b ! page (ev_address e)) g = Some (s, e', p1, g1)"
    and up: "update_block c b' g1 = Some g'" by metis
  from Page_write_frame [OF pw] up assms(1) show False by (simp add: update_block_Some)
qed

lemma first_empty_Some:
  "first_empty ps i = Some k \<Longrightarrow> i \<le> k \<and> k - i < length ps \<and> pg_state (ps ! (k - i)) = EMPTY
     \<and> (\<forall>j<k - i. pg_state (ps ! j) \<noteq> EMPTY)"
proof (induction ps arbitrary: i)
  case (Cons p ps)
  show ?case
  proof (cases "pg_state p = EMPTY")
    case True
    then show ?thesis using Cons.prems by simp
  next
    case False
    then have r: "first_empty ps (Suc i) = Some k" using Cons.prems by simp
    note IH = Cons.IH [OF r]
    have k: "k - i = Suc (k - Suc i)" using IH by linarith
    show ?thesis using IH False by (auto simp: k less_Suc_eq_0_disj)
  qed
qed simp

lemma first_empty_None: "first_empty ps i = None \<longleftrightarrow> list_all (\<lambda>p. pg_state p \<noteq> EMPTY) ps"
  by (induction ps arbitrary: i) auto

end
