(* ===== verification/Block_Manager.thy ===== *)
theory Block_Manager
  imports Ssd_Block
begin

text \<open>
  \<open>ssd_bm.cpp\<close>: allocation of blocks for the flash translation layers. A block pointer is
  the physical address of its block, \<open>None\<close> the null pointer. The manager calls the
  controller (\<open>issue\<close>, \<open>get_block_pointer\<close>) and writes the type of a block; those
  calls are the fields of \<open>controller_if\<close>, over a world \<open>'w\<close> of their own. The stubs of
  \<open>flashsim_stubs.cpp\<close> are one instance (\<open>stub_controller\<close>).
\<close>

section \<open>State\<close>

record bm =
  data_active :: ulong
  log_active :: ulong
  max_log_blocks :: ulong
  max_blocks :: ulong
  max_map_pages :: ulong
  directoryCurrentPage :: ulong
  simpleCurrentFree :: ulong
  num_insert_events :: uint
  current_writing_block :: uint
  out_of_blocks :: bool
  free_list :: "nat option list"
  invalid_list :: "nat option list"

record 'w controller_if =
  ci_issue :: "event \<Rightarrow> 'w \<Rightarrow> (status \<times> event \<times> 'w) option"
  ci_get_block_pointer :: "address \<Rightarrow> 'w \<Rightarrow> nat option"
  ci_set_block_type :: "nat \<Rightarrow> block_type \<Rightarrow> 'w \<Rightarrow> 'w"

record 'w bm_state =
  gs_bm :: bm
  gs_stats :: stats
  gs_world :: 'w

definition IMPL_FAST :: uint where "IMPL_FAST = 2"
definition IMPL_DFTL :: uint where "IMPL_DFTL = 3"
definition IMPL_BIMODAL :: uint where "IMPL_BIMODAL = 4"

definition Block_manager_new :: "config \<Rightarrow> bm" where
  "Block_manager_new c = \<lparr>data_active = 0, log_active = 0,
     max_log_blocks = (if FTL_IMPLEMENTATION c = IMPL_FAST then FAST_LOG_BLOCK_LIMIT c
                       else NUMBER_OF_ADDRESSABLE_BLOCKS c),
     max_blocks = NUMBER_OF_ADDRESSABLE_BLOCKS c,
     max_map_pages = mul32 (MAP_DIRECTORY_SIZE c) (BLOCK_SIZE c),
     directoryCurrentPage = 0, simpleCurrentFree = 0, num_insert_events = 0,
     current_writing_block = 2 ^ 32 - 2, out_of_blocks = False, free_list = [], invalid_list = []\<rparr>"

definition Block_manager_instance_initialize :: "config \<Rightarrow> bm" where
  "Block_manager_instance_initialize c = Block_manager_new c"

text \<open>\<open>cost_insert\<close> ignores its argument: the cost table of a built device stays empty.\<close>

definition cost_insert :: "blk \<Rightarrow> env \<Rightarrow> env" where
  "cost_insert b g = g"

section \<open>Reclaiming invalid blocks\<close>

definition issue_erase :: "'w controller_if \<Rightarrow> config \<Rightarrow> ulong \<Rightarrow> ulong \<Rightarrow> time \<Rightarrow> address \<Rightarrow> 'w \<Rightarrow>
    (time \<times> 'w) option" where
  "issue_erase ci c junk la st a w = do {
     ee \<leftarrow> Event_new junk ERASE la 1 st;
     (r, ee1, w1) \<leftarrow> ci_issue ci (ee\<lparr>ev_address := a\<rparr>) w;
     cassert (r \<noteq> FAILURE);
     t \<leftarrow> get_time_taken ee1;
     Some (t, w1)
   }"

definition count_erase :: "stats \<Rightarrow> stats" where
  "count_erase st = st\<lparr>numFTLErase := numFTLErase st + 1\<rparr>"

fun reclaim_invalid :: "'w controller_if \<Rightarrow> config \<Rightarrow> ulong \<Rightarrow> nat \<Rightarrow> event \<Rightarrow> 'w bm_state \<Rightarrow>
    (event \<times> 'w bm_state) option" where
  "reclaim_invalid ci c junk 0 e s = Some (e, s)"
| "reclaim_invalid ci c junk (Suc n) e s =
     (if invalid_list (gs_bm s) = [] then Some (e, s)
      else do {
        pa \<leftarrow> last (invalid_list (gs_bm s));
        a \<leftarrow> Address_linear c (pa mod 2 ^ 32) BLOCK;
        st \<leftarrow> get_start_time e;
        (t, w) \<leftarrow> issue_erase ci c junk (logical_address e) st a (gs_world s);
        reclaim_invalid ci c junk n (incr_time_taken t e)
          (s\<lparr>gs_world := w, gs_stats := count_erase (gs_stats s),
             gs_bm := (gs_bm s)\<lparr>free_list := free_list (gs_bm s) @ [Some pa],
                                 invalid_list := butlast (invalid_list (gs_bm s))\<rparr>\<rparr>)
      })"

text \<open>
  The test \<open>ratio < 0.90\<close> compares the \<open>float\<close> quotient of the used and the total number of blocks with a
  \<open>double\<close>. The two \<open>float\<close> numbers next to 0.90 are \<open>15099494 / 2 ^ 24\<close> and \<open>15099495 / 2 ^ 24\<close>, so the
  quotient is not below 0.90 exactly if it rounds to the second or above, that is if it exceeds the number half
  way between them, \<open>30198989 / 2 ^ 25\<close> (a tie goes to the first, whose last digit is even). In particular a ratio of exactly 9/10 does
  not collect. The two counts themselves are exact as \<open>float\<close> below \<open>2 ^ 24\<close> blocks; division by zero gives an infinity with
  the sign of the dividend, or no number, of which \<open><\<close> is false.
\<close>

definition gc_needed :: "config \<Rightarrow> bm \<Rightarrow> bool" where
  "gc_needed c b \<longleftrightarrow>
     (let used = int (length (invalid_list b)) + int (log_active b) + int (data_active b) - int (length (free_list b));
          total = int (NUMBER_OF_ADDRESSABLE_BLOCKS c)
      in if total = 0 then 0 \<le> used else 30198989 * total < 2 ^ 25 * used)"

text \<open>
  After the invalid list the source walks the cost index from its end; with the table that
  \<open>cost_insert\<close> leaves empty, stepping back from \<open>end()\<close> is undefined.
\<close>

definition insert_events :: "'w controller_if \<Rightarrow> config \<Rightarrow> ulong \<Rightarrow> event \<Rightarrow> 'w bm_state \<Rightarrow>
    (event \<times> 'w bm_state) option" where
  "insert_events ci c junk e s =
     (if \<not> gc_needed c (gs_bm s) then Some (e, s)
      else do {
        (e1, s1) \<leftarrow> reclaim_invalid ci c junk 5 e s;
        let s2 = s1\<lparr>gs_bm := (gs_bm s1)\<lparr>num_insert_events := inc32 (num_insert_events (gs_bm s1))\<rparr>\<rparr>;
        if FTL_IMPLEMENTATION c = IMPL_DFTL \<or> FTL_IMPLEMENTATION c = IMPL_BIMODAL then None
        else Some (e1, s2)
      })"

text \<open>Below \<open>2 ^ 24\<close> blocks this is the test for a ratio above 9/10.\<close>

lemma gc_needed_iff:
  assumes "0 < NUMBER_OF_ADDRESSABLE_BLOCKS c" "NUMBER_OF_ADDRESSABLE_BLOCKS c < 2 ^ 24"
  shows "gc_needed c b \<longleftrightarrow> 9 * int (NUMBER_OF_ADDRESSABLE_BLOCKS c) <
    10 * (int (length (invalid_list b)) + int (log_active b) + int (data_active b) - int (length (free_list b)))"
  using assms unfolding gc_needed_def Let_def by auto

section \<open>Allocation\<close>

definition get_page_block :: "'w controller_if \<Rightarrow> config \<Rightarrow> ulong \<Rightarrow> event \<Rightarrow> 'w bm_state \<Rightarrow>
    (address \<times> event \<times> 'w bm_state) option" where
  "get_page_block ci c junk e s =
     (let b = gs_bm s in
      if simpleCurrentFree b < max_blocks b * BLOCK_SIZE c then do {
        a \<leftarrow> set_linear_address_valid c (simpleCurrentFree b) BLOCK (Address_default junk);
        Some (a, e, s\<lparr>gs_bm := b\<lparr>current_writing_block := simpleCurrentFree b mod 2 ^ 32,
                                  simpleCurrentFree := add64 (simpleCurrentFree b) (BLOCK_SIZE c)\<rparr>\<rparr>)
      } else do {
        (e1, s1) \<leftarrow> (if length (free_list b) \<le> 1 \<and> \<not> out_of_blocks b
                     then insert_events ci c junk e (s\<lparr>gs_bm := b\<lparr>out_of_blocks := True\<rparr>\<rparr>)
                     else Some (e, s));
        let b1 = gs_bm s1;
        cassert (free_list b1 \<noteq> []);
        pa \<leftarrow> hd (free_list b1);
        a \<leftarrow> set_linear_address_valid c pa BLOCK (Address_default junk);
        Some (a, e1, s1\<lparr>gs_bm := b1\<lparr>current_writing_block := pa mod 2 ^ 32,
                                     free_list := tl (free_list b1), out_of_blocks := False\<rparr>\<rparr>)
      })"

definition get_free_block :: "'w controller_if \<Rightarrow> config \<Rightarrow> ulong \<Rightarrow> block_type \<Rightarrow> event \<Rightarrow> 'w bm_state \<Rightarrow>
    (address \<times> event \<times> 'w bm_state) option" where
  "get_free_block ci c junk ty e s = do {
     (a, e1, s1) \<leftarrow> get_page_block ci c junk e s;
     let b = gs_bm s1;
     (case ty of
        DATA \<Rightarrow> do {
          p \<leftarrow> ci_get_block_pointer ci a (gs_world s1);
          Some (a, e1, s1\<lparr>gs_world := ci_set_block_type ci p DATA (gs_world s1),
                          gs_bm := b\<lparr>data_active := inc64 (data_active b)\<rparr>\<rparr>)
        }
      | LOG \<Rightarrow> do {
          cassert (\<not> max_log_blocks b < log_active b);
          p \<leftarrow> ci_get_block_pointer ci a (gs_world s1);
          Some (a, e1, s1\<lparr>gs_world := ci_set_block_type ci p LOG (gs_world s1),
                          gs_bm := b\<lparr>log_active := inc64 (log_active b)\<rparr>\<rparr>)
        }
      | LOG_SEQ \<Rightarrow> Some (a, e1, s1))
   }"

text \<open>\<open>get_free_block(Event &)\<close> asks for a data block.\<close>

definition get_free_data_block :: "'w controller_if \<Rightarrow> config \<Rightarrow> ulong \<Rightarrow> event \<Rightarrow> 'w bm_state \<Rightarrow>
    (address \<times> event \<times> 'w bm_state) option" where
  "get_free_data_block ci c junk e s = get_free_block ci c junk DATA e s"

definition promote_block :: "block_type \<Rightarrow> bm \<Rightarrow> bm" where
  "promote_block ty b = (case ty of
       DATA \<Rightarrow> b\<lparr>data_active := inc64 (data_active b), log_active := dec64 (log_active b)\<rparr>
     | LOG \<Rightarrow> b\<lparr>log_active := inc64 (log_active b), data_active := dec64 (data_active b)\<rparr>
     | LOG_SEQ \<Rightarrow> b)"

definition is_log_full :: "bm \<Rightarrow> bool" where
  "is_log_full b \<longleftrightarrow> log_active b = max_log_blocks b"

definition drop_active :: "block_type \<Rightarrow> bm \<Rightarrow> bm" where
  "drop_active ty b = (case ty of
       DATA \<Rightarrow> b\<lparr>data_active := dec64 (data_active b)\<rparr>
     | LOG \<Rightarrow> b\<lparr>log_active := dec64 (log_active b)\<rparr>
     | LOG_SEQ \<Rightarrow> b)"

definition bm_invalidate :: "'w controller_if \<Rightarrow> address \<Rightarrow> block_type \<Rightarrow> 'w bm_state \<Rightarrow> 'w bm_state" where
  "bm_invalidate ci a ty s = s\<lparr>gs_bm := drop_active ty
     ((gs_bm s)\<lparr>invalid_list := invalid_list (gs_bm s) @ [ci_get_block_pointer ci a (gs_world s)]\<rparr>)\<rparr>"

definition erase_and_invalidate :: "'w controller_if \<Rightarrow> config \<Rightarrow> ulong \<Rightarrow> event \<Rightarrow> address \<Rightarrow> block_type \<Rightarrow>
    'w bm_state \<Rightarrow> (event \<times> 'w bm_state) option" where
  "erase_and_invalidate ci c junk e a ty s = do {
     st \<leftarrow> get_start_time e;
     tt \<leftarrow> get_time_taken e;
     (t, w) \<leftarrow> issue_erase ci c junk (logical_address e) (st + tt) a (gs_world s);
     let b = (gs_bm s)\<lparr>free_list := free_list (gs_bm s) @ [ci_get_block_pointer ci a w]\<rparr>;
     Some (incr_time_taken t e,
           s\<lparr>gs_bm := drop_active ty b, gs_world := w, gs_stats := count_erase (gs_stats s)\<rparr>)
   }"

definition get_num_free_blocks :: "config \<Rightarrow> bm \<Rightarrow> nat" where
  "get_num_free_blocks c b =
     (if simpleCurrentFree b < max_blocks b * BLOCK_SIZE c
      then simpleCurrentFree b div BLOCK_SIZE c + length (free_list b)
      else length (free_list b))"

section \<open>The controller of this repository\<close>

definition stub_controller :: "'w controller_if" where
  "stub_controller = \<lparr>ci_issue = (\<lambda>e w. Some (SUCCESS, e, w)), ci_get_block_pointer = (\<lambda>a w. None),
     ci_set_block_type = (\<lambda>p t w. w)\<rparr>"

lemma stub_allocation_aborts:
  "ty \<noteq> LOG_SEQ \<Longrightarrow> get_free_block stub_controller c junk ty e s = None"
  by (cases ty) (auto simp: get_free_block_def stub_controller_def Let_def bind_eq_None_conv)

section \<open>Sequential allocation\<close>

definition fresh_blocks :: "config \<Rightarrow> bm \<Rightarrow> bool" where
  "fresh_blocks c b \<longleftrightarrow> simpleCurrentFree b < max_blocks b * BLOCK_SIZE c"

lemma get_page_block_fresh:
  assumes "fresh_blocks c (gs_bm s)" "geometry_ok c" "max_blocks (gs_bm s) * BLOCK_SIZE c + BLOCK_SIZE c < 2 ^ 64"
  shows "\<exists>a. get_page_block ci c junk e s = Some (a, e, s\<lparr>gs_bm := (gs_bm s)\<lparr>
      current_writing_block := simpleCurrentFree (gs_bm s) mod 2 ^ 32,
      simpleCurrentFree := simpleCurrentFree (gs_bm s) + BLOCK_SIZE c\<rparr>\<rparr>)
    \<and> real_address a = simpleCurrentFree (gs_bm s) \<and> valid a = BLOCK \<and> in_device c a
    \<and> set_linear_address c (real_address a) a = Some a"
proof -
  let ?n = "simpleCurrentFree (gs_bm s)"
  from assms(2) obtain a where a: "set_linear_address c ?n (Address_default junk) = Some a"
    by (simp add: set_linear_Some)
  note d = set_linear_in_device [OF assms(2) a]
  have l: "set_linear_address c (real_address a) (a\<lparr>valid := BLOCK\<rparr>) = Some (a\<lparr>valid := BLOCK\<rparr>)"
    using a by (auto simp: set_linear_Some [OF assms(2)])
  have "?n + BLOCK_SIZE c < 2 ^ 64" using assms(1,3) by (simp add: fresh_blocks_def)
  then show ?thesis
    using assms(1) a d l
    by (simp add: get_page_block_def fresh_blocks_def set_linear_address_valid_def Let_def in_device_def)
qed

fun allocate_n :: "'w controller_if \<Rightarrow> config \<Rightarrow> ulong \<Rightarrow> nat \<Rightarrow> event \<Rightarrow> 'w bm_state \<Rightarrow>
    (address list \<times> 'w bm_state) option" where
  "allocate_n ci c junk 0 e s = Some ([], s)"
| "allocate_n ci c junk (Suc n) e s = do {
     (a, e1, s1) \<leftarrow> get_page_block ci c junk e s;
     (as, s2) \<leftarrow> allocate_n ci c junk n e1 s1;
     Some (a # as, s2)
   }"

lemma allocate_fresh:
  assumes "geometry_ok c" "max_blocks (gs_bm s) * BLOCK_SIZE c + BLOCK_SIZE c < 2 ^ 64"
    "simpleCurrentFree (gs_bm s) + n * BLOCK_SIZE c \<le> max_blocks (gs_bm s) * BLOCK_SIZE c"
  shows "\<exists>as s'. allocate_n ci c junk n e s = Some (as, s') \<and>
    map real_address as = map (\<lambda>i. simpleCurrentFree (gs_bm s) + i * BLOCK_SIZE c) [0..<n] \<and>
    list_all (in_device c) as \<and> list_all (\<lambda>a. set_linear_address c (real_address a) a = Some a) as \<and>
    simpleCurrentFree (gs_bm s') = simpleCurrentFree (gs_bm s) + n * BLOCK_SIZE c"
  using assms
proof (induction n arbitrary: s)
  case (Suc n)
  have pos: "0 < BLOCK_SIZE c" using Suc.prems(1) by (simp add: geometry_ok_def)
  have "simpleCurrentFree (gs_bm s) < max_blocks (gs_bm s) * BLOCK_SIZE c"
    using Suc.prems(3) pos by simp
  then have fresh: "fresh_blocks c (gs_bm s)" by (simp add: fresh_blocks_def)
  from get_page_block_fresh [OF fresh Suc.prems(1,2), of ci junk e] obtain a s1 where
    step: "get_page_block ci c junk e s = Some (a, e, s1)"
    and a: "real_address a = simpleCurrentFree (gs_bm s)" "in_device c a" "set_linear_address c (real_address a) a = Some a"
    and s1: "simpleCurrentFree (gs_bm s1) = simpleCurrentFree (gs_bm s) + BLOCK_SIZE c"
      "max_blocks (gs_bm s1) = max_blocks (gs_bm s)"
    by fastforce
  from Suc.IH [OF Suc.prems(1), of s1] Suc.prems s1 obtain as s' where
    rec: "allocate_n ci c junk n e s1 = Some (as, s')"
      "map real_address as = map (\<lambda>i. simpleCurrentFree (gs_bm s1) + i * BLOCK_SIZE c) [0..<n]"
      "list_all (in_device c) as" "list_all (\<lambda>a. set_linear_address c (real_address a) a = Some a) as" "simpleCurrentFree (gs_bm s') = simpleCurrentFree (gs_bm s1) + n * BLOCK_SIZE c"
    by auto
  have shift: "map (\<lambda>i. k + i * m) [0..<Suc n] = k # map (\<lambda>i. k + m + i * m) [0..<n]" for k m :: nat
    by (simp add: map_upt_Suc algebra_simps del: upt_Suc)
  show ?case
    using step rec a s1 by (simp add: shift del: upt_Suc)
qed simp

end
