(* ===== verification/Ftl_Simple.thy ===== *)
theory Ftl_Simple
  imports Block_Manager
begin

text \<open>
  The two small flash translation layers, \<open>FTLs/page_ftl.cpp\<close> and \<open>FTLs/zns_ftl.cpp\<close>, with
  the empty \<open>Wear_leveler\<close> and \<open>Garbage_collector\<close> classes and the RAID front end
  \<open>ssd_raidssd.cpp\<close>. The controller's \<open>issue\<close> is the field of \<open>controller_if\<close>; its
  \<open>reset_zns_zone\<close>, which the repository declares and never defines, is an argument.
\<close>

section \<open>The page FTL\<close>

record page_ftl =
  numPagesActive :: ulong
  trim_map :: "bool list"

record 'w ftl_state =
  fs_ftl :: page_ftl
  fs_stats :: stats
  fs_world :: 'w

definition total_ftl_pages :: "config \<Rightarrow> uint" where
  "total_ftl_pages c = mul32 (NUMBER_OF_ADDRESSABLE_BLOCKS c) (BLOCK_SIZE c)"

text \<open>The constructor does not initialise the trim map: its content \<open>tm\<close> is arbitrary.\<close>

definition FtlImpl_Page_new :: "config \<Rightarrow> bool list \<Rightarrow> page_ftl option" where
  "FtlImpl_Page_new c tm = do {
     cassert (length tm = total_ftl_pages c);
     Some \<lparr>numPagesActive = 0, trim_map = tm\<rparr>
   }"

definition FtlImpl_Page_read :: "'w controller_if \<Rightarrow> config \<Rightarrow> event \<Rightarrow> 'w ftl_state \<Rightarrow>
    (status \<times> event \<times> 'w ftl_state) option" where
  "FtlImpl_Page_read ci c e s = do {
     a \<leftarrow> Address_linear c 0 PAGE;
     let st = (fs_stats s)\<lparr>numFTLRead := numFTLRead (fs_stats s) + 1\<rparr>;
     (r, e1, w) \<leftarrow> ci_issue ci (e\<lparr>ev_address := a, noop := True\<rparr>) (fs_world s);
     Some (r, e1, s\<lparr>fs_stats := st, fs_world := w\<rparr>)
   }"

text \<open>An erase issued by the FTL; a failed erase is only reported.\<close>

definition page_ftl_erase :: "'w controller_if \<Rightarrow> config \<Rightarrow> ulong \<Rightarrow> event \<Rightarrow> 'w ftl_state \<Rightarrow>
    (event \<times> 'w ftl_state) option" where
  "page_ftl_erase ci c junk e s = do {
     st \<leftarrow> get_start_time e;
     ee \<leftarrow> Event_new junk ERASE (logical_address e) 1 st;
     a \<leftarrow> Address_linear c 0 PAGE;
     (r, ee1, w) \<leftarrow> ci_issue ci (ee\<lparr>ev_address := a\<rparr>) (fs_world s);
     t \<leftarrow> get_time_taken ee1;
     Some (incr_time_taken t e, s\<lparr>fs_world := w, fs_stats := count_erase (fs_stats s)\<rparr>)
   }"

definition FtlImpl_Page_write :: "'w controller_if \<Rightarrow> config \<Rightarrow> ulong \<Rightarrow> event \<Rightarrow> 'w ftl_state \<Rightarrow>
    (status \<times> event \<times> 'w ftl_state) option" where
  "FtlImpl_Page_write ci c junk e s = do {
     a \<leftarrow> Address_linear c 1 PAGE;
     let e1 = e\<lparr>ev_address := a, noop := True\<rparr>;
     let s1 = s\<lparr>fs_stats := (fs_stats s)\<lparr>numFTLWrite := numFTLWrite (fs_stats s) + 1\<rparr>\<rparr>;
     (e2, s2) \<leftarrow> (if numPagesActive (fs_ftl s1) = total_ftl_pages c
        then page_ftl_erase ci c junk e1 (s1\<lparr>fs_ftl := (fs_ftl s1)\<lparr>numPagesActive :=
               sub64 (numPagesActive (fs_ftl s1)) (BLOCK_SIZE c)\<rparr>\<rparr>)
        else Some (e1, s1));
     let s3 = s2\<lparr>fs_ftl := (fs_ftl s2)\<lparr>numPagesActive := inc64 (numPagesActive (fs_ftl s2))\<rparr>\<rparr>;
     (r, e3, w) \<leftarrow> ci_issue ci e2 (fs_world s3);
     Some (r, e3, s3\<lparr>fs_world := w\<rparr>)
   }"

definition FtlImpl_Page_trim :: "'w controller_if \<Rightarrow> config \<Rightarrow> ulong \<Rightarrow> event \<Rightarrow> 'w ftl_state \<Rightarrow>
    (status \<times> event \<times> 'w ftl_state) option" where
  "FtlImpl_Page_trim ci c junk e s = do {
     let s1 = s\<lparr>fs_stats := (fs_stats s)\<lparr>numFTLTrim := numFTLTrim (fs_stats s) + 1\<rparr>\<rparr>;
     let dlpn = logical_address e mod 2 ^ 32;
     cassert (logical_address e < length (trim_map (fs_ftl s1)));
     cassert (BLOCK_SIZE c \<noteq> 0);
     let tm = (trim_map (fs_ftl s1))[logical_address e := True];
     let from = dlpn - dlpn mod BLOCK_SIZE c;
     cassert (from + BLOCK_SIZE c \<le> length tm);
     let s2 = s1\<lparr>fs_ftl := (fs_ftl s1)\<lparr>trim_map := tm\<rparr>\<rparr>;
     if list_all (\<lambda>b. b) (take (BLOCK_SIZE c) (drop from tm)) then do {
       (e1, s3) \<leftarrow> page_ftl_erase ci c junk e s2;
       Some (SUCCESS, e1, s3\<lparr>fs_ftl := \<lparr>
         numPagesActive = sub64 (numPagesActive (fs_ftl s3)) (BLOCK_SIZE c),
         trim_map = take from tm @ replicate (BLOCK_SIZE c) False @ drop (from + BLOCK_SIZE c) tm\<rparr>\<rparr>)
     } else Some (SUCCESS, e, s2)
   }"

section \<open>The ZNS FTL\<close>

definition zns_block_size :: "config \<Rightarrow> uint" where
  "zns_block_size c = (if 0 < BLOCK_SIZE c then BLOCK_SIZE c else 64)"

definition zns_address :: "config \<Rightarrow> ulong \<Rightarrow> event \<Rightarrow> address" where
  "zns_address c junk e = (let lba = logical_address e mod 2 ^ 32 in
     (Address_default junk)\<lparr>package := 0, die := 0, plane := 0, block := lba div zns_block_size c,
        page := lba mod zns_block_size c, valid := PAGE\<rparr>)"

definition FtlImpl_Zns_read :: "'w controller_if \<Rightarrow> config \<Rightarrow> ulong \<Rightarrow> event \<Rightarrow> 'w \<Rightarrow> (status \<times> event \<times> 'w) option" where
  "FtlImpl_Zns_read ci c junk e w = ci_issue ci (e\<lparr>ev_address := zns_address c junk e\<rparr>) w"

definition FtlImpl_Zns_write :: "'w controller_if \<Rightarrow> config \<Rightarrow> ulong \<Rightarrow> event \<Rightarrow> 'w \<Rightarrow> (status \<times> event \<times> 'w) option" where
  "FtlImpl_Zns_write ci c junk e w = ci_issue ci (e\<lparr>ev_address := zns_address c junk e\<rparr>) w"

definition FtlImpl_Zns_trim :: "(uint \<Rightarrow> 'w \<Rightarrow> (status \<times> 'w) option) \<Rightarrow> config \<Rightarrow> event \<Rightarrow> 'w \<Rightarrow> (status \<times> 'w) option" where
  "FtlImpl_Zns_trim reset_zns_zone c e w = reset_zns_zone (logical_address e mod 2 ^ 32 div zns_block_size c) w"

section \<open>Empty classes and the RAID front end\<close>

definition Wear_leveler_insert :: "address \<Rightarrow> status" where
  "Wear_leveler_insert a = SUCCESS"

definition Garbage_collector_clean :: "address \<Rightarrow> address" where
  "Garbage_collector_clean a = a"

text \<open>
  \<open>arrive i\<close> is \<open>Ssds[i].event_arrive\<close> for the request at hand, with the buffer offset in
  pages. Striping sends the request to every device in order and returns the time of the
  first; address splitting sends it to the device \<open>logical_address % n\<close>.
\<close>

fun raid_stripe :: "(nat \<Rightarrow> nat \<Rightarrow> 'd \<Rightarrow> (time \<times> 'd) option) \<Rightarrow> nat list \<Rightarrow> 'd list \<Rightarrow> (time list \<times> 'd list) option" where
  "raid_stripe arrive [] ds = Some ([], ds)"
| "raid_stripe arrive (i # is) ds = do {
     d \<leftarrow> aget ds i;
     (t, d') \<leftarrow> arrive i i d;
     (ts, ds') \<leftarrow> raid_stripe arrive is (ds[i := d']);
     Some (t # ts, ds')
   }"

definition RaidSsd_event_arrive :: "config \<Rightarrow> (nat \<Rightarrow> nat \<Rightarrow> 'd \<Rightarrow> (time \<times> 'd) option) \<Rightarrow> ulong \<Rightarrow> 'd list \<Rightarrow>
    (time \<times> 'd list) option" where
  "RaidSsd_event_arrive c arrive la ds =
     (if PARALLELISM_MODE c = 1 then do {
        (ts, ds') \<leftarrow> raid_stripe arrive [0..<RAID_NUMBER_OF_PHYSICAL_SSDS c] ds;
        t \<leftarrow> aget ts 0;
        Some (t, ds')
      }
      else if PARALLELISM_MODE c = 2 then do {
        cassert (RAID_NUMBER_OF_PHYSICAL_SSDS c \<noteq> 0);
        let i = la mod RAID_NUMBER_OF_PHYSICAL_SSDS c;
        d \<leftarrow> aget ds i;
        (t, d') \<leftarrow> arrive i 0 d;
        Some (t, ds[i := d'])
      }
      else Some (0, ds))"

section \<open>Facts\<close>

lemma zns_address_block:
  "zns_block_size c = BLOCK_SIZE c \<Longrightarrow> logical_address e < PLANE_SIZE c * BLOCK_SIZE c \<Longrightarrow>
   PLANE_SIZE c * BLOCK_SIZE c \<le> 2 ^ 32 \<Longrightarrow>
   block (zns_address c junk e) < PLANE_SIZE c \<and>
   block (zns_address c junk e) * BLOCK_SIZE c + page (zns_address c junk e) = logical_address e"
  by (simp add: zns_address_def Let_def less_mult_imp_div_less)

end
