(* ===== verification/Ssd_Plane.thy ===== *)
theory Ssd_Plane
  imports Ssd_Block
begin

text \<open>
  \<open>ssd_plane.cpp\<close>: planes forward reads, writes, erases and replacements to their blocks,
  keep wear statistics and a count of free blocks, and merge blocks. \<open>get_next_page\<close>
  returns before its loop, as the source does. \<open>Plane_merge\<close> keeps the two event objects
  of the source, whose addresses are copied once before the loop.
\<close>

section \<open>State and forwarding operations\<close>

record pln =
  psize :: uint
  pdata :: "blk list"
  p_least_worn :: uint
  p_erases_remaining :: ulong
  p_last_erase_time :: time
  reg_read_delay :: time
  reg_write_delay :: time
  next_page :: address
  free_blocks :: uint

text \<open>A negative register delay is assigned to the parameter only; the member stays uninitialised.\<close>

definition Plane_new :: "config \<Rightarrow> time \<Rightarrow> ulong \<Rightarrow> uint \<Rightarrow> time \<Rightarrow> time \<Rightarrow> nat \<Rightarrow> pln" where
  "Plane_new c junk ajunk sz rd wd pa = \<lparr>psize = sz,
     pdata = map (\<lambda>i. Block_new c (BLOCK_SIZE c) (BLOCK_ERASES c) (BLOCK_ERASE_DELAY c)
                        (pa + mul32 i (BLOCK_SIZE c))) [0..<sz],
     p_least_worn = 0, p_erases_remaining = BLOCK_ERASES c, p_last_erase_time = 0,
     reg_read_delay = (if rd < 0 then junk else rd), reg_write_delay = (if wd < 0 then junk else wd),
     next_page = (Address_default ajunk)\<lparr>block := 0, page := 0, valid := PAGE\<rparr>, free_blocks = sz\<rparr>"

definition Plane_get_next_page :: "pln \<Rightarrow> status \<times> pln" where
  "Plane_get_next_page p = (SUCCESS, p)"

definition Plane_read :: "config \<Rightarrow> event \<Rightarrow> pln \<Rightarrow> env \<Rightarrow> pln outcome" where
  "Plane_read c e p g = do {
     cassert (block (ev_address e) < psize p \<and> PLANE < valid (ev_address e));
     (s, e1, bs, g1) \<leftarrow> forward (block (ev_address e)) (Block_read c e) (pdata p) g;
     Some (s, e1, p\<lparr>pdata := bs\<rparr>, g1)
   }"

definition Plane_write :: "config \<Rightarrow> event \<Rightarrow> pln \<Rightarrow> env \<Rightarrow> pln outcome" where
  "Plane_write c e p g = do {
     let i = block (ev_address e);
     cassert (i < psize p \<and> PLANE < valid (ev_address e) \<and> BLOCK \<le> valid (next_page p));
     prev \<leftarrow> aget (pdata p) i;
     (s, e1, bs, g1) \<leftarrow> forward i (Block_write c e) (pdata p) g;
     let p1 = p\<lparr>pdata := bs\<rparr>;
     let p2 = (if i = block (next_page p1) then snd (Plane_get_next_page p1) else p1);
     cur \<leftarrow> aget (pdata p2) i;
     Some (s, e1,
       if bstate prev = FREE \<and> bstate cur \<noteq> FREE then p2\<lparr>free_blocks := dec32 (free_blocks p2)\<rparr> else p2, g1)
   }"

definition Plane_replace :: "config \<Rightarrow> event \<Rightarrow> pln \<Rightarrow> env \<Rightarrow> pln outcome" where
  "Plane_replace c e p g = do {
     cassert (block (ev_address e) < psize p);
     (s, e1, bs, g1) \<leftarrow> forward (block (replace_address e)) (Block_replace c e) (pdata p) g;
     Some (s, e1, p\<lparr>pdata := bs\<rparr>, g1)
   }"

definition Plane_update_wear_stats :: "pln \<Rightarrow> pln option" where
  "Plane_update_wear_stats p = do {
     b0 \<leftarrow> aget (pdata p) 0;
     let k = wear_index (map erases_remaining (pdata p));
     bk \<leftarrow> aget (pdata p) k;
     Some (p\<lparr>p_least_worn := k, p_erases_remaining := erases_remaining b0,
             p_last_erase_time := last_erase_time bk\<rparr>)
   }"

definition Plane_erase :: "config \<Rightarrow> event \<Rightarrow> pln \<Rightarrow> env \<Rightarrow> pln outcome" where
  "Plane_erase c e p g = do {
     cassert (block (ev_address e) < psize p \<and> PLANE < valid (ev_address e));
     (s, e1, bs, g1) \<leftarrow> forward (block (ev_address e)) (Block_erase c e) (pdata p) g;
     let p1 = p\<lparr>pdata := bs\<rparr>;
     if s = SUCCESS then do {
       p2 \<leftarrow> Plane_update_wear_stats p1;
       let p3 = p2\<lparr>free_blocks := inc32 (free_blocks p2)\<rparr>;
       Some (s, e1, if valid (next_page p3) < PAGE then snd (Plane_get_next_page p3) else p3, g1)
     } else Some (s, e1, p1, g1)
   }"

section \<open>Merging two blocks\<close>

record merge_state =
  ms_blocks :: "blk list"
  ms_read :: event
  ms_write :: event
  ms_wpage :: uint
  ms_delay :: time
  ms_merged :: uint
  ms_errors :: uint
  ms_env :: env

text \<open>The inner loop: advance \<open>write.page\<close> to the next empty page of the target block.\<close>

function next_empty :: "blk \<Rightarrow> nat \<Rightarrow> nat \<Rightarrow> nat option" where
  "next_empty b bnd w =
     (if w < bnd then do {
        st \<leftarrow> get_page_state b w;
        if st = EMPTY then Some w else next_empty b bnd (Suc w)
      } else Some w)"
  by auto
termination by (relation "measure (\<lambda>(b, bnd, w). bnd - w)") auto

declare next_empty.simps [simp del]

definition merge_write :: "config \<Rightarrow> pln \<Rightarrow> uint \<Rightarrow> uint \<Rightarrow> merge_state \<Rightarrow> merge_state option" where
  "merge_write c p wb bnd ms = do {
     b \<leftarrow> aget (ms_blocks ms) wb;
     w \<leftarrow> next_empty b bnd (ms_wpage ms);
     if w < bnd then do {
       (s, we, bs, g) \<leftarrow> forward wb (Block_write c (ms_write ms)) (ms_blocks ms) (ms_env ms);
       Some (ms\<lparr>ms_blocks := bs, ms_write := we, ms_env := g, ms_wpage := w,
         ms_errors := (if s = FAILURE then inc32 (ms_errors ms) else ms_errors ms),
         ms_delay := ms_delay ms + reg_read_delay p, ms_merged := inc32 (ms_merged ms)\<rparr>)
     } else Some (ms\<lparr>ms_wpage := w\<rparr>)
   }"

definition merge_page :: "config \<Rightarrow> pln \<Rightarrow> uint \<Rightarrow> uint \<Rightarrow> uint \<Rightarrow> uint \<Rightarrow> merge_state \<Rightarrow> merge_state option" where
  "merge_page c p rb wb bnd r ms = do {
     b \<leftarrow> aget (ms_blocks ms) rb;
     st \<leftarrow> get_page_state b r;
     if st = VALID then do {
       (s, re, bs, g) \<leftarrow> forward rb (Block_read c (ms_read ms)) (ms_blocks ms) (ms_env ms);
       b1 \<leftarrow> aget bs rb;
       (b2, g2) \<leftarrow> invalidate_page c r b1 g;
       merge_write c p wb bnd (ms\<lparr>ms_blocks := bs[rb := b2], ms_read := re, ms_env := g2,
         ms_errors := (if s = FAILURE then inc32 (ms_errors ms) else ms_errors ms),
         ms_delay := ms_delay ms + reg_write_delay p\<rparr>)
     } else Some ms
   }"

fun merge_loop :: "config \<Rightarrow> pln \<Rightarrow> uint \<Rightarrow> uint \<Rightarrow> uint \<Rightarrow> uint \<Rightarrow> uint list \<Rightarrow> merge_state \<Rightarrow> merge_state option" where
  "merge_loop c p rb wb bnd cnt [] ms = Some ms"
| "merge_loop c p rb wb bnd cnt (r # rs) ms =
     (if ms_merged ms < cnt
      then Option.bind (merge_page c p rb wb bnd r ms) (merge_loop c p rb wb bnd cnt rs)
      else Some ms)"

definition count_pages :: "page_state \<Rightarrow> blk \<Rightarrow> uint" where
  "count_pages st b = count_if (\<lambda>q. pg_state q = st) (bdata b)"

definition Plane_merge :: "config \<Rightarrow> ulong \<Rightarrow> event \<Rightarrow> pln \<Rightarrow> env \<Rightarrow> pln outcome" where
  "Plane_merge c junk e p g = do {
     let a = ev_address e;
     let m = merge_address e;
     cassert (block a < psize p \<and> PLANE < valid a);
     cassert (0 \<le> reg_read_delay p \<and> 0 \<le> reg_write_delay p);
     cassert (BLOCK \<le> Address_compare a m);
     cassert (block a < psize p \<and> block m < psize p);
     src \<leftarrow> aget (pdata p) (block a);
     dst \<leftarrow> aget (pdata p) (block m);
     let cnt = count_pages VALID src;
     if count_pages EMPTY dst < cnt then Some (FAILURE, e, p, g)
     else do {
       st \<leftarrow> get_start_time e;
       re \<leftarrow> Event_new junk READ 0 1 st;
       we \<leftarrow> Event_new junk WRITE 0 1 st;
       ms \<leftarrow> merge_loop c p (block a) (block m) (bsize dst) cnt [0..<bsize src]
               \<lparr>ms_blocks = pdata p, ms_read = re\<lparr>ev_address := a\<lparr>page := 0, valid := PAGE\<rparr>\<rparr>,
                ms_write = we\<lparr>ev_address := m\<lparr>page := 0, valid := PAGE\<rparr>\<rparr>, ms_wpage = 0, ms_delay = 0,
                ms_merged = 0, ms_errors = 0, ms_env = g\<rparr>;
       rt \<leftarrow> get_time_taken (ms_read ms);
       wt \<leftarrow> get_time_taken (ms_write ms);
       let p1 = p\<lparr>pdata := ms_blocks ms\<rparr>;
       Some (if ms_errors ms = 0 then SUCCESS else FAILURE,
             incr_time_taken (ms_delay ms + rt + wt) e,
             if valid (next_page p1) < PAGE then snd (Plane_get_next_page p1) else p1, ms_env ms)
     }
   }"

section \<open>Queries\<close>

definition Plane_get_last_erase_time :: "address \<Rightarrow> pln \<Rightarrow> time option" where
  "Plane_get_last_erase_time a p =
     (if PLANE < valid a \<and> block a < psize p then map_option last_erase_time (aget (pdata p) (block a))
      else Some (p_last_erase_time p))"

definition Plane_get_erases_remaining :: "address \<Rightarrow> pln \<Rightarrow> ulong option" where
  "Plane_get_erases_remaining a p =
     (if PLANE < valid a \<and> block a < psize p then map_option erases_remaining (aget (pdata p) (block a))
      else Some (p_erases_remaining p))"

definition Plane_get_least_worn :: "pln \<Rightarrow> address \<Rightarrow> address option" where
  "Plane_get_least_worn p a = do {
     cassert (p_least_worn p < psize p);
     Some (a\<lparr>block := p_least_worn p, valid := BLOCK\<rparr>)
   }"

definition Plane_get_state :: "address \<Rightarrow> pln \<Rightarrow> page_state option" where
  "Plane_get_state a p = do {
     cassert (block a < psize p \<and> PLANE \<le> valid a);
     b \<leftarrow> aget (pdata p) (block a);
     Block_get_state_at b a
   }"

definition Plane_get_block_state :: "address \<Rightarrow> pln \<Rightarrow> block_state option" where
  "Plane_get_block_state a p = do {
     cassert (block a < psize p \<and> PLANE \<le> valid a);
     b \<leftarrow> aget (pdata p) (block a);
     Some (bstate b)
   }"

definition Plane_get_free_page :: "config \<Rightarrow> pln \<Rightarrow> address \<Rightarrow> address option" where
  "Plane_get_free_page c p a = do {
     b \<leftarrow> aget (pdata p) (block a);
     cassert (pages_valid b < BLOCK_SIZE c);
     let n = get_linear_address a;
     set_linear_address c (sub64 (add64 n (pages_valid b)) (n mod BLOCK_SIZE c))
       (a\<lparr>page := pages_valid b, valid := PAGE\<rparr>)
   }"

definition Plane_get_num_free :: "address \<Rightarrow> pln \<Rightarrow> uint option" where
  "Plane_get_num_free a p = do { cassert (PLANE \<le> valid a); Some (free_blocks p) }"

definition Plane_get_num_valid :: "address \<Rightarrow> pln \<Rightarrow> uint option" where
  "Plane_get_num_valid a p = do { cassert (PLANE \<le> valid a); b \<leftarrow> aget (pdata p) (block a); Some (pages_valid b) }"

definition Plane_get_num_invalid :: "address \<Rightarrow> pln \<Rightarrow> uint option" where
  "Plane_get_num_invalid a p = do { cassert (PLANE \<le> valid a); b \<leftarrow> aget (pdata p) (block a); Some (pages_invalid b) }"

definition Plane_get_block_pointer :: "address \<Rightarrow> pln \<Rightarrow> blk option" where
  "Plane_get_block_pointer a p = do { cassert (PLANE \<le> valid a); aget (pdata p) (block a) }"

definition Plane_exec :: "ulong \<Rightarrow> config \<Rightarrow> unit_op \<Rightarrow> event \<Rightarrow> pln \<Rightarrow> env \<Rightarrow> pln outcome" where
  "Plane_exec junk c a e p g = (case a of
       URead \<Rightarrow> Plane_read c e p g | UWrite \<Rightarrow> Plane_write c e p g | UErase \<Rightarrow> Plane_erase c e p g
     | UReplace \<Rightarrow> Plane_replace c e p g | UMerge \<Rightarrow> Plane_merge c junk e p g)"

section \<open>The plane invariant\<close>

definition plane_ok :: "config \<Rightarrow> pln \<Rightarrow> bool" where
  "plane_ok c p \<longleftrightarrow> length (pdata p) = psize p \<and> 0 < psize p \<and> list_all (block_ok c) (pdata p)
     \<and> p_least_worn p < psize p \<and> valid (next_page p) = PAGE"

lemma Block_exec_ops:
  "Block_exec c URead = Block_read c" "Block_exec c UWrite = Block_write c"
  "Block_exec c UErase = Block_erase c" "Block_exec c UReplace = Block_replace c"
  by (simp_all add: fun_eq_iff Block_exec_def)

lemmas block_forward =
  block_unit.forward_facts [of _ c URead for c, unfolded Block_exec_ops]
  block_unit.forward_facts [of _ c UWrite for c, unfolded Block_exec_ops]
  block_unit.forward_facts [of _ c UErase for c, unfolded Block_exec_ops]
  block_unit.forward_facts [of _ c UReplace for c, unfolded Block_exec_ops]

lemma Plane_update_wear_ok:
  assumes "Plane_update_wear_stats p = Some p'"
  shows "pdata p' = pdata p" "psize p' = psize p" "next_page p' = next_page p" "free_blocks p' = free_blocks p"
    "p_least_worn p' < length (pdata p)" "p_erases_remaining p' = erases_remaining (pdata p ! 0)"
    "p_least_worn p' = wear_index (map erases_remaining (pdata p))"
  using assms wear_index_bound [of "map erases_remaining (pdata p)"]
  by (auto simp: Plane_update_wear_stats_def bind_eq_Some_conv Let_def)

lemma plane_ok_blocks:
  "plane_ok c p \<Longrightarrow> list_all (block_ok c) bs \<and> length bs = length (pdata p) \<Longrightarrow>
   plane_ok c (p\<lparr>pdata := bs, free_blocks := n\<rparr>)"
  "plane_ok c p \<Longrightarrow> list_all (block_ok c) bs \<and> length bs = length (pdata p) \<Longrightarrow> plane_ok c (p\<lparr>pdata := bs\<rparr>)"
  by (simp_all add: plane_ok_def)

lemma plane_ok_list: "plane_ok c p \<Longrightarrow> list_all (block_ok c) (pdata p)"
  by (simp add: plane_ok_def)

lemma Plane_read_cases:
  assumes "Plane_read c e p g = Some (s, e', p', g')"
  obtains bs where "forward (block (ev_address e)) (Block_read c e) (pdata p) g = Some (s, e', bs, g')"
    and "block (ev_address e) < psize p" and "p' = p\<lparr>pdata := bs\<rparr>"
  using assms unfolding Plane_read_def by (auto simp: bind_eq_Some_conv split: if_splits)

lemma Plane_read_ok:
  assumes "Plane_read c e p g = Some (s, e', p', g')"
  shows "plane_ok c p \<Longrightarrow> plane_ok c p'" "progress e e'"
    "plane_ok c p \<Longrightarrow> length (active_cost g') = length (active_cost g)"
proof -
  from Plane_read_cases [OF assms] obtain bs where
    f: "forward (block (ev_address e)) (Block_read c e) (pdata p) g = Some (s, e', bs, g')" and p': "p' = p\<lparr>pdata := bs\<rparr>"
    by metis
  show "plane_ok c p'" if "plane_ok c p"
    unfolding p' by (rule plane_ok_blocks(2) [OF that block_forward(1) [OF f plane_ok_list [OF that]]])
  show "progress e e'" by (rule block_forward(2) [OF f])
  show "length (active_cost g') = length (active_cost g)" if "plane_ok c p"
    by (rule block_forward(3) [OF f plane_ok_list [OF that]])
qed

lemma Plane_replace_cases:
  assumes "Plane_replace c e p g = Some (s, e', p', g')"
  obtains bs where "forward (block (replace_address e)) (Block_replace c e) (pdata p) g = Some (s, e', bs, g')"
    and "p' = p\<lparr>pdata := bs\<rparr>"
  using assms unfolding Plane_replace_def by (auto simp: bind_eq_Some_conv split: if_splits)

lemma Plane_replace_ok:
  assumes "Plane_replace c e p g = Some (s, e', p', g')"
  shows "plane_ok c p \<Longrightarrow> plane_ok c p'" "progress e e'"
    "plane_ok c p \<Longrightarrow> length (active_cost g') = length (active_cost g)"
proof -
  from Plane_replace_cases [OF assms] obtain bs where
    f: "forward (block (replace_address e)) (Block_replace c e) (pdata p) g = Some (s, e', bs, g')" and p': "p' = p\<lparr>pdata := bs\<rparr>"
    by metis
  show "plane_ok c p'" if "plane_ok c p"
    unfolding p' by (rule plane_ok_blocks(2) [OF that block_forward(10) [OF f plane_ok_list [OF that]]])
  show "progress e e'" by (rule block_forward(11) [OF f])
  show "length (active_cost g') = length (active_cost g)" if "plane_ok c p"
    by (rule block_forward(12) [OF f plane_ok_list [OF that]])
qed

lemma Plane_write_cases:
  assumes "Plane_write c e p g = Some (s, e', p', g')"
  obtains bs where "forward (block (ev_address e)) (Block_write c e) (pdata p) g = Some (s, e', bs, g')"
    and "block (ev_address e) < psize p"
    and "p' = p\<lparr>pdata := bs, free_blocks :=
       (if bstate (pdata p ! block (ev_address e)) = FREE \<and> bstate (bs ! block (ev_address e)) \<noteq> FREE
        then dec32 (free_blocks p) else free_blocks p)\<rparr>"
proof -
  let ?i = "block (ev_address e)"
  have i: "?i < psize p" "3 < av_rank (valid (ev_address e))" "4 \<le> av_rank (valid (next_page p))"
    using assms by (simp_all add: Plane_write_def Let_def split: if_splits)
  show thesis
  proof (cases "forward ?i (Block_write c e) (pdata p) g")
    case None
    then show ?thesis using assms i by (simp add: Plane_write_def Let_def bind_eq_Some_conv)
  next
    case (Some r)
    obtain s1 e1 bs g1 where r: "r = (s1, e1, bs, g1)" by (cases r)
    have len: "?i < length (pdata p)" "?i < length bs" using Some r by (auto simp: forward_Some)
    have "(s, e', p', g') = (s1, e1, p\<lparr>pdata := bs, free_blocks :=
       (if bstate (pdata p ! ?i) = FREE \<and> bstate (bs ! ?i) \<noteq> FREE
        then dec32 (free_blocks p) else free_blocks p)\<rparr>, g1)"
      using assms Some r len i
      by (simp add: Plane_write_def Let_def Plane_get_next_page_def aget_nth cong: if_cong split del: if_split)
         (auto split: if_splits)
    then show ?thesis using that [of bs] Some r i(1) by simp
  qed
qed

lemma Plane_write_ok:
  assumes "Plane_write c e p g = Some (s, e', p', g')"
  shows "plane_ok c p \<Longrightarrow> plane_ok c p'" "progress e e'"
    "plane_ok c p \<Longrightarrow> length (active_cost g') = length (active_cost g)"
proof -
  from Plane_write_cases [OF assms] obtain bs n where
    f: "forward (block (ev_address e)) (Block_write c e) (pdata p) g = Some (s, e', bs, g')"
    and p': "p' = p\<lparr>pdata := bs, free_blocks := n\<rparr>"
    by metis
  show "plane_ok c p'" if "plane_ok c p"
    unfolding p' by (rule plane_ok_blocks(1) [OF that block_forward(4) [OF f plane_ok_list [OF that]]])
  show "progress e e'" by (rule block_forward(5) [OF f])
  show "length (active_cost g') = length (active_cost g)" if "plane_ok c p"
    by (rule block_forward(6) [OF f plane_ok_list [OF that]])
qed

lemma Plane_erase_cases:
  assumes "Plane_erase c e p g = Some (s, e', p', g')"
  obtains (erased) bs p2 where "s = SUCCESS" "block (ev_address e) < psize p"
      "forward (block (ev_address e)) (Block_erase c e) (pdata p) g = Some (s, e', bs, g')"
      "Plane_update_wear_stats (p\<lparr>pdata := bs\<rparr>) = Some p2" "p' = p2\<lparr>free_blocks := inc32 (free_blocks p2)\<rparr>"
  | (failed) bs where "s = FAILURE" "block (ev_address e) < psize p"
      "forward (block (ev_address e)) (Block_erase c e) (pdata p) g = Some (s, e', bs, g')" "p' = p\<lparr>pdata := bs\<rparr>"
proof -
  from assms obtain bs where i: "block (ev_address e) < psize p"
    and f: "forward (block (ev_address e)) (Block_erase c e) (pdata p) g = Some (s, e', bs, g')"
    and r: "if s = SUCCESS then \<exists>p2. Plane_update_wear_stats (p\<lparr>pdata := bs\<rparr>) = Some p2 \<and>
        p' = p2\<lparr>free_blocks := inc32 (free_blocks p2)\<rparr> else p' = p\<lparr>pdata := bs\<rparr>"
    unfolding Plane_erase_def Let_def Plane_get_next_page_def snd_conv if_cancel
    by (auto simp only: bind_eq_Some_conv prod.case cassert_bind split: if_splits) auto
  show thesis
  proof (cases s)
    case FAILURE
    with i f r show ?thesis by (intro failed) simp_all
  next
    case SUCCESS
    with i f r show ?thesis by (auto intro: erased)
  qed
qed

lemma Plane_erase_ok:
  assumes "Plane_erase c e p g = Some (s, e', p', g')"
  shows "plane_ok c p \<Longrightarrow> plane_ok c p'" "progress e e'"
    "plane_ok c p \<Longrightarrow> length (active_cost g') = length (active_cost g)"
proof -
  show "plane_ok c p'" if "plane_ok c p"
    using assms
  proof (cases rule: Plane_erase_cases)
    case (erased bs p2)
    then show ?thesis
      using block_forward(7) [OF erased(3)] Plane_update_wear_ok [OF erased(4)] that
      by (simp add: plane_ok_def)
  next
    case (failed bs)
    then show ?thesis using block_forward(7) [OF failed(3)] that by (simp add: plane_ok_def)
  qed
  show "progress e e'"
    using assms by (cases rule: Plane_erase_cases; use block_forward(8) in blast)
  show "length (active_cost g') = length (active_cost g)" if "plane_ok c p"
    using assms by (cases rule: Plane_erase_cases; use block_forward(9) plane_ok_list [OF that] in blast)
qed

subsection \<open>Merging keeps it\<close>

definition merge_ok :: "config \<Rightarrow> nat \<Rightarrow> nat \<Rightarrow> merge_state \<Rightarrow> bool" where
  "merge_ok c n k ms \<longleftrightarrow> list_all (block_ok c) (ms_blocks ms) \<and> length (ms_blocks ms) = n
     \<and> length (active_cost (ms_env ms)) = k"

lemma merge_write_ok:
  assumes "merge_write c p wb bnd ms = Some ms'" "merge_ok c n k ms"
  shows "merge_ok c n k ms'"
  using assms block_forward(4,6)
  by (fastforce simp: merge_write_def merge_ok_def bind_eq_Some_conv split: if_splits)

lemma merge_page_ok:
  assumes m: "merge_page c p rb wb bnd r ms = Some ms'" and ok: "merge_ok c n k ms"
  shows "merge_ok c n k ms'"
proof (cases "ms' = ms")
  case False
  with m obtain s re bs g b2 g2 where
    f: "forward rb (Block_read c (ms_read ms)) (ms_blocks ms) (ms_env ms) = Some (s, re, bs, g)"
    and i: "rb < length bs" "invalidate_page c r (bs ! rb) g = Some (b2, g2)"
    and w: "merge_write c p wb bnd (ms\<lparr>ms_blocks := bs[rb := b2], ms_read := re, ms_env := g2,
         ms_errors := (if s = FAILURE then inc32 (ms_errors ms) else ms_errors ms),
         ms_delay := ms_delay ms + reg_write_delay p\<rparr>) = Some ms'"
    unfolding merge_page_def
    by (auto simp: bind_eq_Some_conv split: if_splits)
  have "list_all (block_ok c) bs \<and> length bs = n" "length (active_cost g) = k"
    using block_forward(1) [OF f] block_forward(3) [OF f] ok by (simp_all add: merge_ok_def)
  moreover have "block_ok c b2" "length (active_cost g2) = length (active_cost g)"
    using invalidate_page_ok [OF i(2)] invalidate_page_cost [OF i(2)] calculation i(1) list_all_nthD by auto
  ultimately show ?thesis
    by (intro merge_write_ok [OF w]) (simp add: merge_ok_def list_all_update)
qed (use ok in simp)

lemma merge_loop_ok:
  "merge_loop c p rb wb bnd cnt rs ms = Some ms' \<Longrightarrow> merge_ok c n k ms \<Longrightarrow> merge_ok c n k ms'"
proof (induction rs arbitrary: ms)
  case (Cons r rs)
  then show ?case by (auto simp: bind_eq_Some_conv dest: merge_page_ok split: if_splits)
qed simp

lemma Plane_merge_cases:
  assumes "Plane_merge c junk e p g = Some (s, e', p', g')"
  obtains (refused) "s = FAILURE" "e' = e" "p' = p" "g' = g"
  | (merged) ms0 ms t where "merge_loop c p (block (ev_address e)) (block (merge_address e))
         (bsize (pdata p ! block (merge_address e))) (count_pages VALID (pdata p ! block (ev_address e)))
         [0..<bsize (pdata p ! block (ev_address e))] ms0 = Some ms"
      "ms_blocks ms0 = pdata p" "ms_env ms0 = g" "p' = p\<lparr>pdata := ms_blocks ms\<rparr>" "g' = ms_env ms"
      "e' = incr_time_taken t e"
proof -
  from assms obtain src dst where
    src: "block (ev_address e) < length (pdata p)" "src = pdata p ! block (ev_address e)"
    and dst: "block (merge_address e) < length (pdata p)" "dst = pdata p ! block (merge_address e)"
    by (auto simp: Plane_merge_def bind_eq_Some_conv Let_def split: if_splits)
  show thesis
  proof (cases "count_pages EMPTY dst < count_pages VALID src")
    case True
    then show ?thesis
      using assms src dst by (intro refused) (auto simp: Plane_merge_def Let_def aget_nth split: if_splits)
  next
    case False
    with assms src dst obtain ms0 ms t where
      "merge_loop c p (block (ev_address e)) (block (merge_address e)) (bsize dst) (count_pages VALID src)
         [0..<bsize src] ms0 = Some ms" "ms_blocks ms0 = pdata p" "ms_env ms0 = g"
      "p' = p\<lparr>pdata := ms_blocks ms\<rparr>" "g' = ms_env ms" "e' = incr_time_taken t e"
      by (auto simp: Plane_merge_def aget_nth bind_eq_Some_conv Plane_get_next_page_def Let_def
          split: if_splits)
    then show ?thesis using src dst by (intro merged) simp_all
  qed
qed

lemma Plane_merge_ok:
  assumes "Plane_merge c junk e p g = Some (s, e', p', g')"
  shows "plane_ok c p \<Longrightarrow> plane_ok c p'" "progress e e'"
    "plane_ok c p \<Longrightarrow> length (active_cost g') = length (active_cost g)"
proof -
  show "progress e e'" using assms by (cases rule: Plane_merge_cases) simp_all
  assume ok: "plane_ok c p"
  from assms show "plane_ok c p'"
  proof (cases rule: Plane_merge_cases)
    case (merged ms0 ms t)
    have "merge_ok c (length (pdata p)) (length (active_cost g)) ms"
      by (rule merge_loop_ok [OF merged(1)]) (use merged(2,3) ok in \<open>simp add: merge_ok_def plane_ok_def\<close>)
    then show ?thesis unfolding merged(4) by (intro plane_ok_blocks(2) [OF ok]) (simp add: merge_ok_def)
  qed (use ok in simp)
  from assms show "length (active_cost g') = length (active_cost g)"
  proof (cases rule: Plane_merge_cases)
    case (merged ms0 ms t)
    have "merge_ok c (length (pdata p)) (length (active_cost g)) ms"
      by (rule merge_loop_ok [OF merged(1)]) (use merged(2,3) ok in \<open>simp add: merge_ok_def plane_ok_def\<close>)
    then show ?thesis unfolding merged(5) by (simp add: merge_ok_def)
  qed simp
qed

lemma Plane_exec_ok:
  assumes "Plane_exec junk c a e p g = Some (s, e', p', g')"
  shows "plane_ok c p \<Longrightarrow> plane_ok c p'" "progress e e'"
    "plane_ok c p \<Longrightarrow> length (active_cost g') = length (active_cost g)"
  using assms Plane_read_ok Plane_write_ok Plane_erase_ok Plane_replace_ok Plane_merge_ok
  by (cases a; simp add: Plane_exec_def; blast)+

interpretation plane_unit: storage_unit "Plane_exec junk" plane_ok for junk
  by unfold_locales (rule Plane_exec_ok; assumption)+

lemma plane_ok_new:
  assumes "0 < sz" "0 < BLOCK_SIZE c" "BLOCK_SIZE c < 2 ^ 32" "BLOCK_ERASES c < 2 ^ 64"
  shows "plane_ok c (Plane_new c junk aj sz rd wd pa)"
  using assms by (auto simp: plane_ok_def Plane_new_def list_all_iff intro!: block_ok_new)

lemma Plane_forward_at:
  assumes "Plane_exec junk c a e p g = Some (s, e', p', g')" "addressed a"
  shows "PLANE < valid (ev_address e)"
    and "forward (block (ev_address e)) (Block_exec c a e) (pdata p) g = Some (s, e', pdata p', g')"
proof -
  show "PLANE < valid (ev_address e)"
    using assms by (cases a) (auto simp: Plane_exec_def Plane_read_def Plane_write_def Plane_erase_def Let_def
        split: if_splits)
  show "forward (block (ev_address e)) (Block_exec c a e) (pdata p) g = Some (s, e', pdata p', g')"
  proof (cases a)
    case URead
    then show ?thesis using assms by (auto simp: Plane_exec_def Block_exec_ops elim: Plane_read_cases)
  next
    case UWrite
    then show ?thesis using assms by (auto simp: Plane_exec_def Block_exec_ops elim: Plane_write_cases)
  next
    case UErase
    then have "Plane_erase c e p g = Some (s, e', p', g')" using assms by (simp add: Plane_exec_def)
    then show ?thesis
    proof (cases rule: Plane_erase_cases)
      case (erased bs p2)
      then show ?thesis using UErase Plane_update_wear_ok [OF erased(4)] by (simp add: Block_exec_ops)
    qed (simp add: UErase Block_exec_ops)
  qed (use assms(2) in simp_all)
qed

section \<open>Behaviour\<close>

text \<open>
  The merge asserts that the two addresses agree down to the block, so two different
  blocks are never merged: the assertion stops the simulator.
\<close>

lemma Plane_merge_distinct:
  "block (ev_address e) \<noteq> block (merge_address e) \<Longrightarrow> Plane_merge c junk e p g = None"
  using compare_block_fields [of "ev_address e" "merge_address e"]
  by (auto simp: Plane_merge_def Let_def)

definition free_count :: "pln \<Rightarrow> nat" where
  "free_count p = count_if (\<lambda>b. bstate b = FREE) (pdata p)"

lemma free_count_forward:
  assumes "forward i f (pdata p) g = Some (s, e', bs, g')"
  shows "count_if (\<lambda>b. bstate b = FREE) bs + of_bool (bstate (pdata p ! i) = FREE)
    = free_count p + of_bool (bstate (bs ! i) = FREE)"
proof -
  from assms obtain u where u: "i < length (pdata p)" "bs = (pdata p)[i := u]" by (auto simp: forward_Some)
  show ?thesis
    using count_if_update [OF u(1), of "\<lambda>b. bstate b = FREE" u] u by (simp add: free_count_def)
qed

text \<open>
  The counter never undercounts the free blocks as long as it has not wrapped: writes take
  one off for each block they take, erases add one each.
\<close>

lemma free_blocks_write:
  assumes "Plane_write c e p g = Some (s, e', p', g')" "free_count p \<le> free_blocks p" "free_blocks p < 2 ^ 32"
  shows "free_count p' \<le> free_blocks p'"
proof -
  from Plane_write_cases [OF assms(1)] obtain bs where
    f: "forward (block (ev_address e)) (Block_write c e) (pdata p) g = Some (s, e', bs, g')"
    and p': "p' = p\<lparr>pdata := bs, free_blocks :=
       (if bstate (pdata p ! block (ev_address e)) = FREE \<and> bstate (bs ! block (ev_address e)) \<noteq> FREE
        then dec32 (free_blocks p) else free_blocks p)\<rparr>" by metis
  have i: "block (ev_address e) < length (pdata p)" using f by (simp add: forward_Some)
  have was_free: "bstate (bs ! block (ev_address e)) = FREE \<Longrightarrow> bstate (pdata p ! block (ev_address e)) = FREE"
  proof -
    assume fr: "bstate (bs ! block (ev_address e)) = FREE"
    from f i obtain u where u: "Block_write c e (pdata p ! block (ev_address e)) g = Some (s, e', u, g')"
      "bs ! block (ev_address e) = u" by (auto simp: forward_Some)
    show ?thesis
      using Block_write_noop [OF u(1)] Block_write_done(4) [OF u(1)] u(2) fr by (cases "noop e") auto
  qed
  have "bstate (pdata p ! block (ev_address e)) = FREE \<Longrightarrow> 0 < free_count p"
    using count_if_pos_nth [OF i, of "\<lambda>b. bstate b = FREE"] by (simp add: free_count_def)
  moreover have "free_count p' = count_if (\<lambda>b. bstate b = FREE) bs" by (simp add: p' free_count_def)
  ultimately show ?thesis
    using free_count_forward [OF f] was_free assms(2,3)
    by (cases "bstate (pdata p ! block (ev_address e)) = FREE"; cases "bstate (bs ! block (ev_address e)) = FREE")
       (auto simp: p')
qed

lemma free_blocks_erase:
  assumes "Plane_erase c e p g = Some (s, e', p', g')" "free_count p \<le> free_blocks p" "free_blocks p < 2 ^ 32 - 1"
  shows "free_count p' \<le> free_blocks p'"
  using assms(1)
proof (cases rule: Plane_erase_cases)
  case (erased bs p2)
  note w = Plane_update_wear_ok [OF erased(4)]
  have "free_count p' = count_if (\<lambda>b. bstate b = FREE) bs" "free_blocks p' = Suc (free_blocks p)"
    using w assms(3) by (simp_all add: erased(5) free_count_def)
  then show ?thesis using free_count_forward [OF erased(3)] assms(2) by (simp add: of_bool_def split: if_splits)
next
  case (failed bs)
  from failed(3) obtain u where "Block_erase c e (pdata p ! block (ev_address e)) g = Some (s, e', u, g')"
    and u: "bs = (pdata p)[block (ev_address e) := u]" by (auto simp: forward_Some)
  then have "u = pdata p ! block (ev_address e)" using failed(1) by (elim Block_erase_cases) simp_all
  then show ?thesis using u failed(4) assms(2) by (simp add: free_count_def)
qed

end
