(* ===== verification/Ssd_Channel.thy ===== *)
theory Ssd_Channel
  imports Ssd_Event
begin

text \<open>
  \<open>ssd_channel.cpp\<close> and \<open>ssd_bus.cpp\<close>: a channel keeps the intervals for which it is
  locked and places a new transmission before, between or after them. \<open>std::sort\<close> by lock
  time is \<open>sort_key fst\<close>; the intervals of a well-formed channel have distinct lock times,
  where any sort gives the same list. \<open>channel_ok\<close> says that the reserved intervals are
  disjoint and that \<open>ready_at\<close> bounds them.
\<close>

section \<open>Channels\<close>

record channel =
  timings :: "(time \<times> time) list"
  table_entries :: uint
  selected_entry :: uint
  num_connected :: uint
  max_connections :: uint
  ctrl_delay :: time
  data_delay :: time
  ready_at :: time

definition Channel_new :: "time \<Rightarrow> time \<Rightarrow> uint \<Rightarrow> uint \<Rightarrow> channel" where
  "Channel_new cd dd table_size maxc = \<lparr>timings = [], table_entries = 0, selected_entry = 0,
     num_connected = 0, max_connections = maxc, ctrl_delay = cd, data_delay = dd, ready_at = - 1\<rparr>"

definition Channel_connect :: "channel \<Rightarrow> status \<times> channel" where
  "Channel_connect ch =
     (if num_connected ch < max_connections ch
      then (SUCCESS, ch\<lparr>num_connected := inc32 (num_connected ch)\<rparr>) else (FAILURE, ch))"

definition Channel_disconnect :: "channel \<Rightarrow> status \<times> channel" where
  "Channel_disconnect ch =
     (if 0 < num_connected ch
      then (SUCCESS, ch\<lparr>num_connected := dec32 (num_connected ch)\<rparr>) else (FAILURE, ch))"

definition Channel_unlock :: "time \<Rightarrow> (time \<times> time) list \<Rightarrow> (time \<times> time) list" where
  "Channel_unlock st ts = sort_key fst (filter (\<lambda>t. \<not> snd t \<le> st) ts)"

fun find_gap :: "time \<Rightarrow> time \<Rightarrow> (time \<times> time) list \<Rightarrow> time option" where
  "find_gap st d (a # b # ts) =
     (if st \<le> snd a \<and> d \<le> fst b - snd a then Some (snd a) else find_gap st d (b # ts))"
| "find_gap st d _ = None"

definition schedule :: "time \<Rightarrow> time \<Rightarrow> time \<Rightarrow> (time \<times> time) list \<Rightarrow> time" where
  "schedule flag st d ts = (case ts of [] \<Rightarrow> st | x # _ \<Rightarrow>
     (let s1 = (if st < fst x \<and> d \<le> fst x - st then st else flag);
          s2 = (if s1 = flag then (case find_gap st d ts of Some t \<Rightarrow> t | None \<Rightarrow> flag) else s1)
      in if s2 = flag then snd (last ts) else s2))"

definition Channel_lock :: "config \<Rightarrow> time \<Rightarrow> time \<Rightarrow> event \<Rightarrow> channel \<Rightarrow> (status \<times> event \<times> channel) option" where
  "Channel_lock c st d e ch = do {
     cassert (num_connected ch \<le> max_connections ch);
     cassert (0 \<le> ctrl_delay ch);
     cassert (0 \<le> data_delay ch);
     cassert (0 \<le> st);
     cassert (0 \<le> d);
     let ts = Channel_unlock st (timings ch);
     let sched = schedule (BUS_CHANNEL_FREE_FLAG c) st d ts;
     let e1 = incr_time_taken (sched - st + d) (incr_bus_wait_time (sched - st) e);
     Some (SUCCESS, e1, ch\<lparr>timings := ts @ [(sched, sched + d)],
       ready_at := (if ready_at ch < sched + d then sched + d else ready_at ch)\<rparr>)
   }"

definition Channel_ready_time :: "channel \<Rightarrow> time" where
  "Channel_ready_time ch = ready_at ch"

section \<open>The bus\<close>

record bus =
  num_channels :: uint
  channels :: "channel list"

definition Bus_new :: "uint \<Rightarrow> time \<Rightarrow> time \<Rightarrow> uint \<Rightarrow> uint \<Rightarrow> bus option" where
  "Bus_new n cd dd table_size maxc = do {
     cassert (0 < table_size);
     let cd1 = (if cd < 0 then 0 else cd);
     let dd1 = (if dd < 0 then 0 else dd);
     Some \<lparr>num_channels = n, channels = replicate n (Channel_new cd1 dd1 table_size maxc)\<rparr>
   }"

definition Bus_connect :: "uint \<Rightarrow> bus \<Rightarrow> (status \<times> bus) option" where
  "Bus_connect i b = do {
     cassert (i < num_channels b);
     ch \<leftarrow> aget (channels b) i;
     let (s, ch') = Channel_connect ch;
     Some (s, b\<lparr>channels := (channels b)[i := ch']\<rparr>)
   }"

definition Bus_disconnect :: "uint \<Rightarrow> bus \<Rightarrow> (status \<times> bus) option" where
  "Bus_disconnect i b = do {
     cassert (i < num_channels b);
     ch \<leftarrow> aget (channels b) i;
     let (s, ch') = Channel_disconnect ch;
     Some (s, b\<lparr>channels := (channels b)[i := ch']\<rparr>)
   }"

text \<open>\<open>Bus::lock\<close> has no check of the channel number against \<open>num_channels\<close>.\<close>

definition Bus_lock :: "config \<Rightarrow> uint \<Rightarrow> time \<Rightarrow> time \<Rightarrow> event \<Rightarrow> bus \<Rightarrow> (status \<times> event \<times> bus) option" where
  "Bus_lock c i st d e b = do {
     cassert (0 \<le> st \<and> 0 < d);
     ch \<leftarrow> aget (channels b) i;
     (s, e', ch') \<leftarrow> Channel_lock c st d e ch;
     Some (s, e', b\<lparr>channels := (channels b)[i := ch']\<rparr>)
   }"

definition Bus_get_channel :: "uint \<Rightarrow> bus \<Rightarrow> channel option" where
  "Bus_get_channel i b = do { cassert (i < num_channels b); aget (channels b) i }"

definition Bus_ready_time :: "uint \<Rightarrow> bus \<Rightarrow> time option" where
  "Bus_ready_time i b = map_option Channel_ready_time (Bus_get_channel i b)"

section \<open>Disjointness of a schedule\<close>

definition slot_disjoint :: "time \<times> time \<Rightarrow> time \<times> time \<Rightarrow> bool" where
  "slot_disjoint a b \<longleftrightarrow> snd a \<le> fst b \<or> snd b \<le> fst a"

definition schedule_ok :: "(time \<times> time) list \<Rightarrow> bool" where
  "schedule_ok ts \<longleftrightarrow> sorted_wrt slot_disjoint ts \<and> list_all (\<lambda>t. 0 \<le> fst t \<and> fst t < snd t) ts"

definition channel_ok :: "channel \<Rightarrow> bool" where
  "channel_ok ch \<longleftrightarrow> schedule_ok (timings ch) \<and> list_all (\<lambda>t. snd t \<le> ready_at ch) (timings ch)
     \<and> num_connected ch \<le> max_connections ch \<and> 0 \<le> ctrl_delay ch \<and> 0 \<le> data_delay ch"

definition bus_ok :: "bus \<Rightarrow> bool" where
  "bus_ok b \<longleftrightarrow> length (channels b) = num_channels b \<and> list_all channel_ok (channels b)"

lemma slot_disjoint_sym: "slot_disjoint a b = slot_disjoint b a"
  by (auto simp: slot_disjoint_def)

lemma disjoint_insort:
  "sorted_wrt slot_disjoint (insort_key fst x xs) \<longleftrightarrow>
     (\<forall>y\<in>set xs. slot_disjoint x y) \<and> sorted_wrt slot_disjoint xs"
  by (induction xs) (auto simp: set_insort_key slot_disjoint_sym)

lemma disjoint_sort: "sorted_wrt slot_disjoint (sort_key fst xs) = sorted_wrt slot_disjoint xs"
  by (induction xs) (simp_all add: disjoint_insort)

lemma schedule_ok_unlock:
  assumes "schedule_ok ts"
  shows "schedule_ok (Channel_unlock st ts)"
  using assms
  by (auto simp: schedule_ok_def Channel_unlock_def disjoint_sort sorted_wrt_filter list_all_iff)

lemma unlock_later: "x \<in> set (Channel_unlock st ts) \<Longrightarrow> x \<in> set ts \<and> st < snd x"
  by (auto simp: Channel_unlock_def)

text \<open>In a table sorted by lock time, disjoint intervals follow one another.\<close>

lemma sorted_slots_follow:
  assumes "schedule_ok ts" "sorted (map fst ts)"
  shows "sorted_wrt (\<lambda>a b. snd a \<le> fst b) ts"
  using assms
proof (induction ts)
  case (Cons a ts)
  have "snd a \<le> fst b" if "b \<in> set ts" for b
    using Cons.prems that by (fastforce simp: schedule_ok_def slot_disjoint_def list_all_iff)
  then show ?case using Cons by (auto simp: schedule_ok_def)
qed simp

lemma last_slot:
  "sorted_wrt (\<lambda>a b. snd a \<le> fst b) ts \<Longrightarrow> list_all (\<lambda>t. fst t < snd t) ts \<Longrightarrow> x \<in> set ts \<Longrightarrow>
   snd x \<le> snd (last ts)" for x :: "time \<times> time"
proof (induction ts)
  case (Cons a ts)
  show ?case
  proof (cases "ts = []")
    case False
    then have l: "last ts \<in> set ts" by simp
    with Cons.prems(1,2) have "snd a \<le> fst (last ts)" "fst (last ts) < snd (last ts)"
      by (auto simp: list_all_iff)
    then have "snd a \<le> snd (last ts)" by simp
    with Cons False show ?thesis by auto
  qed (use Cons.prems in simp)
qed simp

lemma find_gap_fits:
  assumes "sorted_wrt (\<lambda>a b. snd a \<le> fst b) ts" "list_all (\<lambda>t. fst t < snd t) ts"
    "find_gap st d ts = Some t" "0 < d" "list_all (\<lambda>t. st < snd t) ts"
  shows "st \<le> t \<and> (\<forall>x\<in>set ts. slot_disjoint (t, t + d) x)"
  using assms
proof (induction st d ts rule: find_gap.induct)
  case (1 st d a b ts)
  show ?case
  proof (cases "st \<le> snd a \<and> d \<le> fst b - snd a")
    case True
    with 1(4) have t: "t = snd a" by simp
    have "fst b \<le> fst x" if "x \<in> set (b # ts)" for x using that 1(2,3) by (fastforce simp: list_all_iff)
    then show ?thesis using True t 1(3) by (fastforce simp: slot_disjoint_def list_all_iff)
  next
    case False
    with 1 have IH: "st \<le> t \<and> (\<forall>x\<in>set (b # ts). slot_disjoint (t, t + d) x)" by auto
    have "t \<in> snd ` set (b # ts)" if "find_gap st d (b # ts) = Some t" for t
      using that by (induction st d "b # ts" arbitrary: b ts rule: find_gap.induct) (auto split: if_splits)
    with False 1(4) have "t \<in> snd ` set (b # ts)" by (simp del: list.set split: if_splits)
    then obtain y where "y \<in> set (b # ts)" "t = snd y" by blast
    then have "snd a \<le> t" using 1(2,3) by (fastforce simp: list_all_iff)
    then show ?thesis using IH by (simp add: slot_disjoint_def)
  qed
qed simp_all

lemma schedule_fits:
  assumes "schedule_ok ts" "sorted (map fst ts)" "list_all (\<lambda>t. st < snd t) ts" "0 < d" "0 \<le> st" "flag < 0"
  shows "st \<le> schedule flag st d ts \<and> (\<forall>x\<in>set ts. slot_disjoint (schedule flag st d ts, schedule flag st d ts + d) x)"
proof (cases ts)
  case Nil
  then show ?thesis by (simp add: schedule_def)
next
  case (Cons a us)
  note follow = sorted_slots_follow [OF assms(1,2)]
  have pos: "list_all (\<lambda>t. fst t < snd t) ts" using assms(1) by (auto simp: schedule_ok_def list_all_iff)
  note upto = last_slot [OF follow pos]
  have late: "st < snd (last ts)" using assms(3) Cons by (auto simp: list_all_iff)
  consider (first) "st < fst a" "d \<le> fst a - st"
    | (gap) t where "\<not> (st < fst a \<and> d \<le> fst a - st)" "find_gap st d ts = Some t"
    | (after) "\<not> (st < fst a \<and> d \<le> fst a - st)" "find_gap st d ts = None"
    by (cases "find_gap st d ts") auto
  then show ?thesis
  proof cases
    case first
    moreover have "fst a \<le> fst x" if "x \<in> set ts" for x using assms(2) that Cons by auto
    ultimately show ?thesis using Cons assms(5,6) by (fastforce simp: schedule_def slot_disjoint_def)
  next
    case gap
    from find_gap_fits [OF follow pos gap(2) assms(4,3)]
    have t: "st \<le> t" "\<forall>x\<in>set ts. slot_disjoint (t, t + d) x" by auto
    moreover have "t \<noteq> flag" using t(1) assms(5,6) by simp
    ultimately show ?thesis using gap Cons by (auto simp: schedule_def Let_def)
  next
    case after
    then have "schedule flag st d ts = snd (last ts)" using Cons by (auto simp: schedule_def Let_def)
    then show ?thesis using upto late by (simp add: slot_disjoint_def)
  qed
qed

lemma channel_ok_new:
  "0 \<le> cd \<Longrightarrow> 0 \<le> dd \<Longrightarrow> channel_ok (Channel_new cd dd n maxc)"
  by (simp add: channel_ok_def Channel_new_def schedule_ok_def)

lemma bus_ok_new: "Bus_new n cd dd ts maxc = Some b \<Longrightarrow> bus_ok b"
  by (auto simp: Bus_new_def bus_ok_def Let_def list_all_iff intro!: channel_ok_new split: if_splits)

lemma channel_ok_connect: "channel_ok ch \<Longrightarrow> max_connections ch < 2 ^ 32 \<Longrightarrow> channel_ok (snd (Channel_connect ch))"
  by (auto simp: Channel_connect_def channel_ok_def inc32_def)

text \<open>What a lock does: the slot it takes, and how the event and the channel change.\<close>

lemma Channel_lock_slot:
  assumes ok: "channel_ok ch" and d: "0 < d" "0 \<le> st" "BUS_CHANNEL_FREE_FLAG c < 0"
  obtains t where "st \<le> t"
    and "\<forall>x\<in>set (Channel_unlock st (timings ch)). slot_disjoint (t, t + d) x"
    and "Channel_lock c st d e ch = Some (SUCCESS,
      incr_time_taken (t - st + d) (incr_bus_wait_time (t - st) e),
      ch\<lparr>timings := Channel_unlock st (timings ch) @ [(t, t + d)], ready_at := max (ready_at ch) (t + d)\<rparr>)"
    and "t = schedule (BUS_CHANNEL_FREE_FLAG c) st d (Channel_unlock st (timings ch))"
proof -
  let ?ts = "Channel_unlock st (timings ch)"
  have "schedule_ok ?ts" using ok by (simp add: channel_ok_def schedule_ok_unlock)
  moreover have "sorted (map fst ?ts)" by (simp add: Channel_unlock_def)
  moreover have "list_all (\<lambda>t. st < snd t) ?ts" using unlock_later by (auto simp: list_all_iff)
  ultimately have "st \<le> schedule (BUS_CHANNEL_FREE_FLAG c) st d ?ts \<and>
      (\<forall>x\<in>set ?ts. slot_disjoint (schedule (BUS_CHANNEL_FREE_FLAG c) st d ?ts,
         schedule (BUS_CHANNEL_FREE_FLAG c) st d ?ts + d) x)"
    by (rule schedule_fits) (use d in simp_all)
  then show thesis
    using ok d
    by (intro that) (auto simp: Channel_lock_def channel_ok_def Let_def max_def)
qed

lemma Channel_lock_ok:
  assumes ok: "channel_ok ch" and d: "0 < d" "0 \<le> st" "BUS_CHANNEL_FREE_FLAG c < 0"
    and lock: "Channel_lock c st d e ch = Some (s, e', ch')"
  shows "channel_ok ch'"
proof -
  from Channel_lock_slot [OF ok d, of e] obtain t where t: "st \<le> t"
    "\<forall>x\<in>set (Channel_unlock st (timings ch)). slot_disjoint (t, t + d) x"
    "Channel_lock c st d e ch = Some (SUCCESS,
      incr_time_taken (t - st + d) (incr_bus_wait_time (t - st) e),
      ch\<lparr>timings := Channel_unlock st (timings ch) @ [(t, t + d)], ready_at := max (ready_at ch) (t + d)\<rparr>)"
    by metis
  have old: "schedule_ok (Channel_unlock st (timings ch))"
    using ok by (simp add: channel_ok_def schedule_ok_unlock)
  then have "schedule_ok (Channel_unlock st (timings ch) @ [(t, t + d)])"
    using t(1,2) d by (auto simp: schedule_ok_def sorted_wrt_append slot_disjoint_sym)
  then show ?thesis
    using ok lock t(3) unlock_later [of _ st "timings ch"]
    by (fastforce simp: channel_ok_def list_all_iff)
qed

lemma Channel_lock_progress:
  "Channel_lock c st d e ch = Some (s, e', ch') \<Longrightarrow> progress e e' \<and> s = SUCCESS"
  by (auto simp: Channel_lock_def Let_def split: if_splits
      intro!: progress_trans [OF progress_incr_wait progress_incr_time])

end
