(* ===== verification/Ssd_Die.thy ===== *)
theory Ssd_Die
  imports Ssd_Plane Ssd_Channel
begin

text \<open>
  \<open>ssd_die.cpp\<close>: a die forwards events to its planes, keeps the wear statistics over them
  and connects to its channel when it is built. A merge inside one plane is the plane's; a
  merge across planes is a stub that succeeds without doing anything.
\<close>

section \<open>State and operations\<close>

record die_unit =
  dsize :: uint
  ddata :: "pln list"
  d_least_worn :: uint
  d_erases_remaining :: ulong
  d_last_erase_time :: time

definition Die_new :: "config \<Rightarrow> time \<Rightarrow> ulong \<Rightarrow> channel \<Rightarrow> uint \<Rightarrow> nat \<Rightarrow> die_unit \<times> channel" where
  "Die_new c junk ajunk ch sz pa = (\<lparr>dsize = sz,
     ddata = map (\<lambda>i. Plane_new c junk ajunk (PLANE_SIZE c) (PLANE_REG_READ_DELAY c) (PLANE_REG_WRITE_DELAY c)
                        (pa + mul32 (mul32 (PLANE_SIZE c) (BLOCK_SIZE c)) i)) [0..<sz],
     d_least_worn = 0, d_erases_remaining = BLOCK_ERASES c, d_last_erase_time = 0\<rparr>,
     snd (Channel_connect ch))"

definition die_addressed :: "event \<Rightarrow> die_unit \<Rightarrow> bool" where
  "die_addressed e d \<longleftrightarrow> plane (ev_address e) < dsize d \<and> DIE < valid (ev_address e)"

definition Die_read :: "config \<Rightarrow> event \<Rightarrow> die_unit \<Rightarrow> env \<Rightarrow> die_unit outcome" where
  "Die_read c e d g = do {
     cassert (die_addressed e d);
     (s, e1, ps, g1) \<leftarrow> forward (plane (ev_address e)) (Plane_read c e) (ddata d) g;
     Some (s, e1, d\<lparr>ddata := ps\<rparr>, g1)
   }"

definition Die_write :: "config \<Rightarrow> event \<Rightarrow> die_unit \<Rightarrow> env \<Rightarrow> die_unit outcome" where
  "Die_write c e d g = do {
     cassert (die_addressed e d);
     (s, e1, ps, g1) \<leftarrow> forward (plane (ev_address e)) (Plane_write c e) (ddata d) g;
     Some (s, e1, d\<lparr>ddata := ps\<rparr>, g1)
   }"

definition Die_replace :: "config \<Rightarrow> event \<Rightarrow> die_unit \<Rightarrow> env \<Rightarrow> die_unit outcome" where
  "Die_replace c e d g = do {
     cassert (plane (ev_address e) < dsize d);
     (s, e1, ps, g1) \<leftarrow> forward (plane (replace_address e)) (Plane_replace c e) (ddata d) g;
     Some (s, e1, d\<lparr>ddata := ps\<rparr>, g1)
   }"

text \<open>\<open>collect f us\<close> reads the same query from every child, in order.\<close>

definition collect :: "('u \<Rightarrow> 'a option) \<Rightarrow> 'u list \<Rightarrow> 'a list option" where
  "collect f us = (if list_all (\<lambda>u. f u \<noteq> None) us then Some (map (the \<circ> f) us) else None)"

definition Die_update_wear_stats :: "address \<Rightarrow> die_unit \<Rightarrow> die_unit option" where
  "Die_update_wear_stats a d = do {
     p0 \<leftarrow> aget (ddata d) 0;
     es \<leftarrow> collect (Plane_get_erases_remaining a) (ddata d);
     let k = wear_index es;
     pk \<leftarrow> aget (ddata d) k;
     t \<leftarrow> Plane_get_last_erase_time a pk;
     Some (d\<lparr>d_least_worn := k, d_erases_remaining := hd es, d_last_erase_time := t\<rparr>)
   }"

definition Die_erase :: "config \<Rightarrow> event \<Rightarrow> die_unit \<Rightarrow> env \<Rightarrow> die_unit outcome" where
  "Die_erase c e d g = do {
     cassert (die_addressed e d);
     (s, e1, ps, g1) \<leftarrow> forward (plane (ev_address e)) (Plane_erase c e) (ddata d) g;
     let d1 = d\<lparr>ddata := ps\<rparr>;
     if s = SUCCESS then do {
       d2 \<leftarrow> Die_update_wear_stats (ev_address e1) d1;
       Some (s, e1, d2, g1)
     } else Some (s, e1, d1, g1)
   }"

definition merge_addressed :: "event \<Rightarrow> die_unit \<Rightarrow> bool" where
  "merge_addressed e d \<longleftrightarrow> die_addressed e d \<and> plane (merge_address e) < dsize d \<and> DIE < valid (merge_address e)"

definition Die_merge_across :: "event \<Rightarrow> die_unit \<Rightarrow> env \<Rightarrow> die_unit outcome" where
  "Die_merge_across e d g = do {
     cassert (merge_addressed e d);
     cassert (plane (ev_address e) \<noteq> plane (merge_address e));
     Some (SUCCESS, e, d, g)
   }"

definition Die_merge :: "config \<Rightarrow> ulong \<Rightarrow> event \<Rightarrow> die_unit \<Rightarrow> env \<Rightarrow> die_unit outcome" where
  "Die_merge c junk e d g = do {
     cassert (merge_addressed e d);
     if plane (ev_address e) \<noteq> plane (merge_address e) then Die_merge_across e d g
     else do {
       (s, e1, ps, g1) \<leftarrow> forward (plane (ev_address e)) (Plane_merge c junk e) (ddata d) g;
       Some (s, e1, d\<lparr>ddata := ps\<rparr>, g1)
     }
   }"

section \<open>Queries\<close>

definition Die_get_last_erase_time :: "address \<Rightarrow> die_unit \<Rightarrow> time option" where
  "Die_get_last_erase_time a d =
     (if DIE < valid a \<and> plane a < dsize d
      then Option.bind (aget (ddata d) (plane a)) (Plane_get_last_erase_time a)
      else Some (d_last_erase_time d))"

definition Die_get_erases_remaining :: "address \<Rightarrow> die_unit \<Rightarrow> ulong option" where
  "Die_get_erases_remaining a d =
     (if DIE < valid a \<and> plane a < dsize d
      then Option.bind (aget (ddata d) (plane a)) (Plane_get_erases_remaining a)
      else Some (d_erases_remaining d))"

definition Die_get_least_worn :: "die_unit \<Rightarrow> address \<Rightarrow> address option" where
  "Die_get_least_worn d a = do {
     cassert (d_least_worn d < dsize d);
     p \<leftarrow> aget (ddata d) (d_least_worn d);
     Plane_get_least_worn p (a\<lparr>plane := d_least_worn d, valid := PLANE\<rparr>)
   }"

definition Die_get_state :: "address \<Rightarrow> die_unit \<Rightarrow> page_state option" where
  "Die_get_state a d = do {
     cassert (plane a < dsize d \<and> DIE \<le> valid a);
     p \<leftarrow> aget (ddata d) (plane a);
     Plane_get_state a p
   }"

definition Die_get_block_state :: "address \<Rightarrow> die_unit \<Rightarrow> block_state option" where
  "Die_get_block_state a d = do {
     cassert (plane a < dsize d \<and> DIE \<le> valid a);
     p \<leftarrow> aget (ddata d) (plane a);
     Plane_get_block_state a p
   }"

definition Die_get_free_page :: "config \<Rightarrow> die_unit \<Rightarrow> address \<Rightarrow> address option" where
  "Die_get_free_page c d a = do {
     cassert (plane a < dsize d \<and> PLANE \<le> valid a);
     p \<leftarrow> aget (ddata d) (plane a);
     Plane_get_free_page c p a
   }"

definition Die_get_num_free :: "address \<Rightarrow> die_unit \<Rightarrow> uint option" where
  "Die_get_num_free a d = do { cassert (PLANE \<le> valid a); p \<leftarrow> aget (ddata d) (plane a); Plane_get_num_free a p }"

definition Die_get_num_valid :: "address \<Rightarrow> die_unit \<Rightarrow> uint option" where
  "Die_get_num_valid a d = do { cassert (PLANE \<le> valid a); p \<leftarrow> aget (ddata d) (plane a); Plane_get_num_valid a p }"

definition Die_get_num_invalid :: "address \<Rightarrow> die_unit \<Rightarrow> uint option" where
  "Die_get_num_invalid a d = do { cassert (PLANE \<le> valid a); p \<leftarrow> aget (ddata d) (plane a); Plane_get_num_invalid a p }"

definition Die_get_block_pointer :: "address \<Rightarrow> die_unit \<Rightarrow> blk option" where
  "Die_get_block_pointer a d = do { cassert (PLANE \<le> valid a); p \<leftarrow> aget (ddata d) (plane a); Plane_get_block_pointer a p }"

definition Die_exec :: "ulong \<Rightarrow> config \<Rightarrow> unit_op \<Rightarrow> event \<Rightarrow> die_unit \<Rightarrow> env \<Rightarrow> die_unit outcome" where
  "Die_exec junk c a e d g = (case a of
       URead \<Rightarrow> Die_read c e d g | UWrite \<Rightarrow> Die_write c e d g | UErase \<Rightarrow> Die_erase c e d g
     | UReplace \<Rightarrow> Die_replace c e d g | UMerge \<Rightarrow> Die_merge c junk e d g)"

section \<open>The die invariant\<close>

definition die_ok :: "config \<Rightarrow> die_unit \<Rightarrow> bool" where
  "die_ok c d \<longleftrightarrow> length (ddata d) = dsize d \<and> 0 < dsize d \<and> list_all (plane_ok c) (ddata d)
     \<and> d_least_worn d < dsize d"

lemma Plane_exec_ops:
  "Plane_exec junk c URead = Plane_read c" "Plane_exec junk c UWrite = Plane_write c"
  "Plane_exec junk c UErase = Plane_erase c" "Plane_exec junk c UReplace = Plane_replace c"
  "Plane_exec junk c UMerge = Plane_merge c junk"
  by (simp_all add: fun_eq_iff Plane_exec_def)

lemma collect_length: "collect f us = Some es \<Longrightarrow> length es = length us"
  by (auto simp: collect_def split: if_splits)

lemma Die_update_wear_ok:
  assumes "Die_update_wear_stats a d = Some d'"
  shows "ddata d' = ddata d \<and> dsize d' = dsize d \<and> d_least_worn d' < length (ddata d)"
  using assms unfolding Die_update_wear_stats_def by (auto simp: bind_eq_Some_conv Let_def)

text \<open>
  Every operation of a die is one forwarded operation on one plane, followed by changes to
  the die's own statistics (or, for a merge across planes, nothing at all).
\<close>

definition die_forwards :: "ulong \<Rightarrow> config \<Rightarrow> unit_op \<Rightarrow> event \<Rightarrow> die_unit \<Rightarrow> env \<Rightarrow>
    status \<times> event \<times> die_unit \<times> env \<Rightarrow> bool" where
  "die_forwards junk c a e d g r \<longleftrightarrow> (case r of (s, e', d', g') \<Rightarrow>
     dsize d' = dsize d \<and> (d_least_worn d' = d_least_worn d \<or> d_least_worn d' < length (ddata d)) \<and>
     ((\<exists>i. (addressed a \<longrightarrow> i = plane (ev_address e)) \<and> forward i (Plane_exec junk c a e) (ddata d) g = Some (s, e', ddata d', g')) \<or>
      (\<not> addressed a \<and> e' = e \<and> d' = d \<and> g' = g)))"

lemma Die_forwards:
  assumes "Die_exec junk c a e d g = Some (s, e', d', g')"
  shows "die_forwards junk c a e d g (s, e', d', g')"
proof (cases a)
  case UErase
  with assms obtain ps where
    f: "forward (plane (ev_address e)) (Plane_erase c e) (ddata d) g = Some (s, e', ps, g')"
    and r: "d' = d\<lparr>ddata := ps\<rparr> \<or> Die_update_wear_stats (ev_address e') (d\<lparr>ddata := ps\<rparr>) = Some d'"
    unfolding Die_exec_def by (auto simp: Die_erase_def bind_eq_Some_conv Let_def split: if_splits)
  have "length ps = length (ddata d)" using f by (auto simp: forward_Some)
  then have "dsize d' = dsize d" "d_least_worn d' = d_least_worn d \<or> d_least_worn d' < length (ddata d)" "ddata d' = ps"
    using r Die_update_wear_ok [of _ "d\<lparr>ddata := ps\<rparr>" d'] by auto
  then show ?thesis using f UErase by (auto simp: die_forwards_def Plane_exec_ops)
next
  case URead
  then show ?thesis
    using assms by (auto simp: Die_exec_def Die_read_def die_forwards_def Plane_exec_ops bind_eq_Some_conv
        split: if_splits)
next
  case UWrite
  then show ?thesis
    using assms by (auto simp: Die_exec_def Die_write_def die_forwards_def Plane_exec_ops bind_eq_Some_conv
        split: if_splits)
next
  case UReplace
  then show ?thesis
    using assms by (auto simp: Die_exec_def Die_replace_def die_forwards_def Plane_exec_ops bind_eq_Some_conv
        split: if_splits)
next
  case UMerge
  then show ?thesis
    using assms
    by (auto simp: Die_exec_def Die_merge_def Die_merge_across_def die_forwards_def Plane_exec_ops
        bind_eq_Some_conv split: if_splits)
qed

lemma Die_exec_ok:
  assumes "Die_exec junk c a e d g = Some (s, e', d', g')"
  shows "die_ok c d \<Longrightarrow> die_ok c d'" "progress e e'"
    "die_ok c d \<Longrightarrow> length (active_cost g') = length (active_cost g)"
  using Die_forwards [OF assms] plane_unit.forward_keeps [of _ junk c a e "ddata d" g s e' "ddata d'" g']
    plane_unit.forward_adds_time [of _ junk c a e "ddata d" g s e' "ddata d'" g']
    plane_unit.forward_cost_size [of _ junk c a e "ddata d" g s e' "ddata d'" g']
  by (auto simp: die_forwards_def die_ok_def)

interpretation die_unit: storage_unit "Die_exec junk" die_ok for junk
  by unfold_locales (rule Die_exec_ok; assumption)+

lemma die_ok_new:
  assumes "0 < sz" "0 < PLANE_SIZE c" "0 < BLOCK_SIZE c" "BLOCK_SIZE c < 2 ^ 32" "BLOCK_ERASES c < 2 ^ 64"
  shows "die_ok c (fst (Die_new c junk aj ch sz pa))"
  using assms by (auto simp: die_ok_def Die_new_def list_all_iff intro!: plane_ok_new)

end
