(* ===== verification/Ssd_Package.thy ===== *)
theory Ssd_Package
  imports Ssd_Die
begin

text \<open>
  \<open>ssd_package.cpp\<close>: a package forwards events to its dies and keeps wear statistics. Its
  dies all connect to the one channel of the package, in order.
\<close>

section \<open>State and operations\<close>

record pkg =
  ksize :: uint
  kdata :: "die_unit list"
  k_least_worn :: uint
  k_erases_remaining :: ulong
  k_last_erase_time :: time

fun build_dies :: "config \<Rightarrow> time \<Rightarrow> ulong \<Rightarrow> nat \<Rightarrow> nat list \<Rightarrow> channel \<Rightarrow> die_unit list \<times> channel" where
  "build_dies c junk aj pa [] ch = ([], ch)"
| "build_dies c junk aj pa (i # is) ch =
     (let (d, ch1) = Die_new c junk aj ch (DIE_SIZE c)
                       (pa + mul32 (mul32 (mul32 (DIE_SIZE c) (PLANE_SIZE c)) (BLOCK_SIZE c)) i);
          (ds, ch2) = build_dies c junk aj pa is ch1
      in (d # ds, ch2))"

definition Package_new :: "config \<Rightarrow> time \<Rightarrow> ulong \<Rightarrow> channel \<Rightarrow> uint \<Rightarrow> nat \<Rightarrow> pkg \<times> channel" where
  "Package_new c junk aj ch sz pa =
     (let (ds, ch') = build_dies c junk aj pa [0..<sz] ch in
      (\<lparr>ksize = sz, kdata = ds, k_least_worn = 0, k_erases_remaining = BLOCK_ERASES c,
        k_last_erase_time = 0\<rparr>, ch'))"

definition package_addressed :: "event \<Rightarrow> pkg \<Rightarrow> bool" where
  "package_addressed e k \<longleftrightarrow> die (ev_address e) < ksize k \<and> PACKAGE < valid (ev_address e)"

definition Package_read :: "config \<Rightarrow> event \<Rightarrow> pkg \<Rightarrow> env \<Rightarrow> pkg outcome" where
  "Package_read c e k g = do {
     cassert (package_addressed e k);
     (s, e1, ds, g1) \<leftarrow> forward (die (ev_address e)) (Die_read c e) (kdata k) g;
     Some (s, e1, k\<lparr>kdata := ds\<rparr>, g1)
   }"

definition Package_write :: "config \<Rightarrow> event \<Rightarrow> pkg \<Rightarrow> env \<Rightarrow> pkg outcome" where
  "Package_write c e k g = do {
     cassert (package_addressed e k);
     (s, e1, ds, g1) \<leftarrow> forward (die (ev_address e)) (Die_write c e) (kdata k) g;
     Some (s, e1, k\<lparr>kdata := ds\<rparr>, g1)
   }"

definition Package_replace :: "config \<Rightarrow> event \<Rightarrow> pkg \<Rightarrow> env \<Rightarrow> pkg outcome" where
  "Package_replace c e k g = do {
     (s, e1, ds, g1) \<leftarrow> forward (die (replace_address e)) (Die_replace c e) (kdata k) g;
     Some (s, e1, k\<lparr>kdata := ds\<rparr>, g1)
   }"

definition Package_update_wear_stats :: "address \<Rightarrow> pkg \<Rightarrow> pkg option" where
  "Package_update_wear_stats a k = do {
     d0 \<leftarrow> aget (kdata k) 0;
     es \<leftarrow> collect (Die_get_erases_remaining a) (kdata k);
     let i = wear_index es;
     di \<leftarrow> aget (kdata k) i;
     t \<leftarrow> Die_get_last_erase_time a di;
     Some (k\<lparr>k_least_worn := i, k_erases_remaining := hd es, k_last_erase_time := t\<rparr>)
   }"

definition Package_erase :: "config \<Rightarrow> event \<Rightarrow> pkg \<Rightarrow> env \<Rightarrow> pkg outcome" where
  "Package_erase c e k g = do {
     cassert (package_addressed e k);
     (s, e1, ds, g1) \<leftarrow> forward (die (ev_address e)) (Die_erase c e) (kdata k) g;
     let k1 = k\<lparr>kdata := ds\<rparr>;
     if s = SUCCESS then do {
       k2 \<leftarrow> Package_update_wear_stats (ev_address e1) k1;
       Some (s, e1, k2, g1)
     } else Some (s, e1, k1, g1)
   }"

definition Package_merge :: "config \<Rightarrow> ulong \<Rightarrow> event \<Rightarrow> pkg \<Rightarrow> env \<Rightarrow> pkg outcome" where
  "Package_merge c junk e k g = do {
     cassert (package_addressed e k);
     (s, e1, ds, g1) \<leftarrow> forward (die (ev_address e)) (Die_merge c junk e) (kdata k) g;
     Some (s, e1, k\<lparr>kdata := ds\<rparr>, g1)
   }"

section \<open>Queries\<close>

definition Package_get_last_erase_time :: "address \<Rightarrow> pkg \<Rightarrow> time option" where
  "Package_get_last_erase_time a k =
     (if PACKAGE < valid a \<and> die a < ksize k
      then Option.bind (aget (kdata k) (die a)) (Die_get_last_erase_time a)
      else Some (k_last_erase_time k))"

definition Package_get_erases_remaining :: "address \<Rightarrow> pkg \<Rightarrow> ulong option" where
  "Package_get_erases_remaining a k =
     (if PACKAGE < valid a \<and> die a < ksize k
      then Option.bind (aget (kdata k) (die a)) (Die_get_erases_remaining a)
      else Some (k_erases_remaining k))"

definition Package_get_least_worn :: "pkg \<Rightarrow> address \<Rightarrow> address option" where
  "Package_get_least_worn k a = do {
     cassert (k_least_worn k < ksize k);
     d \<leftarrow> aget (kdata k) (k_least_worn k);
     Die_get_least_worn d (a\<lparr>die := k_least_worn k, valid := DIE\<rparr>)
   }"

definition Package_get_state :: "address \<Rightarrow> pkg \<Rightarrow> page_state option" where
  "Package_get_state a k = do {
     cassert (die a < ksize k \<and> PACKAGE \<le> valid a);
     d \<leftarrow> aget (kdata k) (die a);
     Die_get_state a d
   }"

definition Package_get_block_state :: "address \<Rightarrow> pkg \<Rightarrow> block_state option" where
  "Package_get_block_state a k = do {
     cassert (die a < ksize k \<and> PACKAGE \<le> valid a);
     d \<leftarrow> aget (kdata k) (die a);
     Die_get_block_state a d
   }"

definition Package_get_free_page :: "config \<Rightarrow> pkg \<Rightarrow> address \<Rightarrow> address option" where
  "Package_get_free_page c k a = do {
     cassert (die a < ksize k \<and> DIE \<le> valid a);
     d \<leftarrow> aget (kdata k) (die a);
     Die_get_free_page c d a
   }"

definition Package_get_num_free :: "address \<Rightarrow> pkg \<Rightarrow> uint option" where
  "Package_get_num_free a k = do { cassert (DIE \<le> valid a); d \<leftarrow> aget (kdata k) (die a); Die_get_num_free a d }"

definition Package_get_num_valid :: "address \<Rightarrow> pkg \<Rightarrow> uint option" where
  "Package_get_num_valid a k = do { cassert (DIE \<le> valid a); d \<leftarrow> aget (kdata k) (die a); Die_get_num_valid a d }"

definition Package_get_num_invalid :: "address \<Rightarrow> pkg \<Rightarrow> uint option" where
  "Package_get_num_invalid a k = do { cassert (DIE \<le> valid a); d \<leftarrow> aget (kdata k) (die a); Die_get_num_invalid a d }"

definition Package_get_block_pointer :: "address \<Rightarrow> pkg \<Rightarrow> blk option" where
  "Package_get_block_pointer a k = do { cassert (DIE \<le> valid a); d \<leftarrow> aget (kdata k) (die a); Die_get_block_pointer a d }"

definition Package_exec :: "ulong \<Rightarrow> config \<Rightarrow> unit_op \<Rightarrow> event \<Rightarrow> pkg \<Rightarrow> env \<Rightarrow> pkg outcome" where
  "Package_exec junk c a e k g = (case a of
       URead \<Rightarrow> Package_read c e k g | UWrite \<Rightarrow> Package_write c e k g | UErase \<Rightarrow> Package_erase c e k g
     | UReplace \<Rightarrow> Package_replace c e k g | UMerge \<Rightarrow> Package_merge c junk e k g)"

section \<open>The package invariant\<close>

definition package_ok :: "config \<Rightarrow> pkg \<Rightarrow> bool" where
  "package_ok c k \<longleftrightarrow> length (kdata k) = ksize k \<and> 0 < ksize k \<and> list_all (die_ok c) (kdata k)
     \<and> k_least_worn k < ksize k"

lemma Die_exec_ops:
  "Die_exec junk c URead = Die_read c" "Die_exec junk c UWrite = Die_write c"
  "Die_exec junk c UErase = Die_erase c" "Die_exec junk c UReplace = Die_replace c"
  "Die_exec junk c UMerge = Die_merge c junk"
  by (simp_all add: fun_eq_iff Die_exec_def)

lemma Package_update_wear_ok:
  assumes "Package_update_wear_stats a k = Some k'"
  shows "kdata k' = kdata k \<and> ksize k' = ksize k \<and> k_least_worn k' < length (kdata k)"
  using assms unfolding Package_update_wear_stats_def by (auto simp: bind_eq_Some_conv Let_def)

definition package_forwards :: "ulong \<Rightarrow> config \<Rightarrow> unit_op \<Rightarrow> event \<Rightarrow> pkg \<Rightarrow> env \<Rightarrow>
    status \<times> event \<times> pkg \<times> env \<Rightarrow> bool" where
  "package_forwards junk c a e k g r \<longleftrightarrow> (case r of (s, e', k', g') \<Rightarrow>
     ksize k' = ksize k \<and> (k_least_worn k' = k_least_worn k \<or> k_least_worn k' < length (kdata k)) \<and>
     (\<exists>i. (addressed a \<longrightarrow> i = die (ev_address e)) \<and> forward i (Die_exec junk c a e) (kdata k) g = Some (s, e', kdata k', g')))"

lemma Package_forwards:
  assumes "Package_exec junk c a e k g = Some (s, e', k', g')"
  shows "package_forwards junk c a e k g (s, e', k', g')"
proof (cases a)
  case UErase
  with assms obtain ds where
    f: "forward (die (ev_address e)) (Die_erase c e) (kdata k) g = Some (s, e', ds, g')"
    and r: "k' = k\<lparr>kdata := ds\<rparr> \<or> Package_update_wear_stats (ev_address e') (k\<lparr>kdata := ds\<rparr>) = Some k'"
    unfolding Package_exec_def by (auto simp: Package_erase_def bind_eq_Some_conv Let_def split: if_splits)
  have "length ds = length (kdata k)" using f by (auto simp: forward_Some)
  then have "ksize k' = ksize k" "k_least_worn k' = k_least_worn k \<or> k_least_worn k' < length (kdata k)" "kdata k' = ds"
    using r Package_update_wear_ok [of _ "k\<lparr>kdata := ds\<rparr>" k'] by auto
  then show ?thesis using f UErase by (auto simp: package_forwards_def Die_exec_ops)
next
  case URead
  then show ?thesis
    using assms by (auto simp: Package_exec_def Package_read_def package_forwards_def Die_exec_ops
        bind_eq_Some_conv split: if_splits)
next
  case UWrite
  then show ?thesis
    using assms by (auto simp: Package_exec_def Package_write_def package_forwards_def Die_exec_ops
        bind_eq_Some_conv split: if_splits)
next
  case UReplace
  then show ?thesis
    using assms by (auto simp: Package_exec_def Package_replace_def package_forwards_def Die_exec_ops
        bind_eq_Some_conv split: if_splits)
next
  case UMerge
  then show ?thesis
    using assms by (auto simp: Package_exec_def Package_merge_def package_forwards_def Die_exec_ops
        bind_eq_Some_conv split: if_splits)
qed

lemma Package_exec_ok:
  assumes "Package_exec junk c a e k g = Some (s, e', k', g')"
  shows "package_ok c k \<Longrightarrow> package_ok c k'" "progress e e'"
    "package_ok c k \<Longrightarrow> length (active_cost g') = length (active_cost g)"
  using Package_forwards [OF assms] die_unit.forward_keeps [of _ junk c a e "kdata k" g s e' "kdata k'" g']
    die_unit.forward_adds_time [of _ junk c a e "kdata k" g s e' "kdata k'" g']
    die_unit.forward_cost_size [of _ junk c a e "kdata k" g s e' "kdata k'" g']
  by (auto simp: package_forwards_def package_ok_def)

interpretation package_unit: storage_unit "Package_exec junk" package_ok for junk
  by unfold_locales (rule Package_exec_ok; assumption)+

lemma build_dies_ok:
  assumes "0 < DIE_SIZE c" "0 < PLANE_SIZE c" "0 < BLOCK_SIZE c" "BLOCK_SIZE c < 2 ^ 32" "BLOCK_ERASES c < 2 ^ 64"
  shows "list_all (die_ok c) (fst (build_dies c junk aj pa is ch)) \<and>
     length (fst (build_dies c junk aj pa is ch)) = length is"
proof (induction "is" arbitrary: ch)
  case (Cons i "is")
  show ?case
    using Cons.IH die_ok_new [OF assms]
    by (simp add: split_beta Let_def)
qed simp

lemma package_ok_new:
  assumes "0 < sz" "0 < DIE_SIZE c" "0 < PLANE_SIZE c" "0 < BLOCK_SIZE c" "BLOCK_SIZE c < 2 ^ 32" "BLOCK_ERASES c < 2 ^ 64"
  shows "package_ok c (fst (Package_new c junk aj ch sz pa))"
  using build_dies_ok [OF assms(2-), of junk aj pa "[0..<sz]" ch] assms(1)
  by (simp add: package_ok_def Package_new_def split_beta Let_def)

end
