(* ===== verification/Ssd_Device.thy ===== *)
theory Ssd_Device
  imports Ssd_Package
begin

text \<open>
  \<open>ssd_ssd.cpp\<close>: the whole device, with its RAM, its bus and its packages. The
  controller's request handling is an argument of \<open>Ssd_event_arrive\<close>; the controller this
  repository builds (\<open>flashsim_stubs.cpp\<close>) is \<open>Controller_event_arrive\<close>. The lemmas at the
  end lift what a block does to the device: which block an event reaches, and that every
  other block is left alone.
\<close>

section \<open>State and construction\<close>

record ssd =
  ssize :: uint
  s_ram :: ram
  s_bus :: bus
  sdata :: "pkg list"
  s_erases_remaining :: ulong
  s_least_worn :: ulong
  s_last_erase_time :: time

fun build_packages :: "config \<Rightarrow> time \<Rightarrow> ulong \<Rightarrow> nat list \<Rightarrow> bus \<Rightarrow> (pkg list \<times> bus) option" where
  "build_packages c junk aj [] b = Some ([], b)"
| "build_packages c junk aj (i # is) b = do {
     ch \<leftarrow> Bus_get_channel i b;
     let (k, ch') = Package_new c junk aj ch (PACKAGE_SIZE c)
        (mul32 (mul32 (mul32 (mul32 (PACKAGE_SIZE c) (DIE_SIZE c)) (PLANE_SIZE c)) (BLOCK_SIZE c)) i);
     (ks, b') \<leftarrow> build_packages c junk aj is (b\<lparr>channels := (channels b)[i := ch']\<rparr>);
     Some (k # ks, b')
   }"

definition Ssd_new :: "config \<Rightarrow> time \<Rightarrow> ulong \<Rightarrow> uint \<Rightarrow> ssd option" where
  "Ssd_new c junk aj sz = do {
     b \<leftarrow> Bus_new sz (BUS_CTRL_DELAY c) (BUS_DATA_DELAY c) (BUS_TABLE_SIZE c) (BUS_MAX_CONNECT c);
     (ks, b') \<leftarrow> build_packages c junk aj [0..<sz] b;
     cassert (0 < VIRTUAL_BLOCK_SIZE c);
     cassert (0 < VIRTUAL_PAGE_SIZE c);
     Some \<lparr>ssize = sz, s_ram = Ram_new (RAM_READ_DELAY c) (RAM_WRITE_DELAY c), s_bus = b', sdata = ks,
           s_erases_remaining = BLOCK_ERASES c, s_least_worn = 0, s_last_erase_time = 0\<rparr>
   }"

section \<open>Operations\<close>

definition ssd_addressed :: "event \<Rightarrow> ssd \<Rightarrow> bool" where
  "ssd_addressed e d \<longleftrightarrow> package (ev_address e) < ssize d \<and> PACKAGE \<le> valid (ev_address e)"

definition Ssd_read :: "config \<Rightarrow> event \<Rightarrow> ssd \<Rightarrow> env \<Rightarrow> ssd outcome" where
  "Ssd_read c e d g = do {
     cassert (ssd_addressed e d);
     (s, e1, ks, g1) \<leftarrow> forward (package (ev_address e)) (Package_read c e) (sdata d) g;
     Some (s, e1, d\<lparr>sdata := ks\<rparr>, g1)
   }"

definition Ssd_write :: "config \<Rightarrow> event \<Rightarrow> ssd \<Rightarrow> env \<Rightarrow> ssd outcome" where
  "Ssd_write c e d g = do {
     cassert (ssd_addressed e d);
     (s, e1, ks, g1) \<leftarrow> forward (package (ev_address e)) (Package_write c e) (sdata d) g;
     Some (s, e1, d\<lparr>sdata := ks\<rparr>, g1)
   }"

definition Ssd_replace :: "config \<Rightarrow> event \<Rightarrow> ssd \<Rightarrow> env \<Rightarrow> ssd outcome" where
  "Ssd_replace c e d g =
     (if valid (replace_address e) = NONE then Some (SUCCESS, e, d, g)
      else do {
        cassert (package (replace_address e) < ssize d);
        if valid (replace_address e) = PAGE then do {
          (s, e1, ks, g1) \<leftarrow> forward (package (replace_address e)) (Package_replace c e) (sdata d) g;
          Some (s, e1, d\<lparr>sdata := ks\<rparr>, g1)
        } else Some (SUCCESS, e, d, g)
      })"

definition Ssd_update_wear_stats :: "address \<Rightarrow> ssd \<Rightarrow> ssd option" where
  "Ssd_update_wear_stats a d = do {
     k0 \<leftarrow> aget (sdata d) 0;
     es \<leftarrow> collect (Package_get_erases_remaining a) (sdata d);
     let i = wear_index es;
     ki \<leftarrow> aget (sdata d) i;
     t \<leftarrow> Package_get_last_erase_time a ki;
     Some (d\<lparr>s_least_worn := i, s_erases_remaining := hd es, s_last_erase_time := t\<rparr>)
   }"

definition Ssd_erase :: "config \<Rightarrow> event \<Rightarrow> ssd \<Rightarrow> env \<Rightarrow> ssd outcome" where
  "Ssd_erase c e d g = do {
     cassert (ssd_addressed e d);
     (s, e1, ks, g1) \<leftarrow> forward (package (ev_address e)) (Package_erase c e) (sdata d) g;
     let d1 = d\<lparr>sdata := ks\<rparr>;
     if s = SUCCESS then do {
       d2 \<leftarrow> Ssd_update_wear_stats (ev_address e1) d1;
       Some (s, e1, d2, g1)
     } else Some (s, e1, d1, g1)
   }"

definition Ssd_merge :: "config \<Rightarrow> ulong \<Rightarrow> event \<Rightarrow> ssd \<Rightarrow> env \<Rightarrow> ssd outcome" where
  "Ssd_merge c junk e d g = do {
     cassert (ssd_addressed e d);
     (s, e1, ks, g1) \<leftarrow> forward (package (ev_address e)) (Package_merge c junk e) (sdata d) g;
     Some (s, e1, d\<lparr>sdata := ks\<rparr>, g1)
   }"

definition Ssd_merge_replacement_block :: "event \<Rightarrow> status" where
  "Ssd_merge_replacement_block e = SUCCESS"

section \<open>Queries\<close>

definition Ssd_get_erases_remaining :: "address \<Rightarrow> ssd \<Rightarrow> ulong option" where
  "Ssd_get_erases_remaining a d =
     (if package a < ssize d \<and> PACKAGE \<le> valid a
      then Option.bind (aget (sdata d) (package a)) (Package_get_erases_remaining a)
      else Some (s_erases_remaining d))"

definition Ssd_get_last_erase_time :: "address \<Rightarrow> ssd \<Rightarrow> time option" where
  "Ssd_get_last_erase_time a d =
     (if package a < ssize d \<and> PACKAGE \<le> valid a
      then Option.bind (aget (sdata d) (package a)) (Package_get_last_erase_time a)
      else Some (s_last_erase_time d))"

definition Ssd_get_least_worn :: "ssd \<Rightarrow> address \<Rightarrow> address option" where
  "Ssd_get_least_worn d a = do {
     cassert (s_least_worn d < ssize d);
     k \<leftarrow> aget (sdata d) (s_least_worn d);
     Package_get_least_worn k (a\<lparr>package := s_least_worn d, valid := PACKAGE\<rparr>)
   }"

definition Ssd_get_state :: "address \<Rightarrow> ssd \<Rightarrow> page_state option" where
  "Ssd_get_state a d = do {
     cassert (package a < ssize d \<and> PACKAGE \<le> valid a);
     k \<leftarrow> aget (sdata d) (package a);
     Package_get_state a k
   }"

definition Ssd_get_block_state :: "address \<Rightarrow> ssd \<Rightarrow> block_state option" where
  "Ssd_get_block_state a d = do {
     cassert (package a < ssize d \<and> PACKAGE \<le> valid a);
     k \<leftarrow> aget (sdata d) (package a);
     Package_get_block_state a k
   }"

definition Ssd_get_free_page :: "config \<Rightarrow> ssd \<Rightarrow> address \<Rightarrow> address option" where
  "Ssd_get_free_page c d a = do {
     cassert (package a < ssize d \<and> PACKAGE \<le> valid a);
     k \<leftarrow> aget (sdata d) (package a);
     Package_get_free_page c k a
   }"

definition Ssd_get_num_free :: "address \<Rightarrow> ssd \<Rightarrow> uint" where
  "Ssd_get_num_free a d = 0"

definition Ssd_get_num_valid :: "address \<Rightarrow> ssd \<Rightarrow> uint option" where
  "Ssd_get_num_valid a d = do { cassert (PACKAGE \<le> valid a); k \<leftarrow> aget (sdata d) (package a); Package_get_num_valid a k }"

definition Ssd_get_num_invalid :: "address \<Rightarrow> ssd \<Rightarrow> uint option" where
  "Ssd_get_num_invalid a d = do { cassert (PACKAGE \<le> valid a); k \<leftarrow> aget (sdata d) (package a); Package_get_num_invalid a k }"

definition Ssd_get_block_pointer :: "address \<Rightarrow> ssd \<Rightarrow> blk option" where
  "Ssd_get_block_pointer a d = do { cassert (PACKAGE \<le> valid a); k \<leftarrow> aget (sdata d) (package a); Package_get_block_pointer a k }"

text \<open>\<open>ready_at\<close>: the loop over the channels; \<open>None\<close> stands for \<open>numeric_limits<double>::max()\<close>.\<close>

fun ready_scan :: "bus \<Rightarrow> nat list \<Rightarrow> time option \<Rightarrow> time option option" where
  "ready_scan b [] nxt = Some nxt"
| "ready_scan b (i # is) nxt = do {
     t \<leftarrow> Bus_ready_time i b;
     ready_scan b is
       (if t \<noteq> - 1 \<and> (case nxt of None \<Rightarrow> True | Some m \<Rightarrow> t < m) then Some t else nxt)
   }"

definition Ssd_ready_at :: "ssd \<Rightarrow> time option" where
  "Ssd_ready_at d = do {
     nxt \<leftarrow> ready_scan (s_bus d) [0..<ssize d] None;
     Some (case nxt of None \<Rightarrow> - 1 | Some m \<Rightarrow> m)
   }"

section \<open>Requests\<close>

definition signed64 :: "ulong \<Rightarrow> int" where
  "signed64 n = (if n < 2 ^ 63 then int n else int n - 2 ^ 64)"

definition request_in_range :: "config \<Rightarrow> ulong \<Rightarrow> bool" where
  "request_in_range c la =
     (if VIRTUAL_PAGE_SIZE c = 1 then signed64 la \<le> int (total_pages c)
      else signed64 la * int (VIRTUAL_PAGE_SIZE c) \<le> int (total_pages c))"

definition Controller_event_arrive :: "event \<Rightarrow> ssd \<Rightarrow> env \<Rightarrow> ssd outcome" where
  "Controller_event_arrive e d g = Some (SUCCESS, e, d, g)"

definition Ssd_event_arrive ::
  "(event \<Rightarrow> ssd \<Rightarrow> env \<Rightarrow> ssd outcome) \<Rightarrow> config \<Rightarrow> ulong \<Rightarrow> event_type \<Rightarrow> ulong \<Rightarrow> uint \<Rightarrow> time \<Rightarrow>
   payload option \<Rightarrow> ssd \<Rightarrow> env \<Rightarrow> (time \<times> ssd \<times> env) option" where
  "Ssd_event_arrive arrive c junk ty la sz st buffer d g = do {
     cassert (0 \<le> st);
     cassert (request_in_range c la);
     e \<leftarrow> Event_new junk ty la sz st;
     (s, e1, d1, g1) \<leftarrow> arrive (e\<lparr>ev_payload := buffer\<rparr>) d g;
     t \<leftarrow> get_time_taken e1;
     Some (t, d1, g1)
   }"

definition Ssd_get_result_buffer :: "env \<Rightarrow> nat option" where
  "Ssd_get_result_buffer g = global_buffer g"

definition Ssd_exec :: "ulong \<Rightarrow> config \<Rightarrow> unit_op \<Rightarrow> event \<Rightarrow> ssd \<Rightarrow> env \<Rightarrow> ssd outcome" where
  "Ssd_exec junk c a e d g = (case a of
       URead \<Rightarrow> Ssd_read c e d g | UWrite \<Rightarrow> Ssd_write c e d g | UErase \<Rightarrow> Ssd_erase c e d g
     | UReplace \<Rightarrow> Ssd_replace c e d g | UMerge \<Rightarrow> Ssd_merge c junk e d g)"

section \<open>The device invariant\<close>

definition ssd_ok :: "config \<Rightarrow> ssd \<Rightarrow> bool" where
  "ssd_ok c d \<longleftrightarrow> length (sdata d) = ssize d \<and> 0 < ssize d \<and> list_all (package_ok c) (sdata d)
     \<and> s_least_worn d < ssize d"

lemma Package_exec_ops:
  "Package_exec junk c URead = Package_read c" "Package_exec junk c UWrite = Package_write c"
  "Package_exec junk c UErase = Package_erase c" "Package_exec junk c UReplace = Package_replace c"
  "Package_exec junk c UMerge = Package_merge c junk"
  by (simp_all add: fun_eq_iff Package_exec_def)

lemma Ssd_update_wear_ok:
  assumes "Ssd_update_wear_stats a d = Some d'"
  shows "sdata d' = sdata d \<and> ssize d' = ssize d \<and> s_least_worn d' < length (sdata d)"
  using assms unfolding Ssd_update_wear_stats_def by (auto simp: bind_eq_Some_conv Let_def)

definition ssd_forwards :: "ulong \<Rightarrow> config \<Rightarrow> unit_op \<Rightarrow> event \<Rightarrow> ssd \<Rightarrow> env \<Rightarrow>
    status \<times> event \<times> ssd \<times> env \<Rightarrow> bool" where
  "ssd_forwards junk c a e d g r \<longleftrightarrow> (case r of (s, e', d', g') \<Rightarrow>
     ssize d' = ssize d \<and> (s_least_worn d' = s_least_worn d \<or> s_least_worn d' < length (sdata d)) \<and>
     ((\<exists>i. (addressed a \<longrightarrow> i = package (ev_address e)) \<and> forward i (Package_exec junk c a e) (sdata d) g = Some (s, e', sdata d', g')) \<or>
      (\<not> addressed a \<and> e' = e \<and> d' = d \<and> g' = g)))"

lemma Ssd_forwards:
  assumes "Ssd_exec junk c a e d g = Some (s, e', d', g')"
  shows "ssd_forwards junk c a e d g (s, e', d', g')"
proof (cases a)
  case UErase
  with assms obtain ks where
    f: "forward (package (ev_address e)) (Package_erase c e) (sdata d) g = Some (s, e', ks, g')"
    and r: "d' = d\<lparr>sdata := ks\<rparr> \<or> Ssd_update_wear_stats (ev_address e') (d\<lparr>sdata := ks\<rparr>) = Some d'"
    unfolding Ssd_exec_def by (auto simp: Ssd_erase_def bind_eq_Some_conv Let_def split: if_splits)
  have "length ks = length (sdata d)" using f by (auto simp: forward_Some)
  then have "ssize d' = ssize d" "s_least_worn d' = s_least_worn d \<or> s_least_worn d' < length (sdata d)" "sdata d' = ks"
    using r Ssd_update_wear_ok [of _ "d\<lparr>sdata := ks\<rparr>" d'] by auto
  then show ?thesis using f UErase by (auto simp: ssd_forwards_def Package_exec_ops)
next
  case URead
  then show ?thesis
    using assms by (auto simp: Ssd_exec_def Ssd_read_def ssd_forwards_def Package_exec_ops
        bind_eq_Some_conv split: if_splits)
next
  case UWrite
  then show ?thesis
    using assms by (auto simp: Ssd_exec_def Ssd_write_def ssd_forwards_def Package_exec_ops
        bind_eq_Some_conv split: if_splits)
next
  case UReplace
  then show ?thesis
    using assms by (auto simp: Ssd_exec_def Ssd_replace_def ssd_forwards_def Package_exec_ops
        bind_eq_Some_conv split: if_splits)
next
  case UMerge
  then show ?thesis
    using assms by (auto simp: Ssd_exec_def Ssd_merge_def ssd_forwards_def Package_exec_ops
        bind_eq_Some_conv split: if_splits)
qed

lemma Ssd_exec_ok:
  assumes "Ssd_exec junk c a e d g = Some (s, e', d', g')"
  shows "ssd_ok c d \<Longrightarrow> ssd_ok c d'" "progress e e'"
    "ssd_ok c d \<Longrightarrow> length (active_cost g') = length (active_cost g)"
  using Ssd_forwards [OF assms] package_unit.forward_keeps [of _ junk c a e "sdata d" g s e' "sdata d'" g']
    package_unit.forward_adds_time [of _ junk c a e "sdata d" g s e' "sdata d'" g']
    package_unit.forward_cost_size [of _ junk c a e "sdata d" g s e' "sdata d'" g']
  by (auto simp: ssd_forwards_def ssd_ok_def)

interpretation ssd_unit: storage_unit "Ssd_exec junk" ssd_ok for junk
  by unfold_locales (rule Ssd_exec_ok; assumption)+

definition sizes_ok :: "config \<Rightarrow> bool" where
  "sizes_ok c \<longleftrightarrow> geometry_ok c \<and> BLOCK_SIZE c < 2 ^ 32 \<and> BLOCK_ERASES c < 2 ^ 64"

lemma build_packages_ok:
  "sizes_ok c \<Longrightarrow> build_packages c junk aj is b = Some (ks, b') \<Longrightarrow>
   list_all (package_ok c) ks \<and> length ks = length is"
proof (induction "is" arbitrary: b ks b')
  case (Cons i "is")
  then show ?case
    using package_ok_new [of "PACKAGE_SIZE c" c junk aj]
    by (auto simp: bind_eq_Some_conv sizes_ok_def geometry_ok_def split_beta Let_def)
qed simp

lemma ssd_ok_new:
  assumes "sizes_ok c" "0 < sz" "Ssd_new c junk aj sz = Some d"
  shows "ssd_ok c d"
  using assms build_packages_ok [OF assms(1)]
  by (fastforce simp: Ssd_new_def ssd_ok_def bind_eq_Some_conv split: if_splits)

section \<open>Which block an event reaches\<close>

definition same_block :: "address \<Rightarrow> address \<Rightarrow> bool" where
  "same_block a b \<longleftrightarrow> package a = package b \<and> die a = die b \<and> plane a = plane b \<and> block a = block b"

lemma die_forward_at:
  "Die_exec junk c a e d g = Some (s, e', d', g') \<Longrightarrow> addressed a \<Longrightarrow>
   forward (plane (ev_address e)) (Plane_exec junk c a e) (ddata d) g = Some (s, e', ddata d', g')"
  using Die_forwards [of junk c a e d g s e' d' g'] by (auto simp: die_forwards_def)

lemma package_forward_at:
  "Package_exec junk c a e d g = Some (s, e', d', g') \<Longrightarrow> addressed a \<Longrightarrow>
   forward (die (ev_address e)) (Die_exec junk c a e) (kdata d) g = Some (s, e', kdata d', g')"
  using Package_forwards [of junk c a e d g s e' d' g'] by (auto simp: package_forwards_def)

lemma ssd_forward_at:
  "Ssd_exec junk c a e d g = Some (s, e', d', g') \<Longrightarrow> addressed a \<Longrightarrow>
   forward (package (ev_address e)) (Package_exec junk c a e) (sdata d) g = Some (s, e', sdata d', g')"
  using Ssd_forwards [of junk c a e d g s e' d' g'] by (auto simp: ssd_forwards_def)

text \<open>The lookup of a block, level by level, for addresses valid down to the plane.\<close>

lemma block_pointer_levels:
  assumes "PLANE \<le> valid a"
  shows "Ssd_get_block_pointer a d = Option.bind (aget (sdata d) (package a)) (Package_get_block_pointer a)"
    "Package_get_block_pointer a k = Option.bind (aget (kdata k) (die a)) (Die_get_block_pointer a)"
    "Die_get_block_pointer a i = Option.bind (aget (ddata i) (plane a)) (Plane_get_block_pointer a)"
    "Plane_get_block_pointer a p = aget (pdata p) (block a)"
  unfolding Ssd_get_block_pointer_def Package_get_block_pointer_def [of a k] Die_get_block_pointer_def [of a i]
    Plane_get_block_pointer_def [of a p]
  using assms by simp_all

text \<open>One level: the child the event selects changes, its siblings do not.\<close>

lemma forward_lookup:
  assumes "forward i f us g = Some (s, e', us', g')"
  obtains u' where "f (us ! i) g = Some (s, e', u', g')" "aget us i = Some (us ! i)" "aget us' i = Some u'"
    and "\<And>j. j \<noteq> i \<Longrightarrow> aget us' j = aget us j"
proof -
  from assms obtain u' where u: "i < length us" "f (us ! i) g = Some (s, e', u', g')" "us' = us[i := u']"
    by (auto simp: forward_Some)
  then show thesis by (intro that [of u']) (auto simp: aget_def)
qed

lemma device_reaches:
  assumes x: "Ssd_exec junk c a e d g = Some (s, e', d', g')" and a: "addressed a"
  obtains b b' where "Ssd_get_block_pointer (ev_address e) d = Some b" "Block_exec c a e b g = Some (s, e', b', g')"
    "Ssd_get_block_pointer (ev_address e) d' = Some b'" "PLANE < valid (ev_address e)"
    "\<And>q. PLANE \<le> valid q \<Longrightarrow> \<not> same_block q (ev_address e) \<Longrightarrow> Ssd_get_block_pointer q d' = Ssd_get_block_pointer q d"
proof -
  let ?a = "ev_address e"
  from ssd_forward_at [OF x a] obtain k' where k: "Package_exec junk c a e (sdata d ! package ?a) g = Some (s, e', k', g')"
    "aget (sdata d) (package ?a) = Some (sdata d ! package ?a)" "aget (sdata d') (package ?a) = Some k'"
    "\<And>j. j \<noteq> package ?a \<Longrightarrow> aget (sdata d') j = aget (sdata d) j" by (elim forward_lookup) blast
  let ?k = "sdata d ! package ?a"
  from package_forward_at [OF k(1) a] obtain i' where i: "Die_exec junk c a e (kdata ?k ! die ?a) g = Some (s, e', i', g')"
    "aget (kdata ?k) (die ?a) = Some (kdata ?k ! die ?a)" "aget (kdata k') (die ?a) = Some i'"
    "\<And>j. j \<noteq> die ?a \<Longrightarrow> aget (kdata k') j = aget (kdata ?k) j" by (elim forward_lookup) blast
  let ?i = "kdata ?k ! die ?a"
  from die_forward_at [OF i(1) a] obtain p' where p: "Plane_exec junk c a e (ddata ?i ! plane ?a) g = Some (s, e', p', g')"
    "aget (ddata ?i) (plane ?a) = Some (ddata ?i ! plane ?a)" "aget (ddata i') (plane ?a) = Some p'"
    "\<And>j. j \<noteq> plane ?a \<Longrightarrow> aget (ddata i') j = aget (ddata ?i) j" by (elim forward_lookup) blast
  let ?p = "ddata ?i ! plane ?a"
  from Plane_forward_at(2) [OF p(1) a] obtain b' where b: "Block_exec c a e (pdata ?p ! block ?a) g = Some (s, e', b', g')"
    "aget (pdata ?p) (block ?a) = Some (pdata ?p ! block ?a)" "aget (pdata p') (block ?a) = Some b'"
    "\<And>j. j \<noteq> block ?a \<Longrightarrow> aget (pdata p') j = aget (pdata ?p) j" by (elim forward_lookup) blast
  have v: "PLANE < valid ?a" by (rule Plane_forward_at(1) [OF p(1) a])
  then have v': "PLANE \<le> valid ?a" by simp
  show thesis
  proof (rule that)
    show "Ssd_get_block_pointer ?a d = Some (pdata ?p ! block ?a)"
      unfolding block_pointer_levels [OF v'] k(2) bind.bind_lunit i(2) p(2) b(2) ..
    show "Ssd_get_block_pointer ?a d' = Some b'"
      unfolding block_pointer_levels [OF v'] k(3) bind.bind_lunit i(3) p(3) b(3) ..
    show "Block_exec c a e (pdata ?p ! block ?a) g = Some (s, e', b', g')" by (rule b(1))
    show "PLANE < valid ?a" by (rule v)
    fix q assume q: "PLANE \<le> valid q" and n: "\<not> same_block q ?a"
    show "Ssd_get_block_pointer q d' = Ssd_get_block_pointer q d"
    proof (cases "package q = package ?a \<and> die q = die ?a \<and> plane q = plane ?a")
      case True
      then show ?thesis using n b(4) k(2,3) i(2,3) p(2,3)
        by (simp add: block_pointer_levels [OF q] same_block_def del: aget_Some)
    next
      case False
      then show ?thesis using k i p
        by (cases "package q = package ?a"; cases "die q = die ?a")
           (simp_all add: block_pointer_levels [OF q] del: aget_Some)
    qed
  qed
qed

end
