(* ===== verification/Trace_Drivers.thy ===== *)
theory Trace_Drivers
  imports Ftl_Simple Ssd_Device
begin

text \<open>
  The host programs of the simulator: \<open>SSDSim.cpp\<close>, \<open>run_test2.cpp\<close>, \<open>run_raid.cpp\<close>,
  \<open>run_correctness.cpp\<close>, \<open>run_bimodal.cpp\<close> and \<open>verification.cpp\<close>. They send requests to
  \<open>Ssd::event_arrive\<close> and work with the times it returns. The locale \<open>disk\<close> states the one law
  they rely on, that a request takes no negative time, and \<open>serving_disk\<close> adds which
  requests are answered; \<open>Ssd_event_arrive\<close> is the instance. Printing is left out, except
  for the report files and the messages of the comparison.
\<close>

type_synonym 'w arrive = "event_type \<Rightarrow> ulong \<Rightarrow> uint \<Rightarrow> time \<Rightarrow> payload option \<Rightarrow> 'w \<Rightarrow> (time \<times> 'w) option"

definition ssd_arrive :: "(event \<Rightarrow> ssd \<Rightarrow> env \<Rightarrow> ssd outcome) \<Rightarrow> config \<Rightarrow> ulong \<Rightarrow> (ssd \<times> env) arrive" where
  "ssd_arrive h c junk ty la sz st b = (\<lambda>(d, g). Ssd_event_arrive h c junk ty la sz st b d g)"

text \<open>Conversion to \<open>int\<close>, modulo the width, and of a \<open>double\<close>, undefined outside the range.\<close>

definition int32 :: "int \<Rightarrow> int" where
  "int32 x = (x + 2 ^ 31) mod 2 ^ 32 - 2 ^ 31"

definition double_to_int :: "real \<Rightarrow> int option" where
  "double_to_int x = (let n = (if x < 0 then \<lceil>x\<rceil> else \<lfloor>x\<rfloor>) in if - (2 ^ 31) \<le> n \<and> n < 2 ^ 31 then Some n else None)"

text \<open>Requests one after the other, at given times.\<close>

fun requests :: "'w arrive \<Rightarrow> (event_type \<times> ulong \<times> time \<times> payload option) list \<Rightarrow> 'w \<Rightarrow> (time list \<times> 'w) option" where
  "requests arrive [] w = Some ([], w)"
| "requests arrive ((ty, la, st, b) # rs) w = do {
     (t, w1) \<leftarrow> arrive ty la 1 st b w;
     (ts, w2) \<leftarrow> requests arrive rs w1;
     Some (t # ts, w2)
   }"

section \<open>\<open>SSDSim.cpp\<close>\<close>

text \<open>A \<open>timeval\<close> is a pair of seconds and microseconds.\<close>

definition request_time :: "int \<times> int \<Rightarrow> int \<times> int \<Rightarrow> time" where
  "request_time boot now = of_int ((fst now - fst boot) * 1000) + of_int (snd now - snd boot) / 1000 + 1 / 2"

partial_function (option) ssdsim_loop ::
  "'w arrive \<Rightarrow> uint \<Rightarrow> event_type \<Rightarrow> ulong \<Rightarrow> int \<Rightarrow> time \<Rightarrow> int \<Rightarrow> 'w \<Rightarrow> (time list \<times> 'w) option" where
  "ssdsim_loop arrive ps ty address sz time i w =
     (if i < sz
      then Option.bind (arrive ty address 1 time None w) (\<lambda>(t, w1).
           Option.bind (ssdsim_loop arrive ps ty address sz time (int32 (i + int ps)) w1) (\<lambda>(ts, w2). Some (t # ts, w2)))
      else Some ([], w))"

definition SSD_Write :: "'w arrive \<Rightarrow> uint \<Rightarrow> int \<times> int \<Rightarrow> int \<times> int \<Rightarrow> ulong \<Rightarrow> int \<Rightarrow> 'w \<Rightarrow> (time list \<times> 'w) option" where
  "SSD_Write arrive ps boot now address sz w = ssdsim_loop arrive ps WRITE address sz (request_time boot now) 0 w"

definition SSD_Read :: "'w arrive \<Rightarrow> uint \<Rightarrow> int \<times> int \<Rightarrow> int \<times> int \<Rightarrow> ulong \<Rightarrow> int \<Rightarrow> 'w \<Rightarrow> (time list \<times> 'w) option" where
  "SSD_Read arrive ps boot now address sz w = ssdsim_loop arrive ps READ address sz (request_time boot now) 0 w"

section \<open>\<open>run_test2.cpp\<close> and \<open>run_raid.cpp\<close>\<close>

definition test2_requests :: "config \<Rightarrow> (event_type \<times> ulong \<times> time \<times> payload option) list" where
  "test2_requests c = (let delta = (if 0 < BUS_DATA_DELAY c - 2 then BUS_DATA_DELAY c - 2 else BUS_DATA_DELAY c) in
     concat (map (\<lambda>i. [(WRITE, i, 1 + real i * delta, None), (WRITE, i + 10240, 1 + real i * delta, None)]) [0..<10])
     @ concat (map (\<lambda>i. [(READ, 1, 1 + real (10 + i) * delta, None), (READ, i, 1 + real (10 + i) * delta, None)]) [0..<10]))"

definition run_test2 :: "'w arrive \<Rightarrow> config \<Rightarrow> 'w \<Rightarrow> (time list \<times> 'w) option" where
  "run_test2 arrive c w = requests arrive (test2_requests c) w"

fun raid_requests :: "config \<Rightarrow> 'd arrive \<Rightarrow> event_type \<Rightarrow> nat list \<Rightarrow> time \<Rightarrow> 'd list \<Rightarrow> (time \<times> 'd list) option" where
  "raid_requests c arrive ty [] cur_time ds = Some (cur_time, ds)"
| "raid_requests c arrive ty (i # is) cur_time ds = do {
     (t, ds1) \<leftarrow> RaidSsd_event_arrive c (\<lambda>n off. arrive ty (i * 2) 1 0 None) (i * 2) ds;
     raid_requests c arrive ty is (cur_time + t) ds1
   }"

definition run_raid :: "config \<Rightarrow> 'd arrive \<Rightarrow> 'd list \<Rightarrow> (time \<times> 'd list) option" where
  "run_raid c arrive ds = do {
     (t, ds1) \<leftarrow> raid_requests c arrive WRITE [0..<10] 1 ds;
     raid_requests c arrive READ [0..<10] t ds1
   }"

section \<open>\<open>run_correctness.cpp\<close>\<close>

text \<open>
  \<open>test\<close> is the mapped file, padded to whole pages; \<open>buf\<close> gives the bytes behind
  \<open>get_result_buffer\<close>, \<open>None\<close> when it is null.
\<close>

datatype message = Not_written | Differs uint

definition file_page :: "uint \<Rightarrow> u8 list \<Rightarrow> uint \<Rightarrow> u8 list" where
  "file_page ps test adr = take ps (drop adr test)"

definition compare_page :: "('w \<Rightarrow> u8 list option) \<Rightarrow> uint \<Rightarrow> event_type \<Rightarrow> u8 list \<Rightarrow> uint \<Rightarrow> 'w \<Rightarrow> message list" where
  "compare_page buf ps ty pg i w =
     (if ty = READ then case buf w of None \<Rightarrow> [Not_written] | Some bs \<Rightarrow> if take ps bs = pg then [] else [Differs i] else [])"

partial_function (option) seq_loop ::
  "'w arrive \<Rightarrow> ('w \<Rightarrow> u8 list option) \<Rightarrow> uint \<Rightarrow> event_type \<Rightarrow> u8 list \<Rightarrow> uint \<Rightarrow> uint \<Rightarrow> uint \<Rightarrow> time \<Rightarrow> time \<Rightarrow> 'w \<Rightarrow>
   (time \<times> time \<times> message list \<times> 'w) option" where
  "seq_loop arrive buf ps ty test file_size adr i result clock w =
     (if adr < file_size
      then Option.bind (arrive ty i 1 clock (Some (UserBuf (file_page ps test adr))) w) (\<lambda>(t, w1).
           Option.bind (seq_loop arrive buf ps ty test file_size (add32 adr ps) (inc32 i) (result + t) (clock + t) w1)
             (\<lambda>(r, tm, ms, w2). Some (r, tm, compare_page buf ps ty (file_page ps test adr) i w1 @ ms, w2)))
      else Some (result, clock, [], w))"

definition do_seq :: "'w arrive \<Rightarrow> ('w \<Rightarrow> u8 list option) \<Rightarrow> uint \<Rightarrow> event_type \<Rightarrow> u8 list \<Rightarrow> uint \<Rightarrow> time \<Rightarrow> 'w \<Rightarrow>
   (time \<times> time \<times> message list \<times> 'w) option" where
  "do_seq arrive buf ps ty test file_size clock w = seq_loop arrive buf ps ty test file_size 0 0 0 clock w"

text \<open>Comparing with a null buffer, and a page that starts before the file, is undefined in the two variants below.\<close>

definition compare_strict :: "('w \<Rightarrow> u8 list option) \<Rightarrow> uint \<Rightarrow> event_type \<Rightarrow> u8 list \<Rightarrow> uint \<Rightarrow> 'w \<Rightarrow> message list option" where
  "compare_strict buf ps ty pg i w =
     (if ty = READ then map_option (\<lambda>bs. if take ps bs = pg then [] else [Differs i]) (buf w) else Some [])"

partial_function (option) backward_loop ::
  "'w arrive \<Rightarrow> ('w \<Rightarrow> u8 list option) \<Rightarrow> uint \<Rightarrow> uint \<Rightarrow> event_type \<Rightarrow> u8 list \<Rightarrow> uint \<Rightarrow> uint \<Rightarrow> uint \<Rightarrow> time \<Rightarrow> time \<Rightarrow> 'w \<Rightarrow>
   (time \<times> time \<times> message list \<times> 'w) option" where
  "backward_loop arrive buf ps bs ty test adr i j result clock w =
     (if 0 < adr \<and> adr < ps then None
      else if 0 < adr
      then Option.bind (arrive ty (add32 j i) 1 clock (Some (UserBuf (file_page ps test (adr - ps)))) w) (\<lambda>(t, w1).
           Option.bind (compare_strict buf ps ty (file_page ps test (adr - ps)) (add32 j i) w1) (\<lambda>m.
           let i1 = dec32 i; wrap = (i1 = 2 ^ 32 - 1) in
           Option.bind (backward_loop arrive buf ps bs ty test ((adr + (2 ^ 32 - ps)) mod 2 ^ 32)
               (if wrap then dec32 bs else i1) (if wrap then add32 j bs else j) (result + t) (clock + t) w1)
             (\<lambda>(r, tm, ms, w2). Some (r, tm, m @ ms, w2))))
      else Some (result, clock, [], w))"

definition do_seq_backward :: "'w arrive \<Rightarrow> ('w \<Rightarrow> u8 list option) \<Rightarrow> uint \<Rightarrow> uint \<Rightarrow> event_type \<Rightarrow> u8 list \<Rightarrow> uint \<Rightarrow> time \<Rightarrow> 'w \<Rightarrow>
   (time \<times> time \<times> message list \<times> 'w) option" where
  "do_seq_backward arrive buf ps bs ty test file_size clock w =
     backward_loop arrive buf ps bs ty test file_size (dec32 bs) 0 0 clock w"

partial_function (option) random_loop ::
  "'w arrive \<Rightarrow> ('w \<Rightarrow> u8 list option) \<Rightarrow> uint \<Rightarrow> event_type \<Rightarrow> u8 list \<Rightarrow> uint \<Rightarrow> uint \<Rightarrow> uint \<Rightarrow> time \<Rightarrow> 'w \<Rightarrow>
   (time \<times> message list \<times> 'w) option" where
  "random_loop arrive buf ps ty test file_size adr i result w =
     (if adr < file_size
      then Option.bind (arrive ty i 1 (real adr) (Some (UserBuf (file_page ps test adr))) w) (\<lambda>(t, w1).
           Option.bind (compare_strict buf ps ty (file_page ps test adr) i w1) (\<lambda>m.
           Option.bind (random_loop arrive buf ps ty test file_size (add32 adr ps) (inc32 i) (result + t) w1)
             (\<lambda>(r, ms, w2). Some (r, m @ ms, w2))))
      else Some (result, [], w))"

definition do_random :: "'w arrive \<Rightarrow> ('w \<Rightarrow> u8 list option) \<Rightarrow> uint \<Rightarrow> event_type \<Rightarrow> u8 list \<Rightarrow> uint \<Rightarrow> 'w \<Rightarrow>
   (time \<times> message list \<times> 'w) option" where
  "do_random arrive buf ps ty test file_size w = random_loop arrive buf ps ty test file_size 0 0 0 w"

text \<open>The main program: four passes of writes, one of reads; the value is the total time and the messages.\<close>

fun correctness_passes :: "'w arrive \<Rightarrow> ('w \<Rightarrow> u8 list option) \<Rightarrow> uint \<Rightarrow> u8 list \<Rightarrow> uint \<Rightarrow> event_type list \<Rightarrow> time \<Rightarrow> time \<Rightarrow> 'w \<Rightarrow>
   (time \<times> message list \<times> 'w) option" where
  "correctness_passes arrive buf ps test file_size [] result clock w = Some (result, [], w)"
| "correctness_passes arrive buf ps test file_size (ty # tys) result clock w = do {
     (r, tm, ms, w1) \<leftarrow> do_seq arrive buf ps ty test file_size clock w;
     (res, ms', w2) \<leftarrow> correctness_passes arrive buf ps test file_size tys (result + r) tm w1;
     Some (res, ms @ ms', w2)
   }"

definition run_correctness :: "'w arrive \<Rightarrow> ('w \<Rightarrow> u8 list option) \<Rightarrow> uint \<Rightarrow> u8 list \<Rightarrow> uint \<Rightarrow> 'w \<Rightarrow> (time \<times> message list \<times> 'w) option" where
  "run_correctness arrive buf ps test file_size w =
     correctness_passes arrive buf ps test file_size [WRITE, WRITE, WRITE, WRITE, READ] 0 0 w"

section \<open>\<open>run_bimodal.cpp\<close> and \<open>verification.cpp\<close>\<close>

text \<open>
  \<open>preIO\<close>: the pages of the device, less a reserve that depends on the translation layer, at
  most \<open>limit\<close>. \<open>bast\<close> is the reduction for the block-associative layer, computed in
  \<open>uint\<close> by one program and in \<open>double\<close> by the other; \<open>n\<close> is the reserve of the remaining layers.
\<close>

definition device_pages :: "config \<Rightarrow> int" where
  "device_pages c = int32 (int (mul32 (mul32 (mul32 (mul32 (SSD_SIZE c) (PACKAGE_SIZE c)) (DIE_SIZE c)) (PLANE_SIZE c)) (BLOCK_SIZE c)))"

definition pre_io :: "(config \<Rightarrow> int \<Rightarrow> int option) \<Rightarrow> int \<Rightarrow> int \<Rightarrow> config \<Rightarrow> int option" where
  "pre_io bast n limit c = do {
     p \<leftarrow> (if FTL_IMPLEMENTATION c = 0 then Some (int32 (device_pages c - 16 * int (BLOCK_SIZE c)))
          else if FTL_IMPLEMENTATION c = 1 then bast c (device_pages c)
          else if FTL_IMPLEMENTATION c = 2
          then double_to_int (of_int (device_pages c) - real (mul32 (FAST_LOG_BLOCK_LIMIT c) (BLOCK_SIZE c)) * 1.1)
          else Some (int32 (device_pages c - n)));
     Some (if limit < p then limit else p)
   }"

definition bimodal_pre_io :: "config \<Rightarrow> int option" where
  "bimodal_pre_io = pre_io (\<lambda>c p. Some (int32 (p - int (mul32 (mul32 (BAST_LOG_BLOCK_LIMIT c) (BLOCK_SIZE c)) 2)))) 512 3145216"

definition verification_pre_io :: "config \<Rightarrow> int option" where
  "verification_pre_io = pre_io (\<lambda>c p. double_to_int (of_int p - real (mul32 (BAST_LOG_BLOCK_LIMIT c) (BLOCK_SIZE c)) * 1.3)) 1024 3145216"

text \<open>\<open>for (int i = 0; i < x; i++)\<close>: how often the loop runs.\<close>

definition rounds :: "real \<Rightarrow> nat" where
  "rounds x = nat \<lceil>x\<rceil>"

text \<open>The first phase: random writes, each starting when the one before has ended.\<close>

fun fill_device :: "'w arrive \<Rightarrow> ulong list \<Rightarrow> time \<Rightarrow> 'w \<Rightarrow> (time \<times> 'w) option" where
  "fill_device arrive [] now w = Some (now, w)"
| "fill_device arrive (r # rs) now w = do {
     (d, w1) \<leftarrow> arrive WRITE r 1 now None w;
     fill_device arrive rs (now + d) w1
   }"

text \<open>A timed phase: \<open>start\<close> is \<open>start_time\<close>, the clock \<open>arrive_time\<close> is threaded through.\<close>

fun timed :: "'w arrive \<Rightarrow> event_type \<Rightarrow> time \<Rightarrow> ulong list \<Rightarrow> time \<Rightarrow> 'w \<Rightarrow> (time list \<times> time \<times> 'w) option" where
  "timed arrive ty start [] clock w = Some ([], clock, w)"
| "timed arrive ty start (i # is) clock w = do {
     (t, w1) \<leftarrow> arrive ty i 1 ((start + clock) * 10000) None w;
     (ts, clock2, w2) \<leftarrow> timed arrive ty start is (clock + t) w1;
     Some (t # ts, clock2, w2)
   }"

fun phases :: "'w arrive \<Rightarrow> time \<Rightarrow> ulong list \<Rightarrow> event_type list \<Rightarrow> time \<Rightarrow> 'w \<Rightarrow> (time list list \<times> time \<times> 'w) option" where
  "phases arrive start is [] clock w = Some ([], clock, w)"
| "phases arrive start is (ty # tys) clock w = do {
     (ts, clock1, w1) \<leftarrow> timed arrive ty start is clock w;
     (tss, clock2, w2) \<leftarrow> phases arrive start is tys clock1 w1;
     Some (ts # tss, clock2, w2)
   }"

definition bimodal_phases :: "event_type list" where
  "bimodal_phases = [TRIM, READ, READ, WRITE, READ, TRIM, WRITE, READ]"

definition trim_area :: "ulong list" where
  "trim_area = [2048 * 64..<3072 * 64]"

text \<open>The report: a row per entry of the first vector, a cell of every vector in it.\<close>

definition bimodal_header :: "string list" where
  "bimodal_header = [''Trim'', ''Read1'', ''Read2'', ''Write1'', ''Read3'', ''Trim2'', ''Write2'', ''Read4'', ''Write3'']"

definition report_row :: "time list list \<Rightarrow> nat \<Rightarrow> time list option" where
  "report_row cols i = those (map (\<lambda>col. aget col i) cols)"

definition report :: "time list list \<Rightarrow> time list list option" where
  "report cols = do {
     first \<leftarrow> aget cols 0;
     those (map (report_row cols) [0..<length first])
   }"

text \<open>
  \<open>rnd i\<close> is the value of the \<open>i\<close>-th call of \<open>random()\<close>, \<open>reset\<close> is \<open>reset_statistics\<close>;
  \<open>arrive_time\<close> is not initialised, its first value is \<open>junk\<close>.
\<close>

definition run_bimodal :: "'w arrive \<Rightarrow> ('w \<Rightarrow> 'w) \<Rightarrow> config \<Rightarrow> (nat \<Rightarrow> nat) \<Rightarrow> time \<Rightarrow> 'w \<Rightarrow> (time list list \<times> 'w) option" where
  "run_bimodal arrive reset c rnd junk w = do {
     p \<leftarrow> bimodal_pre_io c;
     (start, w1) \<leftarrow> fill_device arrive (map (\<lambda>i. rnd i mod nat p) [0..<rounds (of_int p * 1.1)]) 0 (reset w);
     (cols, clock, w2) \<leftarrow> phases arrive start trim_area bimodal_phases junk (reset w1);
     rows \<leftarrow> report cols;
     Some (rows, w2)
   }"

text \<open>The trimmed range of \<open>verification.cpp\<close> as unsigned long values; division truncates towards zero.\<close>

definition verification_trims :: "int \<Rightarrow> ulong list" where
  "verification_trims p = (let h = (if p < 0 then - ((- p) div 2) else p div 2)
     in map (\<lambda>i. nat (i mod 2 ^ 64)) [h - 4096..h + 8191])"

definition mean_of :: "time list \<Rightarrow> time" where
  "mean_of ts = foldl (+) 0 ts / real (length ts)"

definition variance_of :: "time list \<Rightarrow> time" where
  "variance_of ts = foldl (\<lambda>v t. v + (t - mean_of ts) ^ 2) 0 ts / real (length ts)"

text \<open>The two numbers that are printed, as \<open>Mean\<close> and \<open>Var\<close>.\<close>

definition run_verification :: "'w arrive \<Rightarrow> ('w \<Rightarrow> 'w) \<Rightarrow> config \<Rightarrow> (nat \<Rightarrow> nat) \<Rightarrow> time \<Rightarrow> 'w \<Rightarrow> (time \<times> time \<times> 'w) option" where
  "run_verification arrive reset c rnd junk w = do {
     p \<leftarrow> verification_pre_io c;
     (ts1, clock1, w1) \<leftarrow> timed arrive WRITE 0 (map (\<lambda>i. rnd i mod 3145216) [0..<rounds (of_int p * 1.3)]) junk (reset w);
     (ts2, clock2, w2) \<leftarrow> timed arrive TRIM 0 (verification_trims p) clock1 w1;
     Some (mean_of (ts1 @ ts2), sqrt (variance_of (ts1 @ ts2)), w2)
   }"

section \<open>What the programs rely on\<close>

locale disk =
  fixes arrive :: "'w arrive"
  assumes elapsed: "arrive ty la sz st b w = Some (t, w') \<Longrightarrow> 0 \<le> t"
begin

lemma timed_times:
  "timed arrive ty start is clock w = Some (ts, clock', w') \<Longrightarrow> length ts = length is \<and> list_all (\<lambda>t. 0 \<le> t) ts \<and> clock' = clock + sum_list ts"
proof (induction "is" arbitrary: clock w ts)
  case (Cons i "is")
  from Cons.prems obtain t w1 ts1 where t: "arrive ty i 1 ((start + clock) * 10000) None w = Some (t, w1)"
    "timed arrive ty start is (clock + t) w1 = Some (ts1, clock', w')" "ts = t # ts1"
    by (auto simp: bind_eq_Some_conv split: prod.splits)
  from Cons.IH [OF t(2)] elapsed [OF t(1)] t(3) show ?case by simp
qed simp

lemma fill_later: "fill_device arrive rs now w = Some (end_time, w') \<Longrightarrow> now \<le> end_time"
proof (induction rs arbitrary: now w)
  case (Cons r rs)
  then show ?case by (fastforce simp: bind_eq_Some_conv dest: elapsed)
qed simp

lemma phases_lengths: "phases arrive start is tys clock w = Some (tss, clock', w') \<Longrightarrow> map length tss = replicate (length tys) (length is)"
proof (induction tys arbitrary: clock w tss)
  case (Cons ty tys)
  then show ?case by (auto simp: bind_eq_Some_conv split: prod.splits dest!: timed_times)
qed simp

lemma phases_times: "phases arrive start is tys clock w = Some (tss, clock', w') \<Longrightarrow> list_all (list_all (\<lambda>t. 0 \<le> t)) tss"
proof (induction tys arbitrary: clock w tss)
  case (Cons ty tys)
  then show ?case by (auto simp: bind_eq_Some_conv split: prod.splits dest!: timed_times)
qed simp

end

locale serving_disk = disk arrive for arrive :: "'w arrive" +
  fixes serves :: "ulong \<Rightarrow> bool"
  assumes served: "serves la \<Longrightarrow> 0 \<le> st \<Longrightarrow> \<exists>t w'. arrive ty la sz st b w = Some (t, w')"
begin

lemma timed_returns:
  "list_all serves is \<Longrightarrow> 0 \<le> start + clock \<Longrightarrow> \<exists>ts clock' w'. timed arrive ty start is clock w = Some (ts, clock', w') \<and> clock \<le> clock'"
proof (induction "is" arbitrary: clock w)
  case (Cons i "is")
  from Cons.prems served obtain t w1 where t: "arrive ty i 1 ((start + clock) * 10000) None w = Some (t, w1)" by fastforce
  have "0 \<le> t" by (rule elapsed [OF t])
  with Cons.IH [of "clock + t" w1] Cons.prems obtain ts c2 w2 where
    "timed arrive ty start is (clock + t) w1 = Some (ts, c2, w2)" "clock + t \<le> c2" by auto
  with t \<open>0 \<le> t\<close> show ?case by simp
qed simp

lemma phases_return:
  "list_all serves is \<Longrightarrow> 0 \<le> start + clock \<Longrightarrow> \<exists>tss clock' w'. phases arrive start is tys clock w = Some (tss, clock', w')"
proof (induction tys arbitrary: clock w)
  case (Cons ty tys)
  from timed_returns [OF Cons.prems] obtain ts c1 w1 where
    "timed arrive ty start is clock w = Some (ts, c1, w1)" "clock \<le> c1" by blast
  with Cons.IH [of c1 w1] Cons.prems show ?case by fastforce
qed simp

lemma fill_returns: "list_all serves rs \<Longrightarrow> 0 \<le> now \<Longrightarrow> \<exists>later w'. fill_device arrive rs now w = Some (later, w') \<and> now \<le> later"
proof (induction rs arbitrary: now w)
  case (Cons r rs)
  from Cons.prems served obtain d w1 where d: "arrive WRITE r 1 now None w = Some (d, w1)" by fastforce
  have "0 \<le> d" by (rule elapsed [OF d])
  with Cons.IH [of "now + d" w1] Cons.prems d show ?case by fastforce
qed simp

end

lemma run_bimodal_SomeE:
  assumes "run_bimodal arrive reset c rnd junk w = Some (rows, w')"
  obtains start w1 cols clock where "phases arrive start trim_area bimodal_phases junk w1 = Some (cols, clock, w')" "report cols = Some rows"
  using assms unfolding run_bimodal_def by (auto simp: bind_eq_Some_conv split: prod.splits)

lemma run_verification_SomeE:
  assumes "run_verification arrive reset c rnd junk w = Some (m, v, w')"
  obtains p ts1 clock1 w1 ts2 clock2 where "verification_pre_io c = Some p"
    "timed arrive WRITE 0 (map (\<lambda>i. rnd i mod 3145216) [0..<rounds (of_int p * 1.3)]) junk (reset w) = Some (ts1, clock1, w1)"
    "timed arrive TRIM 0 (verification_trims p) clock1 w1 = Some (ts2, clock2, w')"
    "m = mean_of (ts1 @ ts2)" "v = sqrt (variance_of (ts1 @ ts2))"
  using assms unfolding run_verification_def by (auto simp: bind_eq_Some_conv split: prod.splits)

interpretation any_ssd: disk "ssd_arrive h c junk" for h c junk
  by unfold_locales (auto simp: ssd_arrive_def Ssd_event_arrive_def bind_eq_Some_conv get_time_taken_def split: prod.splits if_splits)

text \<open>A request outside the device stops the program, whatever the controller does.\<close>

lemma ssd_arrive_outside: "\<not> request_in_range c la \<Longrightarrow> ssd_arrive h c junk ty la sz st b w = None"
  by (cases w) (simp add: ssd_arrive_def Ssd_event_arrive_def)

lemma timed_outside: "\<not> list_all (request_in_range c) is \<Longrightarrow> timed (ssd_arrive h c junk) ty start is clock w = None"
proof (induction "is" arbitrary: clock w)
  case (Cons i "is")
  then show ?case by (cases "request_in_range c i") (auto simp: ssd_arrive_outside bind_eq_None_conv)
qed simp

text \<open>The controller that the repository builds answers every request within the device.\<close>

lemma built_arrive:
  "request_in_range c la \<Longrightarrow> 0 \<le> st \<Longrightarrow> ssd_arrive Controller_event_arrive c junk ty la sz st b w = Some (0, w)"
  by (cases w) (simp add: ssd_arrive_def Ssd_event_arrive_def Event_new_def Controller_event_arrive_def get_time_taken_def)

interpretation built_ssd: serving_disk "ssd_arrive Controller_event_arrive c junk" "request_in_range c" for c junk
  by unfold_locales (simp add: built_arrive)

section \<open>The report of the benchmark\<close>

lemma timed_built:
  assumes "list_all (request_in_range c) is" "0 \<le> start + clock"
  shows "timed (ssd_arrive Controller_event_arrive c aj) ty start is clock w = Some (replicate (length is) 0, clock, w)"
  using assms by (induction "is") (simp_all add: built_arrive)

lemma phases_built:
  assumes "list_all (request_in_range c) is" "0 \<le> start + clock"
  shows "phases (ssd_arrive Controller_event_arrive c aj) start is tys clock w
    = Some (replicate (length tys) (replicate (length is) 0), clock, w)"
  using assms by (induction tys) (simp_all add: timed_built)

lemma fill_built:
  assumes "list_all (request_in_range c) rs" "0 \<le> now"
  shows "fill_device (ssd_arrive Controller_event_arrive c aj) rs now w = Some (now, w)"
  using assms by (induction rs) (simp_all add: built_arrive)

lemma those_map_Some: "(\<And>x. x \<in> set xs \<Longrightarrow> f x = Some (g x)) \<Longrightarrow> those (map f xs) = Some (map g xs)"
  by (induction xs) auto

lemma report_rows:
  assumes "map length cols = replicate k n" "0 < k"
  shows "report cols = Some (map (\<lambda>i. map (\<lambda>col. col ! i) cols) [0..<n])"
proof -
  have len: "length col = n" if "col \<in> set cols" for col
    using that assms by (metis imageI in_set_replicate list.set_map)
  obtain first rest where "cols = first # rest" using assms by (cases cols) auto
  moreover have "report_row cols i = Some (map (\<lambda>col. col ! i) cols)" if "i < n" for i
    unfolding report_row_def by (rule those_map_Some) (simp add: aget_def len that)
  ultimately show ?thesis
    using len unfolding report_def by (simp add: aget_def) (intro those_map_Some, simp)
qed

lemma trim_area_below: "la \<in> set trim_area \<Longrightarrow> la < 196608"
  unfolding trim_area_def set_upt by simp

lemma trim_area_length: "length trim_area = 65536"
  unfolding trim_area_def length_upt by simp

section \<open>The statistics of \<open>verification.cpp\<close>\<close>

lemma foldl_add_sum: "foldl (\<lambda>v t. v + f t) a ts = a + (\<Sum>t\<leftarrow>ts. f t)" for a :: real
  by (induction ts arbitrary: a) simp_all

lemma mean_of_sum: "mean_of ts = sum_list ts / real (length ts)"
  using foldl_add_sum [of "\<lambda>t. t" 0 ts] by (simp add: mean_of_def)

lemma variance_of_sum: "variance_of ts = (\<Sum>t\<leftarrow>ts. (t - mean_of ts) ^ 2) / real (length ts)"
  using foldl_add_sum [of "\<lambda>t. (t - mean_of ts) ^ 2" 0 ts] by (simp add: variance_of_def)

text \<open>The two-pass variance is the mean of the squares less the square of the mean.\<close>

lemma sum_squared_deviations: "(\<Sum>t\<leftarrow>ts. (t - m) ^ 2) = (\<Sum>t\<leftarrow>ts. t ^ 2) - 2 * m * sum_list ts + real (length ts) * m ^ 2" for m :: real
  by (induction ts) (simp_all add: power2_diff algebra_simps)

lemma variance_of_moments:
  assumes "ts \<noteq> []"
  shows "variance_of ts = mean_of (map (\<lambda>t. t ^ 2) ts) - mean_of ts ^ 2"
proof -
  have sum: "sum_list ts = mean_of ts * real (length ts)" using assms by (simp add: mean_of_sum)
  have "variance_of ts = ((\<Sum>t\<leftarrow>ts. t ^ 2) - 2 * mean_of ts * sum_list ts + real (length ts) * mean_of ts ^ 2) / real (length ts)"
    by (simp add: variance_of_sum sum_squared_deviations)
  also have "\<dots> = (\<Sum>t\<leftarrow>ts. t ^ 2) / real (length ts) - mean_of ts ^ 2"
    unfolding sum using assms by (simp add: field_simps power2_eq_square)
  finally show ?thesis by (simp add: mean_of_sum [of "map _ ts"])
qed

lemma variance_nonneg: "0 \<le> variance_of ts"
proof -
  have "0 \<le> (\<Sum>t\<leftarrow>ts. (t - mean_of ts) ^ 2)" by (rule sum_list_nonneg) auto
  then show ?thesis by (simp add: variance_of_sum)
qed

section \<open>The loop of \<open>SSDSim.cpp\<close>\<close>

lemma int32_small: "- (2 ^ 31) \<le> x \<Longrightarrow> x < 2 ^ 31 \<Longrightarrow> int32 x = x"
  by (simp add: int32_def)

lemma ssdsim_loop_requests:
  assumes "0 < ps" "sz + int ps \<le> 2 ^ 31" "0 \<le> i"
  shows "ssdsim_loop arrive ps ty address sz st i w = requests arrive (replicate (nat \<lceil>of_int (sz - i) / real ps\<rceil>) (ty, address, st, None)) w"
  using assms(3)
proof (induction "nat (sz - i)" arbitrary: i w rule: less_induct)
  case less
  show ?case
  proof (cases "i < sz")
    case True
    have c: "\<lceil>of_int (sz - i) / real ps\<rceil> = \<lceil>of_int (sz - (i + int ps)) / real ps\<rceil> + 1"
      using assms(1) by (simp add: diff_divide_distrib add_divide_distrib flip: ceiling_add_one)
    have "- 1 < of_int (sz - (i + int ps)) / real ps"
      using True assms(1) by (simp add: field_simps)
    then have "0 \<le> \<lceil>of_int (sz - (i + int ps)) / real ps\<rceil>" by linarith
    then have n: "nat \<lceil>of_int (sz - i) / real ps\<rceil> = Suc (nat \<lceil>of_int (sz - (i + int ps)) / real ps\<rceil>)"
      unfolding c using Suc_nat_eq_nat_zadd1 by (simp add: add.commute)
    have s: "int32 (i + int ps) = i + int ps" using True assms less.prems by (intro int32_small) auto
    have "ssdsim_loop arrive ps ty address sz st (i + int ps) w1
        = requests arrive (replicate (nat \<lceil>of_int (sz - (i + int ps)) / real ps\<rceil>) (ty, address, st, None)) w1" for w1
      using True assms(1) less.prems by (intro less.hyps) auto
    then show ?thesis unfolding n using True s by (subst ssdsim_loop.simps) simp
  next
    case False
    then have "of_int (sz - i) / real ps \<le> 0" by (simp add: divide_nonpos_nonneg)
    then have "nat \<lceil>of_int (sz - i) / real ps\<rceil> = 0" by simp
    then show ?thesis using False by (subst ssdsim_loop.simps) simp
  qed
qed

end
