(* ===== verification/Trace_Replay.thy ===== *)
theory Trace_Replay
  imports Trace_Drivers "HOL-Library.List_Lexorder" "HOL-Library.Char_ord"
begin

text \<open>
  The trace reader \<open>run_ufliptrace.cpp\<close>: the scanner of a trace line, the stride taken from the
  name of the file, the replay of a file, and the two passes over all files of a directory, the second of which
  fills the report. The report ends in the columns of \<open>Stats::write_statistics\<close>.
\<close>

section \<open>Statistics as columns\<close>

definition Stats_write_header :: "string list" where
  "Stats_write_header = [''numFTLRead'', ''numFTLWrite'', ''numFTLErase'', ''numFTLTrim'', ''numGCRead'', ''numGCWrite'',
     ''numGCErase'', ''numWLRead'', ''numWLWrite'', ''numWLErase'', ''numLogMergeSwitch'', ''numLogMergePartial'',
     ''numLogMergeFull'', ''numPageBlockToPageConversion'', ''numCacheHits'', ''numCacheFaults'',
     ''numMemoryTranslation'', ''numMemoryCache'', ''numMemoryRead'', ''numMemoryWrite'']"

definition Stats_write_statistics :: "stats \<Rightarrow> int list" where
  "Stats_write_statistics s = [numFTLRead s, numFTLWrite s, numFTLErase s, numFTLTrim s, numGCRead s, numGCWrite s,
     numGCErase s, numWLRead s, numWLWrite s, numWLErase s, numLogMergeSwitch s, numLogMergePartial s,
     numLogMergeFull s, numPageBlockToPageConversion s, numCacheHits s, numCacheFaults s,
     numMemoryTranslation s, numMemoryCache s, numMemoryRead s, numMemoryWrite s]"

section \<open>Scanning a line\<close>

text \<open>
  The variables of \<open>main\<close> that \<open>sscanf\<close> fills. A field that is not reached keeps its value; a
  number outside the range of its type is undefined (\<open>None\<close>).
\<close>

record trace_vars =
  ioPatternType :: char
  ioType :: char
  vaddr :: int
  queryTime :: uint
  ioSize :: int
  arrive_time :: time

definition field :: "'a option \<Rightarrow> 'v \<Rightarrow> ('a \<Rightarrow> 'v option) \<Rightarrow> 'v option" where
  "field r v k = (case r of None \<Rightarrow> Some v | Some x \<Rightarrow> k x)"

fun scan_char :: "string \<Rightarrow> (char \<times> string) option" where
  "scan_char [] = None"
| "scan_char (ch # s) = Some (ch, s)"

fun separator :: "string \<Rightarrow> string option" where
  "separator [] = None"
| "separator (ch # s) = (if ch = CHR '';'' then Some (dropWhile is_space s) else None)"

definition digit_of :: "char \<Rightarrow> nat" where
  "digit_of ch = (let n = of_char ch in
     if 48 \<le> n \<and> n \<le> 57 then n - 48 else if 97 \<le> n \<and> n \<le> 102 then n - 87
     else if 65 \<le> n \<and> n \<le> 70 then n - 55 else 16)"

definition scan_base :: "nat \<Rightarrow> string \<Rightarrow> (nat \<times> string) option" where
  "scan_base b s = (let ds = takeWhile (\<lambda>ch. digit_of ch < b) s in
     if ds = [] then None else Some (foldl (\<lambda>n ch. b * n + digit_of ch) 0 ds, drop (length ds) s))"

definition signed_number :: "(string \<Rightarrow> (nat \<times> string) option) \<Rightarrow> string \<Rightarrow> (int \<times> string) option" where
  "signed_number scan s = (let (sg, s1) = scan_sign (dropWhile is_space s) in
     map_option (\<lambda>(n, s2). (if sg < 0 then - int n else int n, s2)) (scan s1))"

text \<open>\<open>%i\<close>: hexadecimal after \<open>0x\<close>, octal after \<open>0\<close>.\<close>

definition scan_prefixed :: "string \<Rightarrow> (nat \<times> string) option" where
  "scan_prefixed s =
     (if take 2 s = ''0x'' \<or> take 2 s = ''0X'' then scan_base 16 (drop 2 s)
      else if take 1 s = ''0'' then scan_base 8 s else scan_base 10 s)"

definition sscanf_trace :: "string \<Rightarrow> trace_vars \<Rightarrow> trace_vars option" where
  "sscanf_trace line v =
     field (scan_char line) v (\<lambda>(ch, s1). let v1 = v\<lparr>ioPatternType := ch\<rparr> in
     field (separator s1) v1 (\<lambda>s2. field (scan_char s2) v1 (\<lambda>(ch, s3). let v2 = v1\<lparr>ioType := ch\<rparr> in
     field (separator s3) v2 (\<lambda>s4. field (signed_number (scan_base 10) s4) v2 (\<lambda>(n, s5).
       if \<not> (- (2 ^ 63) \<le> n \<and> n < 2 ^ 63) then None else let v3 = v2\<lparr>vaddr := n\<rparr> in
     field (separator s5) v3 (\<lambda>s6. field (signed_number (scan_base 10) s6) v3 (\<lambda>(n, s7).
       if \<not> (- (2 ^ 32) < n \<and> n < 2 ^ 32) then None else let v4 = v3\<lparr>queryTime := nat (n mod 2 ^ 32)\<rparr> in
     field (separator s7) v4 (\<lambda>s8. field (signed_number scan_prefixed s8) v4 (\<lambda>(n, s9).
       if \<not> (- (2 ^ 31) \<le> n \<and> n < 2 ^ 31) then None else let v5 = v4\<lparr>ioSize := n\<rparr> in
     field (separator s9) v5 (\<lambda>s10. field (scan_real (dropWhile is_space s10)) v5 (\<lambda>t.
       Some (v5\<lparr>arrive_time := t\<rparr>))))))))))))"

section \<open>The stride\<close>

text \<open>\<open>atof\<close>: the longest prefix that is a number, or 0.\<close>

definition atof :: "string \<Rightarrow> real" where
  "atof s = (let t = dropWhile is_space s in
     case List.map_filter (\<lambda>k. scan_real (take k t)) (rev [0..<Suc (length t)]) of [] \<Rightarrow> 0 | v # _ \<Rightarrow> v)"

text \<open>\<open>std::string\<close>: positions are \<open>size_t\<close>, \<open>npos\<close> is the largest; \<open>substr\<close> throws past the end.\<close>

definition npos :: ulong where "npos = 2 ^ 64 - 1"

definition find_first :: "char \<Rightarrow> string \<Rightarrow> ulong" where
  "find_first ch s = (case List.find (\<lambda>i. s ! i = ch) [0..<length s] of None \<Rightarrow> npos | Some i \<Rightarrow> i)"

definition find_last :: "char \<Rightarrow> string \<Rightarrow> ulong" where
  "find_last ch s = (case List.find (\<lambda>i. s ! i = ch) (rev [0..<length s]) of None \<Rightarrow> npos | Some i \<Rightarrow> i)"

definition substr :: "string \<Rightarrow> ulong \<Rightarrow> ulong \<Rightarrow> string option" where
  "substr s pos n = (if pos \<le> length s then Some (take n (drop pos s)) else None)"

definition file_multiplier :: "string \<Rightarrow> real option" where
  "file_multiplier name = do {
     s \<leftarrow> substr name (inc64 (find_first CHR ''P'' name))
            (dec64 (sub64 (find_last CHR ''_'' name) (find_first CHR ''P'' name)));
     pat \<leftarrow> substr name 4 1;
     Some (if pat = ''5'' then atof s else 1)
   }"

section \<open>Replaying\<close>

definition trace_address :: "int \<Rightarrow> int \<Rightarrow> nat \<Rightarrow> ulong option" where
  "trace_address va mult i = (let off = int i * mult; a = va + off in
     if \<not> (- (2 ^ 31) \<le> off \<and> off < 2 ^ 31 \<and> - (2 ^ 63) \<le> a \<and> a < 2 ^ 63) then None
     else Some (nat ((if a < 0 then - ((- a) mod 2097024) else a mod 2097024) mod 2 ^ 64)))"

fun replay_pages :: "'w arrive \<Rightarrow> event_type \<Rightarrow> int \<Rightarrow> real \<Rightarrow> time \<Rightarrow> nat list \<Rightarrow> time \<Rightarrow> 'w \<Rightarrow> (time \<times> 'w) option" where
  "replay_pages arrive ty va mult base [] local w = Some (local, w)"
| "replay_pages arrive ty va mult base (i # is) local w = do {
     m \<leftarrow> double_to_int mult;
     la \<leftarrow> trace_address va m i;
     (t, w1) \<leftarrow> arrive ty la 1 (base + local) None w;
     replay_pages arrive ty va mult base is (local + t) w1
   }"

record totals =
  num_reads :: ulong
  read_time :: time
  num_writes :: ulong
  write_time :: time

definition no_totals :: totals where
  "no_totals = \<lparr>num_reads = 0, read_time = 0, num_writes = 0, write_time = 0\<rparr>"

definition replay_line :: "'w arrive \<Rightarrow> real \<Rightarrow> time \<Rightarrow> trace_vars \<Rightarrow> totals \<Rightarrow> 'w \<Rightarrow> (trace_vars \<times> totals \<times> 'w) option" where
  "replay_line arrive mult start v n w =
     (let base = (start + arrive_time v) * 10000; is = [0..<nat (ioSize v)] in
      if ioType v = CHR ''R'' then do {
        (l, w1) \<leftarrow> replay_pages arrive READ (vaddr v) mult base is 0 w;
        Some (v\<lparr>arrive_time := arrive_time v + l\<rparr>,
          n\<lparr>num_reads := add64 (num_reads n) (length is), read_time := read_time n + l\<rparr>, w1)
      } else if ioType v = CHR ''W'' then do {
        (l, w1) \<leftarrow> replay_pages arrive WRITE (vaddr v) mult base is 0 w;
        Some (v\<lparr>arrive_time := arrive_time v + l\<rparr>,
          n\<lparr>num_writes := add64 (num_writes n) (length is), write_time := write_time n + l\<rparr>, w1)
      } else Some (v, n, w))"

fun replay_lines :: "'w arrive \<Rightarrow> real \<Rightarrow> time \<Rightarrow> string list \<Rightarrow> trace_vars \<Rightarrow> totals \<Rightarrow> 'w \<Rightarrow> (trace_vars \<times> totals \<times> 'w) option" where
  "replay_lines arrive mult start [] v n w = Some (v, n, w)"
| "replay_lines arrive mult start (line # lines) v n w = do {
     v1 \<leftarrow> sscanf_trace line v;
     (v2, n1, w1) \<leftarrow> replay_line arrive mult start v1 n w;
     replay_lines arrive mult start lines v2 n1 w1
   }"

text \<open>One file: \<open>fs\<close> gives the content behind a path, which is the directory and the name put together.\<close>

definition replay_file ::
  "'w arrive \<Rightarrow> (string \<Rightarrow> string option) \<Rightarrow> string \<Rightarrow> string \<Rightarrow> time \<Rightarrow> trace_vars \<Rightarrow> totals \<Rightarrow> 'w \<Rightarrow>
   (time \<times> trace_vars \<times> totals \<times> 'w) option" where
  "replay_file arrive fs dir name start v n w = do {
     content \<leftarrow> fs (dir @ name);
     let start1 = start + arrive_time v;
     mult \<leftarrow> file_multiplier name;
     (v1, n1, w1) \<leftarrow> replay_lines arrive mult start1 (file_lines 79 content) v n w;
     Some (start1, v1, n1, w1)
   }"

text \<open>The first pass counts over all files.\<close>

fun first_pass ::
  "'w arrive \<Rightarrow> (string \<Rightarrow> string option) \<Rightarrow> string \<Rightarrow> string list \<Rightarrow> time \<Rightarrow> trace_vars \<Rightarrow> totals \<Rightarrow> 'w \<Rightarrow>
   (time \<times> trace_vars \<times> totals \<times> 'w) option" where
  "first_pass arrive fs dir [] start v n w = Some (start, v, n, w)"
| "first_pass arrive fs dir (name # names) start v n w = do {
     (start1, v1, n1, w1) \<leftarrow> replay_file arrive fs dir name start v n w;
     first_pass arrive fs dir names start1 v1 n1 w1
   }"

record row =
  row_file :: string
  row_totals :: totals
  row_total :: ulong
  row_time :: time
  row_stats :: "int list"

fun second_pass ::
  "'w arrive \<Rightarrow> ('w \<Rightarrow> 'w) \<Rightarrow> ('w \<Rightarrow> stats) \<Rightarrow> (string \<Rightarrow> string option) \<Rightarrow> string \<Rightarrow> string list \<Rightarrow> time \<Rightarrow> trace_vars \<Rightarrow> 'w \<Rightarrow>
   (row list \<times> 'w) option" where
  "second_pass arrive reset stats_of fs dir [] start v w = Some ([], w)"
| "second_pass arrive reset stats_of fs dir (name # names) start v w = do {
     (start1, v1, n, w1) \<leftarrow> replay_file arrive fs dir name start v no_totals (reset w);
     (rows, w2) \<leftarrow> second_pass arrive reset stats_of fs dir names start1 v1 w1;
     Some (\<lparr>row_file = name, row_totals = n, row_total = add64 (num_reads n) (num_writes n),
       row_time = read_time n + write_time n, row_stats = Stats_write_statistics (stats_of w1)\<rparr> # rows, w2)
   }"

definition trace_header :: "string list" where
  "trace_header = [''File'', ''NumIOReads'', ''ReadIOTime'', ''NumIOWrites'', ''WriteIOTime'', ''NumIOTotal'', ''IOTime'']
     @ Stats_write_header"

text \<open>The whole program; \<open>v0\<close> are the uninitialised variables, \<open>ls\<close> the regular files of the directory.\<close>

definition run_ufliptrace ::
  "'w arrive \<Rightarrow> ('w \<Rightarrow> 'w) \<Rightarrow> ('w \<Rightarrow> stats) \<Rightarrow> (string \<Rightarrow> string option) \<Rightarrow> string \<Rightarrow> string list option \<Rightarrow> trace_vars \<Rightarrow> 'w \<Rightarrow>
   (row list \<times> 'w) option" where
  "run_ufliptrace arrive reset stats_of fs dir ls v0 w = do {
     names \<leftarrow> ls;
     (start, v, n, w1) \<leftarrow> first_pass arrive fs dir (sort names) 0 v0 no_totals w;
     second_pass arrive reset stats_of fs dir (sort names) start v w1
   }"

section \<open>\<open>run_debug.cpp\<close>\<close>

text \<open>
  Commands from the standard input. An extraction that fails sets the stream's fail bit, which ends
  the loop at its next test; an integer that cannot be read is stored as 0, or as the nearest bound.
\<close>

definition next_command :: "string \<Rightarrow> (char \<times> ulong \<times> string) option" where
  "next_command s = do {
     (ch, s1) \<leftarrow> scan_char (dropWhile is_space s);
     (n, s2) \<leftarrow> signed_number (scan_base 10) s1;
     cassert (- (2 ^ 64) < n \<and> n < 2 ^ 64);
     Some (ch, nat (n mod 2 ^ 64), s2)
   }"

definition read_int :: "string \<Rightarrow> int \<times> string option" where
  "read_int s = (case signed_number (scan_base 10) s of
       None \<Rightarrow> (0, None)
     | Some (n, s1) \<Rightarrow> if n < - (2 ^ 31) then (- (2 ^ 31), None) else if 2 ^ 31 \<le> n then (2 ^ 31 - 1, None) else (n, Some s1))"

text \<open>\<open>*(int*) buffer\<close>, little endian.\<close>

definition store_int :: "int \<Rightarrow> u8 list \<Rightarrow> u8 list" where
  "store_int n b = [word_of_int n, word_of_int (n div 2 ^ 8), word_of_int (n div 2 ^ 16), word_of_int (n div 2 ^ 24)] @ drop 4 b"

definition load_int :: "u8 list \<Rightarrow> int option" where
  "load_int b = (case b of b0 # b1 # b2 # b3 # _ \<Rightarrow>
       Some (int32 (uint b0 + 2 ^ 8 * uint b1 + 2 ^ 16 * uint b2 + 2 ^ 24 * uint b3)) | _ \<Rightarrow> None)"

lemma scan_base_shorter: "scan_base b s = Some (n, r) \<Longrightarrow> length r < length s"
  by (auto simp: scan_base_def Let_def split: if_splits) (metis length_greater_0_conv takeWhile.simps(1) diff_less)

lemma scan_sign_shorter: "length (snd (scan_sign s)) \<le> length s"
  by (cases s) auto

lemma signed_number_shorter: "signed_number (scan_base b) s = Some (n, r) \<Longrightarrow> length r < length s"
  using scan_sign_shorter [of "dropWhile is_space s"] length_dropWhile_le [of is_space s]
  by (auto simp: signed_number_def split: prod.splits dest!: scan_base_shorter)

lemma next_command_shorter: "next_command s = Some (ch, va, r) \<Longrightarrow> length r < length s"
proof -
  assume "next_command s = Some (ch, va, r)"
  then obtain n s1 where "dropWhile is_space s = ch # s1" "signed_number (scan_base 10) s1 = Some (n, r)"
    by (cases "dropWhile is_space s") (auto simp: next_command_def bind_eq_Some_conv split: if_splits)
  then show ?thesis using signed_number_shorter [of 10 s1 n r] length_dropWhile_le [of is_space s] by simp
qed

lemma read_int_shorter: "snd (read_int s) = Some r \<Longrightarrow> length r < length s"
  by (auto simp: read_int_def split: option.splits if_splits dest: signed_number_shorter)

datatype debug_end = Input_ended | Invalid_argument

text \<open>
  The loop; \<open>result\<close> gives the page behind \<open>global_buffer\<close> with its bytes, \<open>clear\<close> sets the pointer to null, \<open>now\<close> is the
  sequence of clock readings. Each read prints the integer at the start of the page, or 0, and the page.
\<close>

definition debug_output :: "(nat \<times> u8 list) option \<Rightarrow> (int \<times> nat option) option" where
  "debug_output r = (case r of None \<Rightarrow> Some (0, None) | Some (pg, bs) \<Rightarrow> map_option (\<lambda>n. (n, Some pg)) (load_int bs))"

function debug ::
  "'w arrive \<Rightarrow> ('w \<Rightarrow> 'w) \<Rightarrow> ('w \<Rightarrow> (nat \<times> u8 list) option) \<Rightarrow> (nat \<Rightarrow> time) \<Rightarrow> nat \<Rightarrow> u8 list \<Rightarrow> string \<Rightarrow> 'w \<Rightarrow>
   ((int \<times> nat option) list \<times> debug_end \<times> 'w) option" where
  "debug arrive clear result now k b s w =
     (case next_command s of
        None \<Rightarrow> Some ([], Input_ended, w)
      | Some (ch, va, s1) \<Rightarrow>
          if ch = CHR ''R'' \<or> ch = CHR ''r'' then do {
            (t, w1) \<leftarrow> arrive READ va 1 (now k) (Some (UserBuf b)) (clear w);
            o1 \<leftarrow> debug_output (result w1);
            (os, e, w2) \<leftarrow> debug arrive clear result now (Suc k) b s1 w1;
            Some (o1 # os, e, w2)
          } else if ch = CHR ''W'' \<or> ch = CHR ''w'' then do {
            cassert (4 \<le> length b);
            (t, w1) \<leftarrow> arrive WRITE va 1 (now k) (Some (UserBuf (store_int (fst (read_int s1)) b))) (clear w);
            (case snd (read_int s1) of
               None \<Rightarrow> Some ([], Input_ended, w1)
             | Some s2 \<Rightarrow> debug arrive clear result now (Suc k) (store_int (fst (read_int s1)) b) s2 w1)
          } else if ch = CHR ''T'' \<or> ch = CHR ''t'' then do {
            (t, w1) \<leftarrow> arrive TRIM va 1 (now k) (Some (UserBuf b)) (clear w);
            debug arrive clear result now (Suc k) b s1 w1
          } else Some ([], Invalid_argument, w))"
  by pat_completeness auto
termination
  by (relation "measure (\<lambda>(_, _, _, _, _, _, s, _). length s)")
     (auto dest!: next_command_shorter read_int_shorter)

declare debug.simps [simp del]

end
