(* ===== verification/Flash_Properties.thy ===== *)
theory Flash_Properties
  imports Ssd_Device Ftl_Simple
begin

text \<open>
  Properties of the flash simulator: the device and its hierarchy of units, channel
  scheduling, addresses, events, wear statistics and block allocation. The witnesses run on
  a device of one plane with two blocks of two pages.
\<close>

section \<open>A small device\<close>

definition small_config :: config where
  "small_config = default_config\<lparr>SSD_SIZE := 1, PACKAGE_SIZE := 1, DIE_SIZE := 1, PLANE_SIZE := 2, BLOCK_SIZE := 2,
     PAGE_SIZE := 2, NUMBER_OF_ADDRESSABLE_BLOCKS := 2\<rparr>"

definition small_ssd :: ssd where
  "small_ssd = the (Ssd_new small_config 0 0 1)"

definition small_env :: env where
  "small_env = \<lparr>page_data = (\<lambda>_. []), global_buffer = None, active_cost = [(0, 0), (2, 0)]\<rparr>"

definition page_address :: "nat \<Rightarrow> nat \<Rightarrow> address" where
  "page_address b p = \<lparr>package = 0, die = 0, plane = 0, block = b, page = p, real_address = 2 * b + p, valid = PAGE\<rparr>"

definition small_event :: "event_type \<Rightarrow> address \<Rightarrow> payload option \<Rightarrow> event" where
  "small_event ty a buf = (the (Event_new 0 ty 0 1 0))\<lparr>ev_address := a, ev_payload := buf\<rparr>"

lemma small_event_simps [simp]:
  "ev_address (small_event ty a buf) = a" "noop (small_event ty a buf) = False" "start_time (small_event ty a buf) = 0"
  "time_taken (small_event ty a buf) = 0" "ev_payload (small_event ty a buf) = buf"
  by (simp_all add: small_event_def Event_new_def)

lemma small_config_simps [simp]:
  "SSD_SIZE small_config = 1" "PACKAGE_SIZE small_config = 1" "DIE_SIZE small_config = 1"
  "PLANE_SIZE small_config = 2" "BLOCK_SIZE small_config = 2" "PAGE_SIZE small_config = 2"
  "PAGE_ENABLE_DATA small_config" "sizes_ok small_config" "geometry_ok small_config"
  "BUS_TABLE_SIZE small_config = 64" "VIRTUAL_BLOCK_SIZE small_config = 1" "VIRTUAL_PAGE_SIZE small_config = 1"
  "BUS_CHANNEL_FREE_FLAG small_config = - 1" "BLOCK_ERASES small_config = 1048675" "PAGE_WRITE_DELAY small_config = 1 / 100000"
  "PAGE_READ_DELAY small_config = 1 / 1000000" "BLOCK_ERASE_DELAY small_config = 1 / 1000"
  by (simp_all add: small_config_def default_config_def sizes_ok_def geometry_ok_def)

lemmas construct_defs = Ssd_new_def Bus_new_def Bus_get_channel_def Package_new_def Die_new_def

lemma small_ssd_new: "Ssd_new small_config 0 0 1 = Some small_ssd"
  by (simp add: small_ssd_def construct_defs Let_def split_beta aget_def)

lemma small_ssd_ok: "ssd_ok small_config small_ssd"
  by (rule ssd_ok_new [OF _ _ small_ssd_new]) simp_all

lemma small_block: "b < 2 \<Longrightarrow> Ssd_get_block_pointer (page_address b p) small_ssd =
    Some (Block_new small_config 2 1048675 (1 / 1000) (2 * b))"
  using less_2_cases_iff [of b]
  by (auto simp: small_ssd_def construct_defs Plane_new_def Let_def split_beta aget_def block_pointer_levels
      page_address_def upt_rec simp flip: numeral_2_eq_2)

section \<open>Writes that succeed\<close>

lemma forward_total:
  "i < length us \<Longrightarrow> f (us ! i) g = Some (s, e', u', g') \<Longrightarrow> forward i f us g = Some (s, e', us[i := u'], g')"
  by (simp add: forward_Some)

definition page_writable :: "config \<Rightarrow> event \<Rightarrow> blk \<Rightarrow> env \<Rightarrow> bool" where
  "page_writable c e b g \<longleftrightarrow> page (ev_address e) < length (bdata b)
     \<and> pg_state (bdata b ! page (ev_address e)) = EMPTY \<and> 0 \<le> pg_write_delay (bdata b ! page (ev_address e))
     \<and> 0 \<le> start_time e \<and> BLOCK_SIZE c \<noteq> 0 \<and> physical_address b div BLOCK_SIZE c < length (active_cost g)
     \<and> (case ev_payload e of None \<Rightarrow> True | Some p \<Rightarrow> \<not> PAGE_ENABLE_DATA c \<or>
          (real_address (ev_address e) < total_pages c \<and> payload_bytes c g p \<noteq> None))"

lemma Block_write_total:
  assumes "page_writable c e b g" "\<not> noop e"
  shows "\<exists>e' b' g'. Block_write c e b g = Some (SUCCESS, e', b', g')"
proof -
  let ?p = "bdata b ! page (ev_address e)"
  obtain e1 p1 g1 where w: "Page_write c e ?p g = Some (SUCCESS, e1, p1, g1)"
    using Page_write_total [of ?p e c g] assms by (auto simp: page_writable_def split: option.splits)
  note f = Page_write_frame [OF w]
  have "start_time e1 = start_time e" using f progress_fields by blast
  then show ?thesis
    using w f assms by (auto simp: Block_write_def page_writable_def aget_nth get_start_time_def update_block_def Let_def)
qed

lemma Plane_write_total:
  assumes "plane_ok c p" "block (ev_address e) < psize p" "valid (ev_address e) = PAGE"
    and "Block_write c e (pdata p ! block (ev_address e)) g = Some (s, e', b', g')"
  shows "\<exists>p'. Plane_write c e p g = Some (s, e', p', g')"
  using assms forward_total [of "block (ev_address e)" "pdata p" "Block_write c e" g s e' b' g']
  by (simp add: Plane_write_def plane_ok_def aget_nth Let_def Plane_get_next_page_def)

text \<open>The units on the way to a block, all well formed.\<close>

lemma block_path:
  assumes "ssd_ok c d" "PLANE \<le> valid a" "Ssd_get_block_pointer a d = Some b"
  obtains k i p where "package a < length (sdata d)" "k = sdata d ! package a" "package_ok c k"
    "die a < length (kdata k)" "i = kdata k ! die a" "die_ok c i" "plane a < length (ddata i)" "p = ddata i ! plane a"
    "plane_ok c p" "block a < length (pdata p)" "b = pdata p ! block a" "block_ok c b"
proof -
  let ?k = "sdata d ! package a" let ?i = "kdata ?k ! die a" let ?p = "ddata ?i ! plane a"
  from assms(3) have idx: "package a < length (sdata d)" "die a < length (kdata ?k)" "plane a < length (ddata ?i)"
    "block a < length (pdata ?p)" "b = pdata ?p ! block a"
    unfolding block_pointer_levels [OF assms(2)] by (auto simp: bind_eq_Some_conv)
  have k: "package_ok c ?k" using assms(1) idx(1) by (auto simp: ssd_ok_def list_all_nthD)
  have i: "die_ok c ?i" using k idx(2) by (auto simp: package_ok_def list_all_nthD)
  have p: "plane_ok c ?p" using i idx(3) by (auto simp: die_ok_def list_all_nthD)
  have "block_ok c b" using p idx(4,5) by (auto simp: plane_ok_def list_all_nthD)
  then show thesis using that idx k i p by blast
qed

lemma Ssd_write_total:
  assumes ok: "ssd_ok c d" and v: "valid (ev_address e) = PAGE" and b: "Ssd_get_block_pointer (ev_address e) d = Some b"
    and w: "page_writable c e b g" "\<not> noop e"
  shows "\<exists>e' d' g'. Ssd_write c e d g = Some (SUCCESS, e', d', g')"
proof -
  let ?a = "ev_address e"
  have v': "PLANE \<le> valid ?a" by (simp add: v)
  from block_path [OF ok v' b] obtain k i p where k: "package ?a < length (sdata d)" "k = sdata d ! package ?a" "package_ok c k"
    and i: "die ?a < length (kdata k)" "i = kdata k ! die ?a" "die_ok c i"
    and p: "plane ?a < length (ddata i)" "p = ddata i ! plane ?a" "plane_ok c p"
    and bl: "block ?a < length (pdata p)" "b = pdata p ! block ?a" by metis
  from Block_write_total [OF w] obtain e' b' g' where bw: "Block_write c e b g = Some (SUCCESS, e', b', g')" by blast
  obtain p' where pw: "Plane_write c e p g = Some (SUCCESS, e', p', g')"
    using Plane_write_total [OF p(3) _ v bw [unfolded bl(2)]] bl(1) p(3) by (auto simp: plane_ok_def)
  obtain i' where iw: "Die_write c e i g = Some (SUCCESS, e', i', g')"
    using forward_total [OF p(1), of "Plane_write c e" g SUCCESS e' p' g'] pw p i v
    by (auto simp: Die_write_def die_addressed_def die_ok_def)
  obtain k' where kw: "Package_write c e k g = Some (SUCCESS, e', k', g')"
    using forward_total [OF i(1), of "Die_write c e" g SUCCESS e' i' g'] iw i k v
    by (auto simp: Package_write_def package_addressed_def package_ok_def)
  then show ?thesis
    using forward_total [OF k(1), of "Package_write c e" g SUCCESS e' k' g'] k ok v
    by (auto simp: Ssd_write_def ssd_addressed_def ssd_ok_def)
qed

section \<open>The device\<close>

text \<open>
  C6. From the constructed device, every sequence of reads, writes, erases, replacements and
  merges that runs without an abort keeps the device invariant; in particular every block's
  counters, state and remaining erases agree with the states of its pages.
\<close>

theorem device_keeps_invariant:
  assumes "sizes_ok c" "0 < sz" "Ssd_new c junk aj sz = Some d"
    and "run_requests (Ssd_exec junk' c) rs d g = Some (d', g')"
    and "PLANE \<le> valid a" "Ssd_get_block_pointer a d' = Some b"
  shows "ssd_ok c d' \<and> block_ok c b \<and> length (active_cost g') = length (active_cost g)"
  using ssd_unit.run_keeps [OF assms(4) ssd_ok_new [OF assms(1-3)]] assms(5,6) by (metis block_path)

text \<open>The operations of the whole hierarchy, to evaluate requests on a small device.\<close>

lemmas device_defs = Ssd_exec_def Ssd_read_def Ssd_write_def Ssd_erase_def ssd_addressed_def
  Package_read_def Package_write_def Package_erase_def package_addressed_def
  Die_read_def Die_write_def Die_erase_def die_addressed_def
  Plane_read_def Plane_write_def Plane_erase_def Plane_get_next_page_def
  Block_read_def Block_write_def Block_erase_def Page_read_def Page_write_def store_payload_def update_block_def
  Plane_update_wear_stats_def Die_update_wear_stats_def Package_update_wear_stats_def Ssd_update_wear_stats_def
  wear_index_def collect_def Plane_get_erases_remaining_def Die_get_erases_remaining_def
  Package_get_erases_remaining_def Plane_get_last_erase_time_def Die_get_last_erase_time_def
  Package_get_last_erase_time_def forward_def get_start_time_def get_time_taken_def get_linear_address_def

lemmas small_eval = device_defs small_ssd_def construct_defs Plane_new_def Block_new_def Page_new_def Let_def split_beta
  aget_def page_address_def upt_rec small_env_def payload_bytes_def total_pages_def block_pointer_levels

text \<open>A page is written, read and erased, and both pages of the block are written again.\<close>

definition small_requests :: "(unit_op \<times> event) list" where
  "small_requests = [(UWrite, small_event WRITE (page_address 1 0) (Some (UserBuf [3, 4]))),
     (URead, small_event READ (page_address 1 0) None), (UErase, small_event ERASE (page_address 1 0) None),
     (UWrite, small_event WRITE (page_address 1 0) None), (UWrite, small_event WRITE (page_address 1 1) None)]"

lemma small_run:
  "\<exists>d' g' b. run_requests (Ssd_exec 0 small_config) small_requests small_ssd small_env = Some (d', g')
     \<and> Ssd_get_block_pointer (page_address 1 0) d' = Some b \<and> pages_valid b = 2 \<and> erases_remaining b = 1048674"
  by (simp add: small_requests_def small_eval)

theorem device_keeps_invariant_witness:
  "\<exists>d' g' b. run_requests (Ssd_exec 0 small_config) small_requests small_ssd small_env = Some (d', g')
     \<and> Ssd_get_block_pointer (page_address 1 0) d' = Some b \<and> pages_valid b = 2 \<and> erases_remaining b = 1048674
     \<and> ssd_ok small_config d' \<and> block_ok small_config b \<and> length (active_cost g') = length (active_cost small_env)"
proof -
  obtain d' g' b where r: "run_requests (Ssd_exec 0 small_config) small_requests small_ssd small_env = Some (d', g')"
    "Ssd_get_block_pointer (page_address 1 0) d' = Some b" "pages_valid b = 2" "erases_remaining b = 1048674"
    using small_run by blast
  have v: "PLANE \<le> valid (page_address 1 0)" by (simp add: page_address_def)
  show ?thesis using device_keeps_invariant [OF _ _ small_ssd_new r(1) v r(2)] r by auto
qed

text \<open>
  C25. A write to an empty page, at an address valid to the page on a well-formed device
  whose cost table has a slot for the block, succeeds.
\<close>

theorem device_write_succeeds:
  assumes "ssd_ok c d" "valid (ev_address e) = PAGE" "Ssd_get_block_pointer (ev_address e) d = Some b"
    and "page_writable c e b g" "\<not> noop e"
  shows "\<exists>e' d' g'. Ssd_write c e d g = Some (SUCCESS, e', d', g')"
  by (rule Ssd_write_total [OF assms])

lemma small_writable:
  "b < 2 \<Longrightarrow> p < 2 \<Longrightarrow> buf = None \<or> buf = Some (UserBuf [3, 4]) \<Longrightarrow>
   page_writable small_config (small_event WRITE (page_address b p) buf)
     (Block_new small_config 2 1048675 (1 / 1000) (2 * b)) small_env"
  by (auto simp: page_writable_def page_address_def Block_new_def Page_new_def small_env_def total_pages_def
      payload_bytes_def)

theorem device_write_succeeds_witness:
  "\<exists>e' d' g'. Ssd_write small_config (small_event WRITE (page_address 1 0) (Some (UserBuf [3, 4]))) small_ssd small_env =
     Some (SUCCESS, e', d', g')"
  using device_write_succeeds [OF small_ssd_ok _ _ small_writable [of 1 0 "Some (UserBuf [3, 4])"]]
    small_block [of 1 0] by (simp add: page_address_def)

lemma Ssd_exec_write: "Ssd_exec junk c UWrite = Ssd_write c" "Ssd_exec junk c URead = Ssd_read c"
    "Ssd_exec junk c UErase = Ssd_erase c"
  by (simp_all add: fun_eq_iff Ssd_exec_def)

lemma Ssd_write_reaches:
  assumes "Ssd_write c e d g = Some (s, e', d', g')"
  obtains b b' where "Ssd_get_block_pointer (ev_address e) d = Some b" "Block_write c e b g = Some (s, e', b', g')"
    "Ssd_get_block_pointer (ev_address e) d' = Some b'" "PLANE < valid (ev_address e)"
    "\<And>q. PLANE \<le> valid q \<Longrightarrow> \<not> same_block q (ev_address e) \<Longrightarrow> Ssd_get_block_pointer q d' = Ssd_get_block_pointer q d"
  by (rule device_reaches [where a = UWrite and junk = 0, unfolded Ssd_exec_write Block_exec_ops, OF assms])
     (auto intro: that)

text \<open>
  C13. A write programs exactly the addressed page: it was empty and becomes valid, the
  block's other pages and every other block of the device stay as they were, and the block
  counts one more valid page.
\<close>

theorem device_write_effect:
  assumes "Ssd_write c e d g = Some (s, e', d', g')" "\<not> noop e"
    and "PLANE \<le> valid q" "\<not> same_block q (ev_address e)"
  shows "s = SUCCESS \<and> Ssd_get_block_pointer q d' = Ssd_get_block_pointer q d
    \<and> (\<exists>b. Ssd_get_block_pointer (ev_address e) d = Some b \<and> page (ev_address e) < length (bdata b)
        \<and> pg_state (bdata b ! page (ev_address e)) = EMPTY
        \<and> Ssd_get_block_pointer (ev_address e) d' = Some (b\<lparr>
            bdata := (bdata b)[page (ev_address e) := (bdata b ! page (ev_address e))\<lparr>pg_state := VALID\<rparr>],
            pages_valid := inc32 (pages_valid b), bstate := ACTIVE, modification_time := start_time e\<rparr>))"
  by (rule Ssd_write_reaches [OF assms(1)]) (use Block_write_done [OF _ assms(2)] assms(3,4) in auto)

lemma small_write:
  obtains e' d' g' where "Ssd_write small_config (small_event WRITE (page_address 1 0) (Some (UserBuf [3, 4]))) small_ssd
    small_env = Some (SUCCESS, e', d', g')"
  using Ssd_write_total [OF small_ssd_ok _ _ small_writable [of 1 0 "Some (UserBuf [3, 4])"]] small_block [of 1 0]
  by (auto simp: page_address_def)

theorem device_write_effect_witness:
  "\<exists>e' d' g'. Ssd_write small_config (small_event WRITE (page_address 1 0) (Some (UserBuf [3, 4]))) small_ssd small_env =
       Some (SUCCESS, e', d', g')
     \<and> Ssd_get_block_pointer (page_address 0 0) d' = Ssd_get_block_pointer (page_address 0 0) small_ssd
     \<and> (\<exists>b. Ssd_get_block_pointer (page_address 1 0) d' = Some b \<and> pg_state (bdata b ! 0) = VALID)"
proof -
  obtain e' d' g' where w: "Ssd_write small_config (small_event WRITE (page_address 1 0) (Some (UserBuf [3, 4])))
    small_ssd small_env = Some (SUCCESS, e', d', g')" by (rule small_write)
  have p: "page (page_address 1 0) = 0" by (simp add: page_address_def)
  have "PLANE \<le> valid (page_address 0 0)" "\<not> same_block (page_address 0 0) (page_address 1 0)"
    by (simp_all add: page_address_def same_block_def)
  then show ?thesis using device_write_effect [OF w, of "page_address 0 0"] w p by fastforce
qed

text \<open>
  C35. NAND discipline: once a page has been written it cannot be written again; the second
  write stops the simulator, whatever its data, until the block is erased.
\<close>

theorem device_overwrite_aborts:
  assumes "Ssd_write c e d g = Some (s, e', d', g')" "\<not> noop e"
    and "ev_address e2 = ev_address e" "\<not> noop e2"
  shows "Ssd_write c e2 d' g2 = None"
proof (cases "Ssd_write c e2 d' g2")
  case (Some r)
  obtain s2 e2' d2 g2' where r: "Ssd_write c e2 d' g2 = Some (s2, e2', d2, g2')" using Some by (cases r) auto
  obtain b b' where b: "Block_write c e b g = Some (s, e', b', g')" "Ssd_get_block_pointer (ev_address e) d' = Some b'"
    by (rule Ssd_write_reaches [OF assms(1)])
  obtain b2' where b2: "Block_write c e2 b' g2 = Some (s2, e2', b2', g2')"
    by (rule Ssd_write_reaches [OF r]) (use b(2) assms(3) in auto)
  have "pg_state (bdata b' ! page (ev_address e)) = VALID" using Block_write_done [OF b(1) assms(2)] by simp
  then show ?thesis using Block_write_done(2) [OF b2 assms(4)] assms(3) by simp
qed

theorem device_overwrite_aborts_witness:
  "\<exists>d' g'. (\<exists>e'. Ssd_write small_config (small_event WRITE (page_address 1 0) (Some (UserBuf [3, 4]))) small_ssd small_env =
       Some (SUCCESS, e', d', g'))
     \<and> Ssd_write small_config (small_event WRITE (page_address 1 0) None) d' g' = None"
proof -
  obtain e' d' g' where w: "Ssd_write small_config (small_event WRITE (page_address 1 0) (Some (UserBuf [3, 4])))
    small_ssd small_env = Some (SUCCESS, e', d', g')" by (rule small_write)
  show ?thesis
    using device_overwrite_aborts [OF w, of "small_event WRITE (page_address 1 0) None" g'] w by auto
qed

section \<open>Page data\<close>

lemma Ssd_read_total:
  assumes ok: "ssd_ok c d" and v: "PLANE < valid (ev_address e)" and b: "Ssd_get_block_pointer (ev_address e) d = Some b"
    and rd: "page (ev_address e) < length (bdata b)" "0 \<le> pg_read_delay (bdata b ! page (ev_address e))"
  obtains e' d' g' where "Ssd_read c e d g = Some (SUCCESS, e', d', g')" "Block_read c e b g = Some (SUCCESS, e', b, g')"
proof -
  let ?a = "ev_address e"
  have v': "PLANE \<le> valid ?a" using v by simp
  from block_path [OF ok v' b] obtain k i p where k: "package ?a < length (sdata d)" "k = sdata d ! package ?a" "package_ok c k"
    and i: "die ?a < length (kdata k)" "i = kdata k ! die ?a" "die_ok c i"
    and p: "plane ?a < length (ddata i)" "p = ddata i ! plane ?a" "plane_ok c p"
    and bl: "block ?a < length (pdata p)" "b = pdata p ! block ?a" by metis
  obtain e' g' where bw: "Block_read c e b g = Some (SUCCESS, e', b, g')"
    using rd by (simp add: Block_read_def aget_nth Page_read_def Let_def)
  obtain p' where pw: "Plane_read c e p g = Some (SUCCESS, e', p', g')"
    using forward_total [OF bl(1), of "Block_read c e" g SUCCESS e' b g'] bw bl p(3) v
    by (auto simp: Plane_read_def plane_ok_def)
  obtain i' where iw: "Die_read c e i g = Some (SUCCESS, e', i', g')"
    using forward_total [OF p(1), of "Plane_read c e" g SUCCESS e' p' g'] pw p i v
    by (auto simp: Die_read_def die_addressed_def die_ok_def)
  obtain k' where kw: "Package_read c e k g = Some (SUCCESS, e', k', g')"
    using forward_total [OF i(1), of "Die_read c e" g SUCCESS e' i' g'] iw i k v
    by (auto simp: Package_read_def package_addressed_def package_ok_def)
  then obtain d' where "Ssd_read c e d g = Some (SUCCESS, e', d', g')"
    using forward_total [OF k(1), of "Package_read c e" g SUCCESS e' k' g'] k ok v
    by (auto simp: Ssd_read_def ssd_addressed_def ssd_ok_def)
  then show thesis using that bw by blast
qed

lemma Block_write_data:
  assumes "Block_write c e b g = Some (s, e', b', g')" "\<not> noop e" "ev_payload e = Some (UserBuf bs)" "PAGE_ENABLE_DATA c"
  shows "page_data g' (real_address (ev_address e)) = take (PAGE_SIZE c) bs"
proof -
  from Block_write_step [OF assms(1,2)] obtain p1 g1 b1 where
    w: "Page_write c e (bdata b ! page (ev_address e)) g = Some (s, e', p1, g1)" and u: "update_block c b1 g1 = Some g'"
    by metis
  from w have "store_payload c (incr_time_taken (pg_write_delay (bdata b ! page (ev_address e))) e) g = Some g1"
    by (auto simp: Page_write_def Let_def bind_eq_Some_conv split: if_splits)
  then have "page_data g1 (real_address (ev_address e)) = take (PAGE_SIZE c) bs"
    using assms(2-4)
    by (auto simp: store_payload_def payload_bytes_def get_linear_address_def bind_eq_Some_conv Let_def split: if_splits)
  moreover have "page_data g' = page_data g1" using u by (auto simp: update_block_Some)
  ultimately show ?thesis by simp
qed

text \<open>
  C8. What is written is what is read: after a write of a user buffer, a read of the same
  address succeeds and leaves in the global read buffer a pointer to exactly the page of
  bytes that was written.
\<close>

theorem device_read_after_write:
  assumes "ssd_ok c d" "Ssd_write c e d g = Some (s, e', d', g')" "\<not> noop e" "ev_payload e = Some (UserBuf bs)"
    and "PAGE_ENABLE_DATA c" "ev_address e2 = ev_address e" "\<not> noop e2"
    and "Ssd_get_block_pointer (ev_address e) d = Some b" "0 \<le> pg_read_delay (bdata b ! page (ev_address e))"
  shows "\<exists>e2' d2 g2. Ssd_read c e2 d' g' = Some (SUCCESS, e2', d2, g2)
     \<and> Ssd_get_result_buffer g2 = Some (real_address (ev_address e))
     \<and> page_data g2 (real_address (ev_address e)) = take (PAGE_SIZE c) bs"
proof -
  obtain b' where bw: "Block_write c e b g = Some (s, e', b', g')" and b': "Ssd_get_block_pointer (ev_address e2) d' = Some b'"
    and v: "PLANE < valid (ev_address e2)"
    by (rule Ssd_write_reaches [OF assms(2)]) (use assms(6,8) in auto)
  have ok: "ssd_ok c d'"
    using Ssd_exec_ok(1) [where a = UWrite and junk = 0, unfolded Ssd_exec_write, OF assms(2,1)] .
  have pg: "page (ev_address e2) < length (bdata b')" "0 \<le> pg_read_delay (bdata b' ! page (ev_address e2))"
    using Block_write_done [OF bw assms(3)] assms(6,9) by simp_all
  obtain e2' d2 g2 where r: "Ssd_read c e2 d' g' = Some (SUCCESS, e2', d2, g2)" "Block_read c e2 b' g' = Some (SUCCESS, e2', b', g2)"
    by (rule Ssd_read_total [OF ok v b' pg])
  have "global_buffer g2 = Some (real_address (ev_address e))" "page_data g2 = page_data g'"
    using r(2) assms(5-7)
    by (auto simp: Block_read_def Page_read_def get_linear_address_def Let_def bind_eq_Some_conv split: if_splits)
  then show ?thesis using r(1) Block_write_data [OF bw assms(3-5)] by (simp add: Ssd_get_result_buffer_def)
qed

theorem device_read_after_write_witness:
  "\<exists>d' g' e2' d2 g2. (\<exists>e'. Ssd_write small_config (small_event WRITE (page_address 1 0) (Some (UserBuf [3, 4])))
        small_ssd small_env = Some (SUCCESS, e', d', g'))
     \<and> Ssd_read small_config (small_event READ (page_address 1 0) None) d' g' = Some (SUCCESS, e2', d2, g2)
     \<and> Ssd_get_result_buffer g2 = Some 2 \<and> page_data g2 2 = [3, 4]"
proof -
  obtain e' d' g' where w: "Ssd_write small_config (small_event WRITE (page_address 1 0) (Some (UserBuf [3, 4])))
    small_ssd small_env = Some (SUCCESS, e', d', g')" by (rule small_write)
  have r: "real_address (page_address 1 0) = 2" "page (page_address 1 0) = 0" by (simp_all add: page_address_def)
  show ?thesis
    using device_read_after_write [OF small_ssd_ok w, of "[3, 4]" "small_event READ (page_address 1 0) None"] w r
      small_block [of 1 0]
    by (simp add: Block_new_def Page_new_def)
qed

section \<open>Erases\<close>

text \<open>
  C28. An erase of a block with erases left empties every page, frees the block and takes one
  from its remaining erases; a worn-out block reports failure and nothing changes. In both
  cases every other block of the device keeps its contents.
\<close>

theorem device_erase_effect:
  assumes "Ssd_erase c e d g = Some (s, e', d', g')" "\<not> noop e" "ssd_ok c d"
    and "PLANE \<le> valid q" "\<not> same_block q (ev_address e)"
  shows "Ssd_get_block_pointer q d' = Ssd_get_block_pointer q d
    \<and> (\<exists>b b'. Ssd_get_block_pointer (ev_address e) d = Some b \<and> Ssd_get_block_pointer (ev_address e) d' = Some b'
        \<and> (if erases_remaining b = 0 then s = FAILURE \<and> b' = b
           else s = SUCCESS \<and> Suc (erases_remaining b') = erases_remaining b \<and> bstate b' = FREE
             \<and> list_all (\<lambda>p. pg_state p = EMPTY) (bdata b') \<and> length (bdata b') = length (bdata b)
             \<and> pages_valid b' = 0 \<and> pages_invalid b' = 0))"
proof -
  obtain b b' where b: "Ssd_get_block_pointer (ev_address e) d = Some b" "Block_erase c e b g = Some (s, e', b', g')"
    "Ssd_get_block_pointer (ev_address e) d' = Some b'" "PLANE < valid (ev_address e)"
    and q: "Ssd_get_block_pointer q d' = Ssd_get_block_pointer q d"
    by (rule device_reaches [where a = UErase and junk = 0, unfolded Ssd_exec_write Block_exec_ops, OF assms(1)])
       (use assms(4,5) in auto)
  have "block_ok c b" by (rule block_path [OF assms(3) _ b(1)]) (use b(4) in simp)
  then have small: "erases_remaining b < 2 ^ 64" by (simp add: block_ok_def)
  from b(2) have "if erases_remaining b = 0 then s = FAILURE \<and> b' = b
           else s = SUCCESS \<and> Suc (erases_remaining b') = erases_remaining b \<and> bstate b' = FREE
             \<and> list_all (\<lambda>p. pg_state p = EMPTY) (bdata b') \<and> length (bdata b') = length (bdata b)
             \<and> pages_valid b' = 0 \<and> pages_invalid b' = 0"
    by (cases rule: Block_erase_cases) (use small assms(2) in \<open>auto simp: list_all_iff\<close>)
  then show ?thesis using b q by blast
qed

lemma small_erase:
  obtains e' d' g' where "Ssd_erase small_config (small_event ERASE (page_address 1 0) None) small_ssd small_env =
    Some (SUCCESS, e', d', g')"
  by (simp add: Ssd_erase_def ssd_addressed_def Package_erase_def package_addressed_def Die_erase_def die_addressed_def
      Plane_erase_def Block_erase_def forward_def
      small_ssd_def construct_defs Plane_new_def Block_new_def Let_def split_beta aget_def
      page_address_def upt_rec small_env_def update_block_def get_start_time_def get_time_taken_def
      Plane_update_wear_stats_def Die_update_wear_stats_def Package_update_wear_stats_def Ssd_update_wear_stats_def
      wear_index_def collect_def Plane_get_erases_remaining_def Die_get_erases_remaining_def
      Package_get_erases_remaining_def Plane_get_last_erase_time_def Die_get_last_erase_time_def
      Package_get_last_erase_time_def)

theorem device_erase_effect_witness:
  "\<exists>e' d' g' b'. Ssd_erase small_config (small_event ERASE (page_address 1 0) None) small_ssd small_env =
       Some (SUCCESS, e', d', g')
     \<and> Ssd_get_block_pointer (page_address 0 0) d' = Ssd_get_block_pointer (page_address 0 0) small_ssd
     \<and> Ssd_get_block_pointer (page_address 1 0) d' = Some b' \<and> erases_remaining b' = 1048674"
proof -
  obtain e' d' g' where w: "Ssd_erase small_config (small_event ERASE (page_address 1 0) None) small_ssd small_env =
    Some (SUCCESS, e', d', g')" by (rule small_erase)
  have v: "PLANE \<le> valid (page_address 0 0)" "\<not> same_block (page_address 0 0) (page_address 1 0)"
    by (simp_all add: page_address_def same_block_def)
  have "erases_remaining (Block_new small_config 2 1048675 (1 / 1000) 2) = 1048675" by (simp add: Block_new_def)
  then show ?thesis
    using device_erase_effect [OF w _ small_ssd_ok v(1)] v(2) w small_block [of 1 0] by (auto split: if_splits)
qed

text \<open>
  With an empty cost table, which is what \<open>cost_insert\<close> leaves behind for every block, no
  write that touches a page can complete.
\<close>

theorem device_write_needs_cost_table:
  assumes "active_cost g = []" "\<not> noop e"
  shows "Ssd_write c e d (cost_insert b g) = None"
proof (cases "Ssd_write c e d g")
  case (Some r)
  obtain s e' d' g' where r: "Ssd_write c e d g = Some (s, e', d', g')" using Some by (cases r) auto
  show ?thesis by (rule Ssd_write_reaches [OF r]) (use Block_write_no_table [OF assms] in auto)
qed (simp add: cost_insert_def)

theorem device_write_needs_cost_table_witness:
  "Ssd_write small_config (small_event WRITE (page_address 1 0) None) small_ssd
     (cost_insert (Block_new small_config 2 1048675 (1 / 1000) 2) (small_env\<lparr>active_cost := []\<rparr>)) = None"
  by (rule device_write_needs_cost_table) simp_all

section \<open>Channels\<close>

text \<open>
  C9. A channel never double-books: locking a well-formed channel for a positive duration
  always succeeds, the new interval starts no earlier than requested and overlaps none of the
  reservations that are still in force, the waiting time charged to the event is exactly the
  delay, and the channel stays well formed. This holds for any number of reservations: the comments in the
  source say that a saturated channel may fail, with the table size as the length of its queue, but the code
  does not use the table size.
\<close>

theorem channel_lock_disjoint:
  assumes "channel_ok ch" "0 < d" "0 \<le> st" "BUS_CHANNEL_FREE_FLAG c < 0"
  shows "\<exists>t e' ch'. Channel_lock c st d e ch = Some (SUCCESS, e', ch') \<and> st \<le> t
     \<and> timings ch' = Channel_unlock st (timings ch) @ [(t, t + d)]
     \<and> list_all (\<lambda>x. snd x \<le> t \<or> t + d \<le> fst x) (Channel_unlock st (timings ch))
     \<and> bus_wait_time e' = bus_wait_time e + (t - st) \<and> time_taken e' = time_taken e + (t - st + d)
     \<and> channel_ok ch'"
proof -
  obtain t where t: "st \<le> t" "\<forall>x\<in>set (Channel_unlock st (timings ch)). slot_disjoint (t, t + d) x"
    "Channel_lock c st d e ch = Some (SUCCESS,
      incr_time_taken (t - st + d) (incr_bus_wait_time (t - st) e),
      ch\<lparr>timings := Channel_unlock st (timings ch) @ [(t, t + d)], ready_at := max (ready_at ch) (t + d)\<rparr>)"
    using Channel_lock_slot [OF assms, of e] by metis
  then show ?thesis
    using Channel_lock_ok [OF assms t(3)] assms(2) by (auto simp: list_all_iff slot_disjoint_def)
qed

definition busy_channel :: channel where
  "busy_channel = (Channel_new 0 0 64 8)\<lparr>timings := [(1, 2), (4, 6)], ready_at := 6\<rparr>"

lemma busy_channel_ok: "channel_ok busy_channel"
  by (simp add: busy_channel_def Channel_new_def channel_ok_def schedule_ok_def slot_disjoint_def)

theorem channel_lock_disjoint_witness:
  "\<exists>e' ch'. Channel_lock small_config 1 1 (small_event READ (page_address 0 0) None) busy_channel = Some (SUCCESS, e', ch')
     \<and> channel_ok ch'"
proof -
  show ?thesis
    using busy_channel_ok channel_lock_disjoint [of busy_channel 1 1 small_config "small_event READ (page_address 0 0) None"] by auto
qed

lemma Min_pick: "finite S \<Longrightarrow> Min (insert m (insert t S)) = Min (insert (if t < m then t else m) S)" for t m :: real
  by (cases "S = {}") (auto simp: min_def)

lemma ready_scan_min:
  assumes "bus_ok b" "list_all (\<lambda>i. i < num_channels b) is"
  shows "ready_scan b is nxt = Some (let ts = filter (\<lambda>t. t \<noteq> - 1) (map (\<lambda>i. ready_at (channels b ! i)) is) in
     case nxt of Some m \<Rightarrow> Some (Min (insert m (set ts))) | None \<Rightarrow> if ts = [] then None else Some (Min (set ts)))"
  using assms(2)
proof (induction "is" arbitrary: nxt)
  case (Cons i "is")
  have "Bus_ready_time i b = Some (ready_at (channels b ! i))"
    using assms(1) Cons.prems by (simp add: Bus_ready_time_def Bus_get_channel_def bus_ok_def aget_nth Channel_ready_time_def)
  then show ?case
    using Cons by (cases nxt) (simp_all add: Let_def Min_pick del: Min_insert)
qed (auto split: option.split)

text \<open>
  \<open>Ssd::ready_at\<close> returns the smallest ready time among the channels that have been used,
  and -1 when none has.
\<close>

theorem ready_at_is_minimum:
  assumes "bus_ok (s_bus d)" "num_channels (s_bus d) = ssize d"
  shows "Ssd_ready_at d = Some (let ts = filter (\<lambda>t. t \<noteq> - 1) (map ready_at (channels (s_bus d)))
     in if ts = [] then - 1 else Min (set ts))"
proof -
  have "map (\<lambda>i. ready_at (channels (s_bus d) ! i)) [0..<ssize d] = map ready_at (channels (s_bus d))"
    using assms by (auto simp: bus_ok_def intro: nth_equalityI)
  then show ?thesis
    using ready_scan_min [OF assms(1), of "[0..<ssize d]" None] assms(2)
    by (simp add: Ssd_ready_at_def list_all_iff Let_def)
qed

definition two_channel_ssd :: ssd where
  "two_channel_ssd = small_ssd\<lparr>ssize := 2,
     s_bus := \<lparr>num_channels = 2, channels = [busy_channel\<lparr>ready_at := 9\<rparr>, busy_channel]\<rparr>\<rparr>"

theorem ready_at_is_minimum_witness: "Ssd_ready_at two_channel_ssd = Some 6"
proof -
  have "channel_ok (busy_channel\<lparr>ready_at := 9\<rparr>)"
    using busy_channel_ok by (simp add: busy_channel_def channel_ok_def)
  then have "bus_ok (s_bus two_channel_ssd)" using busy_channel_ok by (simp add: two_channel_ssd_def bus_ok_def)
  then show ?thesis
    using ready_at_is_minimum [of two_channel_ssd] by (simp add: two_channel_ssd_def busy_channel_def)
qed

section \<open>Addresses and configuration\<close>

text \<open>
  C29. Linear page numbers and physical coordinates are in bijection: decomposing any page
  number below the capacity gives coordinates inside the device whose composition is the page
  number, and decomposing the composition of coordinates inside the device gives them back.
\<close>

theorem linear_address_bijection:
  assumes "geometry_ok c" "n < total_pages c" "in_device c a"
  shows "(\<exists>b. set_linear_address c n a0 = Some b \<and> in_device c b \<and> real_address b = n \<and> linear_of c b = n)
     \<and> set_linear_address c (linear_of c a) a = Some (a\<lparr>real_address := linear_of c a\<rparr>)
     \<and> linear_of c a < total_pages c"
proof -
  obtain b where b: "set_linear_address c n a0 = Some b" using assms(1) by (simp add: set_linear_Some)
  then show ?thesis
    using set_linear_in_device [OF assms(1) b] set_linear_roundtrip [OF assms(1,2) b] linear_roundtrip [OF assms(1,3)]
      linear_of_bound [OF assms(3)] by simp
qed

theorem linear_address_bijection_witness:
  "\<exists>b. set_linear_address small_config 3 (page_address 0 0) = Some b \<and> in_device small_config b \<and> linear_of small_config b = 3"
  using linear_address_bijection [of small_config 3 "page_address 0 0" "page_address 0 0"]
  by (auto simp: total_pages_def in_device_def page_address_def)

text \<open>
  Loading a configuration file: if every line is a comment, unreadable or an entry whose
  value fits its variable, loading goes through all lines and the number of addressable
  blocks becomes the product of the four geometry values, in 32-bit arithmetic, divided by
  the virtual page size; only a virtual page size of zero stops the program.
\<close>

theorem load_config_blocks:
  assumes "list_all line_ok (file_lines 127 content)"
  shows "\<exists>c. load_lines (file_lines 127 content) c0 = Some c
     \<and> load_config (Some content) c0 = (if VIRTUAL_PAGE_SIZE c = 0 then None
         else Some (c\<lparr>NUMBER_OF_ADDRESSABLE_BLOCKS :=
           SSD_SIZE c * PACKAGE_SIZE c * DIE_SIZE c * PLANE_SIZE c mod 2 ^ 32 div VIRTUAL_PAGE_SIZE c\<rparr>))"
proof -
  obtain c where c: "load_lines (file_lines 127 content) c0 = Some c" using load_lines_total [OF assms] by blast
  have "mul32 (mul32 (mul32 w x) y) z = w * x * y * z mod 2 ^ 32" for w x y z
    by (simp only: mul32_def mod_mult_left_eq)
  then show ?thesis using c by (simp add: load_config_def)
qed

definition geometry_file :: string where
  "geometry_file = ''SSD_SIZE 1'' @ [CHR 0x0A] @ ''DIE_SIZE 2'' @ [CHR 0x0A] @ ''PLANE_SIZE 1024''"

lemma geometry_lines:
  "file_lines 127 geometry_file = [''SSD_SIZE 1'' @ [CHR 0x0A], ''DIE_SIZE 2'' @ [CHR 0x0A], ''PLANE_SIZE 1024'']"
  by (simp add: geometry_file_def file_lines.simps fgets_line_def)

lemma geometry_entries:
  "scan_line (''SSD_SIZE 1'' @ [CHR 0x0A]) = Some (''SSD_SIZE'', 1)"
  "scan_line (''DIE_SIZE 2'' @ [CHR 0x0A]) = Some (''DIE_SIZE'', 2)"
  "scan_line ''PLANE_SIZE 1024'' = Some (''PLANE_SIZE'', 1024)"
  by (simp_all add: scan_line_def is_space_def is_digit_def scan_real_def scan_exponent_def digits_value_def Let_def)

theorem load_config_blocks_witness:
  "\<exists>c. load_config (Some geometry_file) default_config = Some c \<and> NUMBER_OF_ADDRESSABLE_BLOCKS c = 16384"
proof -
  have "list_all line_ok (file_lines 127 geometry_file)"
    unfolding geometry_lines line_ok_def by (simp add: geometry_entries [simplified])
  from load_config_blocks [OF this, of default_config] obtain c where
    c: "load_lines (file_lines 127 geometry_file) default_config = Some c"
    "load_config (Some geometry_file) default_config = (if VIRTUAL_PAGE_SIZE c = 0 then None
         else Some (c\<lparr>NUMBER_OF_ADDRESSABLE_BLOCKS :=
           SSD_SIZE c * PACKAGE_SIZE c * DIE_SIZE c * PLANE_SIZE c mod 2 ^ 32 div VIRTUAL_PAGE_SIZE c\<rparr>))" by blast
  have u: "to_uint 1 = Some 1" "to_uint 2 = Some 2" "to_uint 1024 = Some 1024" by (simp_all add: to_uint_def)
  have "c = default_config\<lparr>SSD_SIZE := 1, DIE_SIZE := 2, PLANE_SIZE := 1024\<rparr>"
    using c(1) unfolding geometry_lines by (simp add: ignored_line_def geometry_entries [simplified] load_entry_def u)
  then show ?thesis using c(2) by (simp add: default_config_def)
qed

section \<open>Events\<close>

text \<open>
  Consolidating a chain of events gives the parent the longest completion time over the
  whole chain, but the sum of the bus waiting times leaves out the first event of the chain.
\<close>

theorem consolidate_spec:
  assumes "0 \<le> start_time e" "0 \<le> bus_wait_time e" "list_all (\<lambda>x. 0 \<le> bus_wait_time x) rest"
    and "start_time l \<le> start_time e" "0 \<le> time_taken l"
  shows "consolidate_metaevent l rest e = Some (e\<lparr>
     time_taken := Max (set (map (\<lambda>x. start_time e - start_time x + time_taken x) (l # rest))),
     bus_wait_time := bus_wait_time e + sum_list (map bus_wait_time rest)\<rparr>)"
proof -
  let ?m = "start_time e - start_time l + time_taken l"
  let ?ts = "map (\<lambda>x. start_time e - start_time x + time_taken x) rest"
  have "?m \<le> Max (set (?m # ?ts))" by (rule Max_ge) simp_all
  then have "0 \<le> Max (set (?m # ?ts))" using assms(4,5) by linarith
  moreover have "0 \<le> sum_list (map bus_wait_time rest)" using assms(3) by (intro sum_list_nonneg) (auto simp: list_all_iff)
  ultimately show ?thesis
    using assms(1,2)
    unfolding consolidate_metaevent_def consolidate_loop_spec [OF assms(3)] fold_max_real by simp
qed

definition timed_event :: "time \<Rightarrow> time \<Rightarrow> event" where
  "timed_event t w = (small_event READ (page_address 0 0) None)\<lparr>time_taken := t, bus_wait_time := w\<rparr>"

theorem consolidate_spec_witness:
  "consolidate_metaevent (timed_event 2 7) [timed_event 5 1, timed_event 3 1] (timed_event 0 0) =
     Some (timed_event 5 2)"
  using consolidate_spec [of "timed_event 0 0" "[timed_event 5 1, timed_event 3 1]" "timed_event 2 7"]
  by (simp add: timed_event_def)

section \<open>Planes: merge, wear and free blocks\<close>

definition small_plane :: pln where
  "small_plane = Plane_new small_config 0 0 2 0 0 0"

lemma small_plane_ok: "plane_ok small_config small_plane"
  unfolding small_plane_def by (rule plane_ok_new) simp_all

text \<open>
  A plane never merges two different blocks: the check before the merge compares the
  source and target addresses and requires them to name the same block, so a merge of
  distinct blocks always stops the simulator.
\<close>

theorem merge_distinct_aborts:
  assumes "block (ev_address e) \<noteq> block (merge_address e)"
  shows "Plane_merge c junk e p g = None"
  by (rule Plane_merge_distinct [OF assms])

theorem merge_distinct_aborts_witness:
  "Plane_merge small_config 0 ((small_event MERGE (page_address 0 0) None)\<lparr>merge_address := page_address 1 0\<rparr>)
     small_plane small_env = None"
  by (rule merge_distinct_aborts) (simp add: page_address_def small_event_def)

text \<open>
  After a successful erase the plane's remaining-erases statistic is that of its first
  block, and its least-worn index is the last block with more erases left than the first,
  which need not be the one with most.
\<close>

theorem wear_statistics:
  assumes "Plane_erase c e p g = Some (SUCCESS, e', p', g')" "plane_ok c p" "i < psize p'"
  shows "p_erases_remaining p' = erases_remaining (pdata p' ! 0)
    \<and> (p_least_worn p' < i \<longrightarrow> erases_remaining (pdata p' ! i) \<le> erases_remaining (pdata p' ! 0))
    \<and> (p_least_worn p' \<noteq> 0 \<longrightarrow> erases_remaining (pdata p' ! 0) < erases_remaining (pdata p' ! p_least_worn p'))"
  using assms(1)
proof (cases rule: Plane_erase_cases)
  case (erased bs p2)
  note w = Plane_update_wear_ok [OF erased(4)]
  have ok: "plane_ok c p'" by (rule Plane_erase_ok(1) [OF assms(1,2)])
  let ?es = "map erases_remaining (pdata p')"
  have p': "p_least_worn p' = wear_index ?es" "p_erases_remaining p' = erases_remaining (pdata p' ! 0)"
    using w by (simp_all add: erased(5))
  have n: "length (pdata p') = psize p'" "?es \<noteq> []" "p_least_worn p' < psize p'"
    using ok by (auto simp: plane_ok_def)
  then show ?thesis
    using p' wear_index_spec [OF n(2)] assms(3) by (auto simp del: nth_map simp flip: nth_map)
qed simp

definition worn_plane :: pln where
  "worn_plane = (Plane_new small_config 0 0 3 0 0 0)\<lparr>pdata :=
     map (\<lambda>n. Block_new small_config 2 n (1 / 1000) 0) [5, 9, 8]\<rparr>"

theorem wear_statistics_witness:
  "\<exists>e' p' g'. Plane_erase small_config (small_event ERASE (page_address 0 0) None) worn_plane small_env =
       Some (SUCCESS, e', p', g')
     \<and> p_erases_remaining p' = 4 \<and> map erases_remaining (pdata p') = [4, 9, 8] \<and> p_least_worn p' = 2"
proof -
  have ok: "plane_ok small_config worn_plane"
    by (simp add: plane_ok_def worn_plane_def Plane_new_def block_ok_new)
  obtain e' p' g' where x: "Plane_erase small_config (small_event ERASE (page_address 0 0) None) worn_plane small_env =
       Some (SUCCESS, e', p', g')" "map erases_remaining (pdata p') = [4, 9, 8]" "psize p' = 3" "p_least_worn p' = 2"
    by (simp add: Plane_erase_def Block_erase_def forward_def worn_plane_def Plane_new_def Block_new_def aget_def
        page_address_def small_env_def update_block_def get_start_time_def get_time_taken_def
        Plane_update_wear_stats_def wear_index_def)
  have "erases_remaining (pdata p' ! 0) = 4" using x(2) by (cases "pdata p'") auto
  then show ?thesis using wear_statistics [OF x(1) ok, of 0] x by auto
qed

text \<open>
  The plane's count of free blocks never falls below the number of blocks that are free,
  whatever reads, writes and erases it serves (it may exceed it, since every successful erase
  counts, also that of a free block).
\<close>

theorem free_blocks_not_under:
  assumes "Plane_exec junk c a e p g = Some (s, e', p', g')" "addressed a"
    and "free_count p \<le> free_blocks p" "free_blocks p < 2 ^ 32 - 1"
  shows "free_count p' \<le> free_blocks p'"
proof (cases a)
  case URead
  then obtain bs where f: "forward (block (ev_address e)) (Block_read c e) (pdata p) g = Some (s, e', bs, g')"
    and p': "p' = p\<lparr>pdata := bs\<rparr>" using assms(1) Plane_read_cases by (metis Plane_exec_ops(1))
  have "bs = pdata p" using f Block_read_same by (fastforce simp: forward_Some)
  then show ?thesis using assms(3) p' by simp
next
  case UWrite
  then show ?thesis using free_blocks_write [of c e p g s e' p' g'] assms by (simp add: Plane_exec_ops)
next
  case UErase
  then show ?thesis using free_blocks_erase [of c e p g s e' p' g'] assms by (simp add: Plane_exec_ops)
qed (use assms(2) in simp_all)

theorem free_blocks_not_under_witness:
  "\<exists>s e' p' g'. Plane_exec 0 small_config UErase (small_event ERASE (page_address 1 0) None) small_plane small_env =
      Some (s, e', p', g') \<and> free_count p' \<le> free_blocks p' \<and> free_blocks p' = 3"
proof -
  obtain s e' p' g' where x: "Plane_exec 0 small_config UErase (small_event ERASE (page_address 1 0) None) small_plane
      small_env = Some (s, e', p', g')" "free_blocks p' = 3"
    by (simp add: Plane_exec_ops Plane_erase_def Block_erase_def forward_def small_plane_def Plane_new_def Block_new_def
        aget_def page_address_def small_env_def update_block_def get_start_time_def get_time_taken_def
        Plane_update_wear_stats_def wear_index_def upt_rec)
  moreover have "free_count small_plane \<le> free_blocks small_plane" "free_blocks small_plane < 2 ^ 32 - 1"
    by (simp_all add: free_count_def small_plane_def Plane_new_def count_if_le_length upt_rec)
  ultimately show ?thesis using free_blocks_not_under [OF x(1)] by auto
qed

section \<open>Block allocation\<close>

text \<open>Two addresses whose linear numbers lie in the same block have the same block coordinates.\<close>

lemma linear_same_block:
  assumes "geometry_ok c" "set_linear_address c m a = Some a" "set_linear_address c n b = Some b"
    and "m div BLOCK_SIZE c = n div BLOCK_SIZE c"
  shows "same_block a b"
proof -
  have coords: "block x = k div BLOCK_SIZE c mod PLANE_SIZE c \<and> plane x = k div BLOCK_SIZE c div PLANE_SIZE c mod DIE_SIZE c
      \<and> die x = k div BLOCK_SIZE c div PLANE_SIZE c div DIE_SIZE c mod PACKAGE_SIZE c
      \<and> package x = k div BLOCK_SIZE c div PLANE_SIZE c div DIE_SIZE c div PACKAGE_SIZE c mod SSD_SIZE c"
    if "set_linear_address c k x = Some x" for k x
    using arg_cong [OF that [unfolded set_linear_Some [OF assms(1)]], of "map_option block"]
      arg_cong [OF that [unfolded set_linear_Some [OF assms(1)]], of "map_option plane"]
      arg_cong [OF that [unfolded set_linear_Some [OF assms(1)]], of "map_option die"]
      arg_cong [OF that [unfolded set_linear_Some [OF assms(1)]], of "map_option package"] by simp
  show ?thesis using coords [OF assms(2)] coords [OF assms(3)] assms(4) by (simp add: same_block_def)
qed

text \<open>
  C30. Allocation from a new block manager, for a configuration whose addressable blocks fit the device: up to
  that number of requests all succeed, the \<open>i\<close>-th returns the first page of block \<open>i\<close> of the device, no
  two requests return the same block, and every page of the device below the blocks handed out lies in exactly one of them.
\<close>

theorem allocation_sequential:
  assumes "geometry_ok c" "gs_bm s = Block_manager_new c" "n \<le> NUMBER_OF_ADDRESSABLE_BLOCKS c"
    and "NUMBER_OF_ADDRESSABLE_BLOCKS c * BLOCK_SIZE c \<le> total_pages c" "total_pages c + BLOCK_SIZE c < 2 ^ 64"
  shows "\<exists>as s'. allocate_n ci c junk n e s = Some (as, s') \<and> length as = n
     \<and> (\<forall>i<n. in_device c (as ! i) \<and> real_address (as ! i) = i * BLOCK_SIZE c \<and> linear_of c (as ! i) = i * BLOCK_SIZE c)
     \<and> (\<forall>i<n. \<forall>j<n. same_block (as ! i) (as ! j) \<longrightarrow> i = j)
     \<and> (\<forall>a. in_device c a \<and> linear_of c a < n * BLOCK_SIZE c \<longrightarrow> same_block a (as ! (linear_of c a div BLOCK_SIZE c)))"
proof -
  have pos: "0 < BLOCK_SIZE c" using assms(1) by (simp add: geometry_ok_def)
  have bm: "max_blocks (gs_bm s) = NUMBER_OF_ADDRESSABLE_BLOCKS c" "simpleCurrentFree (gs_bm s) = 0"
    using assms(2) by (simp_all add: Block_manager_new_def)
  have le: "n * BLOCK_SIZE c \<le> NUMBER_OF_ADDRESSABLE_BLOCKS c * BLOCK_SIZE c" using assms(3) by simp
  obtain as s' where a: "allocate_n ci c junk n e s = Some (as, s')"
    "map real_address as = map (\<lambda>i. i * BLOCK_SIZE c) [0..<n]" "list_all (in_device c) as"
    "list_all (\<lambda>a. set_linear_address c (real_address a) a = Some a) as"
    using allocate_fresh [OF assms(1), of s n ci junk e] assms(4,5) le bm by auto
  have len: "length as = n" using arg_cong [OF a(2), of length] by simp
  have re: "real_address (as ! i) = i * BLOCK_SIZE c" if "i < n" for i
    using arg_cong [OF a(2), of "\<lambda>xs. xs ! i"] that len by simp
  have dev: "in_device c (as ! i)" "set_linear_address c (i * BLOCK_SIZE c) (as ! i) = Some (as ! i)" if "i < n" for i
    using a(3,4) that len re [OF that] by (auto simp: list_all_length)
  have lin: "linear_of c (as ! i) = i * BLOCK_SIZE c" if "i < n" for i
  proof (rule set_linear_roundtrip [OF assms(1) _ dev(2) [OF that]])
    have "i * BLOCK_SIZE c < n * BLOCK_SIZE c" using that pos by simp
    then show "i * BLOCK_SIZE c < total_pages c" by (rule less_le_trans [OF _ le_trans [OF le assms(4)]])
  qed
  have page0: "page (as ! i) = 0" if "i < n" for i
    using arg_cong [OF dev(2) [OF that, unfolded set_linear_Some [OF assms(1)]], of "map_option page"] by simp
  have inj: "i = j" if "i < n" "j < n" "same_block (as ! i) (as ! j)" for i j
  proof -
    have "linear_of c (as ! i) = linear_of c (as ! j)"
      using that(3) page0 [OF that(1)] page0 [OF that(2)] by (simp add: linear_of_def same_block_def)
    then show ?thesis using lin [OF that(1)] lin [OF that(2)] pos by simp
  qed
  have cover: "same_block x (as ! (linear_of c x div BLOCK_SIZE c))" if x: "in_device c x" "linear_of c x < n * BLOCK_SIZE c" for x
  proof -
    have i: "linear_of c x div BLOCK_SIZE c < n" using x(2) by (simp add: less_mult_imp_div_less)
    let ?x = "x\<lparr>real_address := linear_of c x\<rparr>"
    have l: "linear_of c ?x = linear_of c x" by (simp add: linear_of_def)
    have "set_linear_address c (linear_of c x) ?x = Some ?x"
      using linear_roundtrip [OF assms(1), of ?x] x(1) l by (simp add: in_device_def)
    from linear_same_block [OF assms(1) this dev(2) [OF i]] pos show ?thesis by (simp add: same_block_def)
  qed
  show ?thesis using a(1) len re dev(1) lin inj cover by blast
qed

definition fresh_manager :: "unit bm_state" where
  "fresh_manager = \<lparr>gs_bm = Block_manager_new small_config,
     gs_stats = \<lparr>numFTLRead = 0, numFTLWrite = 0, numFTLErase = 0, numFTLTrim = 0, numGCRead = 0, numGCWrite = 0,
       numGCErase = 0, numWLRead = 0, numWLWrite = 0, numWLErase = 0, numLogMergeSwitch = 0, numLogMergePartial = 0,
       numLogMergeFull = 0, numPageBlockToPageConversion = 0, numCacheHits = 0, numCacheFaults = 0,
       numMemoryTranslation = 0, numMemoryCache = 0, numMemoryRead = 0, numMemoryWrite = 0\<rparr>,
     gs_world = ()\<rparr>"

theorem allocation_sequential_witness:
  "\<exists>as s'. allocate_n stub_controller small_config 0 2 (small_event WRITE (page_address 0 0) None) fresh_manager = Some (as, s')
     \<and> linear_of small_config (as ! 0) = 0 \<and> linear_of small_config (as ! 1) = 2 \<and> \<not> same_block (as ! 0) (as ! 1)"
proof -
  have "gs_bm fresh_manager = Block_manager_new small_config" "NUMBER_OF_ADDRESSABLE_BLOCKS small_config = 2"
    "total_pages small_config = 4"
    by (simp_all add: fresh_manager_def small_config_def total_pages_def)
  then obtain as s' where a: "allocate_n stub_controller small_config 0 2 (small_event WRITE (page_address 0 0) None) fresh_manager =
      Some (as, s')" "\<forall>i<2. in_device small_config (as ! i) \<and> real_address (as ! i) = i * 2 \<and> linear_of small_config (as ! i) = i * 2"
    "\<forall>i<2. \<forall>j<2. same_block (as ! i) (as ! j) \<longrightarrow> i = j"
    using allocation_sequential [of small_config fresh_manager 2 stub_controller 0 "small_event WRITE (page_address 0 0) None"]
    by auto
  have "linear_of small_config (as ! 0) = 0" "linear_of small_config (as ! 1) = 2" using a(2) by simp_all
  moreover have "\<not> same_block (as ! 0) (as ! 1)" using spec [OF spec [OF a(3), of 0, simplified], of 1] by simp
  ultimately show ?thesis using a(1) by blast
qed

text \<open>
  With the controller this repository links (its \<open>get_block_pointer\<close> returns the null
  pointer) no data or log block can ever be allocated: marking the block dereferences null.
\<close>

theorem stub_controller_cannot_allocate:
  assumes "ty \<noteq> LOG_SEQ"
  shows "get_free_block stub_controller c junk ty e s = None"
  by (rule stub_allocation_aborts [OF assms])

theorem stub_controller_cannot_allocate_witness:
  "get_free_block stub_controller small_config 0 DATA (small_event WRITE (page_address 0 0) None) fresh_manager = None"
  by (rule stub_controller_cannot_allocate) simp

section \<open>The ZNS translation layer\<close>

text \<open>
  The ZNS translation layer maps logical pages below the capacity of one plane to
  distinct physical pages inside it: the block is the zone and the page the offset in it.
\<close>

theorem zns_translation:
  assumes "0 < BLOCK_SIZE c" "PLANE_SIZE c * BLOCK_SIZE c \<le> 2 ^ 32"
    and "logical_address e < PLANE_SIZE c * BLOCK_SIZE c" "logical_address e2 < PLANE_SIZE c * BLOCK_SIZE c"
  shows "block (zns_address c junk e) < PLANE_SIZE c \<and> page (zns_address c junk e) < BLOCK_SIZE c
     \<and> block (zns_address c junk e) * BLOCK_SIZE c + page (zns_address c junk e) = logical_address e
     \<and> (Address_compare (zns_address c junk e) (zns_address c junk e2) = PAGE \<longleftrightarrow> logical_address e = logical_address e2)"
proof -
  have z: "zns_block_size c = BLOCK_SIZE c" using assms(1) by (simp add: zns_block_size_def)
  note b = zns_address_block [OF z assms(3,2), of junk] zns_address_block [OF z assms(4,2), of junk]
  have f: "package (zns_address c junk x) = 0" "die (zns_address c junk x) = 0" "plane (zns_address c junk x) = 0"
    "valid (zns_address c junk x) = PAGE" "page (zns_address c junk x) < BLOCK_SIZE c" for x
    using assms(1) by (simp_all add: zns_address_def Let_def z)
  have "block (zns_address c junk e) = block (zns_address c junk e2) \<and> page (zns_address c junk e) = page (zns_address c junk e2)
      \<longleftrightarrow> logical_address e = logical_address e2"
  proof
    assume "logical_address e = logical_address e2"
    then show "block (zns_address c junk e) = block (zns_address c junk e2) \<and>
        page (zns_address c junk e) = page (zns_address c junk e2)" by (simp add: zns_address_def)
  qed (use b in metis)
  then show ?thesis using b f by (simp add: compare_page_iff)
qed

theorem zns_translation_witness:
  "Address_compare (zns_address small_config 0 ((small_event READ (page_address 0 0) None)\<lparr>logical_address := 3\<rparr>))
     (zns_address small_config 0 ((small_event READ (page_address 0 0) None)\<lparr>logical_address := 2\<rparr>)) \<noteq> PAGE"
  using zns_translation [of small_config "(small_event READ (page_address 0 0) None)\<lparr>logical_address := 3\<rparr>"
      "(small_event READ (page_address 0 0) None)\<lparr>logical_address := 2\<rparr>" 0] by simp

end
