(* ===== verification/Driver_Properties.thy ===== *)
theory Driver_Properties
  imports Trace_Drivers Flash_Properties
begin

text \<open>
  The host programs: which requests they make, for every disk, and what they report on the
  controller that the repository builds.
\<close>

section \<open>Reference runs\<close>

text \<open>How many pages a file has, the last one perhaps partial.\<close>

definition pages_of :: "nat \<Rightarrow> nat \<Rightarrow> nat" where
  "pages_of ps n = (n + ps - 1) div ps"

lemma page_starts_before: "0 < ps \<Longrightarrow> k * ps < n \<longleftrightarrow> k < pages_of ps n"
proof -
  assume p: "0 < ps"
  have "k < pages_of ps n \<longleftrightarrow> Suc k * ps \<le> n + ps - 1" unfolding pages_of_def
    using p by (simp add: Suc_le_eq [symmetric] less_eq_div_iff_mult_less_eq)
  then show ?thesis using p by auto
qed

fun play :: "'w arrive \<Rightarrow> ('w \<Rightarrow> u8 list option) \<Rightarrow> uint \<Rightarrow> event_type \<Rightarrow> u8 list \<Rightarrow> nat list \<Rightarrow> time \<Rightarrow> time \<Rightarrow> 'w \<Rightarrow>
   (time \<times> time \<times> message list \<times> 'w) option" where
  "play arrive buf ps ty test [] result clock w = Some (result, clock, [], w)"
| "play arrive buf ps ty test (i # is) result clock w = do {
     (t, w1) \<leftarrow> arrive ty i 1 clock (Some (UserBuf (file_page ps test (i * ps)))) w;
     (r, tm, ms, w2) \<leftarrow> play arrive buf ps ty test is (result + t) (clock + t) w1;
     Some (r, tm, compare_page buf ps ty (file_page ps test (i * ps)) i w1 @ ms, w2)
   }"

lemma seq_loop_play:
  assumes "0 < ps" "fs + ps \<le> 2 ^ 32"
  shows "seq_loop arrive buf ps ty test fs (k * ps) k result clock w = play arrive buf ps ty test [k..<pages_of ps fs] result clock w"
proof (induction "pages_of ps fs - k" arbitrary: k result clock w)
  case 0
  then show ?case using page_starts_before [OF assms(1), of k fs] by (subst seq_loop.simps) simp
next
  case (Suc m)
  then have k: "k < pages_of ps fs" by simp
  then have l: "k * ps < fs" by (simp add: page_starts_before [OF assms(1)])
  then have n: "Suc k * ps < 2 ^ 32" using assms by simp
  have "Suc k \<le> Suc k * ps" using assms(1) by (cases ps) simp_all
  with n have "Suc k * ps < 2 ^ 32" "Suc k < 2 ^ 32" by linarith+
  then have s: "add32 (k * ps) ps = Suc k * ps" "inc32 k = Suc k" by (simp_all add: add.commute)
  have IH: "seq_loop arrive buf ps ty test fs (Suc k * ps) (Suc k) r c w1
      = play arrive buf ps ty test [Suc k..<pages_of ps fs] r c w1" for r c w1
    using Suc.hyps(2) by (intro Suc.hyps(1)) simp
  show ?case
    unfolding upt_conv_Cons [OF k] using l s IH by (subst seq_loop.simps) simp
qed

text \<open>
  C39. The sequential pass of the correctness program, on any disk: for a file that does not
  reach the end of the 32-bit range it ends whenever the disk answers, and makes one request
  for every page of the file, the last partial page included, in order, each with the bytes of
  that page and each starting when the one before has ended.
\<close>

theorem do_seq_visits_pages:
  assumes "0 < ps" "fs + ps \<le> 2 ^ 32"
  shows "do_seq arrive buf ps ty test fs clock w = play arrive buf ps ty test [0..<pages_of ps fs] 0 clock w"
  using seq_loop_play [OF assms, of arrive buf ty test 0] by (simp add: do_seq_def)

theorem do_seq_visits_pages_witness:
  "do_seq (\<lambda>ty la sz st b w. Some (1, w @ [la])) (\<lambda>w. None) 4 WRITE [] 9 0 [] = Some (3, 3, [], [0, 1, 2])"
  by (subst do_seq_visits_pages) (simp_all add: pages_of_def upt_rec compare_page_def)

section \<open>The correctness program on the built controller\<close>

definition ssd_buffer :: "ssd \<times> env \<Rightarrow> u8 list option" where
  "ssd_buffer w = map_option (page_data (snd w)) (Ssd_get_result_buffer (snd w))"

lemma play_built:
  assumes "list_all (request_in_range c) is" "0 \<le> clock" "ssd_buffer w = None"
  shows "play (ssd_arrive Controller_event_arrive c aj) ssd_buffer ps ty test is result clock w
    = Some (result, clock, if ty = READ then replicate (length is) Not_written else [], w)"
  using assms by (induction "is" arbitrary: result) (simp_all add: built_arrive compare_page_def)

text \<open>
  The correctness program on the controller that the repository builds: it writes every page
  of the file four times and then reports, page by page, that no data has been written. Nothing is ever
  compared.
\<close>

lemma correctness_reads_nothing:
  assumes "0 < PAGE_SIZE c" "fs + PAGE_SIZE c \<le> 2 ^ 32" "\<forall>i < pages_of (PAGE_SIZE c) fs. request_in_range c i"
    and "ssd_buffer w = None"
  shows "run_correctness (ssd_arrive Controller_event_arrive c aj) ssd_buffer (PAGE_SIZE c) test fs w
    = Some (0, replicate (pages_of (PAGE_SIZE c) fs) Not_written, w)"
proof -
  let ?n = "pages_of (PAGE_SIZE c) fs"
  have r: "list_all (request_in_range c) [0..<?n]" using assms(3) by (simp add: list_all_iff)
  have "do_seq (ssd_arrive Controller_event_arrive c aj) ssd_buffer (PAGE_SIZE c) ty test fs 0 w
      = Some (0, 0, if ty = READ then replicate (pages_of (PAGE_SIZE c) fs) Not_written else [], w)" for ty
    using seq_loop_play [OF assms(1,2), where k = 0 and arrive = "ssd_arrive Controller_event_arrive c aj"]
      play_built [OF r order_refl assms(4)] by (simp add: do_seq_def)
  then show ?thesis by (simp add: run_correctness_def)
qed

section \<open>The emulation interface\<close>

text \<open>
  Writing \<open>size\<close> bytes through the interface for emulators sends one request for every page that the range
  has, but every one of them to the address of the first page: of a range of several pages only the
  first is ever written. The time of all of them is that of the call.
\<close>

theorem ssd_write_repeats_page:
  assumes "0 < ps" "sz + int ps \<le> 2 ^ 31"
  shows "SSD_Write arrive ps boot now address sz w
    = requests arrive (replicate (nat \<lceil>of_int sz / real ps\<rceil>) (WRITE, address, request_time boot now, None)) w"
  using ssdsim_loop_requests [OF assms order_refl] by (simp add: SSD_Write_def)

theorem ssd_write_repeats_page_witness:
  "SSD_Write (\<lambda>ty la sz st b w. Some (1, w @ [la])) 4096 (0, 0) (2, 0) 5 8193 [] = Some ([1, 1, 1], [5, 5, 5])"
proof -
  have "nat \<lceil>of_int 8193 / real 4096\<rceil> = 3" by (simp add: ceiling_eq_iff)
  then show ?thesis by (subst ssd_write_repeats_page) (simp_all add: numeral_3_eq_3)
qed

section \<open>The benchmark\<close>

lemma bimodal_phases_length: "length bimodal_phases = 8"
  by (simp add: bimodal_phases_def)

text \<open>
  The benchmark, on any controller: if it completes, its report has a row for each of the 65536
  pages of the trimmed area, with eight times in it, none of them negative. The header line names nine columns.
\<close>

lemma bimodal_report:
  assumes "run_bimodal (ssd_arrive h c aj) reset c rnd junk w = Some (rows, w')"
  shows "length rows = 65536" "\<forall>row \<in> set rows. length row = 8 \<and> list_all (\<lambda>t. 0 \<le> t) row" "length bimodal_header = 9"
proof -
  from assms obtain start w1 cols clock where
    p: "phases (ssd_arrive h c aj) start trim_area bimodal_phases junk w1 = Some (cols, clock, w')" and
    r: "report cols = Some rows"
    by (rule run_bimodal_SomeE)
  have l: "map length cols = replicate 8 65536"
    using any_ssd.phases_lengths [OF p] by (simp only: trim_area_length bimodal_phases_length)
  from arg_cong [OF l, of length] have n: "length cols = 8" by simp
  from r report_rows [OF l zero_less_numeral] have rows: "rows = map (\<lambda>i. map (\<lambda>col. col ! i) cols) [0..<65536]" by simp
  then show "length rows = 65536" by simp
  have "length col = 65536" if "col \<in> set cols" for col
    using that l by (metis imageI in_set_replicate list.set_map)
  with any_ssd.phases_times [OF p] rows n
  show "\<forall>row \<in> set rows. length row = 8 \<and> list_all (\<lambda>t. 0 \<le> t) row" by (auto simp: list_all_iff)
qed (simp add: bimodal_header_def)

lemma below_total:
  assumes "VIRTUAL_PAGE_SIZE c = 1" "p \<le> int (total_pages c)" "la < nat p" "p \<le> 3145216"
  shows "request_in_range c la"
  using assms by (simp add: request_in_range_def signed64_def) linarith

text \<open>On the controller that is built, which answers every request in no time, it completes, and every cell is zero.\<close>

lemma bimodal_on_built:
  assumes "VIRTUAL_PAGE_SIZE c = 1" "196608 \<le> total_pages c" "bimodal_pre_io c = Some p" "p \<le> int (total_pages c)" "0 \<le> junk"
  shows "run_bimodal (ssd_arrive Controller_event_arrive c aj) reset c rnd junk w = Some (replicate 65536 (replicate 8 0), reset (reset w))"
proof -
  let ?rs = "map (\<lambda>i. rnd i mod nat p) [0..<rounds (of_int p * 1.1)]"
  have "p \<le> 3145216" using assms(3) by (auto simp: bimodal_pre_io_def pre_io_def bind_eq_Some_conv)
  moreover have "0 < p" if "i < rounds (of_int p * 1.1)" for i using that by (cases "0 < p") (simp_all add: rounds_def)
  ultimately have in_range: "request_in_range c (rnd i mod nat p)" if "i < rounds (of_int p * 1.1)" for i
    using that below_total [OF assms(1,4)] mod_less_divisor [of "nat p" "rnd i"] by auto
  have trims: "list_all (request_in_range c) trim_area"
    using below_total [OF assms(1), of 196608] assms(2) by (simp add: list_all_iff trim_area_below)
  have "report (replicate 8 (replicate 65536 0)) = Some (map (\<lambda>i. map (\<lambda>col. col ! i) (replicate 8 (replicate 65536 0))) [0..<65536])"
    by (rule report_rows [where k = 8]) (simp_all only: map_replicate length_replicate zero_less_numeral)
  also have "map (\<lambda>i. map (\<lambda>col. col ! i) (replicate 8 (replicate 65536 (0::time)))) [0..<65536] = replicate 65536 (replicate 8 0)"
    by (rule replicate_eqI) (auto simp: map_replicate simp del: upt_rec_numeral)
  finally have rows: "report (replicate 8 (replicate 65536 0)) = Some (replicate 65536 (replicate 8 0))" .
  have "fill_device (ssd_arrive Controller_event_arrive c aj) ?rs 0 (reset w) = Some (0, reset w)"
    using in_range by (intro fill_built) (auto simp: list_all_iff)
  then show ?thesis using assms(3,5) rows
    by (simp add: run_bimodal_def phases_built [OF trims] trim_area_length bimodal_phases_length)
qed

text \<open>
  The two numbers that \<open>verification.cpp\<close> prints, on any controller, when it completes: the first is the mean
  of the times of all its requests, none of which is negative. The second is printed as the variance; it is the standard deviation,
  its square is the mean of the squares less the square of the mean.
\<close>

lemma verification_prints_deviation:
  assumes "run_verification (ssd_arrive h c aj) reset c rnd junk w = Some (mn, v, w')"
  obtains p ts where "verification_pre_io c = Some p" "length ts = rounds (of_int p * 1.3) + 12288" "list_all (\<lambda>t. 0 \<le> t) ts"
    "mn = sum_list ts / real (length ts)" "0 \<le> v" "v ^ 2 = (\<Sum>t\<leftarrow>ts. t ^ 2) / real (length ts) - mn ^ 2"
proof -
  from assms obtain p ts1 clock1 w1 ts2 clock2 where p: "verification_pre_io c = Some p" and
    t: "timed (ssd_arrive h c aj) WRITE 0 (map (\<lambda>i. rnd i mod 3145216) [0..<rounds (of_int p * 1.3)]) junk (reset w) = Some (ts1, clock1, w1)"
      "timed (ssd_arrive h c aj) TRIM 0 (verification_trims p) clock1 w1 = Some (ts2, clock2, w')"
    and m: "mn = mean_of (ts1 @ ts2)" "v = sqrt (variance_of (ts1 @ ts2))"
    by (rule run_verification_SomeE)
  have "length (verification_trims p) = 12288" by (simp add: verification_trims_def Let_def)
  with any_ssd.timed_times [OF t(1)] any_ssd.timed_times [OF t(2)]
  have l: "length (ts1 @ ts2) = rounds (of_int p * 1.3) + 12288" "list_all (\<lambda>t. 0 \<le> t) (ts1 @ ts2)" by simp_all
  then have "ts1 @ ts2 \<noteq> []" by auto
  from variance_of_moments [OF this] m variance_nonneg [of "ts1 @ ts2"]
  have v: "v ^ 2 = (\<Sum>t\<leftarrow>ts1 @ ts2. t ^ 2) / real (length (ts1 @ ts2)) - mn ^ 2" "0 \<le> v"
    by (simp_all only: real_sqrt_pow2 mean_of_sum length_map real_sqrt_ge_zero)
  show ?thesis using m(1) unfolding mean_of_sum by (rule that [OF p l _ v(2,1)])
qed

text \<open>
  \<open>verification.cpp\<close> draws its addresses below the constant 3145216 and not below the size of the
  device: as soon as a drawn page number exceeds the number of pages, the program is stopped
  by the range check of \<open>Ssd::event_arrive\<close>, whatever the controller.
\<close>

theorem verification_aborts_outside:
  assumes "VIRTUAL_PAGE_SIZE c = 1" "verification_pre_io c = Some p" "k < rounds (of_int p * 1.3)"
    and "total_pages c < rnd k mod 3145216"
  shows "run_verification (ssd_arrive h c aj) reset c rnd junk w = None"
proof -
  have "\<not> request_in_range c (rnd k mod 3145216)"
    using assms(1,4) mod_less_divisor [of 3145216 "rnd k"] by (simp add: request_in_range_def signed64_def)
  with assms(3) have "\<not> list_all (request_in_range c) (map (\<lambda>i. rnd i mod 3145216) [0..<rounds (of_int p * 1.3)])"
    by (auto simp: list_all_iff)
  then show ?thesis using assms(2) by (simp add: run_verification_def timed_outside)
qed

text \<open>The geometry of the \<open>ssd.conf\<close> in the repository: 262144 pages.\<close>

definition shipped_config :: config where
  "shipped_config = default_config\<lparr>SSD_SIZE := 1, PACKAGE_SIZE := 2, DIE_SIZE := 2, PLANE_SIZE := 1024, BLOCK_SIZE := 64,
     FTL_IMPLEMENTATION := 5\<rparr>"

lemma shipped_geometry:
  "verification_pre_io shipped_config = Some 261120" "total_pages shipped_config = 262144" "VIRTUAL_PAGE_SIZE shipped_config = 1"
  by (simp_all add: verification_pre_io_def pre_io_def device_pages_def shipped_config_def default_config_def int32_def total_pages_def)

theorem verification_aborts_outside_witness:
  "run_verification (ssd_arrive Controller_event_arrive shipped_config 0) (\<lambda>w. w) shipped_config (\<lambda>i. 300000 * i) 0 (small_ssd, small_env) = None"
  by (rule verification_aborts_outside [OF shipped_geometry(3,1), of 1]) (simp_all add: rounds_def shipped_geometry)

end
