(* ===== verification/Replay_Properties.thy ===== *)
theory Replay_Properties
  imports Trace_Replay Driver_Properties
begin

text \<open>
  The trace reader: an unreadable line repeats the request before it, and the report has a row per
  file. The interactive program: a number that was written is printed.
\<close>

section \<open>Decimal numbers\<close>

fun decimal :: "nat \<Rightarrow> string" where
  "decimal n = (if n < 10 then [char_of (48 + n)] else decimal (n div 10) @ [char_of (48 + n mod 10)])"

declare decimal.simps [simp del]

lemma digit_char:
  assumes "d < 10"
  shows "digit_of (char_of (48 + d)) = d" "is_digit (char_of (48 + d))" "of_char (char_of (48 + d) :: char) = 48 + d"
proof -
  show "of_char (char_of (48 + d) :: char) = 48 + d" using assms by (simp add: of_char_of)
  then show "digit_of (char_of (48 + d)) = d" "is_digit (char_of (48 + d))" using assms by (simp_all add: digit_of_def is_digit_def Let_def)
qed

lemma decimal_digits: "ch \<in> set (decimal n) \<Longrightarrow> digit_of ch < 10 \<and> is_digit ch"
proof (induction n rule: decimal.induct)
  case (1 n)
  then show ?case using digit_char [of n] digit_char [of "n mod 10"] decimal.simps [of n] by (auto split: if_splits)
qed

lemma decimal_nonempty [simp]: "decimal n \<noteq> []"
  by (subst decimal.simps) simp

lemma decimal_value: "foldl (\<lambda>n ch. 10 * n + digit_of ch) 0 (decimal n) = n"
proof (induction n rule: decimal.induct)
  case (1 n)
  then show ?case using digit_char [of n] digit_char [of "n mod 10"] by (subst decimal.simps) simp
qed

lemma decimal_digits_value: "digits_value (decimal n) = n"
proof (induction n rule: decimal.induct)
  case (1 n)
  then show ?case using digit_char [of n] digit_char [of "n mod 10"] unfolding digits_value_def by (subst decimal.simps) simp
qed

lemma decimal_hd: "0 < n \<Longrightarrow> hd (decimal n) \<noteq> CHR ''0''"
proof (induction n rule: decimal.induct)
  case (1 n)
  have "digit_of (CHR ''0'') = 0" by (simp add: digit_of_def)
  with 1 digit_char(1) [of n] show ?case by (subst decimal.simps) auto
qed

text \<open>A number is read up to the character that follows it.\<close>

definition stops :: "string \<Rightarrow> bool" where
  "stops s \<longleftrightarrow> (case s of [] \<Rightarrow> True | ch # _ \<Rightarrow> 16 \<le> digit_of ch \<and> \<not> is_digit ch \<and> ch \<noteq> CHR ''x'' \<and> ch \<noteq> CHR ''X'')"

lemma scan_decimal: "stops s \<Longrightarrow> scan_base 10 (decimal n @ s) = Some (n, s)"
proof -
  assume "stops s"
  then have "takeWhile (\<lambda>ch. digit_of ch < 10) (decimal n @ s) = decimal n"
    by (cases s) (auto simp: stops_def decimal_digits takeWhile_append2 takeWhile_append)
  then show ?thesis by (simp add: scan_base_def decimal_value)
qed

lemma scan_prefixed_decimal: "stops s \<Longrightarrow> scan_prefixed (decimal n @ s) = Some (n, s)"
proof -
  assume s: "stops s"
  show ?thesis
  proof (cases "n = 0")
    case True
    then have "decimal n = ''0''" by (simp add: decimal.simps char_of_def bit_0)
    with s show ?thesis by (cases s) (auto simp: scan_prefixed_def scan_base_def stops_def digit_of_def True)
  next
    case False
    then have "take 1 (decimal n @ s) \<noteq> ''0''" "take 2 (decimal n @ s) \<noteq> ''0x''" "take 2 (decimal n @ s) \<noteq> ''0X''"
      using decimal_hd [of n] by (cases "decimal n", auto)+
    then show ?thesis using scan_decimal [OF s] by (simp add: scan_prefixed_def)
  qed
qed

lemma signed_decimal:
  assumes "scan (decimal n @ s) = Some (n, s)"
  shows "signed_number scan (decimal n @ s) = Some (int n, s)"
proof -
  obtain ch r where d: "decimal n = ch # r" by (cases "decimal n") simp_all
  then have "is_digit ch" using decimal_digits [of ch n] by simp
  then have "\<not> is_space ch" "ch \<noteq> CHR ''-''" "ch \<noteq> CHR ''+''" by (auto simp: is_digit_def is_space_def)
  then show ?thesis using assms d by (simp add: signed_number_def)
qed

lemma real_decimal: "stops s \<Longrightarrow> s = [] \<or> hd s = CHR 0x0A \<Longrightarrow> scan_real (dropWhile is_space (decimal n @ s)) = Some (real n)"
proof -
  assume s: "stops s" "s = [] \<or> hd s = CHR 0x0A"
  obtain ch r where d: "decimal n = ch # r" by (cases "decimal n") simp_all
  then have "is_digit ch" using decimal_digits [of ch n] by simp
  then have ns: "\<not> is_space ch" "ch \<noteq> CHR ''-''" "ch \<noteq> CHR ''+''" by (auto simp: is_digit_def is_space_def)
  then have "scan_sign (decimal n @ s) = (1, decimal n @ s)" using d by simp
  moreover have "takeWhile is_digit (decimal n @ s) = decimal n" "dropWhile is_digit (decimal n @ s) = s"
    using s(1) by (cases s; auto simp: stops_def decimal_digits takeWhile_append dropWhile_append)+
  moreover have "dropWhile is_space (decimal n @ s) = decimal n @ s" using d ns by simp
  ultimately show ?thesis using s(2) by (auto simp: scan_real_def scan_exponent_def Let_def decimal_digits_value)
qed

section \<open>Unreadable lines\<close>

text \<open>
  A line that is not a request, for example an empty one, leaves the variables of the line before it:
  the request before it is sent again, and counted again.
\<close>

lemma unreadable_line_repeats:
  assumes "line \<noteq> []" "separator (tl line) = None"
  shows "replay_lines arrive mult start (line # lines) v n w = Option.bind
      (replay_line arrive mult start (v\<lparr>ioPatternType := hd line\<rparr>) n w)
      (\<lambda>(v1, n1, w1). replay_lines arrive mult start lines v1 n1 w1)"
proof -
  have "sscanf_trace line v = Some (v\<lparr>ioPatternType := hd line\<rparr>)"
    using assms by (cases line) (simp_all add: sscanf_trace_def field_def)
  then show ?thesis by simp
qed

section \<open>The report\<close>

lemma report_columns: "length (Stats_write_statistics s) = length Stats_write_header" "length trace_header = 27"
  by (simp_all add: Stats_write_statistics_def Stats_write_header_def trace_header_def)

definition totals_ok :: "totals \<Rightarrow> bool" where
  "totals_ok n \<longleftrightarrow> 0 \<le> read_time n \<and> 0 \<le> write_time n"

context disk
begin

lemma replay_pages_later: "replay_pages arrive ty va mult base is l w = Some (l', w') \<Longrightarrow> l \<le> l'"
proof (induction "is" arbitrary: l w)
  case (Cons i "is")
  then show ?case by (fastforce simp: bind_eq_Some_conv dest: elapsed)
qed simp

lemma replay_line_totals: "replay_line arrive mult start v n w = Some (v', n', w') \<Longrightarrow> totals_ok n \<Longrightarrow> totals_ok n'"
  by (fastforce simp: replay_line_def Let_def totals_ok_def bind_eq_Some_conv split: if_splits dest!: replay_pages_later)

lemma replay_lines_totals: "replay_lines arrive mult start lines v n w = Some (v', n', w') \<Longrightarrow> totals_ok n \<Longrightarrow> totals_ok n'"
proof (induction lines arbitrary: v n w)
  case (Cons line lines)
  then show ?case by (fastforce simp: bind_eq_Some_conv dest: replay_line_totals)
qed simp

lemma second_pass_rows:
  "second_pass arrive reset stats_of fs dir names start v w = Some (rows, w') \<Longrightarrow>
   map row_file rows = names \<and> list_all (\<lambda>r. totals_ok (row_totals r) \<and> row_time r = read_time (row_totals r) + write_time (row_totals r)) rows"
proof (induction names arbitrary: start v w rows)
  case (Cons name names)
  then show ?case
    by (fastforce simp: bind_eq_Some_conv replay_file_def Let_def no_totals_def totals_ok_def dest: replay_lines_totals)
qed simp

end

text \<open>
  The report of the trace reader, on any controller: if both passes complete there is one row for every file, in the order
  of the names; no time in it is negative, the total time is the sum of the two, and a row has as many
  columns of statistics as the header.
\<close>

theorem trace_report:
  assumes "run_ufliptrace (ssd_arrive h c junk) reset stats_of fs dir (Some names) v0 w = Some (rows, w')"
  shows "map row_file rows = sort names \<and> (\<forall>r \<in> set rows. 0 \<le> read_time (row_totals r) \<and> 0 \<le> write_time (row_totals r)
    \<and> row_time r = read_time (row_totals r) + write_time (row_totals r))"
proof -
  obtain start v w1 where "second_pass (ssd_arrive h c junk) reset stats_of fs dir (sort names) start v w1 = Some (rows, w')"
    using assms unfolding run_ufliptrace_def by (cases w') (auto simp: bind_eq_Some_conv)
  from any_ssd.second_pass_rows [OF this] show ?thesis by (auto simp: list_all_iff totals_ok_def)
qed

definition no_vars :: trace_vars where
  "no_vars = \<lparr>ioPatternType = CHR ''S'', ioType = CHR ''R'', vaddr = 0, queryTime = 0, ioSize = 0, arrive_time = 0\<rparr>"

definition trace_files :: "(string \<times> string) list" where
  "trace_files = [(''t/test5P2_b'', ''S; W; 128; 0; 2; 25''), (''t/test1P2_a'', [])]"

lemma trace_names: "sort [''test5P2_b'', ''test1P2_a''] = [''test1P2_a'', ''test5P2_b'']"
  by (simp add: less_eq_char_def less_char_def)

lemma trace_positions:
  "find_first (CHR ''P'') ''test1P2_a'' = 5" "find_last (CHR ''_'') ''test1P2_a'' = 7"
  "find_first (CHR ''P'') ''test5P2_b'' = 5" "find_last (CHR ''_'') ''test5P2_b'' = 7"
  by (simp_all add: find_first_def find_last_def)

lemma trace_stride: "atof ''2'' = 2"
  by (simp add: atof_def List.map_filter_def is_space_def is_digit_def scan_real_def scan_exponent_def digits_value_def)

lemma trace_multipliers: "file_multiplier ''test1P2_a'' = Some 1" "file_multiplier ''test5P2_b'' = Some 2"
  by (simp_all add: file_multiplier_def trace_positions trace_stride substr_def inc64_def dec64_def sub64_def)

lemma trace_lines: "file_lines 79 ''S; W; 128; 0; 2; 25'' = [''S; W; 128; 0; 2; 25'']" "file_lines 79 [] = []"
  by (simp_all add: file_lines.simps fgets_line_def)

lemma trace_scan: "sscanf_trace ''S; W; 128; 0; 2; 25'' v
    = Some \<lparr>ioPatternType = CHR ''S'', ioType = CHR ''W'', vaddr = 128, queryTime = 0, ioSize = 2, arrive_time = 25\<rparr>"
  by (simp add: sscanf_trace_def field_def signed_number_def scan_base_def scan_prefixed_def digit_of_def is_space_def is_digit_def
      scan_real_def scan_exponent_def digits_value_def Let_def)

lemma trace_replay:
  assumes "0 \<le> start + 25"
  shows "replay_lines (ssd_arrive Controller_event_arrive shipped_config 0) 2 start [''S; W; 128; 0; 2; 25''] v n w
    = Some (\<lparr>ioPatternType = CHR ''S'', ioType = CHR ''W'', vaddr = 128, queryTime = 0, ioSize = 2, arrive_time = 25\<rparr>,
        n\<lparr>num_writes := add64 (num_writes n) 2\<rparr>, w)"
proof -
  have "request_in_range shipped_config 128" "request_in_range shipped_config 130"
    by (simp_all add: request_in_range_def shipped_geometry signed64_def)
  moreover have "[0..<nat 2] = [0, 1]" by (simp add: upt_rec)
  ultimately show ?thesis
    using assms by (simp add: trace_scan replay_line_def double_to_int_def trace_address_def built_arrive Let_def)
      (simp add: numeral_2_eq_2)
qed

theorem trace_report_witness:
  "\<exists>rows. run_ufliptrace (ssd_arrive Controller_event_arrive shipped_config 0) (\<lambda>w. w) (\<lambda>w. undefined)
     (map_of trace_files) ''t/'' (Some [''test5P2_b'', ''test1P2_a'']) no_vars (small_ssd, small_env)
     = Some (rows, small_ssd, small_env) \<and> map row_file rows = [''test1P2_a'', ''test5P2_b'']"
proof -
  have "\<exists>rows. run_ufliptrace (ssd_arrive Controller_event_arrive shipped_config 0) (\<lambda>w. w) (\<lambda>w. undefined)
     (map_of trace_files) ''t/'' (Some [''test5P2_b'', ''test1P2_a'']) no_vars (small_ssd, small_env) = Some (rows, small_ssd, small_env)"
    unfolding run_ufliptrace_def Option.bind.simps trace_names
    by (simp add: replay_file_def trace_multipliers trace_lines trace_replay trace_files_def no_vars_def Let_def
        del: replay_lines.simps(2))
  then show ?thesis using trace_report trace_names by metis
qed

section \<open>The interactive program\<close>

lemma byte_digits: "n mod 256 + 256 * (n div 256 mod 256) + 65536 * (n div 65536 mod 256) + 16777216 * (n div 16777216 mod 256)
    = n mod 4294967296" for n :: int
  using zmod_zmult2_eq [of 256 n 256] zmod_zmult2_eq [of 256 n 65536] zmod_zmult2_eq [of 256 n 16777216] by simp

lemma uint_byte: "uint (word_of_int n :: u8) = n mod 256"
  by (simp add: uint_word_of_int take_bit_eq_mod)

lemma load_store_int: "- (2 ^ 31) \<le> n \<Longrightarrow> n < 2 ^ 31 \<Longrightarrow> load_int (store_int n b) = Some n"
proof -
  assume n: "- (2 ^ 31) \<le> n" "n < 2 ^ 31"
  have "load_int (store_int n b) = Some (int32 (n mod 256 + 256 * (n div 256 mod 256) + 65536 * (n div 65536 mod 256)
      + 16777216 * (n div 16777216 mod 256)))"
    by (simp add: load_int_def store_int_def uint_byte)
  also have "\<dots> = Some (int32 (n mod 2 ^ 32))" unfolding byte_digits by simp
  also have "int32 (n mod 2 ^ 32) = int32 n" unfolding int32_def mod_add_left_eq ..
  finally show ?thesis using int32_small [OF n] by simp
qed

lemma signed_number_space: "is_space ch \<Longrightarrow> signed_number scan (ch # s) = signed_number scan s"
  by (simp add: signed_number_def)

lemma white_space: "is_space (CHR '' '')" "is_space (CHR 0x0A)" "stops (CHR '' '' # s)" "stops (CHR 0x0A # s)"
  by (simp_all add: is_space_def stops_def digit_of_def is_digit_def)

lemma next_command_decimal:
  assumes "\<not> is_space ch" "va < 2 ^ 64" "stops s"
  shows "next_command (ch # CHR '' '' # decimal va @ s) = Some (ch, va, s)"
proof -
  have "int va < 2 ^ 64" "nat (int va mod 2 ^ 64) = va" using assms(2) by simp_all
  with assms show ?thesis
    by (simp add: next_command_def signed_number_space white_space signed_decimal scan_decimal)
qed

lemma next_command_space: "is_space ch \<Longrightarrow> next_command (ch # s) = next_command s"
  by (simp add: next_command_def)

lemma read_int_decimal: "n < 2 ^ 31 \<Longrightarrow> stops s \<Longrightarrow> read_int (CHR '' '' # decimal n @ s) = (int n, Some s)"
  by (simp add: read_int_def signed_number_space white_space signed_decimal scan_decimal)

text \<open>
  C3. A session with the interactive program: the input writes a number to a page and then reads the page. If the
  disk stores the buffer of the write and the read finds it, the program prints the number that was
  written and the page, and ends with the input.
\<close>

definition write_read_input :: "nat \<Rightarrow> nat \<Rightarrow> string" where
  "write_read_input va n = (CHR ''W'' # CHR '' '' # decimal va @ CHR '' '' # decimal n @ CHR 0x0A # CHR ''R'' # CHR '' '' # decimal va @ [CHR 0x0A])"

theorem debug_write_then_read:
  assumes "va < 2 ^ 64" "n < 2 ^ 31" "4 \<le> length b"
    and "arrive WRITE va 1 (now k) (Some (UserBuf (store_int (int n) b))) (clear w) = Some (t1, w1)"
    and "arrive READ va 1 (now (Suc k)) (Some (UserBuf (store_int (int n) b))) (clear w1) = Some (t2, w2)"
    and "result w2 = Some (pg, store_int (int n) b)"
  shows "debug arrive clear result now k b (write_read_input va n) w = Some ([(int n, Some pg)], Input_ended, w2)"
proof -
  let ?rest = "CHR 0x0A # CHR ''R'' # CHR '' '' # decimal va @ [CHR 0x0A]"
  have c1: "next_command (write_read_input va n) = Some (CHR ''W'', va, CHR '' '' # decimal n @ ?rest)"
    unfolding write_read_input_def by (rule next_command_decimal [OF _ assms(1)]) (simp_all add: white_space, simp add: is_space_def)
  have "next_command ?rest = next_command (CHR ''R'' # CHR '' '' # decimal va @ [CHR 0x0A])"
    by (rule next_command_space) (simp add: white_space)
  also have "\<dots> = Some (CHR ''R'', va, [CHR 0x0A])"
    by (rule next_command_decimal [OF _ assms(1)]) (simp_all add: white_space, simp add: is_space_def)
  finally have c2: "next_command ?rest = Some (CHR ''R'', va, [CHR 0x0A])" .
  have c3: "next_command [CHR 0x0A] = None" by (simp add: next_command_def white_space)
  have n: "read_int (CHR '' '' # decimal n @ ?rest) = (int n, Some ?rest)"
    by (rule read_int_decimal [OF assms(2)]) (simp add: white_space)
  have "debug_output (result w2) = Some (int n, Some pg)"
    using assms(2,6) by (simp add: debug_output_def load_store_int)
  then have "debug arrive clear result now (Suc k) (store_int (int n) b) ?rest w1 = Some ([(int n, Some pg)], Input_ended, w2)"
    using assms(5) c3 debug.simps [of arrive clear result now "Suc (Suc k)" "store_int (int n) b" "[CHR 0x0A]" w2]
    by (subst debug.simps) (simp add: c2)
  then show ?thesis using assms(3,4) by (subst debug.simps) (simp add: c1 n)
qed

text \<open>A disk of one page.\<close>

definition one_page :: "u8 list arrive" where
  "one_page ty va sz st p w = (case (ty, p) of (WRITE, Some (UserBuf bs)) \<Rightarrow> Some (1, bs) | _ \<Rightarrow> Some (1, w))"

theorem debug_write_then_read_witness:
  "debug one_page (\<lambda>w. w) (\<lambda>w. Some (0, w)) (\<lambda>k. 0) 0 [0, 0, 0, 0] (write_read_input 5 77) []
   = Some ([(77, Some 0)], Input_ended, store_int 77 [0, 0, 0, 0])"
  by (subst debug_write_then_read [where va = 5 and n = 77 and pg = 0]) (simp_all add: one_page_def)

end
