(* ===== verification/Zns_Fsm.thy ===== *)
theory Zns_Fsm
  imports Flash_Prelude
begin

text \<open>
  The hardware side of the ZNS stack: the finite state machine
  \<open>zns_fsm_validator.v\<close> with its two submodules \<open>zns_rules_checker.v\<close> and
  \<open>zns_resources_tracker.v\<close>. Registers and ports are the fields of \<open>validator\<close>;
  \<open>validator_eval\<close> is one call of the simulator's \<open>eval()\<close>: the combinational nets
  settle on the inputs, then the clocked blocks fire on the edges seen since the last
  call, every right-hand side read before any register changes, then the nets settle again.
  A zone descriptor is one 32-bit word of block RAM; the first section shows that packing
  and reading its fields are inverse.
\<close>

unbundle bit_operations_syntax

section \<open>Zone descriptors in block RAM\<close>

definition zone_wptr :: "u32 \<Rightarrow> 7 word" where
  "zone_wptr w = ucast w"

definition zone_is_full :: "u32 \<Rightarrow> bool" where
  "zone_is_full w = bit w 7"

definition zone_erase_cnt :: "u32 \<Rightarrow> u8" where
  "zone_erase_cnt w = ucast (drop_bit 16 w)"

text \<open>The concatenation \<open>{8'd0, erase_cnt, 8'd0, full, wptr}\<close>.\<close>

definition pack_zone :: "u8 \<Rightarrow> bool \<Rightarrow> 7 word \<Rightarrow> u32" where
  "pack_zone e f p = push_bit 16 (ucast e) OR push_bit 7 (of_bool f) OR ucast p"

lemma zone_wptr_pack [zone_word_simps]: "zone_wptr (pack_zone e f p) = p"
  unfolding zone_wptr_def pack_zone_def
  by (rule bit_word_eqI) (auto simp: bit_simps dest: bit_imp_le_length)

lemma zone_is_full_pack [zone_word_simps]: "zone_is_full (pack_zone e f p) = f"
  unfolding zone_is_full_def pack_zone_def
  by (auto simp: bit_simps dest: bit_imp_le_length)

lemma zone_erase_cnt_pack [zone_word_simps]: "zone_erase_cnt (pack_zone e f p) = e"
  unfolding zone_erase_cnt_def pack_zone_def
  by (rule bit_word_eqI) (auto simp: bit_simps dest: bit_imp_le_length)

lemma zone_fields_zero [zone_word_simps]:
  "zone_wptr 0 = 0" "zone_is_full 0 = False" "zone_erase_cnt 0 = 0"
  by (simp_all add: zone_wptr_def zone_is_full_def zone_erase_cnt_def)

lemma pack_zone_zero: "pack_zone 0 False 0 = 0"
  by (simp add: pack_zone_def)

section \<open>The rules checker\<close>

text \<open>\<open>zns_rules_checker.v\<close>: has\_error and error\_code.\<close>

definition zns_rules_checker ::
  "u8 \<Rightarrow> u32 \<Rightarrow> bool \<Rightarrow> bool \<Rightarrow> 7 word \<Rightarrow> bool \<Rightarrow> u8 \<Rightarrow> 4 word \<Rightarrow> bool \<Rightarrow> bool \<times> u8" where
  "zns_rules_checker cmd target_page bound_error thermal wptr full erase_cnt open_zones opening =
     (if thermal then (True, 8)
      else if cmd = 99 then (True, 6)
      else if cmd = 1 \<and> full then (True, 7)
      else if cmd = 1 \<and> target_page \<noteq> ucast wptr then (True, 1)
      else if cmd = 1 \<and> opening \<and> 4 \<le> open_zones then (True, 2)
      else if cmd = 0 \<and> ucast wptr \<le> target_page then (True, 3)
      else if cmd = 2 \<and> 10 \<le> erase_cnt then (True, 5)
      else if bound_error then (True, 7)
      else (False, 0))"

section \<open>The validator\<close>

datatype fsm_state =
  ST_IDLE | ST_BRAM_READ | ST_BRAM_WAIT | ST_VALIDATE | ST_EXECUTE | ST_UPDATE_BRAM | ST_ERROR

record validator =
  clk :: bool
  rst :: bool
  io_trigger :: bool
  io_cmd :: u8
  validated_zone_id :: u32
  validated_target_page :: u32
  addr_bound_error :: bool
  thermal_shutdown_tripped :: bool
  bram_addr :: u32
  bram_rdata :: u32
  bram_wdata :: u32
  bram_we :: bool
  out_status :: u8
  out_err_code :: u8
  current_state :: fsm_state
  open_zones_count :: "4 word"
  prev_clk :: bool
  prev_rst :: bool

definition is_opening_new_zone :: "validator \<Rightarrow> bool" where
  "is_opening_new_zone v \<longleftrightarrow>
     io_cmd v = 1 \<and> zone_wptr (bram_rdata v) = 0 \<and> \<not> zone_is_full (bram_rdata v)"

definition check_rules :: "validator \<Rightarrow> bool \<times> u8" where
  "check_rules v =
     zns_rules_checker (io_cmd v) (validated_target_page v) (addr_bound_error v)
       (thermal_shutdown_tripped v) (zone_wptr (bram_rdata v)) (zone_is_full (bram_rdata v))
       (zone_erase_cnt (bram_rdata v)) (open_zones_count v) (is_opening_new_zone v)"

definition fsm_has_error :: "validator \<Rightarrow> bool" where
  "fsm_has_error v = fst (check_rules v)"

definition internal_error_code :: "validator \<Rightarrow> u8" where
  "internal_error_code v = snd (check_rules v)"

text \<open>\<open>zns_resources_tracker.v\<close>; of two assignments to the register in one edge the later wins.\<close>

definition track_open :: "u8 \<Rightarrow> u32 \<Rightarrow> 4 word \<Rightarrow> 4 word" where
  "track_open cmd w n =
     (let p = zone_wptr w; f = zone_is_full w in
      if cmd = 1 \<and> p = 63 \<and> 0 < n then n - 1
      else if cmd = 2 \<and> 0 < p \<and> \<not> f \<and> 0 < n then n - 1
      else if cmd = 1 \<and> p = 0 \<and> \<not> f then n + 1
      else n)"

definition zns_resources_tracker :: "validator \<Rightarrow> 4 word" where
  "zns_resources_tracker v =
     (if rst v then 0
      else if current_state v = ST_EXECUTE
      then track_open (io_cmd v) (bram_rdata v) (open_zones_count v)
      else open_zones_count v)"

definition comb_bram_addr :: "validator \<Rightarrow> u32" where
  "comb_bram_addr v =
     (if current_state v \<noteq> ST_IDLE \<or> io_trigger v then validated_zone_id v else 0)"

definition next_state :: "validator \<Rightarrow> fsm_state" where
  "next_state v = (case current_state v of
       ST_IDLE \<Rightarrow> if io_trigger v then ST_BRAM_READ else ST_IDLE
     | ST_BRAM_READ \<Rightarrow> ST_BRAM_WAIT
     | ST_BRAM_WAIT \<Rightarrow> ST_VALIDATE
     | ST_VALIDATE \<Rightarrow> if fsm_has_error v then ST_ERROR else ST_EXECUTE
     | ST_EXECUTE \<Rightarrow> ST_UPDATE_BRAM
     | ST_UPDATE_BRAM \<Rightarrow> if io_trigger v then ST_UPDATE_BRAM else ST_IDLE
     | ST_ERROR \<Rightarrow> if io_trigger v then ST_ERROR else ST_IDLE)"

text \<open>The data written back in \<open>ST_EXECUTE\<close>; for other commands the register keeps its value.\<close>

definition next_descriptor :: "u8 \<Rightarrow> u32 \<Rightarrow> u32 \<Rightarrow> u32" where
  "next_descriptor cmd w old_wdata =
     (let p = zone_wptr w; e = zone_erase_cnt w in
      if cmd = 1 then (if p = 63 then pack_zone e True 64 else pack_zone e False (p + 1))
      else if cmd = 2 then pack_zone (e + 1) False 0
      else old_wdata)"

definition execute_wdata :: "validator \<Rightarrow> u32" where
  "execute_wdata v = next_descriptor (io_cmd v) (bram_rdata v) (bram_wdata v)"

definition output_regs :: "validator \<Rightarrow> validator" where
  "output_regs v =
     (if rst v then v\<lparr>out_status := 0, out_err_code := 0, bram_we := False, bram_wdata := 0\<rparr>
      else case current_state v of
        ST_IDLE \<Rightarrow> v\<lparr>out_status := 0, bram_we := False\<rparr>
      | ST_BRAM_READ \<Rightarrow> v\<lparr>out_status := 2\<rparr>
      | ST_BRAM_WAIT \<Rightarrow> v
      | ST_VALIDATE \<Rightarrow> v
      | ST_EXECUTE \<Rightarrow> v\<lparr>bram_we := True, bram_wdata := execute_wdata v\<rparr>
      | ST_UPDATE_BRAM \<Rightarrow> v\<lparr>out_status := 3, out_err_code := 0, bram_we := False\<rparr>
      | ST_ERROR \<Rightarrow> v\<lparr>out_status := 1, out_err_code := internal_error_code v\<rparr>)"

text \<open>
  The clocked blocks: state and outputs fire on \<open>posedge clk or posedge rst\<close>, the
  tracker on \<open>posedge clk\<close> only.
\<close>

definition clocked :: "bool \<Rightarrow> validator \<Rightarrow> validator" where
  "clocked clk_edge v = (output_regs v)\<lparr>
     current_state := (if rst v then ST_IDLE else next_state v),
     open_zones_count := (if clk_edge then zns_resources_tracker v else open_zones_count v)\<rparr>"

definition settle :: "validator \<Rightarrow> validator" where
  "settle v = v\<lparr>bram_addr := comb_bram_addr v\<rparr>"

definition validator_eval :: "validator \<Rightarrow> validator" where
  "validator_eval v =
     (let clk_edge = (clk v \<and> \<not> prev_clk v); rst_edge = (rst v \<and> \<not> prev_rst v); v1 = settle v in
      (if clk_edge \<or> rst_edge then settle (clocked clk_edge v1) else v1)
        \<lparr>prev_clk := clk v, prev_rst := rst v\<rparr>)"

lemmas fsm_defs [hw_defs] =
  validator_eval_def settle_def clocked_def output_regs_def next_state_def comb_bram_addr_def

lemma tracker_keeps [simp]:
  "current_state v \<noteq> ST_EXECUTE \<Longrightarrow> \<not> rst v \<Longrightarrow> zns_resources_tracker v = open_zones_count v"
  by (simp add: zns_resources_tracker_def)

lemma tracker_execute [simp]:
  "current_state v = ST_EXECUTE \<Longrightarrow> \<not> rst v \<Longrightarrow>
   zns_resources_tracker v = track_open (io_cmd v) (bram_rdata v) (open_zones_count v)"
  by (simp add: zns_resources_tracker_def)

lemma unat_wptr_ucast [simp]: "unat (ucast (p :: 7 word) :: u32) = unat p"
proof -
  have "unat p < 2 ^ LENGTH(7)" by (rule unsigned_less)
  then have "unat p < 2 ^ 32" by simp
  then show ?thesis by (simp add: unsigned_ucast_eq take_bit_nat_eq_self)
qed

end
