(* ===== verification/Zns_Bridge.thy ===== *)
theory Zns_Bridge
  imports Zns_Fsm
begin

text \<open>
  \<open>hardware_bridge.cpp\<close> and \<open>thermal_manager.cpp\<close>: the block RAM array of 1024
  descriptors, the read latch, the pointer to the verilated model and the one to the
  controller whose temperature drives the thermal input. \<open>verilator_tick_hardware\<close>
  is one simulated clock cycle.
\<close>

section \<open>Thermal protection\<close>

definition check_thermal_shutdown :: "real \<Rightarrow> bool" where
  "check_thermal_shutdown temperature \<longleftrightarrow> 85 \<le> temperature"

section \<open>Bridge state and clock cycle\<close>

definition BRAM_CELLS :: nat where
  "BRAM_CELLS = 1024"

text \<open>
  \<open>hw_top\<close> is the \<open>unique_ptr\<close> (\<open>None\<close> when null), \<open>hw_temperature\<close> the temperature
  behind \<open>global_controller_ptr\<close> (\<open>None\<close> when that pointer is null).
\<close>

record hw =
  hw_top :: "validator option"
  mock_bram_storage :: "nat \<Rightarrow> u32"
  bram_rdata_latch :: u32
  hw_temperature :: "real option"

definition in_bram :: "u32 \<Rightarrow> bool" where
  "in_bram a \<longleftrightarrow> unat a < BRAM_CELLS"

definition thermal_input :: "hw \<Rightarrow> bool" where
  "thermal_input h =
     (case hw_temperature h of None \<Rightarrow> False | Some t \<Rightarrow> check_thermal_shutdown t)"

definition verilator_tick_hardware :: "hw \<Rightarrow> hw" where
  "verilator_tick_hardware h = (case hw_top h of None \<Rightarrow> h | Some t \<Rightarrow>
     (let current_addr = bram_addr t;
          t1 = validator_eval (t\<lparr>
                 bram_rdata := (if in_bram current_addr then bram_rdata_latch h else 0),
                 thermal_shutdown_tripped := thermal_input h,
                 addr_bound_error := False,
                 clk := True\<rparr>);
          latch = (if in_bram current_addr then mock_bram_storage h (unat current_addr)
                   else bram_rdata_latch h);
          bram = (if bram_we t1 \<and> in_bram current_addr
                  then (mock_bram_storage h)(unat current_addr := bram_wdata t1)
                  else mock_bram_storage h);
          t2 = validator_eval (t1\<lparr>bram_rdata := latch, clk := False\<rparr>)
      in h\<lparr>hw_top := Some t2, bram_rdata_latch := latch, mock_bram_storage := bram\<rparr>))"

section \<open>Port access\<close>

definition sim_set_io_trigger :: "u8 \<Rightarrow> hw \<Rightarrow> hw" where
  "sim_set_io_trigger val h =
     h\<lparr>hw_top := map_option (\<lambda>t. t\<lparr>io_trigger := bit val 0\<rparr>) (hw_top h)\<rparr>"

definition sim_set_io_cmd :: "u8 \<Rightarrow> hw \<Rightarrow> hw" where
  "sim_set_io_cmd val h = h\<lparr>hw_top := map_option (\<lambda>t. t\<lparr>io_cmd := val\<rparr>) (hw_top h)\<rparr>"

definition sim_set_validated_target_page :: "u32 \<Rightarrow> hw \<Rightarrow> hw" where
  "sim_set_validated_target_page val h =
     h\<lparr>hw_top := map_option (\<lambda>t. t\<lparr>validated_target_page := val\<rparr>) (hw_top h)\<rparr>"

definition sim_set_validated_zone_id :: "u32 \<Rightarrow> hw \<Rightarrow> hw" where
  "sim_set_validated_zone_id val h =
     h\<lparr>hw_top := map_option (\<lambda>t. t\<lparr>validated_zone_id := val\<rparr>) (hw_top h)\<rparr>"

definition sim_get_out_status :: "hw \<Rightarrow> u8 \<times> hw" where
  "sim_get_out_status h =
     (let h' = verilator_tick_hardware h in
      (case hw_top h' of None \<Rightarrow> 0 | Some t \<Rightarrow> out_status t, h'))"

definition sim_get_out_err_code :: "hw \<Rightarrow> u8" where
  "sim_get_out_err_code h = (case hw_top h of None \<Rightarrow> 0 | Some t \<Rightarrow> out_err_code t)"

lemmas bridge_defs [hw_defs] =
  verilator_tick_hardware_def sim_set_io_trigger_def sim_set_io_cmd_def
  sim_set_validated_target_page_def sim_set_validated_zone_id_def
  sim_get_out_status_def sim_get_out_err_code_def

section \<open>One clock cycle, state by state\<close>

text \<open>
  Between two ticks the clock line is low and reset is inactive; this is what every tick
  and every port write leave behind.
\<close>

definition clock_low :: "validator \<Rightarrow> bool" where
  "clock_low t \<longleftrightarrow> \<not> clk t \<and> \<not> prev_clk t \<and> \<not> rst t \<and> \<not> prev_rst t"

lemma thermal_input_simps [simp]:
  "thermal_input (h\<lparr>hw_top := x\<rparr>) = thermal_input h"
  "thermal_input (h\<lparr>mock_bram_storage := m\<rparr>) = thermal_input h"
  "thermal_input (h\<lparr>bram_rdata_latch := l\<rparr>) = thermal_input h"
  by (simp_all add: thermal_input_def)

lemma in_bram_zero [simp]: "in_bram 0"
  by (simp add: in_bram_def BRAM_CELLS_def)

section \<open>The cycle-level machine\<close>

text \<open>
  Between ticks most of the bridge state is dead: the inputs the bridge drives itself
  are overwritten by the next tick and the clock lines are low. \<open>core\<close> keeps what is
  live, \<open>core_cycle\<close> says what one clock cycle does to it, and \<open>core_tick\<close> shows that
  the bridge and the RTL together implement it.
\<close>

record core =
  c_state :: fsm_state
  c_trigger :: bool
  c_cmd :: u8
  c_zone :: u32
  c_page :: u32
  c_addr :: u32
  c_wdata :: u32
  c_we :: bool
  c_status :: u8
  c_err :: u8
  c_open :: "4 word"
  c_latch :: u32
  c_bram :: "nat \<Rightarrow> u32"
  c_hot :: bool

definition core_of :: "hw \<Rightarrow> validator \<Rightarrow> core" where
  "core_of h t = \<lparr>c_state = current_state t, c_trigger = io_trigger t, c_cmd = io_cmd t,
     c_zone = validated_zone_id t, c_page = validated_target_page t, c_addr = bram_addr t,
     c_wdata = bram_wdata t, c_we = bram_we t, c_status = out_status t, c_err = out_err_code t,
     c_open = open_zones_count t, c_latch = bram_rdata_latch h, c_bram = mock_bram_storage h,
     c_hot = thermal_input h\<rparr>"

lemma core_of_outputs [simp]:
  "c_status (core_of h t) = out_status t" "c_err (core_of h t) = out_err_code t"
  by (simp_all add: core_of_def)

text \<open>The abstraction relation: a model is attached, its clock is low, its core is \<open>c\<close>.\<close>

definition hw_core :: "hw \<Rightarrow> core \<Rightarrow> bool" where
  "hw_core h c \<longleftrightarrow> (\<exists>t. hw_top h = Some t \<and> clock_low t \<and> core_of h t = c)"

definition core_word :: "core \<Rightarrow> u32" where
  "core_word c = (if in_bram (c_addr c) then c_latch c else 0)"

definition core_verdict :: "core \<Rightarrow> u32 \<Rightarrow> bool \<times> u8" where
  "core_verdict c w =
     zns_rules_checker (c_cmd c) (c_page c) False (c_hot c) (zone_wptr w) (zone_is_full w)
       (zone_erase_cnt w) (c_open c) (c_cmd c = 1 \<and> zone_wptr w = 0 \<and> \<not> zone_is_full w)"

definition core_regs :: "core \<Rightarrow> core" where
  "core_regs c = (let w = core_word c in case c_state c of
       ST_IDLE \<Rightarrow> c\<lparr>c_status := 0, c_we := False,
                     c_state := if c_trigger c then ST_BRAM_READ else ST_IDLE\<rparr>
     | ST_BRAM_READ \<Rightarrow> c\<lparr>c_status := 2, c_state := ST_BRAM_WAIT\<rparr>
     | ST_BRAM_WAIT \<Rightarrow> c\<lparr>c_state := ST_VALIDATE\<rparr>
     | ST_VALIDATE \<Rightarrow> c\<lparr>c_state := if fst (core_verdict c w) then ST_ERROR else ST_EXECUTE\<rparr>
     | ST_EXECUTE \<Rightarrow> c\<lparr>c_we := True, c_wdata := next_descriptor (c_cmd c) w (c_wdata c),
                        c_open := track_open (c_cmd c) w (c_open c), c_state := ST_UPDATE_BRAM\<rparr>
     | ST_UPDATE_BRAM \<Rightarrow> c\<lparr>c_status := 3, c_err := 0, c_we := False,
                        c_state := if c_trigger c then ST_UPDATE_BRAM else ST_IDLE\<rparr>
     | ST_ERROR \<Rightarrow> c\<lparr>c_status := 1, c_err := snd (core_verdict c w),
                     c_state := if c_trigger c then ST_ERROR else ST_IDLE\<rparr>)"

definition core_cycle :: "core \<Rightarrow> core" where
  "core_cycle c = (let a = c_addr c; r = core_regs c in
     r\<lparr>c_addr := (if c_state r \<noteq> ST_IDLE \<or> c_trigger c then c_zone c else 0),
       c_latch := (if in_bram a then c_bram c (unat a) else c_latch c),
       c_bram := (if c_we r \<and> in_bram a then (c_bram c)(unat a := c_wdata r) else c_bram c)\<rparr>)"

lemma eval_rise:
  assumes "clk v" "\<not> prev_clk v" "\<not> rst v" "\<not> prev_rst v"
  shows "validator_eval v = (settle (clocked True (settle v)))\<lparr>prev_clk := True, prev_rst := False\<rparr>"
  using assms by (simp add: validator_eval_def)

lemma eval_fall:
  assumes "\<not> clk v" "\<not> rst v"
  shows "validator_eval v = (settle v)\<lparr>prev_clk := False, prev_rst := False\<rparr>"
  using assms by (simp add: validator_eval_def Let_def)

lemma output_regs_frame [simp]:
  "io_trigger (output_regs v) = io_trigger v" "io_cmd (output_regs v) = io_cmd v"
  "validated_zone_id (output_regs v) = validated_zone_id v"
  "validated_target_page (output_regs v) = validated_target_page v"
  "rst (output_regs v) = rst v" "clk (output_regs v) = clk v"
  by (simp_all add: output_regs_def split: fsm_state.split)

definition edge :: "hw \<Rightarrow> validator \<Rightarrow> validator" where
  "edge h t = clocked True (settle (t\<lparr>
     bram_rdata := (if in_bram (bram_addr t) then bram_rdata_latch h else 0),
     thermal_shutdown_tripped := thermal_input h,
     addr_bound_error := False, clk := True\<rparr>))"

lemma edge_frame [simp]:
  "io_trigger (edge h t) = io_trigger t" "io_cmd (edge h t) = io_cmd t"
  "validated_zone_id (edge h t) = validated_zone_id t"
  "validated_target_page (edge h t) = validated_target_page t" "rst (edge h t) = rst t"
  by (simp_all add: edge_def clocked_def settle_def)

lemma tick_edge:
  assumes "hw_top h = Some t" "clock_low t"
  shows "verilator_tick_hardware h = h\<lparr>
     hw_top := Some ((edge h t)\<lparr>
        bram_rdata := (if in_bram (bram_addr t) then mock_bram_storage h (unat (bram_addr t))
                       else bram_rdata_latch h),
        clk := False, prev_clk := False, prev_rst := False,
        bram_addr := comb_bram_addr (edge h t)\<rparr>),
     bram_rdata_latch := (if in_bram (bram_addr t) then mock_bram_storage h (unat (bram_addr t))
                          else bram_rdata_latch h),
     mock_bram_storage := (if bram_we (edge h t) \<and> in_bram (bram_addr t)
        then (mock_bram_storage h)(unat (bram_addr t) := bram_wdata (edge h t))
        else mock_bram_storage h)\<rparr>"
proof -
  have rise: "validator_eval (t\<lparr>bram_rdata := (if in_bram (bram_addr t) then bram_rdata_latch h else 0),
      thermal_shutdown_tripped := thermal_input h, addr_bound_error := False, clk := True\<rparr>)
    = (settle (edge h t))\<lparr>prev_clk := True, prev_rst := False\<rparr>"
    using assms(2) by (subst eval_rise) (simp_all add: edge_def clock_low_def)
  have fall: "validator_eval ((settle (edge h t))\<lparr>prev_clk := True, prev_rst := False, bram_rdata := x, clk := False\<rparr>)
    = (edge h t)\<lparr>bram_rdata := x, clk := False, prev_clk := False, prev_rst := False,
        bram_addr := comb_bram_addr (edge h t)\<rparr>" for x
    using assms(2) by (subst eval_fall) (simp_all add: settle_def clock_low_def comb_bram_addr_def)
  show ?thesis
    unfolding verilator_tick_hardware_def Let_def assms(1) option.case rise
    by (simp add: fall) (simp add: settle_def)
qed

lemma core_edge:
  assumes "clock_low t"
  shows "let r = core_regs (core_of h t); e = edge h t in
     current_state e = c_state r \<and> out_status e = c_status r \<and> out_err_code e = c_err r \<and>
     bram_we e = c_we r \<and> bram_wdata e = c_wdata r \<and> open_zones_count e = c_open r"
  using assms
  by (cases "current_state t")
     (simp_all add: edge_def fsm_defs clock_low_def Let_def core_of_def core_regs_def core_word_def
        core_verdict_def fsm_has_error_def internal_error_code_def check_rules_def
        is_opening_new_zone_def execute_wdata_def cong: if_cong split del: if_split)

lemma core_tick:
  assumes "hw_core h c"
  shows "hw_core (verilator_tick_hardware h) (core_cycle c)"
proof -
  from assms obtain t where t: "hw_top h = Some t" "clock_low t" and c: "core_of h t = c"
    by (auto simp: hw_core_def)
  note e = core_edge [OF t(2), of h, unfolded Let_def c]
  show ?thesis
    unfolding hw_core_def tick_edge [OF t]
    using t(2) e c
    by (auto simp: core_cycle_def Let_def clock_low_def core_of_def comb_bram_addr_def core_regs_def
        split: fsm_state.split cong: if_cong split del: if_split)
qed

lemma core_get_status:
  assumes "hw_core h c"
  shows "sim_get_out_status h = (c_status (core_cycle c), verilator_tick_hardware h)"
proof -
  from core_tick [OF assms] obtain t where
    "hw_top (verilator_tick_hardware h) = Some t" "core_of (verilator_tick_hardware h) t = core_cycle c"
    by (auto simp: hw_core_def)
  then show ?thesis
    by (simp add: sim_get_out_status_def Let_def) (metis core_of_outputs(1))
qed

lemma core_get_err:
  "hw_core h c \<Longrightarrow> sim_get_out_err_code h = c_err c"
  by (auto simp: hw_core_def core_of_def sim_get_out_err_code_def)

lemma core_set_trigger:
  "hw_core h c \<Longrightarrow> hw_core (sim_set_io_trigger v h) (c\<lparr>c_trigger := odd v\<rparr>)"
  by (auto simp: hw_core_def core_of_def sim_set_io_trigger_def clock_low_def bit_0)

lemma core_set_cmd:
  "hw_core h c \<Longrightarrow> hw_core (sim_set_io_cmd v h) (c\<lparr>c_cmd := v\<rparr>)"
  by (auto simp: hw_core_def core_of_def sim_set_io_cmd_def clock_low_def)

lemma core_set_page:
  "hw_core h c \<Longrightarrow> hw_core (sim_set_validated_target_page v h) (c\<lparr>c_page := v\<rparr>)"
  by (auto simp: hw_core_def core_of_def sim_set_validated_target_page_def clock_low_def)

lemma core_set_zone:
  "hw_core h c \<Longrightarrow> hw_core (sim_set_validated_zone_id v h) (c\<lparr>c_zone := v\<rparr>)"
  by (auto simp: hw_core_def core_of_def sim_set_validated_zone_id_def clock_low_def)

lemma core_hw_temperature:
  "hw_core h c \<Longrightarrow> c_hot c = thermal_input h"
  by (auto simp: hw_core_def core_of_def)

lemmas core_ports = core_set_trigger core_set_cmd core_set_page core_set_zone

section \<open>A whole command at cycle level\<close>

text \<open>
  What a command sees of its zone: the descriptor in block RAM, and zero for a zone
  outside the array (the bridge feeds zero to the read port there).
\<close>

definition zone_word :: "(nat \<Rightarrow> u32) \<Rightarrow> u32 \<Rightarrow> u32" where
  "zone_word bram z = (if in_bram z then bram (unat z) else 0)"

definition set_zone_word :: "(nat \<Rightarrow> u32) \<Rightarrow> u32 \<Rightarrow> u32 \<Rightarrow> (nat \<Rightarrow> u32)" where
  "set_zone_word bram z w = (if in_bram z then bram(unat z := w) else bram)"

text \<open>The device has been triggered in its idle state.\<close>

definition triggered :: "core \<Rightarrow> bool" where
  "triggered c \<longleftrightarrow> c_state c = ST_IDLE \<and> c_trigger c"

text \<open>Three cycles after the trigger the descriptor of the addressed zone is at the read port.\<close>

definition fetched :: "core \<Rightarrow> core" where
  "fetched c = c\<lparr>c_state := ST_VALIDATE, c_status := 2, c_we := False, c_addr := c_zone c,
     c_latch := (if in_bram (c_zone c) then c_bram c (unat (c_zone c))
                 else if in_bram (c_addr c) then c_bram c (unat (c_addr c)) else c_latch c)\<rparr>"

lemmas core_step_defs = core_cycle_def core_regs_def Let_def

lemma fetch_cycles:
  assumes "triggered c"
  shows "(core_cycle ^^ 3) c = fetched c"
    and "c_status (core_cycle c) = 0"
    and "c_status (core_cycle (core_cycle c)) = 2"
    and "c_status (core_cycle (core_cycle (core_cycle c))) = 2"
  using assms
  by (simp_all add: numeral_3_eq_3 core_step_defs triggered_def fetched_def)

lemma core_word_fetched [simp]: "core_word (fetched c) = zone_word (c_bram c) (c_zone c)"
  by (simp add: core_word_def fetched_def zone_word_def)

lemma core_verdict_fetched [simp]: "core_verdict (fetched c) w = core_verdict c w"
  by (simp add: core_verdict_def fetched_def)

definition refused :: "core \<Rightarrow> core" where
  "refused c = (fetched c)\<lparr>c_state := ST_ERROR, c_status := 1,
     c_err := snd (core_verdict c (zone_word (c_bram c) (c_zone c)))\<rparr>"

definition accepted :: "core \<Rightarrow> core" where
  "accepted c = (let w = zone_word (c_bram c) (c_zone c); d = next_descriptor (c_cmd c) w (c_wdata c) in
     (fetched c)\<lparr>c_state := ST_UPDATE_BRAM, c_status := 3, c_err := 0, c_wdata := d,
       c_open := track_open (c_cmd c) w (c_open c), c_bram := set_zone_word (c_bram c) (c_zone c) d,
       c_latch := (if in_bram (c_zone c) then d else c_latch (fetched c))\<rparr>)"

lemma fetched_simps [simp]:
  "c_state (fetched c) = ST_VALIDATE" "c_trigger (fetched c) = c_trigger c"
  "c_cmd (fetched c) = c_cmd c" "c_zone (fetched c) = c_zone c" "c_page (fetched c) = c_page c"
  "c_addr (fetched c) = c_zone c" "c_wdata (fetched c) = c_wdata c" "c_we (fetched c) = False"
  "c_status (fetched c) = 2" "c_open (fetched c) = c_open c" "c_bram (fetched c) = c_bram c"
  "c_hot (fetched c) = c_hot c"
  "in_bram (c_zone c) \<Longrightarrow> c_latch (fetched c) = c_bram c (unat (c_zone c))"
  by (simp_all add: fetched_def)

lemma validate_cycle:
  "core_cycle (fetched c) = (fetched c)\<lparr>c_state :=
     if fst (core_verdict c (zone_word (c_bram c) (c_zone c))) then ST_ERROR else ST_EXECUTE\<rparr>"
  by (simp add: core_step_defs)

lemma refuse_cycles:
  assumes "triggered c" "fst (core_verdict c (zone_word (c_bram c) (c_zone c)))"
  shows "core_cycle (core_cycle (fetched c)) = refused c"
    and "c_status (core_cycle (fetched c)) = 2" and "c_status (refused c) = 1"
  using assms
  by (simp_all add: validate_cycle)
     (simp_all add: core_step_defs refused_def core_word_def core_verdict_def zone_word_def triggered_def)

lemma accept_cycles:
  assumes "triggered c" "\<not> fst (core_verdict c (zone_word (c_bram c) (c_zone c)))"
  shows "core_cycle (core_cycle (core_cycle (fetched c))) = accepted c"
    and "c_status (core_cycle (fetched c)) = 2" 
    and "c_status (core_cycle (core_cycle (fetched c))) = 2" and "c_status (accepted c) = 3"
  using assms
  by (simp_all add: validate_cycle)
     (simp_all add: core_step_defs accepted_def core_word_def zone_word_def set_zone_word_def triggered_def)

section \<open>The device between commands\<close>

text \<open>
  Between commands the live state of the device is its descriptor table, the open-zone
  counter, the write-data register and the thermal input. \<open>zns_command\<close> is what one
  command does to it: the outcome (status, error code) and the next state.
\<close>

record zns_dev =
  zd_bram :: "nat \<Rightarrow> u32"
  zd_open :: "4 word"
  zd_wdata :: u32
  zd_hot :: bool

definition dev_of :: "core \<Rightarrow> zns_dev" where
  "dev_of c = \<lparr>zd_bram = c_bram c, zd_open = c_open c, zd_wdata = c_wdata c, zd_hot = c_hot c\<rparr>"

definition hw_idle :: "hw \<Rightarrow> zns_dev \<Rightarrow> bool" where
  "hw_idle h d \<longleftrightarrow> (\<exists>c. hw_core h c \<and> c_state c = ST_IDLE \<and> \<not> c_trigger c \<and> dev_of c = d)"

definition zns_verdict :: "u8 \<Rightarrow> u32 \<Rightarrow> u32 \<Rightarrow> zns_dev \<Rightarrow> bool \<times> u8" where
  "zns_verdict cmd page w d =
     zns_rules_checker cmd page False (zd_hot d) (zone_wptr w) (zone_is_full w) (zone_erase_cnt w)
       (zd_open d) (cmd = 1 \<and> zone_wptr w = 0 \<and> \<not> zone_is_full w)"

definition zns_command :: "u8 \<Rightarrow> u32 \<Rightarrow> u32 \<Rightarrow> zns_dev \<Rightarrow> (u8 \<times> u8) \<times> zns_dev" where
  "zns_command cmd z page d =
     (let w = zone_word (zd_bram d) z; v = zns_verdict cmd page w d in
      if fst v then ((1, snd v), d)
      else let n = next_descriptor cmd w (zd_wdata d) in
        ((3, 0), d\<lparr>zd_bram := set_zone_word (zd_bram d) z n, zd_wdata := n,
                   zd_open := track_open cmd w (zd_open d)\<rparr>))"

lemma release_refused:
  "triggered c \<Longrightarrow> core_cycle (core_cycle ((refused c)\<lparr>c_trigger := False\<rparr>)) = c' \<Longrightarrow>
   c_state c' = ST_IDLE \<and> \<not> c_trigger c' \<and> dev_of c' = dev_of c"
  by (auto simp: core_step_defs refused_def dev_of_def)

lemma release_accepted:
  "triggered c \<Longrightarrow> core_cycle (core_cycle ((accepted c)\<lparr>c_trigger := False\<rparr>)) = c' \<Longrightarrow>
   c_state c' = ST_IDLE \<and> \<not> c_trigger c' \<and> dev_of c' = (dev_of c)\<lparr>
     zd_bram := c_bram (accepted c), zd_wdata := c_wdata (accepted c), zd_open := c_open (accepted c)\<rparr>"
  by (auto simp: core_step_defs accepted_def dev_of_def)

end
