(* ===== verification/Zns_Driver.thy ===== *)
theory Zns_Driver
  imports Zns_Bridge
begin

text \<open>
  The firmware driver \<open>zns_driver.c\<close>: NVMe submission and completion entries, the CSR
  registers of \<open>generated/csr.h\<close> (distinct addresses, here constructors), and
  \<open>zns_process_nvme_command\<close>, whose polling loop is a \<open>partial_function\<close>: \<open>None\<close> is a
  loop that never ends. \<open>driver_command\<close> shows that from an idle device the loop ends and
  that the whole command is the atomic \<open>zns_command\<close> of the device.
\<close>

unbundle bit_operations_syntax

section \<open>NVMe entries and CSR registers\<close>

definition NVME_CMD_READ :: u8 where "NVME_CMD_READ = 0x02"
definition NVME_CMD_WRITE :: u8 where "NVME_CMD_WRITE = 0x01"
definition NVME_CMD_ZONE_MGMT :: u8 where "NVME_CMD_ZONE_MGMT = 0x79"
definition NVME_ZONE_ACTION_RESET :: u32 where "NVME_ZONE_ACTION_RESET = 0x04"

record nvme_sqe =
  sqe_opcode :: u8
  sqe_flags :: u8
  sqe_cid :: u16
  sqe_nsid :: u32
  sqe_rsvd1 :: u32
  sqe_mptr :: u64
  sqe_prp1 :: u64
  sqe_prp2 :: u64
  sqe_slba :: u64
  sqe_nlb :: u32
  sqe_zsa :: u32
  sqe_rsvd2 :: u32

record nvme_cqe =
  cqe_cdw0 :: u32
  cqe_rsvd :: u32
  cqe_sq_head :: u16
  cqe_sq_id :: u16
  cqe_cid :: u16
  cqe_status :: u16

datatype csr_addr =
  CSR_ZNS_TRIGGER | CSR_ZNS_NVME_OPCODE | CSR_ZNS_NVME_LBA_LO | CSR_ZNS_NVME_LBA_HI
  | CSR_ZNS_NVME_BLOCKS | CSR_ZNS_OUT_STATUS | CSR_ZNS_ERR_CODE
  | CSR_ZNS_SQ_TAIL_DB | CSR_ZNS_CQ_HEAD_DB

record driver =
  drv_hw :: hw
  current_lba_accumulator :: u64
  stub_sq_tail :: u32
  stub_cq_head :: u32

definition lba_page :: "u64 \<Rightarrow> u32" where
  "lba_page lba = ucast (lba AND 0x3F)"

definition lba_zone :: "u64 \<Rightarrow> u32" where
  "lba_zone lba = ucast (drop_bit 6 lba AND 0xFFFFFFFF)"

definition present_lba :: "u64 \<Rightarrow> driver \<Rightarrow> driver" where
  "present_lba lba d = d\<lparr>current_lba_accumulator := lba,
     drv_hw := sim_set_validated_zone_id (lba_zone lba)
                 (sim_set_validated_target_page (lba_page lba) (drv_hw d))\<rparr>"

definition csr_write32 :: "u32 \<Rightarrow> csr_addr \<Rightarrow> driver \<Rightarrow> driver" where
  "csr_write32 val addr d = (case addr of
       CSR_ZNS_TRIGGER \<Rightarrow> d\<lparr>drv_hw := sim_set_io_trigger (ucast (val AND 0x1)) (drv_hw d)\<rparr>
     | CSR_ZNS_NVME_LBA_LO \<Rightarrow>
         present_lba ((current_lba_accumulator d AND 0xFFFFFFFF00000000) OR ucast val) d
     | CSR_ZNS_NVME_LBA_HI \<Rightarrow>
         present_lba ((current_lba_accumulator d AND 0x00000000FFFFFFFF) OR push_bit 32 (ucast val)) d
     | CSR_ZNS_NVME_OPCODE \<Rightarrow> d\<lparr>drv_hw := sim_set_io_cmd (ucast (val AND 0xFF)) (drv_hw d)\<rparr>
     | CSR_ZNS_SQ_TAIL_DB \<Rightarrow> d\<lparr>stub_sq_tail := val\<rparr>
     | CSR_ZNS_CQ_HEAD_DB \<Rightarrow> d\<lparr>stub_cq_head := val\<rparr>
     | _ \<Rightarrow> d)"

definition csr_read32 :: "csr_addr \<Rightarrow> driver \<Rightarrow> u32 \<times> driver" where
  "csr_read32 addr d = (case addr of
       CSR_ZNS_OUT_STATUS \<Rightarrow>
         (let (st, h) = sim_get_out_status (drv_hw d) in (ucast st, d\<lparr>drv_hw := h\<rparr>))
     | CSR_ZNS_ERR_CODE \<Rightarrow> (ucast (sim_get_out_err_code (drv_hw d)), d)
     | _ \<Rightarrow> (0, d))"

definition zns_controller_init :: "driver \<Rightarrow> driver" where
  "zns_controller_init d = d\<lparr>current_lba_accumulator := 0,
     drv_hw := sim_set_validated_zone_id 0 (sim_set_validated_target_page 0
                 (sim_set_io_cmd 0 (sim_set_io_trigger 0 (drv_hw d))))\<rparr>"

section \<open>Command processing\<close>

partial_function (option) poll_status :: "driver \<Rightarrow> (u32 \<times> driver) option" where
  "poll_status d = (let r = csr_read32 CSR_ZNS_OUT_STATUS d in
     if fst r = 2 \<or> fst r = 0 then poll_status (snd r) else Some r)"

definition hardware_cmd :: "nvme_sqe \<Rightarrow> u16 + u8" where
  "hardware_cmd sqe =
     (if sqe_opcode sqe = NVME_CMD_READ then Inr 0
      else if sqe_opcode sqe = NVME_CMD_WRITE then Inr 1
      else if sqe_opcode sqe = NVME_CMD_ZONE_MGMT then
        (if sqe_zsa sqe AND 0xFF = NVME_ZONE_ACTION_RESET then Inr 2
         else Inl (push_bit 9 1 OR push_bit 1 0x02))
      else Inl (push_bit 9 1 OR push_bit 1 0x01))"

definition nvme_sc :: "u32 \<Rightarrow> u16" where
  "nvme_sc hw_error =
     (if hw_error = 0x01 then 0x82 else if hw_error = 0x02 then 0x81
      else if hw_error = 0x03 then 0x80 else if hw_error = 0x05 then 0x24
      else if hw_error = 0x07 then 0x83 else if hw_error = 0x08 then 0x24 else 0x06)"

definition nvme_status :: "u32 \<Rightarrow> u32 \<Rightarrow> u16" where
  "nvme_status hw_status hw_error =
     (if hw_status = 3 then 0 else push_bit 9 1 OR push_bit 1 (nvme_sc hw_error))"

definition zns_process_nvme_command :: "nvme_sqe \<Rightarrow> nvme_cqe \<Rightarrow> driver \<Rightarrow> (nvme_cqe \<times> driver) option" where
  "zns_process_nvme_command sqe cqe d =
     (let cqe1 = cqe\<lparr>cqe_cid := sqe_cid sqe, cqe_cdw0 := 0\<rparr> in
      case hardware_cmd sqe of
        Inl st \<Rightarrow> Some (cqe1\<lparr>cqe_status := st\<rparr>, d)
      | Inr cmd \<Rightarrow>
          (let d1 = csr_write32 (ucast (drop_bit 32 (sqe_slba sqe) AND 0xFFFFFFFF)) CSR_ZNS_NVME_LBA_HI d;
               d2 = csr_write32 (ucast (sqe_slba sqe AND 0xFFFFFFFF)) CSR_ZNS_NVME_LBA_LO d1;
               d3 = csr_write32 (ucast cmd) CSR_ZNS_NVME_OPCODE d2;
               d4 = csr_write32 0 CSR_ZNS_NVME_BLOCKS d3;
               d5 = csr_write32 1 CSR_ZNS_TRIGGER d4
           in do {
             (hw_status, d6) \<leftarrow> poll_status d5;
             let (hw_error, d7) = csr_read32 CSR_ZNS_ERR_CODE d6;
             let d8 = csr_write32 0 CSR_ZNS_TRIGGER d7;
             let h = verilator_tick_hardware (verilator_tick_hardware (drv_hw d8));
             Some (cqe1\<lparr>cqe_status := nvme_status hw_status hw_error\<rparr>, d8\<lparr>drv_hw := h\<rparr>)
           }))"

section \<open>The polling contract\<close>

text \<open>
  A client that polls a device: one poll advances the device by \<open>step\<close> and reads its
  status; 0 and 2 mean busy. If the device is busy for \<open>k\<close> steps and then is not, the loop
  returns exactly the state after \<open>k + 1\<close> steps.
\<close>

locale polled_device =
  fixes step :: "'s \<Rightarrow> 's"
    and status :: "'s \<Rightarrow> u32"
    and poll :: "'s \<Rightarrow> (u32 \<times> 's) option"
  assumes poll_unfold: "poll s = (if status (step s) = 2 \<or> status (step s) = 0 then poll (step s)
      else Some (status (step s), step s))"
begin

lemma poll_returns:
  "\<forall>i<k. status ((step ^^ Suc i) s) = 2 \<or> status ((step ^^ Suc i) s) = 0 \<Longrightarrow>
   status ((step ^^ Suc k) s) \<noteq> 2 \<Longrightarrow> status ((step ^^ Suc k) s) \<noteq> 0 \<Longrightarrow>
   poll s = Some (status ((step ^^ Suc k) s), (step ^^ Suc k) s)"
proof (induction k arbitrary: s)
  case 0
  then show ?case by (subst poll_unfold) simp
next
  case (Suc k)
  have "poll (step s) = Some (status ((step ^^ Suc k) (step s)), (step ^^ Suc k) (step s))"
  proof (rule Suc.IH)
    show "\<forall>i<k. status ((step ^^ Suc i) (step s)) = 2 \<or> status ((step ^^ Suc i) (step s)) = 0"
    proof (intro allI impI)
      fix i assume "i < k"
      with Suc.prems(1) have "status ((step ^^ Suc (Suc i)) s) = 2 \<or> status ((step ^^ Suc (Suc i)) s) = 0"
        by blast
      then show "status ((step ^^ Suc i) (step s)) = 2 \<or> status ((step ^^ Suc i) (step s)) = 0"
        by (simp only: funpow_Suc_right o_apply)
    qed
  qed (use Suc.prems(2,3) in \<open>simp_all only: funpow_Suc_right o_apply not_False_eq_True\<close>)
  moreover have "status (step s) = 2 \<or> status (step s) = 0"
    using Suc.prems(1) [rule_format, of 0] by simp
  ultimately show ?case
    by (subst poll_unfold) (simp only: if_True funpow_Suc_right o_apply)
qed

end

definition drv_tick :: "driver \<Rightarrow> driver" where
  "drv_tick d = d\<lparr>drv_hw := verilator_tick_hardware (drv_hw d)\<rparr>"

definition drv_status :: "driver \<Rightarrow> u32" where
  "drv_status d = (case hw_top (drv_hw d) of None \<Rightarrow> 0 | Some t \<Rightarrow> ucast (out_status t))"

lemma csr_read_status: "csr_read32 CSR_ZNS_OUT_STATUS d = (drv_status (drv_tick d), drv_tick d)"
  by (simp add: csr_read32_def sim_get_out_status_def drv_status_def drv_tick_def Let_def
      split: option.split)

interpretation drv: polled_device drv_tick drv_status poll_status
  by unfold_locales (subst poll_status.simps, simp add: csr_read_status Let_def)

section \<open>The driver implements the atomic command\<close>

lemma lba_high_low:
  "((((acc :: u64) AND 0x00000000FFFFFFFF OR push_bit 32 (ucast (ucast (drop_bit 32 slba AND 0xFFFFFFFF) :: u32)))
      AND 0xFFFFFFFF00000000) OR ucast (ucast (slba AND 0xFFFFFFFF) :: u32)) = slba"
proof (rule bit_word_eqI)
  fix n assume n: "n < LENGTH(64)"
  have lo: "0x00000000FFFFFFFF = (mask 32 :: u64)" and hi: "0xFFFFFFFF00000000 = (push_bit 32 (mask 32) :: u64)"
    by (simp_all add: mask_eq_exp_minus_1)
  show "bit ((acc AND 0x00000000FFFFFFFF OR push_bit 32 (ucast (ucast (drop_bit 32 slba AND 0xFFFFFFFF) :: u32)))
      AND 0xFFFFFFFF00000000 OR ucast (ucast (slba AND 0xFFFFFFFF) :: u32)) n = bit slba n"
    unfolding lo hi using n by (auto simp: bit_simps)
qed

lemma core_ticks:
  "hw_core h c \<Longrightarrow> hw_core ((verilator_tick_hardware ^^ n) h) ((core_cycle ^^ n) c)"
  by (induction n) (simp_all add: core_tick)

lemma drv_ticks: "(drv_tick ^^ n) d = d\<lparr>drv_hw := (verilator_tick_hardware ^^ n) (drv_hw d)\<rparr>"
  by (induction n) (simp_all add: drv_tick_def)

lemma drv_status_core: "hw_core (drv_hw d) c \<Longrightarrow> drv_status d = ucast (c_status c)"
  by (auto simp: hw_core_def drv_status_def core_of_def)

lemma drv_status_ticks:
  "hw_core (drv_hw d) c \<Longrightarrow> drv_status ((drv_tick ^^ n) d) = ucast (c_status ((core_cycle ^^ n) c))"
  by (rule drv_status_core) (simp add: drv_ticks core_ticks)

text \<open>The number of polls a command takes, and the machine state it stops in.\<close>

definition command_cycles :: "bool \<Rightarrow> nat" where
  "command_cycles err = (if err then 5 else 6)"

lemma outcome_cycles:
  assumes "triggered c"
  defines "err \<equiv> fst (core_verdict c (zone_word (c_bram c) (c_zone c)))"
  shows "(core_cycle ^^ command_cycles err) c = (if err then refused c else accepted c)"
proof -
  have "(core_cycle ^^ (2 + 3)) c = core_cycle (core_cycle (fetched c))"
    unfolding funpow_add o_apply fetch_cycles(1) [OF assms(1)] by (simp add: numeral_2_eq_2)
  moreover have "(core_cycle ^^ (3 + 3)) c = core_cycle (core_cycle (core_cycle (fetched c)))"
    unfolding funpow_add o_apply fetch_cycles(1) [OF assms(1)] by (simp add: numeral_3_eq_3)
  ultimately show ?thesis
    using refuse_cycles(1) [OF assms(1)] accept_cycles(1) [OF assms(1)]
    by (simp add: command_cycles_def err_def)
qed

lemma busy_cycles:
  assumes "triggered c" "i < command_cycles (fst (core_verdict c (zone_word (c_bram c) (c_zone c)))) - 1"
  shows "c_status ((core_cycle ^^ Suc i) c) = 2 \<or> c_status ((core_cycle ^^ Suc i) c) = 0"
proof -
  note f = fetch_cycles [OF assms(1)]
  have f3: "core_cycle (core_cycle (core_cycle c)) = fetched c" using f(1) by (simp add: numeral_3_eq_3)
  from assms(2) consider "i = 0" | "i = 1" | "i = 2" | "i = 3"
    | "i = 4" "\<not> fst (core_verdict c (zone_word (c_bram c) (c_zone c)))"
    by (fastforce simp: command_cycles_def split: if_splits)
  then show ?thesis
    using f f3 accept_cycles(2,3) [OF assms(1)] refuse_cycles(2) [OF assms(1)]
    by cases (simp_all add: numeral_2_eq_2 numeral_3_eq_3 eval_nat_numeral validate_cycle
        del: funpow.simps(2) add: funpow_Suc_right funpow_swap1)
qed

lemma poll_command:
  assumes "hw_core (drv_hw d) c" "triggered c"
  defines "err \<equiv> fst (core_verdict c (zone_word (c_bram c) (c_zone c)))"
  shows "poll_status d = Some (if err then 1 else 3, (drv_tick ^^ command_cycles err) d)"
    and "hw_core (drv_hw ((drv_tick ^^ command_cycles err) d)) (if err then refused c else accepted c)"
proof -
  note st = drv_status_ticks [OF assms(1)]
  define k where "k = command_cycles err - 1"
  have k: "command_cycles err = Suc k" by (simp add: k_def command_cycles_def)
  have last: "(core_cycle ^^ Suc k) c = (if err then refused c else accepted c)"
    using outcome_cycles [OF assms(2)] unfolding k [symmetric] err_def .
  have last_status: "drv_status ((drv_tick ^^ Suc k) d) = (if err then 1 else 3)"
    unfolding st last using refuse_cycles(3) [OF assms(2)] accept_cycles(4) [OF assms(2)]
    by (simp add: err_def)
  have busy: "\<forall>i<k. drv_status ((drv_tick ^^ Suc i) d) = 2 \<or> drv_status ((drv_tick ^^ Suc i) d) = 0"
    using busy_cycles [OF assms(2)] unfolding st k_def err_def by fastforce
  show "poll_status d = Some (if err then 1 else 3, (drv_tick ^^ command_cycles err) d)"
    using drv.poll_returns [OF busy] unfolding k last_status by simp
  show "hw_core (drv_hw ((drv_tick ^^ command_cycles err) d)) (if err then refused c else accepted c)"
    using core_ticks [OF assms(1), of "Suc k"] unfolding last k drv_ticks by simp
qed

definition cqe_outcome :: "nvme_sqe \<Rightarrow> u8 \<times> u8 \<Rightarrow> nvme_cqe \<Rightarrow> nvme_cqe" where
  "cqe_outcome sqe r cqe = cqe\<lparr>cqe_cid := sqe_cid sqe, cqe_cdw0 := 0,
     cqe_status := nvme_status (ucast (fst r)) (ucast (snd r))\<rparr>"

text \<open>The ports as the driver sets them before it raises the trigger.\<close>

definition issued :: "nvme_sqe \<Rightarrow> u8 \<Rightarrow> core \<Rightarrow> core" where
  "issued sqe cmd c = c\<lparr>c_page := lba_page (sqe_slba sqe), c_zone := lba_zone (sqe_slba sqe),
     c_cmd := cmd, c_trigger := True\<rparr>"

lemma csr_write_core:
  assumes "hw_core (drv_hw d) c"
  shows "hw_core (drv_hw (csr_write32 v CSR_ZNS_TRIGGER d)) (c\<lparr>c_trigger := odd (ucast (v AND 1) :: u8)\<rparr>)"
    and "hw_core (drv_hw (csr_write32 v CSR_ZNS_NVME_OPCODE d)) (c\<lparr>c_cmd := ucast (v AND 0xFF)\<rparr>)"
    and "hw_core (drv_hw (csr_write32 v CSR_ZNS_NVME_BLOCKS d)) c"
    and "hw_core (drv_hw (present_lba l d)) (c\<lparr>c_page := lba_page l, c_zone := lba_zone l\<rparr>)"
  using assms by (auto simp: csr_write32_def present_lba_def intro!: core_ports)

lemma ucast_byte_mask: "ucast (ucast (cmd :: u8) AND (0xFF :: u32)) = cmd"
proof -
  have "(0xFF :: u32) = mask 8" by (simp add: mask_eq_exp_minus_1)
  show ?thesis unfolding \<open>(0xFF :: u32) = mask 8\<close> by (auto intro!: bit_word_eqI simp: bit_simps)
qed

definition issue_writes :: "nvme_sqe \<Rightarrow> u8 \<Rightarrow> driver \<Rightarrow> driver" where
  "issue_writes sqe cmd d = csr_write32 1 CSR_ZNS_TRIGGER (csr_write32 0 CSR_ZNS_NVME_BLOCKS
     (csr_write32 (ucast cmd) CSR_ZNS_NVME_OPCODE
       (csr_write32 (ucast (sqe_slba sqe AND 0xFFFFFFFF)) CSR_ZNS_NVME_LBA_LO
         (csr_write32 (ucast (drop_bit 32 (sqe_slba sqe) AND 0xFFFFFFFF)) CSR_ZNS_NVME_LBA_HI d))))"

lemma lba_writes:
  "csr_write32 (ucast (slba AND 0xFFFFFFFF)) CSR_ZNS_NVME_LBA_LO
     (csr_write32 (ucast (drop_bit 32 slba AND 0xFFFFFFFF)) CSR_ZNS_NVME_LBA_HI d) =
   present_lba slba (csr_write32 (ucast (drop_bit 32 slba AND 0xFFFFFFFF)) CSR_ZNS_NVME_LBA_HI d)"
  by (simp add: csr_write32_def present_lba_def lba_high_low)

lemma issue_writes_core:
  assumes "hw_core (drv_hw d) c"
  shows "hw_core (drv_hw (issue_writes sqe cmd d)) (issued sqe cmd c)"
proof -
  have "hw_core (drv_hw (csr_write32 x CSR_ZNS_NVME_LBA_HI d))
      (c\<lparr>c_page := p, c_zone := z\<rparr>)" if "p = lba_page (current_lba_accumulator d AND 0x00000000FFFFFFFF OR push_bit 32 (ucast x))"
      "z = lba_zone (current_lba_accumulator d AND 0x00000000FFFFFFFF OR push_bit 32 (ucast x))" for x p z
    using csr_write_core(4) [OF assms] by (simp add: csr_write32_def that)
  note hi = this [OF refl refl]
  show ?thesis
    unfolding issue_writes_def lba_writes
    using csr_write_core(1) [OF csr_write_core(3) [OF csr_write_core(2) [OF csr_write_core(4) [OF hi]]],
        of 1 0 "ucast cmd" "sqe_slba sqe" "ucast (drop_bit 32 (sqe_slba sqe) AND 0xFFFFFFFF)"]
    by (simp add: issued_def ucast_byte_mask)
qed

lemma core_verdict_dev:
  "core_verdict c w = zns_verdict (c_cmd c) (c_page c) w (dev_of c)"
  by (simp add: core_verdict_def zns_verdict_def dev_of_def)

lemma accepted_dev:
  "c_bram (accepted c) = set_zone_word (c_bram c) (c_zone c) (c_wdata (accepted c))"
  "c_wdata (accepted c) = next_descriptor (c_cmd c) (zone_word (c_bram c) (c_zone c)) (c_wdata c)"
  "c_open (accepted c) = track_open (c_cmd c) (zone_word (c_bram c) (c_zone c)) (c_open c)"
  by (simp_all add: accepted_def Let_def)

lemma driver_command:
  assumes idle: "hw_idle (drv_hw D) d" and cmd: "hardware_cmd sqe = Inr cmd"
  shows "\<exists>D'. zns_process_nvme_command sqe cqe D =
       Some (cqe_outcome sqe (fst (zns_command cmd (lba_zone (sqe_slba sqe)) (lba_page (sqe_slba sqe)) d)) cqe, D')
     \<and> hw_idle (drv_hw D') (snd (zns_command cmd (lba_zone (sqe_slba sqe)) (lba_page (sqe_slba sqe)) d))"
proof -
  from idle obtain c0 where c0: "hw_core (drv_hw D) c0" "c_state c0 = ST_IDLE" "dev_of c0 = d"
    by (auto simp: hw_idle_def)
  define c where "c = issued sqe cmd c0"
  have trig: "triggered c" using c0(2) by (simp add: c_def issued_def triggered_def)
  have dev: "dev_of c = d" "c_cmd c = cmd" "c_zone c = lba_zone (sqe_slba sqe)"
      "c_page c = lba_page (sqe_slba sqe)" "c_bram c = zd_bram d" "c_wdata c = zd_wdata d" "c_open c = zd_open d"
    using c0(3) by (auto simp: c_def issued_def dev_of_def)
  define D5 where "D5 = issue_writes sqe cmd D"
  have core: "hw_core (drv_hw D5) c" unfolding D5_def c_def by (rule issue_writes_core [OF c0(1)])
  define err where "err = fst (core_verdict c (zone_word (c_bram c) (c_zone c)))"
  define D6 where "D6 = (drv_tick ^^ command_cycles err) D5"
  note polled = poll_command [OF core trig, folded err_def, folded D6_def]
  define e where "e = sim_get_out_err_code (drv_hw D6)"
  define D8 where "D8 = csr_write32 0 CSR_ZNS_TRIGGER D6"
  define c8 where "c8 = (if err then refused c else accepted c)\<lparr>c_trigger := False\<rparr>"
  have core8: "hw_core (drv_hw D8) c8"
    using csr_write_core(1) [OF polled(2), of 0] by (simp add: D8_def c8_def)
  define D9 where "D9 = D8\<lparr>drv_hw := verilator_tick_hardware (verilator_tick_hardware (drv_hw D8))\<rparr>"
  have run: "zns_process_nvme_command sqe cqe D =
      Some (cqe_outcome sqe (if err then 1 else 3, e) cqe, D9)"
    unfolding zns_process_nvme_command_def cmd sum.case Let_def issue_writes_def [symmetric] D5_def [symmetric]
      polled(1)
    by (simp add: csr_read32_def D8_def D9_def e_def cqe_outcome_def)
  have core9: "hw_core (drv_hw D9) (core_cycle (core_cycle c8))"
    by (simp add: D9_def core8 core_tick)
  have e: "e = (if err then snd (core_verdict c (zone_word (c_bram c) (c_zone c))) else 0)"
    using core_get_err [OF polled(2)] by (simp add: e_def refused_def accepted_def Let_def)
  have "hw_idle (drv_hw D9) (snd (zns_command cmd (lba_zone (sqe_slba sqe)) (lba_page (sqe_slba sqe)) d))"
    using release_refused [OF trig refl] release_accepted [OF trig refl] core9 dev
    unfolding hw_idle_def zns_command_def c8_def err_def core_verdict_dev
    by (intro exI [of _ "core_cycle (core_cycle c8)"])
       (auto simp: Let_def accepted_dev c8_def err_def core_verdict_dev)
  moreover have "fst (zns_command cmd (lba_zone (sqe_slba sqe)) (lba_page (sqe_slba sqe)) d) = (if err then 1 else 3, e)"
    unfolding e err_def core_verdict_dev dev zns_command_def by (simp add: Let_def dev)
  ultimately show ?thesis using run by auto
qed

text \<open>Without an attached model the status reads 0 for ever: the loop does not return.\<close>

lemma poll_status_attached:
  assumes "poll_status d = Some r"
  shows "hw_top (drv_hw d) \<noteq> None"
  using _ assms
proof (rule poll_status.raw_induct)
  fix poll d r
  assume IH: "\<And>d r. poll d = Some r \<Longrightarrow> hw_top (drv_hw d) \<noteq> None"
    and step: "(let r = csr_read32 CSR_ZNS_OUT_STATUS d in
      if fst r = 2 \<or> fst r = 0 then poll (snd r) else Some r) = Some r"
  show "hw_top (drv_hw d) \<noteq> None"
  proof
    assume off: "hw_top (drv_hw d) = None"
    then have "drv_hw (drv_tick d) = drv_hw d" and "drv_status (drv_tick d) = 0"
      by (simp_all add: drv_tick_def drv_status_def verilator_tick_hardware_def)
    with off step IH [of "drv_tick d" r] show False by (simp add: csr_read_status Let_def)
  qed
qed

lemma poll_status_detached: "hw_top (drv_hw d) = None \<Longrightarrow> poll_status d = None"
  using poll_status_attached by (cases "poll_status d") auto

end
