(* ===== verification/Zone_Contract.thy ===== *)
theory Zone_Contract
  imports Flash_Prelude
begin

text \<open>
  The contract of a sequential-write zone, shared by the hardware device and by the
  software validator of the controller: a write is accepted exactly at the write pointer
  and below the capacity, it advances the pointer by one, and a refused write changes
  nothing. \<open>ready\<close> is whatever else the provider needs to accept a write.
\<close>

text \<open>The verdicts of a zone of \<open>cap\<close> pages that stands at page \<open>w\<close>.\<close>

fun in_order :: "nat \<Rightarrow> nat \<Rightarrow> nat list \<Rightarrow> bool list" where
  "in_order cap w [] = []"
| "in_order cap w (n # ns) =
     (if n = w \<and> w \<noteq> cap then True # in_order cap (Suc w) ns else False # in_order cap w ns)"

locale append_zone =
  fixes append :: "nat \<Rightarrow> 's \<Rightarrow> bool \<times> 's"
    and wp :: "'s \<Rightarrow> nat"
    and ready :: "'s \<Rightarrow> bool"
    and cap :: nat
  assumes bounded: "ready s \<Longrightarrow> wp s \<le> cap"
    and accepts: "ready s \<Longrightarrow> wp s < cap \<Longrightarrow> fst (append (wp s) s) \<and> wp (snd (append (wp s) s)) = Suc (wp s)
      \<and> ready (snd (append (wp s) s))"
    and refuses: "ready s \<Longrightarrow> n < cap \<Longrightarrow> n \<noteq> wp s \<or> wp s = cap \<Longrightarrow> append n s = (False, s)"
begin

fun append_run :: "nat list \<Rightarrow> 's \<Rightarrow> bool list \<times> 's" where
  "append_run [] s = ([], s)"
| "append_run (n # ns) s =
     (let (b, s1) = append n s; (bs, s2) = append_run ns s1 in (b # bs, s2))"

text \<open>Writes that start at the pointer and go up are all accepted.\<close>

lemma sequential_writes:
  "ready s \<Longrightarrow> wp s + k \<le> cap \<Longrightarrow>
   fst (append_run [wp s..<wp s + k] s) = replicate k True \<and>
   wp (snd (append_run [wp s..<wp s + k] s)) = wp s + k \<and>
   ready (snd (append_run [wp s..<wp s + k] s))"
proof (induction k arbitrary: s)
  case (Suc k)
  let ?s1 = "snd (append (wp s) s)"
  have st: "fst (append (wp s) s)" "wp ?s1 = Suc (wp s)" "ready ?s1"
    using accepts [of s] Suc.prems by auto
  have "[wp s..<wp s + Suc k] = wp s # [wp ?s1..<wp ?s1 + k]"
    by (simp add: st(2) upt_conv_Cons)
  then show ?case using Suc.IH [OF st(3)] Suc.prems(2) st by (simp add: split_beta)
qed simp

text \<open>A full zone refuses every write and stays as it is.\<close>

lemma full_refuses: "ready s \<Longrightarrow> wp s = cap \<Longrightarrow> n < cap \<Longrightarrow> append n s = (False, s)"
  by (rule refuses) simp_all

text \<open>
  Whatever pages are requested, the verdicts are those of \<open>in_order\<close>, and the accepted pages are
  the ones from the old pointer to the new one, each once and in order.
\<close>

lemma verdicts_in_order:
  "ready s \<Longrightarrow> list_all (\<lambda>n. n < cap) ns \<Longrightarrow>
   fst (append_run ns s) = in_order cap (wp s) ns \<and> ready (snd (append_run ns s)) \<and> wp (snd (append_run ns s)) \<le> cap
   \<and> wp s \<le> wp (snd (append_run ns s))
   \<and> map fst (filter snd (zip ns (fst (append_run ns s)))) = [wp s..<wp (snd (append_run ns s))]"
proof (induction ns arbitrary: s)
  case Nil
  then show ?case using bounded by simp
next
  case (Cons n ns)
  show ?case
  proof (cases "n = wp s \<and> wp s \<noteq> cap")
    case True
    then have "wp s < cap" using bounded [of s] Cons.prems(1) by simp
    from accepts [OF Cons.prems(1) this] True Cons.IH [of "snd (append n s)"] Cons.prems(2) show ?thesis
      by (auto simp: split_beta Let_def upt_conv_Cons)
  next
    case False
    then have "append n s = (False, s)" using refuses [OF Cons.prems(1), of n] Cons.prems(2) by auto
    then show ?thesis using Cons.IH [OF Cons.prems(1)] Cons.prems(2) False by (auto simp: split_beta Let_def)
  qed
qed

end

end
