(* ===== verification/Zns_Device.thy ===== *)
theory Zns_Device
  imports Zns_Bridge Zone_Contract
begin

text \<open>
  What the device of \<open>zns_command\<close> promises. \<open>zone_ok\<close> is the well-formedness of a
  descriptor, \<open>open_ok\<close> says that the counter of \<open>zns_resources_tracker.v\<close> counts the
  open zones and never exceeds its limit of four. \<open>zns_spec\<close> is the abstract device: a
  write pointer and an erase count per zone, the open zones counted from the pointers.
  Writes and resets of zones inside the array refine it (\<open>device_refines\<close>).
\<close>

section \<open>Descriptor invariants\<close>

definition zone_ok :: "u32 \<Rightarrow> bool" where
  "zone_ok w \<longleftrightarrow> unat (zone_wptr w) \<le> 64 \<and> (zone_is_full w \<longleftrightarrow> unat (zone_wptr w) = 64)"

definition zone_open :: "u32 \<Rightarrow> bool" where
  "zone_open w \<longleftrightarrow> 0 < zone_wptr w \<and> \<not> zone_is_full w"

definition bram_list :: "(nat \<Rightarrow> u32) \<Rightarrow> u32 list" where
  "bram_list bram = map bram [0..<BRAM_CELLS]"

definition open_count :: "(nat \<Rightarrow> u32) \<Rightarrow> nat" where
  "open_count bram = count_if zone_open (bram_list bram)"

definition dev_ok :: "zns_dev \<Rightarrow> bool" where
  "dev_ok d \<longleftrightarrow> list_all zone_ok (bram_list (zd_bram d)) \<and> zone_ok (zd_wdata d)"

definition open_ok :: "zns_dev \<Rightarrow> bool" where
  "open_ok d \<longleftrightarrow> unat (zd_open d) = open_count (zd_bram d) \<and> open_count (zd_bram d) \<le> 4"

lemma bram_list_simps [simp]:
  "length (bram_list bram) = BRAM_CELLS"
  "z < BRAM_CELLS \<Longrightarrow> bram_list bram ! z = bram z"
  "bram_list (bram(z := w)) = (bram_list bram)[z := w]"
  by (auto simp: bram_list_def intro!: nth_equalityI simp: nth_list_update)

lemma bram_list_set_zone:
  "bram_list (set_zone_word bram z w) = (bram_list bram)[unat z := w]"
  by (auto simp: set_zone_word_def in_bram_def list_update_beyond)

lemma zone_ok_zero [simp]: "zone_ok 0"
  by (simp add: zone_ok_def zone_word_simps)

lemma dev_ok_zone: "dev_ok d \<Longrightarrow> zone_ok (zone_word (zd_bram d) z)"
  using list_all_nthD [of zone_ok "bram_list (zd_bram d)" "unat z"]
  by (auto simp: dev_ok_def zone_word_def in_bram_def)

lemma wptr_succ: "unat (p :: 7 word) < 64 \<Longrightarrow> unat (p + 1) = Suc (unat p)"
  by (simp add: unat_word_ariths)

lemma wptr_last: "p = (63 :: 7 word) \<longleftrightarrow> unat p = 63"
  by (simp add: word_unat_eq_iff)

lemma zone_ok_next:
  assumes "zone_ok w" "zone_ok old"
  shows "cmd = 1 \<longrightarrow> \<not> zone_is_full w \<Longrightarrow> zone_ok (next_descriptor cmd w old)"
  using assms
  by (auto simp: next_descriptor_def zone_ok_def Let_def zone_word_simps wptr_last wptr_succ)

lemma full_refused: "\<not> fst (zns_verdict 1 page w d) \<Longrightarrow> \<not> zone_is_full w"
  by (auto simp: zns_verdict_def zns_rules_checker_def split: if_splits)

lemma zns_command_dev_ok:
  assumes "dev_ok d"
  shows "dev_ok (snd (zns_command cmd z page d))"
proof (cases "fst (zns_verdict cmd page (zone_word (zd_bram d) z) d)")
  case True
  then show ?thesis using assms by (simp add: zns_command_def Let_def)
next
  case False
  have "zone_ok (next_descriptor cmd (zone_word (zd_bram d) z) (zd_wdata d))"
    using False full_refused dev_ok_zone [OF assms] assms
    by (intro zone_ok_next) (auto simp: dev_ok_def)
  then show ?thesis
    using False assms
    by (simp add: zns_command_def Let_def dev_ok_def bram_list_set_zone list_all_update)
qed

section \<open>Verdicts\<close>

lemma wptr_zero: "p = (0 :: 7 word) \<longleftrightarrow> unat p = 0"
  by (simp add: unat_eq_0)

lemma page_wptr: "page = (ucast (p :: 7 word) :: u32) \<longleftrightarrow> unat page = unat p"
  by (metis unat_wptr_ucast word_unat_eq_iff)

lemma write_verdict:
  assumes "zone_ok w" "\<not> zd_hot d"
  shows "zns_verdict 1 page w d =
    (if unat (zone_wptr w) = 64 then (True, 7)
     else if unat page \<noteq> unat (zone_wptr w) then (True, 1)
     else if unat (zone_wptr w) = 0 \<and> 4 \<le> unat (zd_open d) then (True, 2)
     else (False, 0))"
  using assms
  by (auto simp: zns_verdict_def zns_rules_checker_def zone_ok_def page_wptr wptr_zero word_le_nat_alt)

lemma reset_verdict:
  assumes "\<not> zd_hot d"
  shows "zns_verdict 2 page w d = (if 10 \<le> unat (zone_erase_cnt w) then (True, 5) else (False, 0))"
  using assms
  by (auto simp: zns_verdict_def zns_rules_checker_def word_le_nat_alt)

lemma read_verdict:
  assumes "\<not> zd_hot d"
  shows "zns_verdict 0 page w d = (if unat (zone_wptr w) \<le> unat page then (True, 3) else (False, 0))"
  using assms
  by (auto simp: zns_verdict_def zns_rules_checker_def word_le_nat_alt)

lemma hot_verdict: "zd_hot d \<Longrightarrow> zns_verdict cmd page w d = (True, 8)"
  by (simp add: zns_verdict_def zns_rules_checker_def)

section \<open>The abstract device\<close>

record zns_spec =
  sp_wptr :: "nat \<Rightarrow> nat"
  sp_erases :: "nat \<Rightarrow> nat"

definition spec_open :: "zns_spec \<Rightarrow> nat" where
  "spec_open s = count_if (\<lambda>z. 0 < sp_wptr s z \<and> sp_wptr s z < 64) [0..<BRAM_CELLS]"

definition spec_write :: "nat \<Rightarrow> nat \<Rightarrow> zns_spec \<Rightarrow> (u8 \<times> u8) \<times> zns_spec" where
  "spec_write z page s =
     (if sp_wptr s z = 64 then ((1, 7), s)
      else if page \<noteq> sp_wptr s z then ((1, 1), s)
      else if sp_wptr s z = 0 \<and> 4 \<le> spec_open s then ((1, 2), s)
      else ((3, 0), s\<lparr>sp_wptr := (sp_wptr s)(z := Suc (sp_wptr s z))\<rparr>))"

definition spec_reset :: "nat \<Rightarrow> zns_spec \<Rightarrow> (u8 \<times> u8) \<times> zns_spec" where
  "spec_reset z s =
     (if 10 \<le> sp_erases s z then ((1, 5), s)
      else ((3, 0), \<lparr>sp_wptr = (sp_wptr s)(z := 0), sp_erases = (sp_erases s)(z := Suc (sp_erases s z))\<rparr>))"

definition dev_abs :: "zns_dev \<Rightarrow> zns_spec" where
  "dev_abs d = \<lparr>sp_wptr = (\<lambda>z. unat (zone_wptr (zd_bram d z))),
     sp_erases = (\<lambda>z. unat (zone_erase_cnt (zd_bram d z)))\<rparr>"

lemma zone_open_abs: "zone_ok w \<Longrightarrow> zone_open w \<longleftrightarrow> 0 < unat (zone_wptr w) \<and> unat (zone_wptr w) < 64"
  by (auto simp: zone_ok_def zone_open_def word_less_nat_alt)

lemma count_if_cong: "(\<And>x. x \<in> set xs \<Longrightarrow> P x = Q x) \<Longrightarrow> count_if P xs = count_if Q xs"
  unfolding count_if_def by (rule arg_cong [where f = length]) (rule filter_cong, simp_all)

lemma spec_open_abs: "dev_ok d \<Longrightarrow> spec_open (dev_abs d) = open_count (zd_bram d)"
  unfolding spec_open_def open_count_def bram_list_def count_if_map
  by (rule count_if_cong) (auto simp: dev_abs_def zone_open_abs dev_ok_def bram_list_def list_all_iff)

lemma open_count_set:
  "z < BRAM_CELLS \<Longrightarrow>
   open_count (bram(z := w)) + of_bool (zone_open (bram z)) = open_count bram + of_bool (zone_open w)"
  using count_if_update [of z "bram_list bram" zone_open w]
  by (simp add: open_count_def)

lemma unat_open_succ: "unat (n :: 4 word) < 4 \<Longrightarrow> unat (n + 1) = Suc (unat n)"
  by (simp add: unat_word_ariths)

lemma unat_open_pred: "0 < (n :: 4 word) \<Longrightarrow> unat (n - 1) = unat n - 1"
  by (simp add: unat_minus_one word_neq_0_conv)

section \<open>Writes and resets refine the abstract device\<close>

lemma track_write:
  assumes ok: "zone_ok w" "\<not> zone_is_full w" and pos: "zone_open w \<longrightarrow> 0 < n"
    and lim: "zone_wptr w = 0 \<longrightarrow> unat n < 4"
  shows "unat (track_open 1 w n) + of_bool (zone_open w) = unat n + of_bool (zone_open (next_descriptor 1 w old))"
proof -
  consider "unat (zone_wptr w) = 0" | "0 < unat (zone_wptr w)" "unat (zone_wptr w) < 63" | "unat (zone_wptr w) = 63"
    using ok by (force simp: zone_ok_def)
  then show ?thesis
  proof cases
    case 1
    then have "zone_wptr w = 0" by (simp add: wptr_zero)
    then show ?thesis using ok lim
      by (simp add: track_open_def next_descriptor_def zone_open_def zone_word_simps unat_open_succ)
  next
    case 2
    then have "zone_wptr w \<noteq> 63" "zone_wptr w \<noteq> 0" "0 < zone_wptr w + 1"
      by (auto simp: wptr_zero wptr_last word_less_nat_alt wptr_succ)
    moreover from this have "0 < zone_wptr w" by (simp add: word_neq_0_conv)
    ultimately show ?thesis using ok
      by (simp add: track_open_def next_descriptor_def zone_open_def zone_word_simps)
  next
    case 3
    then have "zone_wptr w = 63" by (simp add: wptr_last)
    then show ?thesis using ok pos
      by (auto simp: track_open_def next_descriptor_def zone_open_def zone_word_simps unat_open_pred
          word_less_nat_alt)
  qed
qed

lemma track_reset:
  assumes "zone_open w \<longrightarrow> 0 < n"
  shows "unat (track_open 2 w n) + of_bool (zone_open w) = unat n + of_bool (zone_open (next_descriptor 2 w old))"
  using assms
  by (auto simp: track_open_def next_descriptor_def zone_open_def zone_word_simps unat_open_pred word_less_nat_alt)

lemma open_ok_pos:
  assumes "open_ok d" "in_bram z" "zone_open (zd_bram d (unat z))"
  shows "0 < zd_open d"
  using assms count_if_pos_nth [of "unat z" "bram_list (zd_bram d)" zone_open]
  by (simp add: open_ok_def open_count_def in_bram_def word_less_nat_alt)

text \<open>The counter follows the open zones through every accepted write and reset inside the array.\<close>

lemma open_ok_step:
  assumes ok: "dev_ok d" "open_ok d" "in_bram z"
    and acc: "\<not> fst (zns_verdict cmd page (zd_bram d (unat z)) d)" and cmd: "cmd = 1 \<or> cmd = 2" and cold: "\<not> zd_hot d"
  shows "open_ok (d\<lparr>zd_bram := (zd_bram d)(unat z := next_descriptor cmd (zd_bram d (unat z)) (zd_wdata d)),
     zd_wdata := x, zd_open := track_open cmd (zd_bram d (unat z)) (zd_open d)\<rparr>)"
proof -
  let ?w = "zd_bram d (unat z)"
  have zok: "zone_ok ?w" using dev_ok_zone [OF ok(1), of z] ok(3) by (simp add: zone_word_def)
  have pos: "zone_open ?w \<longrightarrow> 0 < zd_open d" using open_ok_pos [OF ok(2,3)] by blast
  note count = open_count_set [of "unat z" "zd_bram d" "next_descriptor cmd ?w (zd_wdata d)"]
  have cell: "unat z < BRAM_CELLS" using ok(3) by (simp add: in_bram_def)
  show ?thesis
  proof (cases "cmd = 1")
    case True
    with acc zok cold have "\<not> zone_is_full ?w" "zone_wptr ?w = 0 \<longrightarrow> unat (zd_open d) < 4"
      by (auto simp: write_verdict zone_ok_def wptr_zero split: if_splits)
    moreover from this have "zone_open ?w \<or> open_count (zd_bram d) < 4"
      using ok(2) by (auto simp: open_ok_def zone_open_def word_neq_0_conv)
    ultimately show ?thesis
      using track_write [OF zok _ pos, of "zd_wdata d"] True count [OF cell] ok(2)
      by (auto simp: open_ok_def of_bool_def split: if_splits)
  next
    case False
    with cmd have "cmd = 2" by simp
    then show ?thesis
      using track_reset [OF pos, of "zd_wdata d"] count [OF cell] ok(2)
      by (auto simp: open_ok_def zone_open_def next_descriptor_def zone_word_simps split: if_splits)
  qed
qed

lemma zns_command_inside:
  "in_bram z \<Longrightarrow> zns_command cmd z page d =
     (let w = zd_bram d (unat z) in
      if fst (zns_verdict cmd page w d) then ((1, snd (zns_verdict cmd page w d)), d)
      else ((3, 0), d\<lparr>zd_bram := (zd_bram d)(unat z := next_descriptor cmd w (zd_wdata d)),
             zd_wdata := next_descriptor cmd w (zd_wdata d), zd_open := track_open cmd w (zd_open d)\<rparr>))"
  by (simp add: zns_command_def zone_word_def set_zone_word_def Let_def)

lemma zns_command_open_ok:
  assumes "dev_ok d" "open_ok d" "in_bram z" "cmd = 1 \<or> cmd = 2" "\<not> zd_hot d"
  shows "open_ok (snd (zns_command cmd z page d))"
  using open_ok_step [OF assms(1-3) _ assms(4,5)] assms(2)
  by (simp add: zns_command_inside [OF assms(3)] Let_def)

lemma wptr_after_write:
  "zone_ok w \<Longrightarrow> \<not> zone_is_full w \<Longrightarrow>
   unat (zone_wptr (next_descriptor 1 w old)) = Suc (unat (zone_wptr w)) \<and>
   zone_erase_cnt (next_descriptor 1 w old) = zone_erase_cnt w"
  by (auto simp: next_descriptor_def Let_def zone_word_simps wptr_last zone_ok_def wptr_succ)

lemma device_write_refines:
  assumes "dev_ok d" "open_ok d" "in_bram z" "\<not> zd_hot d"
  shows "map_prod id dev_abs (zns_command 1 z page d) = spec_write (unat z) (unat page) (dev_abs d)"
proof -
  let ?w = "zd_bram d (unat z)"
  have zok: "zone_ok ?w" using dev_ok_zone [OF assms(1), of z] assms(3) by (simp add: zone_word_def)
  note v = write_verdict [OF zok assms(4)]
  have n: "zone_is_full ?w \<longleftrightarrow> unat (zone_wptr ?w) = 64" using zok by (simp add: zone_ok_def)
  show ?thesis
    using assms(2) wptr_after_write [OF zok] n
    unfolding zns_command_inside [OF assms(3)] Let_def v spec_write_def spec_open_abs [OF assms(1)]
    by (auto simp: dev_abs_def open_ok_def fun_eq_iff)
qed

lemma device_reset_refines:
  assumes "in_bram z" "\<not> zd_hot d"
  shows "map_prod id dev_abs (zns_command 2 z page d) = spec_reset (unat z) (dev_abs d)"
proof -
  let ?e = "zone_erase_cnt (zd_bram d (unat z))"
  have "unat (?e + 1) = Suc (unat ?e)" if "unat ?e < 10" using that by (simp add: unat_word_ariths)
  then show ?thesis
    unfolding zns_command_inside [OF assms(1)] Let_def reset_verdict [OF assms(2)] spec_reset_def
    by (auto simp: dev_abs_def fun_eq_iff next_descriptor_def zone_word_simps)
qed

section \<open>A zone of the device is a sequential zone\<close>

definition hw_append :: "u32 \<Rightarrow> nat \<Rightarrow> zns_dev \<Rightarrow> bool \<times> zns_dev" where
  "hw_append z n d = (let r = zns_command 1 z (word_of_nat n) d in (fst (fst r) = 3, snd r))"

definition hw_wp :: "u32 \<Rightarrow> zns_dev \<Rightarrow> nat" where
  "hw_wp z d = unat (zone_wptr (zd_bram d (unat z)))"

definition hw_ready :: "u32 \<Rightarrow> zns_dev \<Rightarrow> bool" where
  "hw_ready z d \<longleftrightarrow> in_bram z \<and> dev_ok d \<and> open_ok d \<and> \<not> zd_hot d \<and> (hw_wp z d = 0 \<longrightarrow> open_count (zd_bram d) < 4)"

lemma hw_append_spec:
  assumes "hw_ready z d" "n < 64"
  shows "hw_append z n d =
    (if hw_wp z d = 64 \<or> n \<noteq> hw_wp z d then (False, d)
     else (True, snd (zns_command 1 z (word_of_nat n) d)))"
proof -
  let ?w = "zd_bram d (unat z)"
  have ok: "in_bram z" "dev_ok d" "open_ok d" "\<not> zd_hot d" "hw_wp z d = 0 \<longrightarrow> open_count (zd_bram d) < 4"
    using assms(1) by (auto simp: hw_ready_def)
  have zok: "zone_ok ?w" using dev_ok_zone [OF ok(2), of z] ok(1) by (simp add: zone_word_def)
  have n: "unat (word_of_nat n :: u32) = n" using assms(2) by (simp add: unat_of_nat)
  show ?thesis
    unfolding hw_append_def zns_command_inside [OF ok(1)] Let_def write_verdict [OF zok ok(4)] n
    using ok(3,5) by (auto simp: hw_wp_def open_ok_def)
qed

lemma hw_append_step:
  assumes "hw_ready z d" "hw_wp z d < 64"
  shows "hw_wp z (snd (hw_append z (hw_wp z d) d)) = Suc (hw_wp z d) \<and> hw_ready z (snd (hw_append z (hw_wp z d) d))"
proof -
  let ?d = "snd (zns_command 1 z (word_of_nat (hw_wp z d)) d)"
  have ok: "in_bram z" "dev_ok d" "open_ok d" "\<not> zd_hot d"
    using assms(1) by (auto simp: hw_ready_def)
  have eq: "snd (hw_append z (hw_wp z d) d) = ?d"
    using hw_append_spec [OF assms] assms(2) by simp
  have acc: "fst (fst (zns_command 1 z (word_of_nat (hw_wp z d)) d)) = 3"
    using hw_append_spec [OF assms] assms(2) by (auto simp: hw_append_def Let_def)
  let ?sp = "spec_write (unat z) (unat (word_of_nat (hw_wp z d) :: u32)) (dev_abs d)"
  have r: "map_prod id dev_abs (zns_command 1 z (word_of_nat (hw_wp z d)) d) = ?sp"
    by (rule device_write_refines [OF ok(2,3,1,4)])
  have "fst (fst ?sp) = 3" "dev_abs ?d = snd ?sp"
    using acc by (simp_all add: r [symmetric])
  then have "sp_wptr (dev_abs ?d) (unat z) = Suc (hw_wp z d)"
    by (auto simp: spec_write_def dev_abs_def hw_wp_def split: if_splits)
  then have "hw_wp z ?d = Suc (hw_wp z d)" by (simp add: dev_abs_def hw_wp_def)
  moreover have "\<not> zd_hot ?d" using ok(4) by (simp add: zns_command_def Let_def)
  ultimately show ?thesis
    using zns_command_dev_ok [OF ok(2)] zns_command_open_ok [OF ok(2,3,1) _ ok(4)] ok(1) eq
    by (simp add: hw_ready_def)
qed

interpretation hwz: append_zone "hw_append z" "hw_wp z" "hw_ready z" 64 for z
proof
  fix d assume r: "hw_ready z d"
  show "hw_wp z d \<le> 64"
    using r dev_ok_zone [of d z] by (auto simp: hw_ready_def hw_wp_def zone_ok_def zone_word_def)
  show "fst (hw_append z (hw_wp z d) d) \<and> hw_wp z (snd (hw_append z (hw_wp z d) d)) = Suc (hw_wp z d)
      \<and> hw_ready z (snd (hw_append z (hw_wp z d) d))" if "hw_wp z d < 64"
    using hw_append_spec [OF r that] hw_append_step [OF r that] that by simp
  show "hw_append z n d = (False, d)" if "n < 64" "n \<noteq> hw_wp z d \<or> hw_wp z d = 64" for n
    using hw_append_spec [OF r that(1)] that(2) by auto
qed

section \<open>Two defects of the device\<close>

text \<open>
  A read is accepted through the same \<open>ST_EXECUTE\<close> state as a write: it stores the
  write-data register, which still holds the last descriptor written, into the descriptor
  of the zone it reads.
\<close>

lemma read_overwrites:
  assumes "in_bram z" "\<not> zd_hot d" "unat page < unat (zone_wptr (zd_bram d (unat z)))"
  shows "zns_command 0 z page d = ((3, 0), d\<lparr>zd_bram := (zd_bram d)(unat z := zd_wdata d)\<rparr>)"
  using assms
  by (simp add: zns_command_inside read_verdict next_descriptor_def track_open_def Let_def)

text \<open>
  The bridge ties the bound error input to zero, so a write to page 0 of a zone outside
  the array is accepted; nothing is stored and the open-zone counter goes up.
\<close>

lemma write_outside:
  assumes "\<not> in_bram z" "\<not> zd_hot d" "unat (zd_open d) < 4"
  shows "zns_command 1 z 0 d = ((3, 0), d\<lparr>zd_wdata := pack_zone 0 False 1, zd_open := zd_open d + 1\<rparr>)"
proof -
  have "zns_verdict 1 0 0 d = (False, 0)"
    using assms(2,3) write_verdict [of 0 d 0] by (simp add: zone_word_simps)
  then show ?thesis
    using assms(1)
    by (simp add: zns_command_def zone_word_def set_zone_word_def next_descriptor_def track_open_def
        Let_def zone_word_simps)
qed

end
