(* ===== verification/Zns_Controller.thy ===== *)
theory Zns_Controller
  imports Zns_Driver Zns_Device Ssd_Block
begin

text \<open>
  The ZNS side of the controller: \<open>ssd_controller.cpp\<close> (\<open>direct_zns_gate\<close>, which issues one
  NVMe command and mirrors its effect in the software zone table), \<open>zns_manager.cpp\<close> (the
  software validator), \<open>crypto_engine.cpp\<close>, \<open>thermal_manager.cpp\<close> and the stubs and tests
  of \<open>flashsim_stubs.cpp\<close>. \<open>direct_zns_gate\<close> writes single bytes of the \<open>ZnsZone\<close>
  structure; on the little-endian target bytes 0 and 2 are bytes of the 64-bit \<open>wptr\<close>.
\<close>

unbundle bit_operations_syntax

section \<open>State\<close>

record zns_zone =
  zz_wptr :: u64
  zz_is_full :: bool
  zz_erase_count :: u64

record zns_ctrl =
  zns_zones :: "zns_zone list option"
  total_zns_zones :: nat
  zc_driver :: driver

definition ZnsZone_zero :: zns_zone where
  "ZnsZone_zero = \<lparr>zz_wptr = 0, zz_is_full = False, zz_erase_count = 0\<rparr>"

definition Controller_new :: "nat \<Rightarrow> driver \<Rightarrow> zns_ctrl" where
  "Controller_new cnt d =
     (let n = (if cnt = 0 then 1024 else cnt) in
      \<lparr>zns_zones = Some (replicate n ZnsZone_zero), total_zns_zones = n, zc_driver = d\<rparr>)"

section \<open>The hardware gate\<close>

definition zone_byte :: "nat \<Rightarrow> u64 \<Rightarrow> u8" where
  "zone_byte i w = ucast (drop_bit (8 * i) w)"

definition set_zone_byte :: "nat \<Rightarrow> u8 \<Rightarrow> u64 \<Rightarrow> u64" where
  "set_zone_byte i b w = (w AND NOT (push_bit (8 * i) 0xFF)) OR push_bit (8 * i) (ucast b)"

definition zero_sqe :: nvme_sqe where
  "zero_sqe = \<lparr>sqe_opcode = 0, sqe_flags = 0, sqe_cid = 0, sqe_nsid = 0, sqe_rsvd1 = 0, sqe_mptr = 0,
     sqe_prp1 = 0, sqe_prp2 = 0, sqe_slba = 0, sqe_nlb = 0, sqe_zsa = 0, sqe_rsvd2 = 0\<rparr>"

definition zero_cqe :: nvme_cqe where
  "zero_cqe = \<lparr>cqe_cdw0 = 0, cqe_rsvd = 0, cqe_sq_head = 0, cqe_sq_id = 0, cqe_cid = 0, cqe_status = 0\<rparr>"

definition gate_sqe :: "u64 \<Rightarrow> int \<Rightarrow> nvme_sqe" where
  "gate_sqe lba is_write =
     (let q = (if is_write = 1 then zero_sqe\<lparr>sqe_opcode := NVME_CMD_WRITE\<rparr>
               else if is_write = 0 then zero_sqe\<lparr>sqe_opcode := NVME_CMD_READ\<rparr>
               else if is_write = 2 then
                 zero_sqe\<lparr>sqe_opcode := NVME_CMD_ZONE_MGMT, sqe_zsa := NVME_ZONE_ACTION_RESET\<rparr>
               else zero_sqe)
      in q\<lparr>sqe_slba := lba, sqe_nlb := 0, sqe_cid := 42\<rparr>)"

definition mirror_zone :: "int \<Rightarrow> zns_zone \<Rightarrow> zns_zone" where
  "mirror_zone is_write z =
     (if is_write = 1 then z\<lparr>zz_wptr := set_zone_byte 0 (zone_byte 0 (zz_wptr z) + 1) (zz_wptr z)\<rparr>
      else if is_write = 2 then
        (let w = set_zone_byte 0 0 (zz_wptr z) in z\<lparr>zz_wptr := set_zone_byte 2 (zone_byte 2 w + 1) w\<rparr>)
      else z)"

definition mirror_zones :: "u32 \<Rightarrow> int \<Rightarrow> zns_ctrl \<Rightarrow> zns_ctrl option" where
  "mirror_zones zid is_write k = (case zns_zones k of None \<Rightarrow> Some k | Some zs \<Rightarrow>
     if unat zid < total_zns_zones k then do {
       z \<leftarrow> aget zs (unat zid);
       Some (k\<lparr>zns_zones := Some (zs[unat zid := mirror_zone is_write z])\<rparr>)
     } else Some k)"

definition direct_zns_gate :: "u64 \<Rightarrow> int \<Rightarrow> zns_ctrl \<Rightarrow> (status \<times> zns_ctrl) option" where
  "direct_zns_gate lba is_write k = do {
     let zid = (ucast (lba div 64) :: u32);
     (cqe, d) \<leftarrow> zns_process_nvme_command (gate_sqe lba is_write) zero_cqe (zc_driver k);
     let k1 = k\<lparr>zc_driver := d\<rparr>;
     if cqe_status cqe = 0 then do {
       k2 \<leftarrow> mirror_zones zid is_write k1;
       Some (SUCCESS, k2)
     } else Some (FAILURE, k1)
   }"

section \<open>The software validator\<close>

definition open_zones_count_check :: "zns_ctrl \<Rightarrow> nat option" where
  "open_zones_count_check k = (case zns_zones k of None \<Rightarrow> None | Some zs \<Rightarrow>
     if total_zns_zones k \<le> length zs
     then Some (count_if (\<lambda>z. 0 < zz_wptr z \<and> \<not> zz_is_full z) (take (total_zns_zones k) zs)) else None)"

definition hard_block_size :: "config \<Rightarrow> nat" where
  "hard_block_size c = (if 0 < BLOCK_SIZE c then BLOCK_SIZE c else 64)"

definition validate_and_advance_zns :: "config \<Rightarrow> event \<Rightarrow> zns_ctrl \<Rightarrow> (bool \<times> zns_ctrl) option" where
  "validate_and_advance_zns c e k =
     (if FTL_IMPLEMENTATION c \<noteq> 5 then Some (True, k)
      else let bs = hard_block_size c; zid = logical_address e div bs in
        case zns_zones k of None \<Rightarrow> Some (False, k) | Some zs \<Rightarrow>
          if total_zns_zones k \<le> zid then Some (False, k)
          else do {
            z \<leftarrow> aget zs zid;
            if etype e = WRITE then
              (if zz_is_full z then Some (False, k)
               else let target = (word_of_nat (logical_address e mod bs mod 2 ^ 32) :: u64) in
                 if target \<noteq> zz_wptr z then Some (False, k)
                 else do {
                   n \<leftarrow> (if zz_wptr z = 0 then open_zones_count_check k else Some 0);
                   if zz_wptr z = 0 \<and> 4 \<le> n then Some (False, k)
                   else (let z1 = z\<lparr>zz_wptr := zz_wptr z + 1\<rparr>;
                             z2 = (if word_of_nat bs \<le> zz_wptr z1 then z1\<lparr>zz_is_full := True\<rparr> else z1)
                         in Some (True, k\<lparr>zns_zones := Some (zs[zid := z2])\<rparr>))
                 })
            else Some (True, k)
          })"

section \<open>Crypto engine, thermal input and controller stubs\<close>

definition simulate_crypto_read :: "u32 \<Rightarrow> u32 \<Rightarrow> bool" where
  "simulate_crypto_read target_page wptr \<longleftrightarrow> \<not> wptr \<le> target_page"

definition simulate_crypto_erase :: "nat \<Rightarrow> zns_ctrl \<Rightarrow> zns_ctrl option" where
  "simulate_crypto_erase zid k = do {
     zs \<leftarrow> zns_zones k;
     z \<leftarrow> aget zs zid;
     Some (k\<lparr>zns_zones := Some (zs[zid := z\<lparr>zz_erase_count := zz_erase_count z + 1\<rparr>])\<rparr>)
   }"

text \<open>The temperature is a static member; the bridge sees it when it holds a controller.\<close>

definition set_temperature :: "real \<Rightarrow> zns_ctrl \<Rightarrow> zns_ctrl" where
  "set_temperature t k = (let d = zc_driver k; h = drv_hw d in
     k\<lparr>zc_driver := d\<lparr>drv_hw := h\<lparr>hw_temperature := map_option (\<lambda>_. t) (hw_temperature h)\<rparr>\<rparr>\<rparr>)"

definition stub_get_erases_remaining :: "zns_ctrl \<Rightarrow> u64 option" where
  "stub_get_erases_remaining k = do {
     zs \<leftarrow> zns_zones k;
     z \<leftarrow> aget zs 30;
     Some (100000 - zz_erase_count z)
   }"

section \<open>The co-simulation tests of the stubs\<close>

definition run_crypto_key_revocation_test :: "zns_ctrl \<Rightarrow> (bool \<times> zns_ctrl) option" where
  "run_crypto_key_revocation_test k = do {
     (r1, k1) \<leftarrow> direct_zns_gate (85 * 64) 2 k;
     (r2, k2) \<leftarrow> direct_zns_gate (85 * 64) 1 k1;
     if r2 = FAILURE then Some (False, k2)
     else let hw_wptr = mock_bram_storage (drv_hw (zc_driver k2)) 85 AND 0x7F in
       if \<not> simulate_crypto_read 0 hw_wptr then Some (False, k2)
       else do {
         k3 \<leftarrow> simulate_crypto_erase 85 k2;
         (r3, k4) \<leftarrow> direct_zns_gate (85 * 64) 2 k3;
         Some (\<not> simulate_crypto_read 0 0, k4)
       }
   }"

definition bridge_run_zone_append_test :: "zns_ctrl \<Rightarrow> (bool \<times> zns_ctrl) option" where
  "bridge_run_zone_append_test k = do {
     (r0, k0) \<leftarrow> direct_zns_gate (90 * 64) 2 k;
     (r1, k1) \<leftarrow> direct_zns_gate (90 * 64) 1 k0;
     if r1 = FAILURE then Some (False, k1)
     else do {
       (r2, k2) \<leftarrow> direct_zns_gate (90 * 64 + 1) 1 k1;
       if r2 = FAILURE then Some (False, k2)
       else do {
         (r3, k3) \<leftarrow> direct_zns_gate (90 * 64 + 2) 1 k2;
         Some (r3 \<noteq> FAILURE, k3)
       }
     }
   }"

definition bridge_run_zde_test :: "zns_ctrl \<Rightarrow> (bool \<times> zns_ctrl) option" where
  "bridge_run_zde_test k = do {
     (r, k1) \<leftarrow> direct_zns_gate (120 * 64) 2 k;
     Some (True, k1)
   }"

section \<open>What the gate does\<close>

definition ctrl_idle :: "zns_ctrl \<Rightarrow> zns_zone list \<Rightarrow> zns_dev \<Rightarrow> bool" where
  "ctrl_idle k zs d \<longleftrightarrow> hw_idle (drv_hw (zc_driver k)) d \<and> zns_zones k = Some zs \<and> length zs = total_zns_zones k"

definition mirrored :: "u32 \<Rightarrow> int \<Rightarrow> zns_zone list \<Rightarrow> zns_zone list" where
  "mirrored zid is_write zs =
     (if unat zid < length zs then zs[unat zid := mirror_zone is_write (zs ! unat zid)] else zs)"

lemma nvme_status_zero: "nvme_status st err = 0 \<longleftrightarrow> st = 3"
proof -
  have "push_bit 9 1 OR push_bit 1 (nvme_sc err) \<noteq> 0"
    by (simp add: nvme_sc_def)
  then show ?thesis by (simp add: nvme_status_def)
qed

lemma gate_zone: "ucast (lba div 64) = lba_zone lba"
proof -
  have m: "(0xFFFFFFFF :: u64) = mask 32" by (simp add: mask_eq_exp_minus_1)
  have q: "lba div 64 = drop_bit 6 lba" by (simp add: drop_bit_eq_div)
  show ?thesis
    unfolding lba_zone_def m q by (auto intro!: bit_word_eqI simp: bit_simps)
qed

lemma gate_hardware_cmd:
  "is_write \<in> {0, 1, 2} \<Longrightarrow> hardware_cmd (gate_sqe lba is_write) = Inr (word_of_int is_write)"
  by (auto simp: gate_sqe_def Let_def hardware_cmd_def zero_sqe_def NVME_CMD_READ_def NVME_CMD_WRITE_def
      NVME_CMD_ZONE_MGMT_def NVME_ZONE_ACTION_RESET_def)

lemma gate_slba [simp]: "sqe_slba (gate_sqe lba is_write) = lba"
  by (simp add: gate_sqe_def Let_def)

lemma command_status: "fst (fst (zns_command cmd z p d)) = 3 \<or> fst (fst (zns_command cmd z p d)) = 1"
  by (simp add: zns_command_def Let_def)

text \<open>
  The gate always returns; it succeeds exactly when the device accepts the command, and
  then applies \<open>mirror_zone\<close> to the software entry of the zone.
\<close>

lemma gate_command:
  fixes lba :: u64
  assumes idle: "ctrl_idle k zs d" and w: "is_write \<in> {0, 1, 2}"
  defines "r \<equiv> zns_command (word_of_int is_write) (lba_zone lba) (lba_page lba) d"
  obtains k' where "direct_zns_gate lba is_write k =
      Some (if fst (fst r) = 3 then SUCCESS else FAILURE, k')"
    and "ctrl_idle k' (if fst (fst r) = 3 then mirrored (lba_zone lba) is_write zs else zs) (snd r)"
proof -
  from idle have i: "hw_idle (drv_hw (zc_driver k)) d" and zs: "zns_zones k = Some zs" "length zs = total_zns_zones k"
    by (auto simp: ctrl_idle_def)
  from driver_command [OF i gate_hardware_cmd [OF w], of lba zero_cqe] obtain D where
    run: "zns_process_nvme_command (gate_sqe lba is_write) zero_cqe (zc_driver k) =
      Some (cqe_outcome (gate_sqe lba is_write) (fst r) zero_cqe, D)"
    and idle': "hw_idle (drv_hw D) (snd r)"
    by (auto simp: r_def)
  have st: "cqe_status (cqe_outcome (gate_sqe lba is_write) (fst r) zero_cqe) = 0 \<longleftrightarrow> fst (fst r) = 3"
    using command_status [of "word_of_int is_write" "lba_zone lba" "lba_page lba" d]
    by (auto simp: cqe_outcome_def nvme_status_zero r_def)
  show thesis
  proof (cases "fst (fst r) = 3")
    case True
    show ?thesis
      by (rule that [of "k\<lparr>zc_driver := D, zns_zones := Some (mirrored (lba_zone lba) is_write zs)\<rparr>"])
         (use True st zs idle' in \<open>auto simp: direct_zns_gate_def run gate_zone Let_def mirror_zones_def
            mirrored_def aget_nth ctrl_idle_def\<close>)
  next
    case False
    show ?thesis
      by (rule that [of "k\<lparr>zc_driver := D\<rparr>"])
         (use False st zs idle' in \<open>auto simp: direct_zns_gate_def run Let_def ctrl_idle_def\<close>)
  qed
qed

lemma gate_bad_operation:
  assumes "is_write \<notin> {0, 1, 2}"
  shows "direct_zns_gate lba is_write k = Some (FAILURE, k)"
  using assms
  by (auto simp: direct_zns_gate_def zns_process_nvme_command_def hardware_cmd_def gate_sqe_def zero_sqe_def
      NVME_CMD_READ_def NVME_CMD_WRITE_def NVME_CMD_ZONE_MGMT_def Let_def)

section \<open>A zone of the software validator is a sequential zone\<close>

definition sw_append :: "config \<Rightarrow> event \<Rightarrow> nat \<Rightarrow> nat \<Rightarrow> zns_ctrl \<Rightarrow> bool \<times> zns_ctrl" where
  "sw_append c e zid n k =
     (case validate_and_advance_zns c
        (e\<lparr>etype := WRITE, logical_address := zid * hard_block_size c + n\<rparr>) k of
        None \<Rightarrow> (False, k) | Some r \<Rightarrow> r)"

definition sw_zone :: "nat \<Rightarrow> zns_ctrl \<Rightarrow> zns_zone" where
  "sw_zone zid k = the (zns_zones k) ! zid"

definition sw_wp :: "nat \<Rightarrow> zns_ctrl \<Rightarrow> nat" where
  "sw_wp zid k = unat (zz_wptr (sw_zone zid k))"

definition sw_ready :: "config \<Rightarrow> nat \<Rightarrow> zns_ctrl \<Rightarrow> bool" where
  "sw_ready c zid k \<longleftrightarrow> FTL_IMPLEMENTATION c = 5 \<and> hard_block_size c < 2 ^ 32 \<and> zns_zones k \<noteq> None
     \<and> total_zns_zones k \<le> length (the (zns_zones k)) \<and> zid < total_zns_zones k
     \<and> sw_wp zid k \<le> hard_block_size c \<and> (zz_is_full (sw_zone zid k) \<longleftrightarrow> sw_wp zid k = hard_block_size c)
     \<and> (sw_wp zid k = 0 \<longrightarrow> the (open_zones_count_check k) < 4)"

lemma word_eq_nat: "n < 2 ^ 64 \<Longrightarrow> (word_of_nat n :: u64) = w \<longleftrightarrow> n = unat w"
  by (auto simp: word_unat_eq_iff unat_of_nat)

definition advance_zone :: "config \<Rightarrow> zns_zone \<Rightarrow> zns_zone" where
  "advance_zone c z = (let z1 = z\<lparr>zz_wptr := zz_wptr z + 1\<rparr> in
     if word_of_nat (hard_block_size c) \<le> zz_wptr z1 then z1\<lparr>zz_is_full := True\<rparr> else z1)"

lemma hard_block_size_pos: "0 < hard_block_size c"
  by (simp add: hard_block_size_def)

lemma sw_append_spec:
  assumes r: "sw_ready c zid k" and n: "n < hard_block_size c"
  shows "sw_append c e zid n k =
    (if sw_wp zid k = hard_block_size c \<or> n \<noteq> sw_wp zid k then (False, k)
     else (True, k\<lparr>zns_zones := Some ((the (zns_zones k))[zid := advance_zone c (sw_zone zid k)])\<rparr>))"
proof -
  let ?bs = "hard_block_size c"
  from r obtain zs where zs: "zns_zones k = Some zs" "total_zns_zones k \<le> length zs" "zid < length zs"
    "zid < total_zns_zones k" by (auto simp: sw_ready_def)
  have z: "sw_zone zid k = zs ! zid" by (simp add: sw_zone_def zs)
  have small: "?bs < 2 ^ 32" "FTL_IMPLEMENTATION c = 5" using r by (auto simp: sw_ready_def)
  have dv: "(zid * ?bs + n) div ?bs = zid" "(zid * ?bs + n) mod ?bs = n"
    using n by simp_all
  have "n mod 2 ^ 32 = n" using n small by simp
  moreover have "(word_of_nat n :: u64) = zz_wptr (zs ! zid) \<longleftrightarrow> n = sw_wp zid k"
    using word_eq_nat [of n] n small by (simp add: sw_wp_def z)
  moreover have "zz_wptr (zs ! zid) = 0 \<longleftrightarrow> sw_wp zid k = 0" by (simp add: sw_wp_def z unat_eq_0)
  moreover have "\<exists>m. open_zones_count_check k = Some m" using zs by (simp add: open_zones_count_check_def)
  ultimately show ?thesis
    using r n zs small
    by (auto simp: sw_append_def validate_and_advance_zns_def Let_def dv aget_nth sw_ready_def z advance_zone_def)
qed

lemma advance_zone_wp:
  assumes "unat (zz_wptr z) < hard_block_size c" "hard_block_size c < 2 ^ 32" "\<not> zz_is_full z"
  shows "unat (zz_wptr (advance_zone c z)) = Suc (unat (zz_wptr z))"
    and "zz_is_full (advance_zone c z) \<longleftrightarrow> Suc (unat (zz_wptr z)) = hard_block_size c"
proof -
  have u: "unat (zz_wptr z + 1) = Suc (unat (zz_wptr z))" using assms(1,2) by (simp add: unat_word_ariths)
  moreover have "unat (word_of_nat (hard_block_size c) :: u64) = hard_block_size c"
    using assms(2) by (simp add: unat_of_nat)
  ultimately show "unat (zz_wptr (advance_zone c z)) = Suc (unat (zz_wptr z))"
    "zz_is_full (advance_zone c z) \<longleftrightarrow> Suc (unat (zz_wptr z)) = hard_block_size c"
    using assms by (auto simp: advance_zone_def Let_def word_le_nat_alt)
qed

interpretation swz: append_zone "sw_append c e zid" "sw_wp zid" "sw_ready c zid" "hard_block_size c" for c e zid
proof
  fix k assume r: "sw_ready c zid k"
  show "sw_wp zid k \<le> hard_block_size c" using r by (simp add: sw_ready_def)
  show "sw_append c e zid n k = (False, k)"
    if "n < hard_block_size c" "n \<noteq> sw_wp zid k \<or> sw_wp zid k = hard_block_size c" for n
    using sw_append_spec [OF r that(1)] that(2) by auto
  show "fst (sw_append c e zid (sw_wp zid k) k) \<and>
      sw_wp zid (snd (sw_append c e zid (sw_wp zid k) k)) = Suc (sw_wp zid k) \<and>
      sw_ready c zid (snd (sw_append c e zid (sw_wp zid k) k))" if "sw_wp zid k < hard_block_size c"
  proof -
    let ?k' = "k\<lparr>zns_zones := Some ((the (zns_zones k))[zid := advance_zone c (sw_zone zid k)])\<rparr>"
    have s: "sw_append c e zid (sw_wp zid k) k = (True, ?k')" using sw_append_spec [OF r that] that by auto
    have z': "sw_zone zid ?k' = advance_zone c (sw_zone zid k)" using r by (simp add: sw_zone_def sw_ready_def)
    have "\<not> zz_is_full (sw_zone zid k)" "hard_block_size c < 2 ^ 32" using r that by (auto simp: sw_ready_def)
    note a = advance_zone_wp [OF that [unfolded sw_wp_def] this(2,1)]
    have wp': "sw_wp zid ?k' = Suc (sw_wp zid k)" unfolding sw_wp_def z' a(1) ..
    show ?thesis unfolding s using r wp' a that by (auto simp: sw_ready_def z' sw_wp_def)
  qed
qed

end
