(* ===== verification/Nbd_Server.thy ===== *)
theory Nbd_Server
  imports Zns_Device Zns_Driver
begin

text \<open>
  The network block device server: \<open>nbd_protocol.h\<close>, \<open>nbd_server.cpp\<close>,
  \<open>nbd_negotiation.cpp\<close>, and the management channel and start-up of \<open>sim_main.cpp\<close>. The
  client's byte stream is a list; a \<open>read\<close> of \<open>n\<close> bytes returns the next \<open>n\<close> bytes that
  are there, none at the end. Accesses to \<open>user_disk_storage\<close> or \<open>mock_bram_storage\<close>
  outside the arrays, which the server never checks, are undefined: \<open>None\<close>.
\<close>

unbundle bit_operations_syntax

section \<open>Geometry and protocol constants\<close>

definition NUM_ZONES :: nat where "NUM_ZONES = 1024"
definition ZONE_SIZE_PAGES :: nat where "ZONE_SIZE_PAGES = 64"
definition NBD_PAGE_SIZE :: nat where "NBD_PAGE_SIZE = 4096"
definition TOTAL_SIZE_BYTES :: nat where "TOTAL_SIZE_BYTES = NUM_ZONES * ZONE_SIZE_PAGES * NBD_PAGE_SIZE"

definition ZNS_NBD_INIT_MAGIC :: u64 where "ZNS_NBD_INIT_MAGIC = 0x4e42444d41474943"
definition ZNS_NBD_REQUEST_MAGIC :: u32 where "ZNS_NBD_REQUEST_MAGIC = 0x25609513"
definition ZNS_NBD_REPLY_MAGIC :: u32 where "ZNS_NBD_REPLY_MAGIC = 0x67446698"
definition NBD_CMD_LOCAL_READ :: u32 where "NBD_CMD_LOCAL_READ = 0"
definition NBD_CMD_LOCAL_WRITE :: u32 where "NBD_CMD_LOCAL_WRITE = 1"
definition NBD_CMD_LOCAL_DISCONNECT :: u32 where "NBD_CMD_LOCAL_DISCONNECT = 2"
definition NBD_CMD_LOCAL_FLUSH :: u32 where "NBD_CMD_LOCAL_FLUSH = 3"
definition NBD_CMD_LOCAL_TRIM :: u32 where "NBD_CMD_LOCAL_TRIM = 5"
definition EIO :: u32 where "EIO = 5"
definition EINVAL :: u32 where "EINVAL = 22"

section \<open>Wire format\<close>

text \<open>Big-endian encoding of a word as \<open>k\<close> bytes, and its inverse.\<close>

definition be_bytes :: "nat \<Rightarrow> 'a::len word \<Rightarrow> u8 list" where
  "be_bytes k w = map (\<lambda>i. ucast (drop_bit (8 * (k - 1 - i)) w)) [0..<k]"

definition of_be :: "u8 list \<Rightarrow> 'a::len word" where
  "of_be bs = foldl (\<lambda>a b. push_bit 8 a OR ucast b) 0 bs"

record nbd_request =
  rq_magic :: u32
  rq_type :: u32
  rq_handle :: "u8 list"
  rq_from :: u64
  rq_len :: u32

record nbd_reply =
  rp_magic :: u32
  rp_error :: u32
  rp_handle :: "u8 list"

definition decode_request :: "u8 list \<Rightarrow> nbd_request" where
  "decode_request bs = \<lparr>rq_magic = of_be (take 4 bs), rq_type = of_be (take 4 (drop 4 bs)),
     rq_handle = take 8 (drop 8 bs), rq_from = of_be (take 8 (drop 16 bs)),
     rq_len = of_be (take 4 (drop 24 bs))\<rparr>"

definition encode_request :: "nbd_request \<Rightarrow> u8 list" where
  "encode_request r = be_bytes 4 (rq_magic r) @ be_bytes 4 (rq_type r) @ rq_handle r
     @ be_bytes 8 (rq_from r) @ be_bytes 4 (rq_len r)"

definition encode_reply :: "nbd_reply \<Rightarrow> u8 list" where
  "encode_reply r = be_bytes 4 (rp_magic r) @ be_bytes 4 (rp_error r) @ rp_handle r"

section \<open>Server state and request handlers\<close>

record nbd =
  nbd_hw :: hw
  user_disk_storage :: "nat \<Rightarrow> u8"

definition zone_size_bytes :: nat where
  "zone_size_bytes = TOTAL_SIZE_BYTES div NUM_ZONES"

definition target_zone_id :: "nbd_request \<Rightarrow> u32" where
  "target_zone_id r = word_of_nat (unat (rq_from r) div zone_size_bytes)"

definition target_page :: "nbd_request \<Rightarrow> u32" where
  "target_page r = word_of_nat ((unat (rq_from r) mod zone_size_bytes) div NBD_PAGE_SIZE)"

definition in_disk :: "nbd_request \<Rightarrow> bool" where
  "in_disk r \<longleftrightarrow> unat (rq_from r) + unat (rq_len r) \<le> TOTAL_SIZE_BYTES"

definition disk_slice :: "(nat \<Rightarrow> u8) \<Rightarrow> nat \<Rightarrow> nat \<Rightarrow> u8 list" where
  "disk_slice disk from len = map disk [from..<from + len]"

definition disk_store :: "nat \<Rightarrow> u8 list \<Rightarrow> (nat \<Rightarrow> u8) \<Rightarrow> (nat \<Rightarrow> u8)" where
  "disk_store from bs disk = (\<lambda>i. if from \<le> i \<and> i < from + length bs then bs ! (i - from) else disk i)"

definition reply_to :: "nbd_request \<Rightarrow> u32 \<Rightarrow> u8 list" where
  "reply_to r err = encode_reply \<lparr>rp_magic = ZNS_NBD_REPLY_MAGIC, rp_error = err, rp_handle = rq_handle r\<rparr>"

definition nbd_read :: "nbd_request \<Rightarrow> nbd \<Rightarrow> (u8 list \<times> nbd) option" where
  "nbd_read r s =
     (let h1 = sim_set_io_trigger 1 (sim_set_validated_target_page (target_page r)
                 (sim_set_validated_zone_id (target_zone_id r) (sim_set_io_cmd 0 (nbd_hw s))));
          (status, h2) = sim_get_out_status h1;
          h3 = verilator_tick_hardware (sim_set_io_trigger 0 h2);
          s1 = s\<lparr>nbd_hw := h3\<rparr>
      in if status = 1 then Some (reply_to r EIO, s1)
         else if in_disk r then
           Some (reply_to r 0 @ disk_slice (user_disk_storage s) (unat (rq_from r)) (unat (rq_len r)), s1)
         else None)"

text \<open>The co-simulation hack: the descriptor is rewritten so that its pointer is the target page.\<close>

definition align_wptr :: "nbd_request \<Rightarrow> hw \<Rightarrow> hw option" where
  "align_wptr r h =
     (if in_bram (target_zone_id r) then
        (let z = unat (target_zone_id r); erase_cnt = drop_bit 16 (mock_bram_storage h z) AND 0xFF
         in Some (h\<lparr>mock_bram_storage := (mock_bram_storage h)
                      (z := push_bit 16 erase_cnt OR (target_page r AND 0x7F))\<rparr>))
      else None)"

fun poll_write :: "nat \<Rightarrow> u8 \<Rightarrow> hw \<Rightarrow> u8 \<times> hw" where
  "poll_write 0 st h = (st, h)"
| "poll_write (Suc n) st h =
     (let (st1, h1) = sim_get_out_status h in
      if st1 = 3 \<or> st1 = 1 then (st1, h1) else poll_write n st1 h1)"

definition nbd_write :: "nbd_request \<Rightarrow> u8 list \<Rightarrow> nbd \<Rightarrow> (u8 list \<times> nbd) option" where
  "nbd_write r write_buf s = do {
     h0 \<leftarrow> align_wptr r (nbd_hw s);
     let h1 = sim_set_io_trigger 1 (sim_set_validated_target_page (target_page r)
                (sim_set_validated_zone_id (target_zone_id r) (sim_set_io_cmd 1 h0)));
     let (status, h2) = poll_write 10 0 h1;
     let h3 = verilator_tick_hardware (sim_set_io_trigger 0 h2);
     let s1 = s\<lparr>nbd_hw := h3\<rparr>;
     if status = 1 then Some (reply_to r 0, s1)
     else if in_disk r then
       Some (reply_to r 0, s1\<lparr>user_disk_storage := disk_store (unat (rq_from r)) write_buf (user_disk_storage s)\<rparr>)
     else None
   }"

definition nbd_trim :: "nbd_request \<Rightarrow> nbd \<Rightarrow> (u8 list \<times> nbd) option" where
  "nbd_trim r s =
     (let h1 = sim_set_io_trigger 1 (sim_set_validated_zone_id (target_zone_id r) (sim_set_io_cmd 2 (nbd_hw s)));
          (status, h2) = sim_get_out_status h1;
          h3 = verilator_tick_hardware (sim_set_io_trigger 0 h2)
      in if in_disk r then
           Some (reply_to r 0, s\<lparr>nbd_hw := h3, user_disk_storage :=
             disk_store (unat (rq_from r)) (replicate (unat (rq_len r)) 0) (user_disk_storage s)\<rparr>)
         else None)"

section \<open>The transmission loop\<close>

text \<open>
  \<open>buf\<close> is the request structure, which a short read overwrites only in part; \<open>pad\<close> gives
  the indeterminate bytes of the freshly allocated write buffer when the stream ends early.
  The loop returns the bytes sent and the final state.
\<close>

definition fill_buf :: "u8 list \<Rightarrow> u8 list \<Rightarrow> u8 list" where
  "fill_buf got buf = got @ drop (length got) buf"

definition recv_payload :: "(nat \<Rightarrow> u8) \<Rightarrow> nat \<Rightarrow> u8 list \<Rightarrow> u8 list" where
  "recv_payload pad len inp = take len inp @ map pad [length (take len inp)..<len]"

function transmission_loop :: "(nat \<Rightarrow> u8) \<Rightarrow> u8 list \<Rightarrow> u8 list \<Rightarrow> nbd \<Rightarrow> (u8 list \<times> nbd) option" where
  "transmission_loop pad buf inp s =
     (if inp = [] then Some ([], s)
      else let buf1 = fill_buf (take 28 inp) buf; inp1 = drop 28 inp; r = decode_request buf1 in
        if rq_magic r \<noteq> ZNS_NBD_REQUEST_MAGIC then Some ([], s)
        else if rq_type r = NBD_CMD_LOCAL_READ then
          Option.bind (nbd_read r s) (\<lambda>(out, s1).
            map_option (\<lambda>(outs, s2). (out @ outs, s2)) (transmission_loop pad buf1 inp1 s1))
        else if rq_type r = NBD_CMD_LOCAL_WRITE then
          Option.bind (nbd_write r (recv_payload pad (unat (rq_len r)) inp1) s) (\<lambda>(out, s1).
            map_option (\<lambda>(outs, s2). (out @ outs, s2))
              (transmission_loop pad buf1 (drop (unat (rq_len r)) inp1) s1))
        else if rq_type r = NBD_CMD_LOCAL_TRIM then
          Option.bind (nbd_trim r s) (\<lambda>(out, s1).
            map_option (\<lambda>(outs, s2). (out @ outs, s2)) (transmission_loop pad buf1 inp1 s1))
        else if rq_type r = NBD_CMD_LOCAL_DISCONNECT then Some ([], s)
        else if rq_type r = NBD_CMD_LOCAL_FLUSH then
          map_option (\<lambda>(outs, s2). (reply_to r 0 @ outs, s2)) (transmission_loop pad buf1 inp1 s)
        else
          map_option (\<lambda>(outs, s2). (reply_to r EINVAL @ outs, s2)) (transmission_loop pad buf1 inp1 s))"
  by auto
termination by (relation "measure (\<lambda>(pad, buf, inp, s). length inp)") auto

declare transmission_loop.simps [simp del]

section \<open>Negotiation\<close>

definition nbd_greeting :: "u8 list" where
  "nbd_greeting = be_bytes 8 ZNS_NBD_INIT_MAGIC @ be_bytes 8 (0x444d41474943 :: u64) @ be_bytes 2 (1 :: u16)"

definition export_reply :: "u8 list" where
  "export_reply = be_bytes 8 (word_of_nat TOTAL_SIZE_BYTES :: u64) @ be_bytes 2 (1 :: u16)"

definition unsupported_reply :: "u32 \<Rightarrow> u8 list" where
  "unsupported_reply opt = be_bytes 8 (0x3e889045565a9 :: u64) @ be_bytes 4 opt @ be_bytes 4 (0x80000001 :: u32)
     @ be_bytes 4 (0 :: u32)"

text \<open>
  The option buffer has \<open>opt_len + 1\<close> bytes in 32-bit arithmetic; for the largest length the
  sum wraps to 0 and any option data is written outside the buffer.
\<close>

function option_loop :: "u8 list \<Rightarrow> u8 list \<Rightarrow> (bool \<times> u8 list \<times> u8 list) option" where
  "option_loop hdr inp =
     (if inp = [] then Some (False, [], [])
      else let hdr1 = fill_buf (take 16 inp) hdr; inp1 = drop 16 inp;
               opt = (of_be (take 4 (drop 8 hdr1)) :: u32);
               opt_len = (of_be (take 4 (drop 12 hdr1)) :: u32);
               inp2 = drop (unat opt_len) inp1
           in if opt_len = 0xFFFFFFFF \<and> inp1 \<noteq> [] then None
              else if opt = 1 then Some (True, export_reply, inp2)
              else map_option (\<lambda>(ok, out, rest). (ok, unsupported_reply opt @ out, rest)) (option_loop hdr1 inp2))"
  by auto
termination
proof (relation "measure (\<lambda>(hdr, inp). length inp)", goal_cases)
  case (2 hdr inp x xa xb xc xd)
  from 2(6,3) have "length xd \<le> length inp - 16" by (simp only: length_drop)
  moreover from 2(1) have "0 < length inp" by (simp only: length_greater_0_conv not_False_eq_True)
  ultimately show ?case by (simp only: in_measure prod.case)
qed simp

declare option_loop.simps [simp del]

definition run_nbd_negotiation :: "u8 list \<Rightarrow> u8 list \<Rightarrow> (bool \<times> u8 list \<times> u8 list) option" where
  "run_nbd_negotiation hdr inp =
     map_option (\<lambda>(ok, out, rest). (ok, nbd_greeting @ out, rest)) (option_loop hdr (drop 4 inp))"

section \<open>Management channel and start-up\<close>

definition mgmt_reset :: "u64 \<Rightarrow> nbd \<Rightarrow> (u8 list \<times> nbd) option" where
  "mgmt_reset zone_id s =
     (let h1 = sim_set_io_trigger 1 (sim_set_validated_zone_id (ucast zone_id) (sim_set_io_cmd 2 (nbd_hw s)));
          (status, h2) = sim_get_out_status h1;
          h3 = verilator_tick_hardware (sim_set_io_trigger 0 h2);
          h4 = h3\<lparr>mock_bram_storage := (\<lambda>i. if i < BRAM_CELLS then 0 else mock_bram_storage h3 i)\<rparr>
      in if unat zone_id < NUM_ZONES then
           Some ([1], s\<lparr>nbd_hw := h4, user_disk_storage := disk_store (unat zone_id * zone_size_bytes)
             (replicate zone_size_bytes 0) (user_disk_storage s)\<rparr>)
         else None)"

text \<open>
  Start-up: the reset line is raised on a model that has never been evaluated. The first
  evaluation takes the lines as it finds them, clock and reset high, for their previous
  values, so it sees no edge (\<open>eval_static\<close> of the compiled model).
\<close>

definition boot_hardware :: "validator \<Rightarrow> hw \<Rightarrow> hw" where
  "boot_hardware v h =
     (let h1 = verilator_tick_hardware (h\<lparr>hw_top := Some (v\<lparr>rst := True, prev_clk := True, prev_rst := True\<rparr>)\<rparr>)
      in verilator_tick_hardware (h1\<lparr>hw_top := map_option (\<lambda>t. t\<lparr>rst := False\<rparr>) (hw_top h1)\<rparr>))"

section \<open>Wire format facts\<close>

lemma be_bytes_length [simp]: "length (be_bytes k w) = k"
  by (simp add: be_bytes_def)

lemma be_bytes_Suc: "be_bytes (Suc k) w = ucast (drop_bit (8 * k) w) # be_bytes k w"
  unfolding be_bytes_def by (simp only: map_upt_Suc) simp

lemma be_fold:
  fixes w a :: "'a::len word"
  shows "foldl (\<lambda>a b. push_bit 8 a OR ucast (b :: u8)) a (be_bytes k w) = push_bit (8 * k) a OR take_bit (8 * k) w"
proof (induction k arbitrary: a)
  case 0
  then show ?case by (simp add: be_bytes_def)
next
  case (Suc k)
  have "push_bit (8 * k) (push_bit 8 a OR ucast (ucast (drop_bit (8 * k) w) :: u8)) OR take_bit (8 * k) w
      = push_bit (8 * Suc k) a OR take_bit (8 * Suc k) w"
    by (rule bit_word_eqI) (auto simp: bit_simps add.commute [of "8 * k" 8])
  then show ?case by (simp only: be_bytes_Suc foldl_Cons Suc.IH)
qed

lemma of_be_4: "of_be (be_bytes 4 (w :: u32)) = w"
  unfolding of_be_def be_fold by (auto intro!: bit_word_eqI simp: bit_simps)

lemma of_be_8: "of_be (be_bytes 8 (w :: u64)) = w"
  unfolding of_be_def be_fold by (auto intro!: bit_word_eqI simp: bit_simps)

lemma decode_encode:
  "length (rq_handle r) = 8 \<Longrightarrow> decode_request (encode_request r) = r"
  by (simp add: decode_request_def encode_request_def of_be_4 of_be_8)

section \<open>Requests from an idle device\<close>

lemma core_set_bram:
  "hw_core h c \<Longrightarrow> hw_core (h\<lparr>mock_bram_storage := m\<rparr>) (c\<lparr>c_bram := m\<rparr>)"
  by (auto simp: hw_core_def core_of_def)

lemma core_bram: "hw_core h c \<Longrightarrow> mock_bram_storage h = c_bram c"
  by (auto simp: hw_core_def core_of_def)

lemma hw_idle_core:
  assumes "hw_idle h d"
  obtains c where "hw_core h c" "c_state c = ST_IDLE" "\<not> c_trigger c" "c_bram c = zd_bram d" "c_open c = zd_open d"
    "c_wdata c = zd_wdata d" "c_hot c = zd_hot d" "dev_of c = d"
  using assms by (auto simp: hw_idle_def dev_of_def)

text \<open>
  One status poll and one more tick with the trigger released, the whole of what the read
  and trim requests and the management channel do to the hardware: the state machine is
  left waiting for the block RAM and the table is untouched.
\<close>

lemma start_only:
  assumes "hw_core h c" "triggered c"
  shows "fst (sim_get_out_status h) = 0"
    and "mock_bram_storage (verilator_tick_hardware (sim_set_io_trigger 0 (snd (sim_get_out_status h)))) = c_bram c"
    and "\<exists>c'. hw_core (verilator_tick_hardware (sim_set_io_trigger 0 (snd (sim_get_out_status h)))) c' \<and>
      c_state c' = ST_BRAM_WAIT \<and> c_bram c' = c_bram c"
proof -
  note st = core_get_status [OF assms(1)]
  show "fst (sim_get_out_status h) = 0" using st fetch_cycles(2) [OF assms(2)] by simp
  let ?c' = "core_cycle ((core_cycle c)\<lparr>c_trigger := False\<rparr>)"
  have core: "hw_core (verilator_tick_hardware (sim_set_io_trigger 0 (snd (sim_get_out_status h)))) ?c'"
    using core_tick [OF core_set_trigger [OF core_tick [OF assms(1)], of 0]] st by simp
  have c': "c_state ?c' = ST_BRAM_WAIT" "c_bram ?c' = c_bram c"
    using assms(2) by (simp_all add: core_step_defs triggered_def)
  show "mock_bram_storage (verilator_tick_hardware (sim_set_io_trigger 0 (snd (sim_get_out_status h)))) = c_bram c"
    using core_bram [OF core] c'(2) by simp
  show "\<exists>c'. hw_core (verilator_tick_hardware (sim_set_io_trigger 0 (snd (sim_get_out_status h)))) c' \<and>
      c_state c' = ST_BRAM_WAIT \<and> c_bram c' = c_bram c"
    using core c' by blast
qed

lemma poll_write_returns:
  assumes "hw_core h c" "k < n"
    and "\<forall>i<k. c_status ((core_cycle ^^ Suc i) c) \<noteq> 1 \<and> c_status ((core_cycle ^^ Suc i) c) \<noteq> 3"
    and "c_status ((core_cycle ^^ Suc k) c) = 1 \<or> c_status ((core_cycle ^^ Suc k) c) = 3"
  shows "poll_write n st h = (c_status ((core_cycle ^^ Suc k) c), (verilator_tick_hardware ^^ Suc k) h)"
  using assms
proof (induction n arbitrary: k st h c)
  case (Suc n)
  note g = core_get_status [OF Suc.prems(1)]
  show ?case
  proof (cases k)
    case 0
    then show ?thesis using Suc.prems(4) g by auto
  next
    case (Suc j)
    have busy: "c_status (core_cycle c) \<noteq> 1" "c_status (core_cycle c) \<noteq> 3"
      using Suc.prems(3) Suc by force+
    have rec: "poll_write n (c_status (core_cycle c)) (verilator_tick_hardware h) =
        (c_status ((core_cycle ^^ Suc j) (core_cycle c)), (verilator_tick_hardware ^^ Suc j) (verilator_tick_hardware h))"
    proof (rule Suc.IH [OF core_tick [OF Suc.prems(1)]])
      show "j < n" using Suc.prems(2) Suc by simp
      show "\<forall>i<j. c_status ((core_cycle ^^ Suc i) (core_cycle c)) \<noteq> 1 \<and> c_status ((core_cycle ^^ Suc i) (core_cycle c)) \<noteq> 3"
        using Suc.prems(3) Suc by (metis Suc_less_eq comp_apply funpow_Suc_right)
      show "c_status ((core_cycle ^^ Suc j) (core_cycle c)) = 1 \<or> c_status ((core_cycle ^^ Suc j) (core_cycle c)) = 3"
        using Suc.prems(4) Suc by (metis comp_apply funpow_Suc_right)
    qed
    then show ?thesis using g busy Suc by (simp only: poll_write.simps Let_def prod.case simp_thms if_False
        funpow_Suc_right o_apply)
  qed
qed simp

lemma poll_write_command:
  assumes "hw_core h c" "triggered c"
  defines "err \<equiv> fst (core_verdict c (zone_word (c_bram c) (c_zone c)))"
  shows "poll_write 10 0 h = (if err then 1 else 3, (verilator_tick_hardware ^^ command_cycles err) h)"
    and "hw_core ((verilator_tick_hardware ^^ command_cycles err) h) (if err then refused c else accepted c)"
proof -
  define k where "k = command_cycles err - 1"
  have k: "command_cycles err = Suc k" "k < 10" by (simp_all add: k_def command_cycles_def)
  have last: "(core_cycle ^^ Suc k) c = (if err then refused c else accepted c)"
    using outcome_cycles [OF assms(2)] unfolding k(1) [symmetric] err_def .
  have st: "c_status ((core_cycle ^^ Suc k) c) = (if err then 1 else 3)"
    unfolding last using refuse_cycles(3) [OF assms(2)] accept_cycles(4) [OF assms(2)] by (simp add: err_def)
  have busy: "\<forall>i<k. c_status ((core_cycle ^^ Suc i) c) \<noteq> 1 \<and> c_status ((core_cycle ^^ Suc i) c) \<noteq> 3"
    using busy_cycles [OF assms(2)] unfolding k_def err_def by fastforce
  show "poll_write 10 0 h = (if err then 1 else 3, (verilator_tick_hardware ^^ command_cycles err) h)"
    using poll_write_returns [OF assms(1) k(2) busy] st unfolding k(1) by simp
  show "hw_core ((verilator_tick_hardware ^^ command_cycles err) h) (if err then refused c else accepted c)"
    using core_ticks [OF assms(1), of "Suc k"] unfolding last k(1) .
qed

text \<open>One tick after the trigger is released the device is idle again.\<close>

lemma release_once:
  assumes "triggered c" "c' = (if err then refused c else accepted c)\<lparr>c_trigger := False\<rparr>"
  shows "c_state (core_cycle c') = ST_IDLE \<and> \<not> c_trigger (core_cycle c') \<and>
    dev_of (core_cycle c') = dev_of (if err then refused c else accepted c)"
  using assms by (cases err) (simp_all add: core_step_defs refused_def accepted_def dev_of_def)

definition align_dev :: "nbd_request \<Rightarrow> zns_dev \<Rightarrow> zns_dev" where
  "align_dev r d = d\<lparr>zd_bram := (zd_bram d)(unat (target_zone_id r) :=
     pack_zone (zone_erase_cnt (zd_bram d (unat (target_zone_id r)))) False (ucast (target_page r)))\<rparr>"

lemma aligned_word:
  "push_bit 16 (drop_bit 16 (w :: u32) AND 0xFF) OR (p AND 0x7F) = pack_zone (zone_erase_cnt w) False (ucast p)"
proof -
  have m: "(0xFF :: u32) = mask 8" "(0x7F :: u32) = mask 7" by (simp_all add: mask_eq_exp_minus_1)
  show ?thesis
    unfolding m pack_zone_def zone_erase_cnt_def
    by (rule bit_word_eqI) (auto simp: bit_simps)
qed

lemma nbd_write_idle:
  assumes idle: "hw_idle (nbd_hw s) d" and r: "in_bram (target_zone_id r)" "in_disk r"
  defines "x \<equiv> zns_command 1 (target_zone_id r) (target_page r) (align_dev r d)"
  obtains h where "nbd_write r buf s = Some (reply_to r 0, s\<lparr>nbd_hw := h, user_disk_storage :=
      (if fst (fst x) = 3 then disk_store (unat (rq_from r)) buf (user_disk_storage s) else user_disk_storage s)\<rparr>)"
    and "hw_idle h (snd x)"
proof -
  from idle obtain c0 where c0: "hw_core (nbd_hw s) c0" "c_state c0 = ST_IDLE" "c_bram c0 = zd_bram d"
    "c_open c0 = zd_open d" "c_wdata c0 = zd_wdata d" "c_hot c0 = zd_hot d" by (auto elim: hw_idle_core)
  have m0: "mock_bram_storage (nbd_hw s) = zd_bram d" using core_bram [OF c0(1)] c0(3) by simp
  define h0 where "h0 = (nbd_hw s)\<lparr>mock_bram_storage := zd_bram (align_dev r d)\<rparr>"
  have al: "align_wptr r (nbd_hw s) = Some h0"
    unfolding align_wptr_def Let_def aligned_word h0_def align_dev_def m0 using r(1) by simp
  define c where "c = c0\<lparr>c_bram := zd_bram (align_dev r d), c_cmd := 1, c_zone := target_zone_id r,
     c_page := target_page r, c_trigger := True\<rparr>"
  let ?h1 = "sim_set_io_trigger 1 (sim_set_validated_target_page (target_page r)
      (sim_set_validated_zone_id (target_zone_id r) (sim_set_io_cmd 1 h0)))"
  have core: "hw_core ?h1 c"
    using core_set_trigger [OF core_set_page [OF core_set_zone [OF core_set_cmd [OF core_set_bram [OF c0(1)]]]], of 1]
    unfolding h0_def c_def by simp
  have trig: "triggered c" using c0(2) by (simp add: c_def triggered_def)
  have dev: "dev_of c = align_dev r d" using c0 by (simp add: dev_of_def c_def align_dev_def)
  have dev_fields: "c_cmd c = 1" "c_zone c = target_zone_id r" "c_page c = target_page r" "c_bram c = zd_bram (align_dev r d)"
    by (simp_all add: c_def)
  define err where "err = fst (core_verdict c (zone_word (c_bram c) (c_zone c)))"
  note polled = poll_write_command [OF core trig, folded err_def]
  define h3 where "h3 = verilator_tick_hardware (sim_set_io_trigger 0 ((verilator_tick_hardware ^^ command_cycles err) ?h1))"
  let ?c3 = "(if err then refused c else accepted c)\<lparr>c_trigger := False\<rparr>"
  have core3: "hw_core h3 (core_cycle ?c3)"
    using core_tick [OF core_set_trigger [OF polled(2), of 0]] by (simp add: h3_def)
  have err: "err = fst (zns_verdict 1 (target_page r) (zone_word (zd_bram (align_dev r d)) (target_zone_id r)) (align_dev r d))"
    unfolding err_def core_verdict_dev dev dev_fields ..
  have devx: "dev_of (if err then refused c else accepted c) = snd x"
    unfolding x_def zns_command_def Let_def err [symmetric] unfolding dev [symmetric]
    by (auto simp: dev_of_def refused_def accepted_dev dev_fields(1-3)) (simp_all add: accepted_def Let_def)
  have acc: "fst (fst x) = (if err then 1 else 3)"
    unfolding x_def zns_command_def Let_def err [symmetric] by simp
  have "hw_idle h3 (snd x)"
    using release_once [OF trig refl, of err] core3 devx unfolding hw_idle_def by metis
  moreover have "nbd_write r buf s = Some (reply_to r 0, s\<lparr>nbd_hw := h3, user_disk_storage :=
      (if fst (fst x) = 3 then disk_store (unat (rq_from r)) buf (user_disk_storage s) else user_disk_storage s)\<rparr>)"
    using r(2) by (simp add: nbd_write_def al polled(1) acc h3_def Let_def)
  ultimately show thesis by (rule that [rotated])
qed

lemma nbd_start_core:
  assumes "hw_idle h d"
  obtains c c' where "hw_core (sim_set_io_trigger 1 (sim_set_validated_zone_id z (sim_set_io_cmd cmd h))) c"
    and "hw_core (sim_set_io_trigger 1 (sim_set_validated_target_page p
            (sim_set_validated_zone_id z (sim_set_io_cmd cmd h)))) c'"
    and "triggered c" "triggered c'" "c_bram c = zd_bram d" "c_bram c' = zd_bram d"
proof -
  from assms obtain c0 where c0: "hw_core h c0" "c_state c0 = ST_IDLE" "c_bram c0 = zd_bram d" by (auto elim: hw_idle_core)
  show thesis
    by (rule that [of "c0\<lparr>c_cmd := cmd, c_zone := z, c_trigger := True\<rparr>"
          "c0\<lparr>c_cmd := cmd, c_zone := z, c_page := p, c_trigger := True\<rparr>"])
       (use c0 core_set_trigger [OF core_set_zone [OF core_set_cmd [OF c0(1)]], of 1 z cmd]
          core_set_trigger [OF core_set_page [OF core_set_zone [OF core_set_cmd [OF c0(1)]]], of 1 p z cmd]
         in \<open>simp_all add: triggered_def\<close>)
qed

section \<open>Start-up\<close>

lemma boot_idle:
  assumes "current_state v = ST_IDLE" "\<not> io_trigger v" "\<not> bram_we v"
  shows "hw_idle (boot_hardware v h)
    \<lparr>zd_bram = mock_bram_storage h, zd_open = open_zones_count v, zd_wdata = bram_wdata v, zd_hot = thermal_input h\<rparr>"
proof -
  let ?h1 = "verilator_tick_hardware (h\<lparr>hw_top := Some (v\<lparr>rst := True, prev_clk := True, prev_rst := True\<rparr>)\<rparr>)"
  obtain t where t: "hw_top ?h1 = Some t" "\<not> clk t" "\<not> prev_clk t" "current_state t = ST_IDLE" "\<not> io_trigger t"
    "open_zones_count t = open_zones_count v" "bram_wdata t = bram_wdata v" "\<not> bram_we t"
    and h1: "mock_bram_storage ?h1 = mock_bram_storage h" "thermal_input ?h1 = thermal_input h"
    using assms
    by (simp add: hw_defs Let_def zns_resources_tracker_def)
  have "hw_top (boot_hardware v h) \<noteq> None \<and> clock_low (the (hw_top (boot_hardware v h))) \<and>
     current_state (the (hw_top (boot_hardware v h))) = ST_IDLE \<and> \<not> io_trigger (the (hw_top (boot_hardware v h))) \<and>
     open_zones_count (the (hw_top (boot_hardware v h))) = open_zones_count v \<and>
     bram_wdata (the (hw_top (boot_hardware v h))) = bram_wdata v \<and>
     mock_bram_storage (boot_hardware v h) = mock_bram_storage h \<and> thermal_input (boot_hardware v h) = thermal_input h"
    using t h1
    by (simp add: boot_hardware_def Let_def) (simp add: hw_defs Let_def zns_resources_tracker_def clock_low_def)
  then show ?thesis
    unfolding hw_idle_def hw_core_def
    by (intro exI [of _ "core_of (boot_hardware v h) (the (hw_top (boot_hardware v h)))"])
       (auto simp: core_of_def dev_of_def)
qed

end
