(* ===== verification/Zns_Properties.thy ===== *)
theory Zns_Properties
  imports Zns_Controller Nbd_Server
begin

text \<open>
  Properties of the ZNS stack: the firmware driver against the abstract device, the
  invariants of the descriptor table, and the sequential-zone contract on hardware and in
  software. The first section is the concrete state that the witnesses start from: a
  zero-initialised model after the start-up sequence of \<open>sim_main.cpp\<close>.
\<close>

section \<open>A booted device\<close>

definition power_on :: validator where
  "power_on = \<lparr>clk = False, rst = False, io_trigger = False, io_cmd = 0, validated_zone_id = 0,
     validated_target_page = 0, addr_bound_error = False, thermal_shutdown_tripped = False, bram_addr = 0,
     bram_rdata = 0, bram_wdata = 0, bram_we = False, out_status = 0, out_err_code = 0, current_state = ST_IDLE,
     open_zones_count = 0, prev_clk = False, prev_rst = False\<rparr>"

definition blank_hw :: "real option \<Rightarrow> hw" where
  "blank_hw temp = \<lparr>hw_top = None, mock_bram_storage = (\<lambda>_. 0), bram_rdata_latch = 0, hw_temperature = temp\<rparr>"

definition booted_hw :: hw where
  "booted_hw = boot_hardware power_on (blank_hw None)"

definition booted_driver :: driver where
  "booted_driver = \<lparr>drv_hw = booted_hw, current_lba_accumulator = 0, stub_sq_tail = 0, stub_cq_head = 0\<rparr>"

definition fresh_dev :: zns_dev where
  "fresh_dev = \<lparr>zd_bram = (\<lambda>_. 0), zd_open = 0, zd_wdata = 0, zd_hot = False\<rparr>"

lemma booted_idle: "hw_idle booted_hw fresh_dev"
  using boot_idle [of power_on "blank_hw None"]
  by (simp add: power_on_def booted_hw_def fresh_dev_def blank_hw_def thermal_input_def)

lemma fresh_dev_ok: "dev_ok fresh_dev" "open_ok fresh_dev" "\<not> zd_hot fresh_dev"
  by (simp_all add: dev_ok_def open_ok_def fresh_dev_def bram_list_def open_count_def list_all_iff
      count_if_def zone_open_def zone_word_simps)

definition write_sqe :: "u64 \<Rightarrow> nvme_sqe" where
  "write_sqe lba = gate_sqe lba 1"

lemma write_sqe_simps [simp]:
  "hardware_cmd (write_sqe lba) = Inr 1" "sqe_slba (write_sqe lba) = lba"
  using gate_hardware_cmd [of 1 lba] by (simp_all add: write_sqe_def)

section \<open>The driver against the device\<close>

text \<open>
  C1. From an idle device every read, write or reset command that the NVMe driver accepts
  returns (its polling loop ends), completes with the status the device's rules give for
  the zone and page of the LBA, and leaves the device idle in the state of the atomic
  \<open>zns_command\<close>.
\<close>

theorem driver_refines_device:
  assumes "hw_idle (drv_hw D) d" "hardware_cmd sqe = Inr cmd"
  shows "\<exists>D'. zns_process_nvme_command sqe cqe D =
       Some (cqe\<lparr>cqe_cid := sqe_cid sqe, cqe_cdw0 := 0, cqe_status :=
         (let r = fst (zns_command cmd (lba_zone (sqe_slba sqe)) (lba_page (sqe_slba sqe)) d)
          in nvme_status (ucast (fst r)) (ucast (snd r)))\<rparr>, D')
     \<and> hw_idle (drv_hw D') (snd (zns_command cmd (lba_zone (sqe_slba sqe)) (lba_page (sqe_slba sqe)) d))"
  using driver_command [OF assms, of cqe] by (simp add: cqe_outcome_def Let_def)

theorem driver_refines_device_witness:
  "\<exists>D'. zns_process_nvme_command (write_sqe 0) zero_cqe booted_driver =
       Some (zero_cqe\<lparr>cqe_cid := sqe_cid (write_sqe 0), cqe_cdw0 := 0, cqe_status := 0\<rparr>, D')
     \<and> hw_idle (drv_hw D') (snd (zns_command 1 0 0 fresh_dev))"
proof -
  have "hw_idle (drv_hw booted_driver) fresh_dev" by (simp add: booted_driver_def booted_idle)
  note w = driver_refines_device [OF this, of "write_sqe 0" 1 zero_cqe]
  have "lba_zone 0 = 0" "lba_page 0 = 0" by (simp_all add: lba_zone_def lba_page_def)
  moreover have "fst (zns_command 1 0 0 fresh_dev) = (3, 0)"
    using write_verdict [of 0 fresh_dev 0] fresh_dev_ok(3)
    by (simp add: zns_command_inside zone_word_simps Let_def) (simp add: fresh_dev_def zone_word_simps)
  ultimately show ?thesis using w by (simp add: nvme_status_def)
qed

fun driver_run :: "nvme_sqe list \<Rightarrow> driver \<Rightarrow> (u16 list \<times> driver) option" where
  "driver_run [] D = Some ([], D)"
| "driver_run (q # qs) D = do {
     (cqe, D1) \<leftarrow> zns_process_nvme_command q zero_cqe D;
     (sts, D2) \<leftarrow> driver_run qs D1;
     Some (cqe_status cqe # sts, D2)
   }"








section \<open>Safety of the descriptor table\<close>

lemma idle_bram: "hw_idle h d \<Longrightarrow> mock_bram_storage h = zd_bram d"
  by (erule hw_idle_core) (simp add: core_bram)

lemma driver_rejects:
  "hardware_cmd sqe = Inl st \<Longrightarrow> zns_process_nvme_command sqe cqe D =
     Some (cqe\<lparr>cqe_cid := sqe_cid sqe, cqe_cdw0 := 0, cqe_status := st\<rparr>, D)"
  by (simp add: zns_process_nvme_command_def Let_def)

text \<open>
  C10. Whatever NVMe command is processed, supported or not, in range or not, the
  descriptors stay well formed: every write pointer is at most 64 and the full flag is set
  exactly at 64.
\<close>

theorem commands_keep_descriptors:
  assumes "hw_idle (drv_hw D) d" "dev_ok d" "z < BRAM_CELLS"
  shows "\<exists>cqe' D'. zns_process_nvme_command sqe cqe D = Some (cqe', D') \<and> zone_ok (mock_bram_storage (drv_hw D') z)"
proof -
  have ok: "zone_ok (zd_bram d' z)" if "dev_ok d'" for d'
    using that assms(3) list_all_nthD [of zone_ok "bram_list (zd_bram d')" z] by (simp add: dev_ok_def)
  show ?thesis
  proof (cases "hardware_cmd sqe")
    case (Inl st)
    then show ?thesis using ok [OF assms(2)] idle_bram [OF assms(1)] driver_rejects [OF Inl] by auto
  next
    case (Inr cmd)
    from driver_command [OF assms(1) Inr, of cqe] obtain D' where
      "zns_process_nvme_command sqe cqe D = Some (cqe_outcome sqe
         (fst (zns_command cmd (lba_zone (sqe_slba sqe)) (lba_page (sqe_slba sqe)) d)) cqe, D')"
      "hw_idle (drv_hw D') (snd (zns_command cmd (lba_zone (sqe_slba sqe)) (lba_page (sqe_slba sqe)) d))" by blast
    then show ?thesis using idle_bram ok [OF zns_command_dev_ok [OF assms(2)]] by fastforce
  qed
qed

theorem commands_keep_descriptors_witness:
  "\<exists>cqe' D'. zns_process_nvme_command (write_sqe 5) zero_cqe booted_driver = Some (cqe', D')
     \<and> zone_ok (mock_bram_storage (drv_hw D') 7)"
  by (rule commands_keep_descriptors [of _ fresh_dev])
     (simp_all add: booted_driver_def booted_idle fresh_dev_ok BRAM_CELLS_def)

text \<open>
  C31. Thermal shutdown, when the bridge has been given a controller to read a temperature from (the programs of the
  repository never do: there the shutdown cannot trip): on an idle device at 85 degrees or more every command
  returns with an error and the device state does not change. The status code is 0x24 for a read, a write and
  a zone reset, 0x02 for another zone management action and 0x01 for an opcode that the driver does not know.
\<close>

theorem thermal_shutdown_refuses:
  assumes "hw_idle (drv_hw D) d" "hw_temperature (drv_hw D) = Some t" "85 \<le> t"
  shows "\<exists>D'. zns_process_nvme_command sqe cqe D =
       Some (cqe\<lparr>cqe_cid := sqe_cid sqe, cqe_cdw0 := 0, cqe_status :=
         (if sqe_opcode sqe = NVME_CMD_READ \<or> sqe_opcode sqe = NVME_CMD_WRITE \<or>
             sqe_opcode sqe = NVME_CMD_ZONE_MGMT \<and> sqe_zsa sqe AND 0xFF = NVME_ZONE_ACTION_RESET then 0x248
          else if sqe_opcode sqe = NVME_CMD_ZONE_MGMT then 0x204 else 0x202)\<rparr>, D')
     \<and> hw_idle (drv_hw D') d"
proof (cases "hardware_cmd sqe")
  case (Inl st)
  then show ?thesis
    using assms(1)
    by (auto simp: zns_process_nvme_command_def hardware_cmd_def split: if_splits)
next
  case (Inr cmd)
  then have supported: "sqe_opcode sqe = NVME_CMD_READ \<or> sqe_opcode sqe = NVME_CMD_WRITE \<or>
      sqe_opcode sqe = NVME_CMD_ZONE_MGMT \<and> sqe_zsa sqe AND 0xFF = NVME_ZONE_ACTION_RESET"
    by (auto simp: hardware_cmd_def split: if_splits)
  have "zd_hot d"
    using assms(1-3) core_hw_temperature [of "drv_hw D"]
    by (auto elim!: hw_idle_core simp: thermal_input_def check_thermal_shutdown_def)
  then have "zns_command cmd (lba_zone (sqe_slba sqe)) (lba_page (sqe_slba sqe)) d = ((1, 8), d)"
    by (simp add: zns_command_def hot_verdict)
  then show ?thesis
    using driver_command [OF assms(1) Inr, of cqe] supported by (simp add: cqe_outcome_def nvme_status_def nvme_sc_def)
qed

definition hot_driver :: driver where
  "hot_driver = booted_driver\<lparr>drv_hw := boot_hardware power_on (blank_hw (Some 90))\<rparr>"

lemma tick_temperature: "hw_temperature (verilator_tick_hardware h) = hw_temperature h"
  by (simp add: verilator_tick_hardware_def Let_def split: option.split)

theorem thermal_shutdown_refuses_witness:
  "\<exists>D'. zns_process_nvme_command (write_sqe 0) zero_cqe hot_driver =
       Some (zero_cqe\<lparr>cqe_cid := sqe_cid (write_sqe 0), cqe_cdw0 := 0, cqe_status := 0x248\<rparr>, D')
     \<and> hw_idle (drv_hw D') (fresh_dev\<lparr>zd_hot := True\<rparr>)"
proof -
  have i: "hw_idle (drv_hw hot_driver) (fresh_dev\<lparr>zd_hot := True\<rparr>)"
    using boot_idle [of power_on "blank_hw (Some 90)"]
    by (simp add: power_on_def hot_driver_def fresh_dev_def blank_hw_def thermal_input_def check_thermal_shutdown_def)
  have "hw_temperature (drv_hw hot_driver) = Some 90"
    by (simp add: hot_driver_def boot_hardware_def Let_def tick_temperature blank_hw_def)
  from thermal_shutdown_refuses [OF i this, of "write_sqe 0" zero_cqe] show ?thesis
    by (simp add: write_sqe_def gate_sqe_def NVME_CMD_WRITE_def)
qed

section \<open>Sequential zones\<close>

text \<open>
  C11. On a device with room for another open zone, the 64 pages of an empty zone can be
  written in order, every write is accepted, and the zone then refuses every further write
  and does not change.
\<close>

theorem hardware_zone_fills:
  assumes "hw_ready z d" "hw_wp z d = 0" "n < 64"
  shows "fst (append_zone.append_run (hw_append z) [0..<64] d) = replicate 64 True
     \<and> hw_wp z (snd (append_zone.append_run (hw_append z) [0..<64] d)) = 64
     \<and> hw_append z n (snd (append_zone.append_run (hw_append z) [0..<64] d)) =
         (False, snd (append_zone.append_run (hw_append z) [0..<64] d))"
  using hwz.sequential_writes [OF assms(1), of 64] hwz.full_refuses [of z _ n] assms(2,3)
  by (simp del: upt_rec_numeral)

lemma fresh_ready: "in_bram z \<Longrightarrow> hw_ready z fresh_dev \<and> hw_wp z fresh_dev = 0"
  using fresh_dev_ok
  by (simp add: hw_ready_def hw_wp_def) (simp add: fresh_dev_def zone_word_simps open_ok_def)

theorem hardware_zone_fills_witness:
  "fst (append_zone.append_run (hw_append 3) [0..<64] fresh_dev) = replicate 64 True
     \<and> hw_wp 3 (snd (append_zone.append_run (hw_append 3) [0..<64] fresh_dev)) = 64
     \<and> hw_append 3 0 (snd (append_zone.append_run (hw_append 3) [0..<64] fresh_dev)) =
         (False, snd (append_zone.append_run (hw_append 3) [0..<64] fresh_dev))"
  using hardware_zone_fills [of 3 fresh_dev 0] fresh_ready [of 3]
  by (simp add: in_bram_def BRAM_CELLS_def del: upt_rec_numeral)

text \<open>
  The software validator keeps the same contract for its configured zone size: the pages
  of an empty zone are accepted in order, and a full zone refuses every further write.
\<close>

theorem software_zone_fills:
  assumes "sw_ready c zid k" "sw_wp zid k = 0" "n < hard_block_size c"
  shows "fst (append_zone.append_run (sw_append c e zid) [0..<hard_block_size c] k) = replicate (hard_block_size c) True
     \<and> sw_wp zid (snd (append_zone.append_run (sw_append c e zid) [0..<hard_block_size c] k)) = hard_block_size c
     \<and> sw_append c e zid n (snd (append_zone.append_run (sw_append c e zid) [0..<hard_block_size c] k)) =
         (False, snd (append_zone.append_run (sw_append c e zid) [0..<hard_block_size c] k))"
  using swz.sequential_writes [OF assms(1), of "hard_block_size c" e] swz.full_refuses [of c zid _ n e] assms(2,3)
  by simp

definition zns_config :: config where
  "zns_config = default_config\<lparr>FTL_IMPLEMENTATION := 5, BLOCK_SIZE := 64\<rparr>"

definition any_event :: event where
  "any_event = the (Event_new 0 WRITE 0 1 0)"

definition booted_ctrl :: zns_ctrl where
  "booted_ctrl = Controller_new 1024 booted_driver"

lemma booted_sw_ready: "sw_ready zns_config 9 booted_ctrl \<and> sw_wp 9 booted_ctrl = 0"
proof -
  have "count_if (\<lambda>z. 0 < zz_wptr z \<and> \<not> zz_is_full z) (replicate n ZnsZone_zero) = 0" for n
    by (simp add: count_if_def ZnsZone_zero_def)
  then show ?thesis
    by (simp add: sw_ready_def sw_wp_def sw_zone_def booted_ctrl_def Controller_new_def zns_config_def
        hard_block_size_def open_zones_count_check_def) (simp add: ZnsZone_zero_def)
qed

theorem software_zone_fills_witness:
  "fst (append_zone.append_run (sw_append zns_config any_event 9) [0..<hard_block_size zns_config] booted_ctrl)
       = replicate (hard_block_size zns_config) True
     \<and> sw_wp 9 (snd (append_zone.append_run (sw_append zns_config any_event 9) [0..<hard_block_size zns_config] booted_ctrl))
       = hard_block_size zns_config
     \<and> sw_append zns_config any_event 9 5
         (snd (append_zone.append_run (sw_append zns_config any_event 9) [0..<hard_block_size zns_config] booted_ctrl)) =
         (False, snd (append_zone.append_run (sw_append zns_config any_event 9) [0..<hard_block_size zns_config] booted_ctrl))"
  using software_zone_fills [of zns_config 9 booted_ctrl 5 any_event] booted_sw_ready
  by (simp add: zns_config_def hard_block_size_def del: upt_rec_numeral)

text \<open>
  C27. Sequential write: on a cool, well-formed device with room for another open zone, let the pages of
  a zone be written in any order and any number of times, with no other command in between. The
  device accepts exactly the requests for the page at the pointer, as the reference \<open>in_order\<close> says;
  the accepted pages are the ones from the old pointer to the new one, each once and in order;
  and the pointer ends no further than 64.
\<close>

theorem hardware_writes_in_order:
  assumes "hw_ready z d" "list_all (\<lambda>n. n < 64) ns" "append_zone.append_run (hw_append z) ns d = (bs, d')"
  shows "bs = in_order 64 (hw_wp z d) ns \<and> map fst (filter snd (zip ns bs)) = [hw_wp z d..<hw_wp z d'] \<and> hw_wp z d' \<le> 64"
  using hwz.verdicts_in_order [OF assms(1,2)] unfolding assms(3) fst_conv snd_conv by blast

theorem hardware_writes_in_order_witness:
  "\<exists>d'. append_zone.append_run (hw_append 3) [5, 0, 0, 1, 63, 2] fresh_dev = ([False, True, False, True, False, True], d')
     \<and> hw_wp 3 d' = 3"
proof -
  obtain bs d' where r: "append_zone.append_run (hw_append 3) [5, 0, 0, 1, 63, 2] fresh_dev = (bs, d')" by fastforce
  have "hw_ready 3 fresh_dev" "hw_wp 3 fresh_dev = 0" using fresh_ready [of 3] by (simp_all add: in_bram_def BRAM_CELLS_def)
  with hardware_writes_in_order [OF _ _ r]
  have bs: "bs = [False, True, False, True, False, True]"
    and "map fst (filter snd (zip [5, 0, 0, 1, 63, 2] bs)) = [0..<hw_wp 3 d']" by auto
  then have "length [0, 1, 2 :: nat] = length [0..<hw_wp 3 d']" by (simp add: bs del: length_upt)
  then show ?thesis using r bs by simp
qed

section \<open>Reads and out-of-range writes\<close>

lemma driver_writes:
  assumes "hw_idle (drv_hw D) d"
  shows "\<exists>sts D'. driver_run (map write_sqe lbas) D = Some (sts, D')
     \<and> hw_idle (drv_hw D') (fold (\<lambda>lba d. snd (zns_command 1 (lba_zone lba) (lba_page lba) d)) lbas d)"
  using assms
proof (induction lbas arbitrary: D d)
  case (Cons lba lbas)
  from driver_command [OF Cons.prems write_sqe_simps(1) [of lba], of zero_cqe] obtain D1 where
    "zns_process_nvme_command (write_sqe lba) zero_cqe D =
      Some (cqe_outcome (write_sqe lba) (fst (zns_command 1 (lba_zone lba) (lba_page lba) d)) zero_cqe, D1)"
    "hw_idle (drv_hw D1) (snd (zns_command 1 (lba_zone lba) (lba_page lba) d))" by auto
  then show ?case using Cons.IH by fastforce
qed simp

definition used_driver :: driver where
  "used_driver = snd (the (driver_run (map write_sqe [0, 64, 65]) booted_driver))"

definition used_dev :: zns_dev where
  "used_dev = fresh_dev\<lparr>zd_bram := (\<lambda>_. 0)(0 := pack_zone 0 False 1, 1 := pack_zone 0 False 2),
     zd_open := 2, zd_wdata := pack_zone 0 False 2\<rparr>"

lemma write_accepted:
  assumes "in_bram z" "zone_ok (zd_bram d (unat z))" "\<not> zd_hot d" "unat pg = unat (zone_wptr (zd_bram d (unat z)))"
    "unat pg \<noteq> 64" "unat pg = 0 \<longrightarrow> unat (zd_open d) < 4"
  shows "zns_command 1 z pg d = ((3, 0), d\<lparr>
     zd_bram := (zd_bram d)(unat z := next_descriptor 1 (zd_bram d (unat z)) (zd_wdata d)),
     zd_wdata := next_descriptor 1 (zd_bram d (unat z)) (zd_wdata d),
     zd_open := track_open 1 (zd_bram d (unat z)) (zd_open d)\<rparr>)"
  using write_verdict [OF assms(2,3), of pg] assms by (auto simp: zns_command_inside Let_def)

lemma used_dev_writes:
  "fold (\<lambda>lba d. snd (zns_command 1 (lba_zone lba) (lba_page lba) d)) [0, 64, 65] fresh_dev = used_dev"
proof -
  have z: "lba_zone 0 = 0" "lba_page 0 = 0" "lba_zone 64 = 1" "lba_page 64 = 0" "lba_zone 65 = 1" "lba_page 65 = 1"
    by (simp_all add: lba_zone_def lba_page_def)
  show ?thesis
    by (simp add: z write_accepted in_bram_def BRAM_CELLS_def zone_ok_def zone_word_simps fresh_dev_def used_dev_def
        next_descriptor_def track_open_def Let_def fun_upd_def fun_eq_iff)
qed

lemma used_idle: "hw_idle (drv_hw used_driver) used_dev"
  using driver_writes [of booted_driver fresh_dev "[0, 64, 65]"] booted_idle
  unfolding used_dev_writes used_driver_def by (auto simp: booted_driver_def)

text \<open>
  A successful read command stores a stale word: the descriptor of the zone that was read
  becomes the last descriptor the device wrote, usually that of another zone.
\<close>

theorem read_stores_stale_descriptor:
  assumes "hw_idle (drv_hw D) d" "hardware_cmd sqe = Inr 0" "\<not> zd_hot d" "in_bram (lba_zone (sqe_slba sqe))"
    and "unat (lba_page (sqe_slba sqe)) < unat (zone_wptr (mock_bram_storage (drv_hw D) (unat (lba_zone (sqe_slba sqe)))))"
  shows "\<exists>D'. zns_process_nvme_command sqe cqe D =
       Some (cqe\<lparr>cqe_cid := sqe_cid sqe, cqe_cdw0 := 0, cqe_status := 0\<rparr>, D')
     \<and> mock_bram_storage (drv_hw D') =
         (mock_bram_storage (drv_hw D))(unat (lba_zone (sqe_slba sqe)) := zd_wdata d)"
  using driver_command [OF assms(1,2), of cqe] read_overwrites [OF assms(4,3)] assms(5) idle_bram [OF assms(1)]
  by (auto simp: cqe_outcome_def nvme_status_def dest!: idle_bram)

theorem read_stores_stale_descriptor_witness:
  "\<exists>D'. zns_process_nvme_command (gate_sqe 0 0) zero_cqe used_driver =
       Some (zero_cqe\<lparr>cqe_cid := sqe_cid (gate_sqe 0 0), cqe_cdw0 := 0, cqe_status := 0\<rparr>, D')
     \<and> zone_wptr (mock_bram_storage (drv_hw used_driver) 0) = 1 \<and> zone_wptr (mock_bram_storage (drv_hw D') 0) = 2"
proof -
  have z: "lba_zone 0 = 0" "lba_page 0 = 0" by (simp_all add: lba_zone_def lba_page_def)
  have w: "mock_bram_storage (drv_hw used_driver) 0 = pack_zone 0 False 1" "zd_wdata used_dev = pack_zone 0 False 2"
    "\<not> zd_hot used_dev" using idle_bram [OF used_idle] by (simp_all add: used_dev_def fresh_dev_def)
  show ?thesis
    using read_stores_stale_descriptor [OF used_idle, of "gate_sqe 0 0" zero_cqe] gate_hardware_cmd [of 0 0]
    by (auto simp: z w zone_word_simps in_bram_def BRAM_CELLS_def)
qed

text \<open>
  A write to the first page of a zone that does not exist is accepted: no descriptor
  changes, but the open-zone counter goes up and stays up, so that four such writes leave no
  zone to open.
\<close>

theorem write_outside_accepted:
  assumes "hw_idle (drv_hw D) d" "hardware_cmd sqe = Inr 1" "\<not> zd_hot d" "\<not> in_bram (lba_zone (sqe_slba sqe))"
    and "lba_page (sqe_slba sqe) = 0" "unat (zd_open d) < 4"
  shows "\<exists>D' d'. zns_process_nvme_command sqe cqe D =
       Some (cqe\<lparr>cqe_cid := sqe_cid sqe, cqe_cdw0 := 0, cqe_status := 0\<rparr>, D')
     \<and> hw_idle (drv_hw D') d' \<and> mock_bram_storage (drv_hw D') = mock_bram_storage (drv_hw D)
     \<and> unat (zd_open d') = Suc (unat (zd_open d))"
proof -
  note w = write_outside [OF assms(4,3,6)]
  from driver_command [OF assms(1,2), of cqe] obtain D' where D':
    "zns_process_nvme_command sqe cqe D = Some (cqe\<lparr>cqe_cid := sqe_cid sqe, cqe_cdw0 := 0, cqe_status := 0\<rparr>, D')"
    "hw_idle (drv_hw D') (d\<lparr>zd_wdata := pack_zone 0 False 1, zd_open := zd_open d + 1\<rparr>)"
    using assms(5) w by (auto simp: cqe_outcome_def nvme_status_def)
  moreover have "unat (zd_open d + 1) = Suc (unat (zd_open d))" using assms(6) by (simp add: unat_word_ariths)
  ultimately show ?thesis using idle_bram [OF assms(1)] idle_bram [OF D'(2)] by fastforce
qed

theorem write_outside_accepted_witness:
  "\<exists>D' d'. zns_process_nvme_command (write_sqe 65536) zero_cqe booted_driver =
       Some (zero_cqe\<lparr>cqe_cid := sqe_cid (write_sqe 65536), cqe_cdw0 := 0, cqe_status := 0\<rparr>, D')
     \<and> hw_idle (drv_hw D') d' \<and> mock_bram_storage (drv_hw D') = mock_bram_storage (drv_hw booted_driver)
     \<and> unat (zd_open d') = 1"
proof -
  have i: "hw_idle (drv_hw booted_driver) fresh_dev" by (simp add: booted_driver_def booted_idle)
  show ?thesis
    using write_outside_accepted [OF i, of "write_sqe 65536" zero_cqe] fresh_dev_ok(3)
    by (simp add: lba_zone_def lba_page_def in_bram_def BRAM_CELLS_def fresh_dev_def)
qed

section \<open>The controller's gate\<close>

lemma booted_ctrl_idle: "ctrl_idle booted_ctrl (replicate 1024 ZnsZone_zero) fresh_dev"
  by (simp add: ctrl_idle_def booted_ctrl_def Controller_new_def booted_driver_def booted_idle)

text \<open>
  C26. The controller's gate always returns. It reports success exactly when the device
  accepts the command and then applies the mirror update to that zone's software entry only;
  a refused command leaves the software table alone.
\<close>

theorem gate_reports_device:
  assumes "ctrl_idle k zs d" "is_write \<in> {0, 1, 2}"
  shows "\<exists>k'. direct_zns_gate lba is_write k =
       Some (if fst (fst (zns_command (word_of_int is_write) (lba_zone lba) (lba_page lba) d)) = 3 then SUCCESS
             else FAILURE, k')
     \<and> ctrl_idle k' (if fst (fst (zns_command (word_of_int is_write) (lba_zone lba) (lba_page lba) d)) = 3
           then mirrored (lba_zone lba) is_write zs else zs)
         (snd (zns_command (word_of_int is_write) (lba_zone lba) (lba_page lba) d))"
  by (rule gate_command [OF assms, of lba]) blast

theorem gate_reports_device_witness:
  "\<exists>k'. direct_zns_gate 3 1 booted_ctrl = Some (FAILURE, k')
     \<and> ctrl_idle k' (replicate 1024 ZnsZone_zero) fresh_dev"
proof -
  have "fst (zns_verdict 1 3 0 fresh_dev)"
    using write_verdict [of 0 fresh_dev 3] fresh_dev_ok(3) by (simp add: zone_ok_def zone_word_simps)
  moreover have "zd_bram fresh_dev 0 = 0" by (simp add: fresh_dev_def)
  ultimately have "fst (fst (zns_command 1 0 3 fresh_dev)) = 1 \<and> snd (zns_command 1 0 3 fresh_dev) = fresh_dev"
    by (simp add: zns_command_inside in_bram_def BRAM_CELLS_def)
  then show ?thesis
    using gate_reports_device [OF booted_ctrl_idle, of 1 3] by (simp add: lba_zone_def lba_page_def)
qed

lemma reset_mirror:
  assumes "zz_wptr z < 256"
  shows "mirror_zone 2 z = z\<lparr>zz_wptr := 0x10000\<rparr>"
proof -
  have "take_bit 8 (zz_wptr z) = zz_wptr z" using assms
    by (simp add: word_unat_eq_iff unsigned_take_bit_eq take_bit_nat_eq_self_iff word_less_nat_alt)
  then have low: "n < 8" if "bit (zz_wptr z) n" for n using that by (metis bit_take_bit_iff)
  have m: "(0xFF :: u64) = mask 8" by (simp add: mask_eq_exp_minus_1)
  have "set_zone_byte 0 0 (zz_wptr z) = 0"
    unfolding set_zone_byte_def m using low by (auto intro!: bit_word_eqI simp: bit_simps)
  moreover have "set_zone_byte 2 (zone_byte 2 0 + 1) 0 = 0x10000"
    by (simp add: set_zone_byte_def zone_byte_def push_bit_eq_mult)
  ultimately show ?thesis by (simp add: mirror_zone_def Let_def)
qed

lemma lba_zone_of_zone: "lba_zone (ucast (zid :: u32) * 64) = zid"
proof -
  have p: "ucast zid * 64 = push_bit 6 (ucast zid :: u64)" by (simp add: push_bit_eq_mult)
  have m: "(0xFFFFFFFF :: u64) = mask 32" by (simp add: mask_eq_exp_minus_1)
  show ?thesis
    unfolding lba_zone_def p m by (auto intro!: bit_word_eqI simp: bit_simps)
qed

text \<open>
  After a successful reset through the gate the software entry of the zone does not say
  empty: byte 2 of the structure is a byte of its write pointer, which becomes 65536, the
  erase count stays, and the software validator then refuses a write to the first page.
\<close>

theorem gate_reset_corrupts_mirror:
  assumes "ctrl_idle k zs d" "\<not> zd_hot d" "in_bram zid" "unat zid < length zs"
    and "zone_erase_cnt (zd_bram d (unat zid)) < 10" "zz_wptr (zs ! unat zid) < 256"
    and "FTL_IMPLEMENTATION c = 5" "hard_block_size c = 64" "etype e = WRITE" "logical_address e = unat zid * 64"
  shows "\<exists>k'. direct_zns_gate (ucast zid * 64) 2 k = Some (SUCCESS, k')
     \<and> zns_zones k' = Some (zs[unat zid := (zs ! unat zid)\<lparr>zz_wptr := 65536\<rparr>])
     \<and> validate_and_advance_zns c e k' = Some (False, k')"
proof -
  have z: "lba_zone (ucast zid * 64) = zid"
    by (rule lba_zone_of_zone)
  have acc: "fst (fst (zns_command 2 zid p d)) = 3" for p
    using reset_verdict [OF assms(2)] assms(5) by (simp add: zns_command_inside [OF assms(3)] Let_def word_less_nat_alt)
  obtain k' where k': "direct_zns_gate (ucast zid * 64) 2 k = Some (SUCCESS, k')"
    and i: "ctrl_idle k' (zs[unat zid := (zs ! unat zid)\<lparr>zz_wptr := 65536\<rparr>])
      (snd (zns_command 2 zid (lba_page (ucast zid * 64)) d))"
    using gate_command [OF assms(1), of 2 "ucast zid * 64"] assms(4) reset_mirror [OF assms(6)]
    by (auto simp: z acc mirrored_def)
  have "validate_and_advance_zns c e k' = Some (False, k')"
    using i assms(4,7-10) by (auto simp: validate_and_advance_zns_def Let_def ctrl_idle_def aget_nth)
  then show ?thesis using k' i by (auto simp: ctrl_idle_def)
qed

theorem gate_reset_corrupts_mirror_witness:
  "\<exists>k'. direct_zns_gate (ucast (5 :: u32) * 64) 2 booted_ctrl = Some (SUCCESS, k')
     \<and> zns_zones k' = Some ((replicate 1024 ZnsZone_zero)[unat (5 :: u32) :=
          (replicate 1024 ZnsZone_zero ! unat (5 :: u32))\<lparr>zz_wptr := 65536\<rparr>])
     \<and> validate_and_advance_zns zns_config (any_event\<lparr>etype := WRITE, logical_address := 320\<rparr>) k' = Some (False, k')"
  by (rule gate_reset_corrupts_mirror [OF booted_ctrl_idle fresh_dev_ok(3)])
     (simp_all add: in_bram_def BRAM_CELLS_def zns_config_def hard_block_size_def fresh_dev_def zone_word_simps
        ZnsZone_zero_def)

section \<open>The zone append self-test\<close>

lemma reset_ready:
  assumes "dev_ok d" "open_ok d" "in_bram z" "\<not> zd_hot d" "zone_erase_cnt (zd_bram d (unat z)) < 10"
    and "open_count ((zd_bram d)(unat z := 0)) < 4"
  shows "fst (fst (zns_command 2 z p d)) = 3" "hw_ready z (snd (zns_command 2 z p d))" "hw_wp z (snd (zns_command 2 z p d)) = 0"
proof -
  let ?w = "zd_bram d (unat z)"
  let ?n = "next_descriptor 2 ?w (zd_wdata d)"
  have run: "zns_command 2 z p d = ((3, 0), d\<lparr>zd_bram := (zd_bram d)(unat z := ?n), zd_wdata := ?n,
      zd_open := track_open 2 ?w (zd_open d)\<rparr>)"
    using reset_verdict [OF assms(4)] assms(5) by (simp add: zns_command_inside [OF assms(3)] Let_def word_less_nat_alt)
  have n: "\<not> zone_open ?n" "zone_wptr ?n = 0" "\<not> zone_open 0"
    by (simp_all add: next_descriptor_def zone_open_def zone_word_simps)
  have cell: "unat z < BRAM_CELLS" using assms(3) by (simp add: in_bram_def)
  have "open_count ((zd_bram d)(unat z := ?n)) = open_count ((zd_bram d)(unat z := 0))"
    using open_count_set [OF cell, of "zd_bram d" ?n] open_count_set [OF cell, of "zd_bram d" 0] n by simp
  then show "fst (fst (zns_command 2 z p d)) = 3" "hw_ready z (snd (zns_command 2 z p d))" "hw_wp z (snd (zns_command 2 z p d)) = 0"
    using zns_command_dev_ok [OF assms(1), of 2 z p] zns_command_open_ok [OF assms(1-3) _ assms(4), of 2 p] assms n
    by (simp_all add: run hw_ready_def hw_wp_def)
qed

lemma gate_append:
  fixes lba :: u64
  assumes "ctrl_idle k zs d" "hw_ready (lba_zone lba) d" "unat (lba_page lba) = hw_wp (lba_zone lba) d"
    "hw_wp (lba_zone lba) d < 64"
  obtains k' zs' d' where "direct_zns_gate lba 1 k = Some (SUCCESS, k')" "ctrl_idle k' zs' d'"
    "hw_ready (lba_zone lba) d'" "hw_wp (lba_zone lba) d' = Suc (hw_wp (lba_zone lba) d)"
proof -
  let ?x = "zns_command 1 (lba_zone lba) (lba_page lba) d"
  have "hw_append (lba_zone lba) (hw_wp (lba_zone lba) d) d = (fst (fst ?x) = 3, snd ?x)"
    unfolding assms(3) [symmetric] by (simp add: hw_append_def Let_def)
  then have "fst (fst ?x) = 3" "hw_ready (lba_zone lba) (snd ?x)"
    "hw_wp (lba_zone lba) (snd ?x) = Suc (hw_wp (lba_zone lba) d)"
    using hwz.accepts [OF assms(2,4)] by simp_all
  then show thesis using gate_command [OF assms(1), of 1 lba] that by auto
qed

text \<open>
  The zone append self-test passes on every well-formed idle device that is not too hot,
  whose zone 90 has been erased fewer than ten times and that has fewer than four other zones
  open: the reset and the three sequential writes all succeed.
\<close>

theorem zone_append_test_passes:
  assumes "ctrl_idle k zs d" "dev_ok d" "open_ok d" "\<not> zd_hot d"
    and "zone_erase_cnt (zd_bram d 90) < 10" "open_count ((zd_bram d)(90 := 0)) < 4"
  shows "\<exists>k'. bridge_run_zone_append_test k = Some (True, k')"
proof -
  have z: "lba_zone 5760 = 90" "lba_zone 5761 = 90" "lba_zone 5762 = 90" "lba_page 5760 = 0" "lba_page 5761 = 1"
    "lba_page 5762 = 2" by (simp_all add: lba_zone_def lba_page_def)
  have b: "in_bram 90" by (simp add: in_bram_def BRAM_CELLS_def)
  have r: "fst (fst (zns_command 2 90 0 d)) = 3" "hw_ready 90 (snd (zns_command 2 90 0 d))" "hw_wp 90 (snd (zns_command 2 90 0 d)) = 0"
    using reset_ready [OF assms(2,3) b assms(4)] assms(5,6) by simp_all
  obtain k0 zs0 where
    g0: "direct_zns_gate 5760 2 k = Some (SUCCESS, k0)" "ctrl_idle k0 zs0 (snd (zns_command 2 90 0 d))"
    by (rule gate_command [OF assms(1), of 2 5760]) (use r(1) z in auto)
  from gate_append [OF g0(2), of 5760] r(2,3) z obtain k1 zs1 d1 where
    g1: "direct_zns_gate 5760 1 k0 = Some (SUCCESS, k1)" "ctrl_idle k1 zs1 d1" "hw_ready 90 d1" "hw_wp 90 d1 = 1" by auto
  from gate_append [OF g1(2), of 5761] g1(3,4) z obtain k2 zs2 d2 where
    g2: "direct_zns_gate 5761 1 k1 = Some (SUCCESS, k2)" "ctrl_idle k2 zs2 d2" "hw_ready 90 d2" "hw_wp 90 d2 = Suc (Suc 0)" by auto
  from gate_append [OF g2(2), of 5762] g2(3,4) z obtain k3 where
    g3: "direct_zns_gate 5762 1 k2 = Some (SUCCESS, k3)" by auto
  show ?thesis by (simp add: bridge_run_zone_append_test_def g0(1) g1(1) g2(1) g3)
qed

theorem zone_append_test_passes_witness:
  "\<exists>k'. bridge_run_zone_append_test booted_ctrl = Some (True, k')"
proof (rule zone_append_test_passes [OF booted_ctrl_idle fresh_dev_ok])
  have same: "(zd_bram fresh_dev)(90 := 0) = zd_bram fresh_dev" by (simp add: fresh_dev_def fun_eq_iff)
  have "zd_open fresh_dev = 0" by (simp add: fresh_dev_def)
  then show "open_count ((zd_bram fresh_dev)(90 := 0)) < 4" unfolding same using fresh_dev_ok(2) by (simp add: open_ok_def)
qed (simp add: fresh_dev_def zone_word_simps)

section \<open>Start-up and a missing model\<close>

text \<open>
  The start-up sequence of the co-simulation keeps the registers: a model that is
  constructed in the idle state is idle afterwards and ready for the driver, and its count of
  open zones is the one it was constructed with. The reset pulse is raised before the first evaluation and has no effect.
\<close>

theorem boot_keeps_registers:
  assumes "current_state v = ST_IDLE" "\<not> io_trigger v" "\<not> bram_we v"
  shows "hw_idle (boot_hardware v h)
     \<lparr>zd_bram = mock_bram_storage h, zd_open = open_zones_count v, zd_wdata = bram_wdata v, zd_hot = thermal_input h\<rparr>"
  by (rule boot_idle [OF assms])

theorem boot_keeps_registers_witness:
  "hw_idle (boot_hardware (power_on\<lparr>open_zones_count := 5\<rparr>) (blank_hw None))
     \<lparr>zd_bram = (\<lambda>_. 0), zd_open = 5, zd_wdata = 0, zd_hot = False\<rparr>"
  using boot_keeps_registers [of "power_on\<lparr>open_zones_count := 5\<rparr>" "blank_hw None"]
  by (simp add: power_on_def blank_hw_def thermal_input_def)

text \<open>
  Without an attached hardware model no supported command returns: the driver's polling
  loop has no bound and the status reads 0 for ever.
\<close>

theorem driver_hangs_detached:
  assumes "hw_top (drv_hw D) = None" "hardware_cmd sqe = Inr cmd"
  shows "zns_process_nvme_command sqe cqe D = None"
proof -
  have "hw_top (drv_hw (csr_write32 val a D')) = None" if "hw_top (drv_hw D') = None" for val a D'
    using that by (simp add: csr_write32_def present_lba_def bridge_defs Let_def split: csr_addr.split)
  then show ?thesis
    using assms poll_status_detached by (simp add: zns_process_nvme_command_def Let_def)
qed

theorem driver_hangs_detached_witness:
  "zns_process_nvme_command (write_sqe 0) zero_cqe (booted_driver\<lparr>drv_hw := blank_hw None\<rparr>) = None"
  by (rule driver_hangs_detached) (simp_all add: blank_hw_def)

end
