(* ===== verification/Nbd_Properties.thy ===== *)
theory Nbd_Properties
  imports Zns_Properties
begin

text \<open>
  Properties of the block server of \<open>nbd_server.cpp\<close>: what a write, a read, a trim and a
  management reset do to the disk and to the zone table, and the transmission loop on a
  write request followed by a read request. A request is \<open>served\<close> when its range lies on
  the disk and is not empty, which puts its zone inside the descriptor table.
\<close>

section \<open>Requests on the disk\<close>

definition served :: "nbd_request \<Rightarrow> bool" where
  "served r \<longleftrightarrow> in_disk r \<and> 0 < rq_len r"

lemmas nbd_geometry = TOTAL_SIZE_BYTES_def NUM_ZONES_def ZONE_SIZE_PAGES_def NBD_PAGE_SIZE_def zone_size_bytes_def

lemma served_target:
  assumes "served r"
  shows "unat (target_zone_id r) = unat (rq_from r) div zone_size_bytes"
    and "unat (target_page r) = (unat (rq_from r) mod zone_size_bytes) div NBD_PAGE_SIZE"
    and "in_bram (target_zone_id r)" "unat (target_page r) < 64" "in_disk r"
proof -
  have pos: "0 < unat (rq_len r)" using assms by (simp add: served_def unat_gt_0 word_neq_0_conv)
  have from_lt: "unat (rq_from r) < 268435456" using assms pos by (simp add: served_def in_disk_def nbd_geometry)
  have z: "unat (rq_from r) div 262144 < 1024" using from_lt by (simp add: less_mult_imp_div_less)
  have p: "unat (rq_from r) mod 262144 div 4096 < 64" by (simp add: less_mult_imp_div_less)
  show "unat (target_zone_id r) = unat (rq_from r) div zone_size_bytes"
    using z by (simp add: target_zone_id_def nbd_geometry unat_of_nat)
  then show "in_bram (target_zone_id r)" using z by (simp add: in_bram_def BRAM_CELLS_def nbd_geometry)
  show pg: "unat (target_page r) = (unat (rq_from r) mod zone_size_bytes) div NBD_PAGE_SIZE"
    using p by (simp add: target_page_def nbd_geometry unat_of_nat)
  show "unat (target_page r) < 64" unfolding pg using p by (simp add: nbd_geometry)
  show "in_disk r" using assms by (simp add: served_def)
qed

lemma disk_store_slice [simp]: "length bs = n \<Longrightarrow> disk_slice (disk_store a bs disk) a n = bs"
  by (auto simp: disk_slice_def disk_store_def intro: nth_equalityI)

text \<open>The write that follows the alignment is refused only for want of an open zone or heat.\<close>

definition write_admitted :: "nbd_request \<Rightarrow> zns_dev \<Rightarrow> bool" where
  "write_admitted r d \<longleftrightarrow> \<not> zd_hot d \<and> (target_page r = 0 \<longrightarrow> unat (zd_open d) < 4)"

lemma align_dev_fields [simp]:
  "zd_hot (align_dev r d) = zd_hot d" "zd_open (align_dev r d) = zd_open d"
  "zd_bram (align_dev r d) (unat (target_zone_id r)) =
     pack_zone (zone_erase_cnt (zd_bram d (unat (target_zone_id r)))) False (ucast (target_page r))"
  by (simp_all add: align_dev_def)

lemma page_ucast:
  fixes p :: u32
  assumes "unat p < 64"
  shows "unat (ucast p :: 7 word) = unat p"
  using assms by (simp add: unsigned_ucast_eq take_bit_nat_eq_self_iff)

lemma aligned_write_status:
  assumes "served r"
  shows "fst (fst (zns_command 1 (target_zone_id r) (target_page r) (align_dev r d))) = 3 \<longleftrightarrow> write_admitted r d"
proof (cases "zd_hot d")
  case True
  then show ?thesis by (simp add: zns_command_def hot_verdict Let_def write_admitted_def)
next
  case False
  note t = served_target [OF assms]
  let ?w = "pack_zone (zone_erase_cnt (zd_bram d (unat (target_zone_id r)))) False (ucast (target_page r))"
  have ok: "zone_ok ?w" using t(4) page_ucast [OF t(4)] by (simp add: zone_ok_def zone_word_simps)
  show ?thesis
    using write_verdict [OF ok, of "align_dev r d" "target_page r"] False t(4) page_ucast [OF t(4)]
    by (auto simp: zns_command_inside [OF t(3)] Let_def zone_word_simps write_admitted_def unat_eq_0)
qed

lemma nbd_write_outcome:
  assumes "hw_idle (nbd_hw s) d" "served r"
  obtains h where "nbd_write r buf s = Some (reply_to r 0, s\<lparr>nbd_hw := h, user_disk_storage :=
      (if write_admitted r d then disk_store (unat (rq_from r)) buf (user_disk_storage s) else user_disk_storage s)\<rparr>)"
    and "hw_idle h (snd (zns_command 1 (target_zone_id r) (target_page r) (align_dev r d)))"
  by (rule nbd_write_idle [OF assms(1) served_target(3,5) [OF assms(2)], of buf])
     (simp add: aligned_write_status [OF assms(2)] that)

lemma nbd_read_outcome:
  assumes "hw_idle (nbd_hw s) d" "served r"
  obtains h where "nbd_read r s = Some (reply_to r 0 @
      disk_slice (user_disk_storage s) (unat (rq_from r)) (unat (rq_len r)), s\<lparr>nbd_hw := h\<rparr>)"
    and "mock_bram_storage h = zd_bram d" "\<exists>c. hw_core h c \<and> c_state c = ST_BRAM_WAIT"
proof -
  from nbd_start_core [OF assms(1), of "target_zone_id r" 0 "target_page r"] obtain c where
    c: "hw_core (sim_set_io_trigger 1 (sim_set_validated_target_page (target_page r)
            (sim_set_validated_zone_id (target_zone_id r) (sim_set_io_cmd 0 (nbd_hw s))))) c"
    "triggered c" "c_bram c = zd_bram d" by metis
  show thesis
    by (rule that) (use start_only [OF c(1,2)] c(3) served_target(5) [OF assms(2)] in
      \<open>auto simp: nbd_read_def Let_def split_beta\<close>)
qed

section \<open>A booted server\<close>

definition booted_nbd :: nbd where
  "booted_nbd = \<lparr>nbd_hw = booted_hw, user_disk_storage = (\<lambda>_. 0)\<rparr>"

definition small_request :: "u32 \<Rightarrow> u64 \<Rightarrow> nbd_request" where
  "small_request ty from = \<lparr>rq_magic = ZNS_NBD_REQUEST_MAGIC, rq_type = ty, rq_handle = replicate 8 7,
     rq_from = from, rq_len = 4\<rparr>"

lemma small_served: "unat from \<le> 268435452 \<Longrightarrow> served (small_request ty from)"
  by (simp add: small_request_def served_def in_disk_def nbd_geometry)

lemma booted_nbd_idle: "hw_idle (nbd_hw booted_nbd) fresh_dev"
  by (simp add: booted_nbd_def booted_idle)

lemma fresh_admits: "write_admitted r fresh_dev"
  by (simp add: write_admitted_def fresh_dev_def)

section \<open>Reads and writes\<close>

text \<open>
  C12. From an idle device, a write request on the disk is always answered with success, and
  its bytes are stored exactly when the device has an open zone to spare or the target page
  is not the first of its zone, and the device is not too hot; the device is idle afterwards
  in the state of the validated write on the realigned descriptor.
\<close>

theorem nbd_write_behaviour:
  assumes "hw_idle (nbd_hw s) d" "served r"
  shows "\<exists>h. nbd_write r buf s = Some (reply_to r 0, s\<lparr>nbd_hw := h, user_disk_storage :=
      (if \<not> zd_hot d \<and> (target_page r \<noteq> 0 \<or> unat (zd_open d) < 4)
       then disk_store (unat (rq_from r)) buf (user_disk_storage s) else user_disk_storage s)\<rparr>)
     \<and> hw_idle h (snd (zns_command 1 (target_zone_id r) (target_page r) (align_dev r d)))"
  by (rule nbd_write_outcome [OF assms, of buf]) (auto simp: write_admitted_def)

theorem nbd_write_behaviour_witness:
  "\<exists>h. nbd_write (small_request 1 0) [1, 2, 3, 4] booted_nbd = Some (reply_to (small_request 1 0) 0,
      booted_nbd\<lparr>nbd_hw := h, user_disk_storage := disk_store 0 [1, 2, 3, 4] (\<lambda>_. 0)\<rparr>)"
  using nbd_write_behaviour [OF booted_nbd_idle small_served, of 0 1 "[1, 2, 3, 4]"]
  by (auto simp: fresh_dev_def small_request_def booted_nbd_def)

text \<open>
  A read request on the disk, made while the device is idle, is never refused: it
  answers success and the bytes on the disk whatever the zone's write pointer is. The
  device is left waiting for its block RAM, not idle, with the descriptors unchanged.
\<close>

theorem nbd_read_never_refused:
  assumes "hw_idle (nbd_hw s) d" "served r"
  shows "\<exists>h. nbd_read r s = Some (reply_to r 0 @
       disk_slice (user_disk_storage s) (unat (rq_from r)) (unat (rq_len r)), s\<lparr>nbd_hw := h\<rparr>)
     \<and> mock_bram_storage h = zd_bram d \<and> (\<exists>c. hw_core h c \<and> c_state c = ST_BRAM_WAIT)"
  by (rule nbd_read_outcome [OF assms]) blast

theorem nbd_read_never_refused_witness:
  "\<exists>h. nbd_read (small_request 0 8192) booted_nbd =
      Some (reply_to (small_request 0 8192) 0 @ [0, 0, 0, 0], booted_nbd\<lparr>nbd_hw := h\<rparr>)"
  using nbd_read_never_refused [OF booted_nbd_idle small_served, of 8192 0]
  by (auto simp: disk_slice_def small_request_def booted_nbd_def upt_rec)

lemma nbd_round_trip:
  assumes "hw_idle (nbd_hw s) d" "served w" "write_admitted w d"
    and "rq_from rd = rq_from w" "rq_len rd = rq_len w" "length buf = unat (rq_len w)"
  obtains s1 s2 where "nbd_write w buf s = Some (reply_to w 0, s1)" "nbd_read rd s1 = Some (reply_to rd 0 @ buf, s2)"
proof -
  from nbd_write_outcome [OF assms(1,2), of buf] obtain h where
    w: "nbd_write w buf s = Some (reply_to w 0,
          s\<lparr>nbd_hw := h, user_disk_storage := disk_store (unat (rq_from w)) buf (user_disk_storage s)\<rparr>)"
    and i: "hw_idle h (snd (zns_command 1 (target_zone_id w) (target_page w) (align_dev w d)))"
    using assms(3) by auto
  let ?s1 = "s\<lparr>nbd_hw := h, user_disk_storage := disk_store (unat (rq_from w)) buf (user_disk_storage s)\<rparr>"
  have "served rd" using assms(2,4,5) by (simp add: served_def in_disk_def)
  with i nbd_read_outcome [of ?s1 _ rd] obtain h2 where
    "nbd_read rd ?s1 = Some (reply_to rd 0 @ disk_slice (user_disk_storage ?s1) (unat (rq_from rd)) (unat (rq_len rd)),
       ?s1\<lparr>nbd_hw := h2\<rparr>)" by (metis nbd.select_convs(1) nbd.simps(3) nbd.surjective nbd.update_convs(1,2))
  then show thesis using that [OF w] assms(4-6) by simp
qed

section \<open>The transmission loop\<close>

lemma encode_request_length: "length (rq_handle r) = 8 \<Longrightarrow> length (encode_request r) = 28"
  by (simp add: encode_request_def)

lemma decode_encode_append: "length (rq_handle r) = 8 \<Longrightarrow> decode_request (encode_request r @ xs) = r"
  by (simp add: decode_request_def encode_request_def of_be_4 of_be_8)

definition serve_request :: "(nat \<Rightarrow> u8) \<Rightarrow> nbd_request \<Rightarrow> u8 list \<Rightarrow> nbd \<Rightarrow> (u8 list \<times> u8 list \<times> nbd) option" where
  "serve_request pad r inp s =
     (if rq_type r = NBD_CMD_LOCAL_READ then map_option (\<lambda>(out, s1). (out, inp, s1)) (nbd_read r s)
      else if rq_type r = NBD_CMD_LOCAL_WRITE then
        map_option (\<lambda>(out, s1). (out, drop (unat (rq_len r)) inp, s1)) (nbd_write r (recv_payload pad (unat (rq_len r)) inp) s)
      else if rq_type r = NBD_CMD_LOCAL_TRIM then map_option (\<lambda>(out, s1). (out, inp, s1)) (nbd_trim r s)
      else if rq_type r = NBD_CMD_LOCAL_FLUSH then Some (reply_to r 0, inp, s)
      else Some (reply_to r EINVAL, inp, s))"

lemma loop_serves:
  assumes "length (rq_handle r) = 8" "rq_magic r = ZNS_NBD_REQUEST_MAGIC" "rq_type r \<noteq> NBD_CMD_LOCAL_DISCONNECT"
  shows "transmission_loop pad buf (encode_request r @ rest) s =
     Option.bind (serve_request pad r rest s) (\<lambda>(out, rest1, s1). map_option (\<lambda>(outs, s2). (out @ outs, s2))
       (transmission_loop pad (encode_request r @ drop 28 buf) rest1 s1))"
proof -
  have len: "length (encode_request r) = 28" using encode_request_length [OF assms(1)] .
  then have ne: "encode_request r \<noteq> []" by auto
  have buf1: "fill_buf (take 28 (encode_request r @ rest)) buf = encode_request r @ drop 28 buf"
    using len by (simp add: fill_buf_def)
  show ?thesis
    unfolding transmission_loop.simps [of _ _ "encode_request r @ rest"] Let_def buf1 decode_encode_append [OF assms(1)]
    using assms len ne by (simp add: serve_request_def bind_map_option comp_def case_prod_beta')
qed

text \<open>
  Decoding the 28 header bytes of a request gives back the request that was encoded,
  in network byte order.
\<close>

theorem request_roundtrip:
  assumes "length (rq_handle r) = 8"
  shows "decode_request (encode_request r) = r \<and> length (encode_request r) = 28"
  using decode_encode [OF assms] encode_request_length [OF assms] by simp

theorem request_roundtrip_witness:
  "decode_request (encode_request (small_request 5 65536)) = small_request 5 65536
     \<and> length (encode_request (small_request 5 65536)) = 28"
  by (rule request_roundtrip) (simp add: small_request_def)

section \<open>Rewriting the first page of a zone\<close>

primrec nbd_write_all :: "nbd_request \<Rightarrow> u8 list list \<Rightarrow> nbd \<Rightarrow> nbd option" where
  "nbd_write_all r [] s = Some s"
| "nbd_write_all r (buf # bufs) s = Option.bind (nbd_write r buf s) (\<lambda>(out, s1). nbd_write_all r bufs s1)"

lemma first_page_opens:
  assumes "served r" "target_page r = 0" "\<not> zd_hot d" "unat (zd_open d) < 4"
  defines "d1 \<equiv> snd (zns_command 1 (target_zone_id r) (target_page r) (align_dev r d))"
  shows "unat (zd_open d1) = Suc (unat (zd_open d))" "\<not> zd_hot d1"
proof -
  have "write_admitted r d" using assms(3,4) by (simp add: write_admitted_def)
  then have "\<not> fst (zns_verdict 1 (target_page r) (zd_bram (align_dev r d) (unat (target_zone_id r))) (align_dev r d))"
    using aligned_write_status [OF assms(1), of d] zns_command_inside [OF served_target(3) [OF assms(1)]]
    by (auto simp: Let_def split: if_splits)
  then have "zd_open d1 = zd_open d + 1" "zd_hot d1 = zd_hot d"
    unfolding d1_def zns_command_inside [OF served_target(3) [OF assms(1)]] using assms(2)
    by (simp_all add: track_open_def zone_word_simps Let_def)
  then show "unat (zd_open d1) = Suc (unat (zd_open d))" "\<not> zd_hot d1"
    using assms(3,4) by (simp_all add: unat_word_ariths)
qed

text \<open>
  C40. The server realigns the descriptor before each write, so every write to the first page
  of the same zone counts as opening a zone. On an idle, cool device with \<open>k\<close> open zones, after \<open>4 - k\<close> writes of
  the first page of a zone inside the device a further write to that page is still answered with success, but the
  disk keeps its contents.
\<close>

theorem nbd_first_page_rewrites_lost:
  assumes "hw_idle (nbd_hw s) d" "\<not> zd_hot d" "served r" "target_page r = 0"
    and "unat (zd_open d) + length bufs = 4"
  shows "\<exists>s1 h. nbd_write_all r bufs s = Some s1 \<and> nbd_write r buf s1 = Some (reply_to r 0, s1\<lparr>nbd_hw := h\<rparr>)"
  using assms(1,2,5)
proof (induction bufs arbitrary: s d)
  case Nil
  then have "\<not> write_admitted r d" using assms(4) by (simp add: write_admitted_def)
  then show ?case using nbd_write_outcome [OF Nil.prems(1) assms(3), of buf] by auto
next
  case (Cons b bufs)
  have room: "unat (zd_open d) < 4" using Cons.prems(3) by simp
  from nbd_write_outcome [OF Cons.prems(1) assms(3), of b] obtain s1 where
    w: "nbd_write r b s = Some (reply_to r 0, s1)"
    and i: "hw_idle (nbd_hw s1) (snd (zns_command 1 (target_zone_id r) (target_page r) (align_dev r d)))"
    by (metis nbd.select_convs(1) nbd.surjective nbd.update_convs(1,2))
  note o = first_page_opens [OF assms(3,4) Cons.prems(2) room]
  show ?case using Cons.IH [OF i o(2)] o(1) Cons.prems(3) w by simp
qed

theorem nbd_first_page_rewrites_lost_witness:
  "\<exists>s1 h. nbd_write_all (small_request 1 0) [[1], [2], [3], [4]] booted_nbd = Some s1
     \<and> nbd_write (small_request 1 0) [5, 6, 7, 8] s1 = Some (reply_to (small_request 1 0) 0, s1\<lparr>nbd_hw := h\<rparr>)"
  by (rule nbd_first_page_rewrites_lost [OF booted_nbd_idle fresh_dev_ok(3) small_served])
     (simp_all add: small_request_def target_page_def fresh_dev_def)

section \<open>Trim and management reset\<close>

text \<open>
  A trim request made while the device is idle clears the bytes of its range and answers
  success, but the zone reset it starts is never executed: no descriptor changes.
\<close>

theorem nbd_trim_never_resets:
  assumes "hw_idle (nbd_hw s) d" "served r"
  shows "\<exists>h. nbd_trim r s = Some (reply_to r 0, s\<lparr>nbd_hw := h, user_disk_storage :=
       disk_store (unat (rq_from r)) (replicate (unat (rq_len r)) 0) (user_disk_storage s)\<rparr>)
     \<and> mock_bram_storage h = mock_bram_storage (nbd_hw s)"
proof -
  from nbd_start_core [OF assms(1), of "target_zone_id r" 2] obtain c where
    c: "hw_core (sim_set_io_trigger 1 (sim_set_validated_zone_id (target_zone_id r) (sim_set_io_cmd 2 (nbd_hw s)))) c"
    "triggered c" "c_bram c = zd_bram d" by metis
  show ?thesis
    using start_only [OF c(1,2)] c(3) served_target(5) [OF assms(2)] idle_bram [OF assms(1)]
    by (auto simp: nbd_trim_def Let_def split_beta)
qed

theorem nbd_trim_never_resets_witness:
  "\<exists>h. nbd_trim (small_request 5 4) booted_nbd = Some (reply_to (small_request 5 4) 0,
      booted_nbd\<lparr>nbd_hw := h, user_disk_storage := disk_store 4 [0, 0, 0, 0] (\<lambda>_. 0)\<rparr>)
     \<and> mock_bram_storage h = mock_bram_storage (nbd_hw booted_nbd)"
proof -
  have "replicate 4 (0 :: u8) = [0, 0, 0, 0]" by (simp add: numeral_eq_Suc)
  then show ?thesis
    using nbd_trim_never_resets [OF booted_nbd_idle small_served, of 4 5]
    by (simp add: small_request_def booted_nbd_def)
qed

text \<open>
  The management channel's reset of one zone zeroes that zone's bytes on the disk and
  clears the descriptors of all 1024 zones, whatever the state of the device.
\<close>

theorem mgmt_reset_clears_all:
  assumes "unat zone_id < 1024" "z < BRAM_CELLS"
  shows "\<exists>s'. mgmt_reset zone_id s = Some ([1], s') \<and> mock_bram_storage (nbd_hw s') z = 0
     \<and> user_disk_storage s' = disk_store (unat zone_id * 262144) (replicate 262144 0) (user_disk_storage s)"
  using assms by (simp add: mgmt_reset_def Let_def split_beta nbd_geometry)

theorem mgmt_reset_clears_all_witness:
  "\<exists>s'. mgmt_reset 3 booted_nbd = Some ([1], s') \<and> mock_bram_storage (nbd_hw s') 700 = 0
     \<and> user_disk_storage s' = disk_store (3 * 262144) (replicate 262144 0) (user_disk_storage booted_nbd)"
  using mgmt_reset_clears_all [of 3 700 booted_nbd] by (simp add: BRAM_CELLS_def)

section \<open>Negotiation\<close>

text \<open>
  A client that sends its four flag bytes and an export-name option (option 1) with any
  name is accepted: the server sends its greeting and then the export reply, whose size
  field is 256 MiB, and leaves exactly the bytes after the name for the transmission phase.
\<close>

theorem negotiation_accepts_export:
  assumes "length flags = 4" "length opt_magic = 8" "length name < 2 ^ 32 - 1"
  shows "run_nbd_negotiation hdr (flags @ opt_magic @ be_bytes 4 (1 :: u32) @
         be_bytes 4 (word_of_nat (length name) :: u32) @ name @ rest) =
       Some (True, nbd_greeting @ be_bytes 8 (268435456 :: u64) @ be_bytes 2 (1 :: u16), rest)"
proof -
  let ?hd = "opt_magic @ be_bytes 4 (1 :: u32) @ be_bytes 4 (word_of_nat (length name) :: u32)"
  have len: "length ?hd = 16" using assms(2) by simp
  have n: "unat (word_of_nat (length name) :: u32) = length name" using assms(3) by (simp add: unat_of_nat)
  then have small: "(word_of_nat (length name) :: u32) \<noteq> 0xFFFFFFFF" using assms(3) by auto
  have "option_loop hdr (?hd @ name @ rest) = Some (True, export_reply, rest)"
    unfolding option_loop.simps [of hdr "?hd @ name @ rest"] Let_def using len n small assms(2)
    by (auto simp: fill_buf_def of_be_4)
  then show ?thesis
    using assms(1) by (simp add: run_nbd_negotiation_def export_reply_def nbd_geometry)
qed

theorem negotiation_accepts_export_witness:
  "run_nbd_negotiation [] ([0, 0, 0, 3] @ replicate 8 0 @ be_bytes 4 (1 :: u32) @
         be_bytes 4 (word_of_nat (length [100 :: u8, 105]) :: u32) @ [100, 105] @ [42]) =
       Some (True, nbd_greeting @ be_bytes 8 (268435456 :: u64) @ be_bytes 2 (1 :: u16), [42])"
  by (rule negotiation_accepts_export) simp_all

end
