(* ===== verification/Nbd_Session.thy ===== *)
theory Nbd_Session
  imports Nbd_Properties
begin

text \<open>
  Whole sessions with the block server. A read or a trim starts a command and leaves after two cycles, so
  the next request finds the state machine where that one left it. \<open>phase\<close> is where that can be;
  \<open>serve_spec\<close> says what a request does in each phase, in terms of whole descriptors and bytes, without
  clock cycles. The handlers of \<open>nbd_server.cpp\<close> refine it, request by request and on the wire.
\<close>

section \<open>Phases of the device between requests\<close>

text \<open>
  \<open>Waiting z\<close>: a command for zone \<open>z\<close> has been started and its descriptor is about to be read.
  \<open>Granted z w\<close>: the verdict was positive, the next command executes on zone \<open>z\<close> with descriptor \<open>w\<close>.
\<close>

datatype phase = Idle | Waiting u32 | Refused | Granted u32 u32

definition admits :: "u8 \<Rightarrow> u32 \<Rightarrow> u32 \<Rightarrow> zns_dev \<Rightarrow> bool" where
  "admits cmd pg w d \<longleftrightarrow> \<not> fst (zns_verdict cmd pg w d)"

definition execute :: "u8 \<Rightarrow> u32 \<Rightarrow> u32 \<Rightarrow> zns_dev \<Rightarrow> zns_dev" where
  "execute cmd z w d = (let n = next_descriptor cmd w (zd_wdata d) in
     d\<lparr>zd_bram := (zd_bram d)(unat z := n), zd_wdata := n, zd_open := track_open cmd w (zd_open d)\<rparr>)"

text \<open>One status poll, then the trigger is released for one cycle: whether the poll reports an error, and what is left.\<close>

fun poll_once :: "u8 \<Rightarrow> u32 \<Rightarrow> u32 \<Rightarrow> phase \<Rightarrow> zns_dev \<Rightarrow> bool \<times> phase \<times> zns_dev" where
  "poll_once cmd z pg Idle d = (False, Waiting z, d)"
| "poll_once cmd z pg (Waiting z0) d =
     (False, if admits cmd pg (zd_bram d (unat z0)) d then Granted z (zd_bram d (unat z)) else Refused, d)"
| "poll_once cmd z pg Refused d = (True, Idle, d)"
| "poll_once cmd z pg (Granted z0 w) d = (False, Idle, execute cmd z0 w d)"

text \<open>A write polls until there is a verdict: whether it is positive, and the device, which is idle then.\<close>

fun poll_verdict :: "u32 \<Rightarrow> u32 \<Rightarrow> phase \<Rightarrow> zns_dev \<Rightarrow> bool \<times> zns_dev" where
  "poll_verdict z pg Idle d =
     (if admits 1 pg (zd_bram d (unat z)) d then (True, execute 1 z (zd_bram d (unat z)) d) else (False, d))"
| "poll_verdict z pg (Waiting z0) d =
     (if admits 1 pg (zd_bram d (unat z0)) d then (True, execute 1 z (zd_bram d (unat z)) d) else (False, d))"
| "poll_verdict z pg Refused d = (False, d)"
| "poll_verdict z pg (Granted z0 w) d = (True, execute 1 z0 w d)"

section \<open>The hardware is in a phase\<close>

fun in_phase :: "phase \<Rightarrow> core \<Rightarrow> bool" where
  "in_phase Idle c \<longleftrightarrow> c_state c = ST_IDLE"
| "in_phase (Waiting z) c \<longleftrightarrow> c_state c = ST_BRAM_WAIT \<and> \<not> c_we c \<and> c_status c = 2 \<and> c_addr c = z \<and> in_bram z"
| "in_phase Refused c \<longleftrightarrow> c_state c = ST_ERROR \<and> \<not> c_we c"
| "in_phase (Granted z w) c \<longleftrightarrow> c_state c = ST_EXECUTE \<and> c_status c = 2 \<and> c_addr c = z \<and> in_bram z \<and> c_latch c = w"

definition hw_phase :: "hw \<Rightarrow> phase \<Rightarrow> zns_dev \<Rightarrow> bool" where
  "hw_phase h ph d \<longleftrightarrow> (\<exists>c. hw_core h c \<and> \<not> c_trigger c \<and> in_phase ph c \<and> dev_of c = d)"

lemma hw_phase_idle: "hw_phase h Idle d \<longleftrightarrow> hw_idle h d"
  by (auto simp: hw_phase_def hw_idle_def)

definition started :: "u8 \<Rightarrow> u32 \<Rightarrow> u32 \<Rightarrow> core \<Rightarrow> core" where
  "started cmd z pg c = c\<lparr>c_cmd := cmd, c_zone := z, c_page := pg, c_trigger := True\<rparr>"

lemma poll_once_core:
  assumes "in_phase ph c" "in_bram z" "poll_once cmd z pg ph (dev_of c) = (e, ph', d')"
  defines "c1 \<equiv> core_cycle (started cmd z pg c)"
  defines "c2 \<equiv> core_cycle (c1\<lparr>c_trigger := False\<rparr>)"
  shows "(c_status c1 = 1) = e" "in_phase ph' c2" "\<not> c_trigger c2" "dev_of c2 = d'"
  using assms
  by (cases ph; auto simp: c1_def c2_def started_def core_step_defs dev_of_def admits_def zns_verdict_def core_verdict_def
      core_word_def execute_def split: if_splits)+

text \<open>The write sees its verdict after \<open>Suc k\<close> cycles, and one cycle after the release the device is idle.\<close>

definition verdict_after :: "nat \<Rightarrow> core \<Rightarrow> bool \<Rightarrow> zns_dev \<Rightarrow> bool" where
  "verdict_after k c ok d' \<longleftrightarrow> (\<forall>i<k. c_status ((core_cycle ^^ Suc i) c) \<noteq> 1 \<and> c_status ((core_cycle ^^ Suc i) c) \<noteq> 3)
     \<and> c_status ((core_cycle ^^ Suc k) c) = (if ok then 3 else 1)
     \<and> (let c' = core_cycle (((core_cycle ^^ Suc k) c)\<lparr>c_trigger := False\<rparr>) in in_phase Idle c' \<and> \<not> c_trigger c' \<and> dev_of c' = d')"

lemma verdict_step:
  assumes "c_status (core_cycle c) \<noteq> 1" "c_status (core_cycle c) \<noteq> 3" "verdict_after k (core_cycle c) ok d'"
  shows "verdict_after (Suc k) c ok d'"
  using assms unfolding verdict_after_def by (auto simp: less_Suc_eq_0_disj funpow_swap1)

lemma verdict_refused:
  assumes "in_phase Refused c"
  shows "verdict_after 0 (started 1 z pg c) False (dev_of c)"
  using assms by (simp add: verdict_after_def started_def core_step_defs dev_of_def)

lemma verdict_granted:
  assumes "in_phase (Granted z0 w) c"
  shows "verdict_after 1 (started 1 z pg c) True (execute 1 z0 w (dev_of c))"
  using assms by (simp add: verdict_after_def started_def core_step_defs dev_of_def core_word_def execute_def)

text \<open>A descriptor \<open>w\<close> is at the read port and the verdict on it is due.\<close>

definition validating :: "u32 \<Rightarrow> u32 \<Rightarrow> u32 \<Rightarrow> core \<Rightarrow> bool" where
  "validating z pg w c \<longleftrightarrow> c_state c = ST_VALIDATE \<and> c_status c = 2 \<and> \<not> c_we c \<and> c_addr c = z \<and> in_bram z \<and> c_latch c = w
     \<and> started 1 z pg c = c"

lemma validate_verdict:
  assumes "validating z pg w c" "(if admits 1 pg w (dev_of c) then (True, execute 1 z (zd_bram (dev_of c) (unat z)) (dev_of c))
      else (False, dev_of c)) = (ok, d')"
  shows "\<exists>k<4. verdict_after k c ok d'"
proof -
  have fields: "c_cmd c = 1" "c_zone c = z" "c_page c = pg" "c_trigger c"
    using assms(1) unfolding validating_def started_def by (metis core.select_convs core.surjective core.update_convs)+
  let ?c = "core_cycle c"
  have st: "started 1 z pg ?c = ?c" "c_status ?c = 2" "dev_of ?c = dev_of c"
    using assms(1) fields by (auto simp: validating_def started_def core_step_defs dev_of_def)
  have v: "in_phase (if admits 1 pg w (dev_of c) then Granted z (zd_bram (dev_of c) (unat z)) else Refused) ?c"
    using assms(1) fields by (auto simp: validating_def core_step_defs admits_def core_verdict_dev core_word_def dev_of_def)
  show ?thesis
  proof (cases "admits 1 pg w (dev_of c)")
    case True
    then have "verdict_after 1 ?c ok d'" using verdict_granted [of z _ ?c z pg] v st assms(2) by auto
    then have "verdict_after 2 c ok d'" using verdict_step [of c 1] st(2) by (simp add: numeral_2_eq_2)
    then show ?thesis by force
  next
    case False
    then have "verdict_after 0 ?c ok d'" using verdict_refused [of ?c z pg] v st assms(2) by auto
    then have "verdict_after 1 c ok d'" using verdict_step [of c 0] st(2) by simp
    then show ?thesis by force
  qed
qed

lemma poll_verdict_core:
  assumes "in_phase ph c" "in_bram z" "poll_verdict z pg ph (dev_of c) = (ok, d')"
  shows "\<exists>k<10. verdict_after k (started 1 z pg c) ok d'"
proof (cases ph)
  case Idle
  let ?c = "started 1 z pg c"
  have c3: "validating z pg (zd_bram (dev_of c) (unat z)) (core_cycle (core_cycle (core_cycle ?c)))"
    "dev_of (core_cycle (core_cycle (core_cycle ?c))) = dev_of c"
    using assms(1,2) Idle by (simp_all add: validating_def started_def core_step_defs dev_of_def)
  have st: "c_status (core_cycle ?c) = 0" "c_status (core_cycle (core_cycle ?c)) = 2" "c_status (core_cycle (core_cycle (core_cycle ?c))) = 2"
    using assms(1) Idle by (simp_all add: started_def core_step_defs)
  from validate_verdict [OF c3(1), unfolded c3(2)] assms(3) Idle obtain k where
    "k < 4" "verdict_after k (core_cycle (core_cycle (core_cycle ?c))) ok d'" by auto
  then have "verdict_after (Suc (Suc (Suc k))) ?c ok d'" using st by (auto intro!: verdict_step)
  with \<open>k < 4\<close> show ?thesis by (intro exI [of _ "Suc (Suc (Suc k))"]) simp
next
  case (Waiting z0)
  let ?c = "core_cycle (started 1 z pg c)"
  have c1: "validating z pg (zd_bram (dev_of c) (unat z0)) ?c" "dev_of ?c = dev_of c" "c_status ?c = 2"
    using assms(1,2) Waiting by (auto simp: validating_def started_def core_step_defs dev_of_def)
  from validate_verdict [OF c1(1), unfolded c1(2)] assms(3) Waiting obtain k where "k < 4" "verdict_after k ?c ok d'" by auto
  then have "verdict_after (Suc k) (started 1 z pg c) ok d'" using c1(3) by (auto intro!: verdict_step)
  with \<open>k < 4\<close> show ?thesis by (intro exI [of _ "Suc k"]) simp
next
  case Refused
  then show ?thesis using verdict_refused [of c z pg] assms by (intro exI [of _ 0]) auto
next
  case (Granted z0 w)
  then show ?thesis using verdict_granted [of z0 w c z pg] assms by force
qed

section \<open>The handlers\<close>

lemma hw_started:
  assumes "hw_core h c"
  shows "hw_core (sim_set_io_trigger 1 (sim_set_validated_target_page pg (sim_set_validated_zone_id z (sim_set_io_cmd cmd h)))) (started cmd z pg c)"
    and "hw_core (sim_set_io_trigger 1 (sim_set_validated_zone_id z (sim_set_io_cmd cmd h))) (started cmd z (c_page c) c)"
  using core_set_trigger [OF core_set_page [OF core_set_zone [OF core_set_cmd [OF assms]]], of 1 pg z cmd]
    core_set_trigger [OF core_set_zone [OF core_set_cmd [OF assms]], of 1 z cmd]
  by (simp_all add: started_def)

lemma request_once:
  assumes "hw_core h (started cmd z pg c)" "in_phase ph c" "in_bram z" "poll_once cmd z pg ph (dev_of c) = (e, ph', d')"
  shows "(fst (sim_get_out_status h) = 1) = e"
    and "hw_phase (verilator_tick_hardware (sim_set_io_trigger 0 (snd (sim_get_out_status h)))) ph' d'"
proof -
  note p = poll_once_core [OF assms(2-4)]
  note st = core_get_status [OF assms(1)]
  show "(fst (sim_get_out_status h) = 1) = e" using p(1) st by simp
  have "hw_core (verilator_tick_hardware (sim_set_io_trigger 0 (snd (sim_get_out_status h))))
      (core_cycle ((core_cycle (started cmd z pg c))\<lparr>c_trigger := False\<rparr>))"
    using core_tick [OF core_set_trigger [OF core_tick [OF assms(1)], of 0]] st by simp
  then show "hw_phase (verilator_tick_hardware (sim_set_io_trigger 0 (snd (sim_get_out_status h)))) ph' d'"
    using p(2-4) unfolding hw_phase_def by blast
qed

lemma request_verdict:
  assumes "hw_core h (started 1 z pg c)" "in_phase ph c" "in_bram z" "poll_verdict z pg ph (dev_of c) = (ok, d')"
  shows "fst (poll_write 10 0 h) = (if ok then 3 else 1)"
    and "hw_phase (verilator_tick_hardware (sim_set_io_trigger 0 (snd (poll_write 10 0 h)))) Idle d'"
proof -
  from poll_verdict_core [OF assms(2-4)] obtain k where k: "k < 10" and v: "verdict_after k (started 1 z pg c) ok d'" by blast
  have st: "c_status ((core_cycle ^^ Suc k) (started 1 z pg c)) = (if ok then 3 else 1)" using v by (simp add: verdict_after_def)
  have p: "poll_write 10 0 h = (if ok then 3 else 1, (verilator_tick_hardware ^^ Suc k) h)"
  proof -
    have "\<forall>i<k. c_status ((core_cycle ^^ Suc i) (started 1 z pg c)) \<noteq> 1 \<and> c_status ((core_cycle ^^ Suc i) (started 1 z pg c)) \<noteq> 3"
      using v unfolding verdict_after_def by (rule conjunct1)
    from poll_write_returns [OF assms(1) k this] show ?thesis unfolding st by simp
  qed
  show "fst (poll_write 10 0 h) = (if ok then 3 else 1)" using p by simp
  have "hw_core (verilator_tick_hardware (sim_set_io_trigger 0 (snd (poll_write 10 0 h))))
      (core_cycle (((core_cycle ^^ Suc k) (started 1 z pg c))\<lparr>c_trigger := False\<rparr>))"
    using core_tick [OF core_set_trigger [OF core_ticks [OF assms(1), of "Suc k"], of 0]] p by simp
  then show "hw_phase (verilator_tick_hardware (sim_set_io_trigger 0 (snd (poll_write 10 0 h)))) Idle d'"
    using v unfolding verdict_after_def hw_phase_def Let_def by blast
qed

section \<open>The specification of the server\<close>

record session =
  ss_phase :: phase
  ss_dev :: zns_dev
  ss_disk :: "nat \<Rightarrow> u8"

definition serve_spec :: "nbd_request \<Rightarrow> u8 list \<Rightarrow> session \<Rightarrow> u8 list \<times> session" where
  "serve_spec r bs s =
     (let z = target_zone_id r; pg = target_page r; start = unat (rq_from r); len = unat (rq_len r) in
      if rq_type r = NBD_CMD_LOCAL_READ then
        (let (e, ph, d) = poll_once 0 z pg (ss_phase s) (ss_dev s) in
         (if e then reply_to r EIO else reply_to r 0 @ disk_slice (ss_disk s) start len, s\<lparr>ss_phase := ph, ss_dev := d\<rparr>))
      else if rq_type r = NBD_CMD_LOCAL_WRITE then
        (let (ok, d) = poll_verdict z pg (ss_phase s) (align_dev r (ss_dev s)) in
         (reply_to r 0, \<lparr>ss_phase = Idle, ss_dev = d, ss_disk = (if ok then disk_store start bs (ss_disk s) else ss_disk s)\<rparr>))
      else if rq_type r = NBD_CMD_LOCAL_TRIM then
        (let (e, ph, d) = poll_once 2 z 0 (ss_phase s) (ss_dev s) in
         (reply_to r 0, \<lparr>ss_phase = ph, ss_dev = d, ss_disk = disk_store start (replicate len 0) (ss_disk s)\<rparr>))
      else if rq_type r = NBD_CMD_LOCAL_FLUSH then (reply_to r 0, s)
      else (reply_to r EINVAL, s))"

definition refines :: "nbd \<Rightarrow> session \<Rightarrow> bool" where
  "refines s t \<longleftrightarrow> hw_phase (nbd_hw s) (ss_phase t) (ss_dev t) \<and> user_disk_storage s = ss_disk t"

lemma admits_reset: "admits 2 pg w d = admits 2 pg' w d"
  by (simp add: admits_def zns_verdict_def zns_rules_checker_def)

lemma poll_once_reset: "poll_once 2 z pg ph d = poll_once 2 z pg' ph d"
  using admits_reset [of pg _ _ pg'] by (cases ph) simp_all

lemma nbd_read_refines:
  assumes "refines s t" "served r" "rq_type r = NBD_CMD_LOCAL_READ"
  shows "\<exists>s'. nbd_read r s = Some (fst (serve_spec r bs t), s') \<and> refines s' (snd (serve_spec r bs t))"
proof -
  from assms(1) obtain c where c: "hw_core (nbd_hw s) c" "in_phase (ss_phase t) c" "dev_of c = ss_dev t" "user_disk_storage s = ss_disk t"
    by (auto simp: refines_def hw_phase_def)
  obtain e ph d where p: "poll_once 0 (target_zone_id r) (target_page r) (ss_phase t) (dev_of c) = (e, ph, d)" by (metis prod_cases3)
  note o = request_once [OF hw_started(1) [OF c(1)] c(2) served_target(3) [OF assms(2)] p]
  show ?thesis
    using o p c(3,4) served_target(5) [OF assms(2)] assms(3)
    by (auto simp: nbd_read_def serve_spec_def Let_def split_beta refines_def NBD_CMD_LOCAL_READ_def)
qed

lemma nbd_trim_refines:
  assumes "refines s t" "served r" "rq_type r = NBD_CMD_LOCAL_TRIM"
  shows "\<exists>s'. nbd_trim r s = Some (fst (serve_spec r bs t), s') \<and> refines s' (snd (serve_spec r bs t))"
proof -
  from assms(1) obtain c where c: "hw_core (nbd_hw s) c" "in_phase (ss_phase t) c" "dev_of c = ss_dev t" "user_disk_storage s = ss_disk t"
    by (auto simp: refines_def hw_phase_def)
  obtain e ph d where p: "poll_once 2 (target_zone_id r) 0 (ss_phase t) (dev_of c) = (e, ph, d)" by (metis prod_cases3)
  note o = request_once [OF hw_started(2) [OF c(1)] c(2) served_target(3) [OF assms(2)] p [unfolded poll_once_reset [of _ 0 _ _ "c_page c"]]]
  show ?thesis
    using o p c(3,4) served_target(5) [OF assms(2)] assms(3)
    by (auto simp: nbd_trim_def serve_spec_def Let_def split_beta refines_def NBD_CMD_LOCAL_READ_def NBD_CMD_LOCAL_WRITE_def NBD_CMD_LOCAL_TRIM_def)
qed

lemma nbd_write_refines:
  assumes "refines s t" "served r" "rq_type r = NBD_CMD_LOCAL_WRITE"
  shows "\<exists>s'. nbd_write r bs s = Some (fst (serve_spec r bs t), s') \<and> refines s' (snd (serve_spec r bs t))"
proof -
  from assms(1) obtain c where c: "hw_core (nbd_hw s) c" "in_phase (ss_phase t) c" "dev_of c = ss_dev t" "user_disk_storage s = ss_disk t"
    by (auto simp: refines_def hw_phase_def)
  let ?m = "zd_bram (align_dev r (ss_dev t))"
  let ?c = "c\<lparr>c_bram := ?m\<rparr>"
  have "mock_bram_storage (nbd_hw s) = zd_bram (ss_dev t)" using core_bram [OF c(1)] unfolding c(3) [symmetric] by (simp add: dev_of_def)
  then have al: "align_wptr r (nbd_hw s) = Some ((nbd_hw s)\<lparr>mock_bram_storage := ?m\<rparr>)"
    using served_target(3) [OF assms(2)] unfolding align_wptr_def Let_def aligned_word align_dev_def by simp
  have ph: "in_phase (ss_phase t) ?c" using c(2) by (cases "ss_phase t") simp_all
  have dev: "dev_of ?c = align_dev r (ss_dev t)" unfolding c(3) [symmetric] by (simp add: dev_of_def align_dev_def)
  obtain ok d where p: "poll_verdict (target_zone_id r) (target_page r) (ss_phase t) (dev_of ?c) = (ok, d)" by fastforce
  note o = request_verdict [OF hw_started(1) [OF core_set_bram [OF c(1)]] ph served_target(3) [OF assms(2)] p]
  show ?thesis
    using o p dev c(4) served_target(5) [OF assms(2)] assms(3)
    by (auto simp: nbd_write_def al serve_spec_def Let_def split_beta refines_def NBD_CMD_LOCAL_READ_def NBD_CMD_LOCAL_WRITE_def)
qed

section \<open>Sessions on the wire\<close>

text \<open>A request of a session: on the disk if it names a range, with its payload if it is a write.\<close>

definition session_request :: "nbd_request \<times> u8 list \<Rightarrow> bool" where
  "session_request = (\<lambda>(r, bs). length (rq_handle r) = 8 \<and> rq_magic r = ZNS_NBD_REQUEST_MAGIC \<and> rq_type r \<noteq> NBD_CMD_LOCAL_DISCONNECT \<and> served r
     \<and> length bs = (if rq_type r = NBD_CMD_LOCAL_WRITE then unat (rq_len r) else 0))"

definition session_wire :: "(nbd_request \<times> u8 list) list \<Rightarrow> u8 list" where
  "session_wire rs = concat (map (\<lambda>(r, bs). encode_request r @ bs) rs)"

fun session_spec :: "(nbd_request \<times> u8 list) list \<Rightarrow> session \<Rightarrow> u8 list \<times> session" where
  "session_spec [] t = ([], t)"
| "session_spec ((r, bs) # rs) t = (let (out, t1) = serve_spec r bs t; (outs, t2) = session_spec rs t1 in (out @ outs, t2))"

lemma serve_request_refines:
  assumes "refines s t" "session_request (r, bs)"
  shows "\<exists>s'. serve_request pad r (bs @ rest) s = Some (fst (serve_spec r bs t), rest, s') \<and> refines s' (snd (serve_spec r bs t))"
proof -
  note q = assms(2)[unfolded session_request_def, simplified]
  have types: "NBD_CMD_LOCAL_WRITE \<noteq> NBD_CMD_LOCAL_READ" "NBD_CMD_LOCAL_TRIM \<noteq> NBD_CMD_LOCAL_READ" "NBD_CMD_LOCAL_TRIM \<noteq> NBD_CMD_LOCAL_WRITE"
    "NBD_CMD_LOCAL_FLUSH \<noteq> NBD_CMD_LOCAL_READ" "NBD_CMD_LOCAL_FLUSH \<noteq> NBD_CMD_LOCAL_WRITE" "NBD_CMD_LOCAL_FLUSH \<noteq> NBD_CMD_LOCAL_TRIM"
    by (simp_all add: NBD_CMD_LOCAL_READ_def NBD_CMD_LOCAL_WRITE_def NBD_CMD_LOCAL_TRIM_def NBD_CMD_LOCAL_FLUSH_def)
  consider "rq_type r = NBD_CMD_LOCAL_READ" | "rq_type r = NBD_CMD_LOCAL_WRITE" | "rq_type r = NBD_CMD_LOCAL_TRIM"
    | "rq_type r \<noteq> NBD_CMD_LOCAL_READ" "rq_type r \<noteq> NBD_CMD_LOCAL_WRITE" "rq_type r \<noteq> NBD_CMD_LOCAL_TRIM" by blast
  then show ?thesis
  proof cases
    case 1
    with q types nbd_read_refines [OF assms(1) _ 1, of bs] show ?thesis by (auto simp: serve_request_def)
  next
    case 2
    with q types nbd_write_refines [OF assms(1) _ 2, of bs] show ?thesis by (auto simp: serve_request_def recv_payload_def)
  next
    case 3
    with q types nbd_trim_refines [OF assms(1) _ 3, of bs] show ?thesis by (auto simp: serve_request_def)
  next
    case 4
    with q assms(1) show ?thesis by (auto simp: serve_request_def serve_spec_def Let_def)
  qed
qed

lemma session_refines:
  assumes "list_all session_request rs" "refines s t"
  shows "\<exists>s'. transmission_loop pad buf (session_wire rs) s = Some (fst (session_spec rs t), s') \<and> refines s' (snd (session_spec rs t))"
  using assms
proof (induction rs arbitrary: s t buf)
  case Nil
  then show ?case by (simp add: session_wire_def transmission_loop.simps)
next
  case (Cons q rs)
  obtain r bs where q: "q = (r, bs)" by fastforce
  from Cons.prems q have ok: "session_request (r, bs)" "list_all session_request rs" by simp_all
  from serve_request_refines [OF Cons.prems(2) ok(1), of pad "session_wire rs"] obtain s1 where
    s1: "serve_request pad r (bs @ session_wire rs) s = Some (fst (serve_spec r bs t), session_wire rs, s1)"
    "refines s1 (snd (serve_spec r bs t))" by blast
  from Cons.IH [OF ok(2) s1(2), of "encode_request r @ drop 28 buf"] obtain s2 where
    s2: "transmission_loop pad (encode_request r @ drop 28 buf) (session_wire rs) s1 = Some (fst (session_spec rs (snd (serve_spec r bs t))), s2)"
    "refines s2 (snd (session_spec rs (snd (serve_spec r bs t))))" by blast
  have "session_wire (q # rs) = encode_request r @ bs @ session_wire rs" by (simp add: q session_wire_def)
  then show ?case using ok(1) s1 s2 q by (simp add: session_request_def loop_serves split_beta Let_def)
qed

lemma small_session_read: "unat from \<le> 268435452 \<Longrightarrow> session_request (small_request 0 from, [])"
  using small_served [of "from" 0] by (simp add: session_request_def small_request_def NBD_CMD_LOCAL_DISCONNECT_def NBD_CMD_LOCAL_WRITE_def)

lemma small_session_write: "unat from \<le> 268435452 \<Longrightarrow> length bs = 4 \<Longrightarrow> session_request (small_request 1 from, bs)"
  using small_served [of "from" 1] by (simp add: session_request_def small_request_def NBD_CMD_LOCAL_DISCONNECT_def NBD_CMD_LOCAL_WRITE_def)

section \<open>Connections\<close>

text \<open>
  \<open>start_nbd_server_mod\<close> accepts one client after the other and enters the transmission loop at once;
  \<open>management_socket_thread\<close> reads eight bytes, in the byte order of the host, and resets that zone. \<open>serve_connections\<close> runs connections one after
  the other, in any order of the two kinds; the threads may also interleave within a connection, which is not
  modelled. \<open>buf\<close> is what the request structure on the stack holds at first.
\<close>

definition read_zone_id :: "u8 list \<Rightarrow> u64 option" where
  "read_zone_id inp = (if 8 \<le> length inp then Some (of_be (rev (take 8 inp))) else None)"

definition mgmt_connection :: "u8 list \<Rightarrow> nbd \<Rightarrow> (u8 list \<times> nbd) option" where
  "mgmt_connection inp s = (case read_zone_id inp of None \<Rightarrow> Some ([], s) | Some z \<Rightarrow> mgmt_reset z s)"

datatype connection = Client "u8 list" | Management "u8 list"

fun serve_connections :: "(nat \<Rightarrow> u8) \<Rightarrow> u8 list \<Rightarrow> connection list \<Rightarrow> nbd \<Rightarrow> (u8 list list \<times> nbd) option" where
  "serve_connections pad buf [] s = Some ([], s)"
| "serve_connections pad buf (q # qs) s = do {
     (out, s1) \<leftarrow> (case q of Client inp \<Rightarrow> transmission_loop pad buf inp s | Management inp \<Rightarrow> mgmt_connection inp s);
     (outs, s2) \<leftarrow> serve_connections pad buf qs s1;
     Some (out # outs, s2)
   }"

text \<open>Their specification: a management request clears all descriptors, and the data of its zone.\<close>

datatype visit = Session "(nbd_request \<times> u8 list) list" | Reset u64 | Hangup "u8 list"

definition reset_spec :: "u64 \<Rightarrow> session \<Rightarrow> session" where
  "reset_spec z t = (let (e, ph, d) = poll_once 2 (ucast z) 0 (ss_phase t) (ss_dev t) in
     \<lparr>ss_phase = ph, ss_dev = d\<lparr>zd_bram := (\<lambda>i. if i < BRAM_CELLS then 0 else zd_bram d i)\<rparr>,
      ss_disk = disk_store (unat z * zone_size_bytes) (replicate zone_size_bytes 0) (ss_disk t)\<rparr>)"

fun visits_spec :: "visit list \<Rightarrow> session \<Rightarrow> u8 list list \<times> session" where
  "visits_spec [] t = ([], t)"
| "visits_spec (v # vs) t = (let (out, t1) = (case v of Session rs \<Rightarrow> session_spec rs t | Reset z \<Rightarrow> ([1], reset_spec z t) | Hangup _ \<Rightarrow> ([], t));
     (outs, t2) = visits_spec vs t1 in (out # outs, t2))"

fun visit_ok :: "visit \<Rightarrow> bool" where
  "visit_ok (Session rs) \<longleftrightarrow> list_all session_request rs"
| "visit_ok (Reset z) \<longleftrightarrow> unat z < NUM_ZONES"
| "visit_ok (Hangup bs) \<longleftrightarrow> length bs < 8"

fun visit_wire :: "visit \<Rightarrow> connection" where
  "visit_wire (Session rs) = Client (session_wire rs)"
| "visit_wire (Reset z) = Management (rev (be_bytes 8 z))"
| "visit_wire (Hangup bs) = Management bs"

lemma read_zone_id_bytes: "read_zone_id (rev (be_bytes 8 z)) = Some z"
  by (simp add: read_zone_id_def of_be_8)

lemma hw_phase_set_bram:
  assumes "hw_phase h ph d"
  shows "hw_phase (h\<lparr>mock_bram_storage := m\<rparr>) ph (d\<lparr>zd_bram := m\<rparr>)"
proof -
  from assms obtain c where c: "hw_core h c" "\<not> c_trigger c" "in_phase ph c" "dev_of c = d" by (auto simp: hw_phase_def)
  have "in_phase ph (c\<lparr>c_bram := m\<rparr>)" using c(3) by (cases ph) simp_all
  moreover have "dev_of (c\<lparr>c_bram := m\<rparr>) = d\<lparr>zd_bram := m\<rparr>" unfolding c(4) [symmetric] by (simp add: dev_of_def)
  ultimately show ?thesis using core_set_bram [OF c(1), of m] c(2) unfolding hw_phase_def by fastforce
qed

lemma hw_phase_bram: "hw_phase h ph d \<Longrightarrow> mock_bram_storage h = zd_bram d"
  by (auto simp: hw_phase_def dev_of_def dest: core_bram)

lemma mgmt_reset_refines:
  assumes "refines s t" "unat z < NUM_ZONES"
  shows "\<exists>s'. mgmt_reset z s = Some ([1], s') \<and> refines s' (reset_spec z t)"
proof -
  from assms(1) obtain c where c: "hw_core (nbd_hw s) c" "in_phase (ss_phase t) c" "dev_of c = ss_dev t" "user_disk_storage s = ss_disk t"
    by (auto simp: refines_def hw_phase_def)
  have z: "in_bram (ucast z)" using assms(2) 
    by (simp add: in_bram_def BRAM_CELLS_def nbd_geometry unsigned_ucast_eq le_less_trans [OF take_bit_nat_less_eq_self])
  obtain e ph d where p: "poll_once 2 (ucast z) 0 (ss_phase t) (dev_of c) = (e, ph, d)" by (metis prod_cases3)
  note o = request_once(2) [OF hw_started(2) [OF c(1)] c(2) z p [unfolded poll_once_reset [of _ 0 _ _ "c_page c"]]]
  show ?thesis
    using hw_phase_set_bram [OF o, of "\<lambda>i. if i < BRAM_CELLS then 0 else zd_bram d i"] hw_phase_bram [OF o] p c(3,4) assms(2)
    by (simp add: mgmt_reset_def reset_spec_def Let_def split_beta refines_def cong: if_cong)
qed

lemma connections_refine:
  assumes "list_all visit_ok vs" "refines s t"
  shows "\<exists>s'. serve_connections pad buf (map visit_wire vs) s = Some (fst (visits_spec vs t), s') \<and> refines s' (snd (visits_spec vs t))"
  using assms
proof (induction vs arbitrary: s t)
  case (Cons v vs)
  show ?case
  proof (cases v)
    case (Session rs)
    with Cons.prems session_refines [of rs s t pad buf] obtain s1 where
      "transmission_loop pad buf (session_wire rs) s = Some (fst (session_spec rs t), s1)" "refines s1 (snd (session_spec rs t))" by auto
    with Cons.IH [of s1 "snd (session_spec rs t)"] Cons.prems(1) Session show ?thesis by (auto simp: Let_def split_beta)
  next
    case (Reset z)
    with Cons.prems mgmt_reset_refines [of s t z] obtain s1 where "mgmt_reset z s = Some ([1], s1)" "refines s1 (reset_spec z t)" by auto
    with Cons.IH [of s1 "reset_spec z t"] Cons.prems(1) Reset show ?thesis
      by (auto simp: Let_def split_beta mgmt_connection_def read_zone_id_bytes)
  next
    case (Hangup bs)
    with Cons.IH [of s t] Cons.prems show ?thesis by (auto simp: Let_def split_beta mgmt_connection_def read_zone_id_def)
  qed
qed simp

text \<open>
  C4. The block server refines its specification. On an idle device, any sequence of client sessions and management requests is
  served to the end, with exactly the replies and the disk contents that \<open>visits_spec\<close> gives. A client
  session is any sequence of reads, writes, trims, flushes and unknown requests on the disk, sent as bytes.
  The specification has no clock cycles: in it every read, trim and reset leaves a command half done that
  the next request, of whatever client, completes.
\<close>

theorem nbd_server_refines:
  assumes "hw_idle (nbd_hw s) d" "list_all visit_ok vs" "t = \<lparr>ss_phase = Idle, ss_dev = d, ss_disk = user_disk_storage s\<rparr>"
  shows "\<exists>s'. serve_connections pad buf (map visit_wire vs) s = Some (fst (visits_spec vs t), s')
     \<and> user_disk_storage s' = ss_disk (snd (visits_spec vs t))"
  using connections_refine [OF assms(2), of s t] assms(1,3) by (auto simp: refines_def hw_phase_idle)

lemma small_targets: "target_zone_id (small_request ty 4096) = 0" "target_page (small_request ty 4096) = 1"
  by (simp_all add: target_zone_id_def target_page_def small_request_def nbd_geometry)

lemma small_write_verdict:
  "fst (poll_verdict 0 1 Idle (align_dev (small_request ty 4096) fresh_dev))"
  by (simp add: admits_def zns_verdict_def zns_rules_checker_def align_dev_def small_targets zone_word_simps fresh_dev_def)

theorem nbd_server_refines_witness:
  "\<exists>s'. serve_connections (\<lambda>_. 0) [] (map visit_wire [Session [(small_request 1 4096, [1, 2, 3, 4])], Hangup [7], Session [(small_request 0 4096, [])]]) booted_nbd
     = Some ([reply_to (small_request 1 4096) 0, [], reply_to (small_request 0 4096) 0 @ [1, 2, 3, 4]], s')"
proof -
  have ok: "list_all visit_ok [Session [(small_request 1 4096, [1, 2, 3, 4])], Hangup [7], Session [(small_request 0 4096, [])]]"
    using small_session_read [of 4096] small_session_write [of 4096 "[1, 2, 3, 4]"] by simp
  obtain d' where "poll_verdict 0 1 Idle (align_dev (small_request 1 4096) fresh_dev) = (True, d')"
    using small_write_verdict [of 1] by (metis prod.collapse)
  moreover have "rq_type (small_request ty from) = ty" "rq_from (small_request ty from) = from" "rq_len (small_request ty from) = 4" for ty "from"
    by (simp_all add: small_request_def)
  ultimately show ?thesis
    using nbd_server_refines [OF booted_nbd_idle ok refl, of "\<lambda>_. 0" "[]"]
    by (auto simp: serve_spec_def small_targets Let_def NBD_CMD_LOCAL_READ_def NBD_CMD_LOCAL_WRITE_def simp del: poll_verdict.simps)
qed

text \<open>
  C33. On a cool, idle device the fate of a write that follows two reads is that of the second read: the
  write is acknowledged with success in every case, but its bytes are stored only if the page of the
  second read is below the write pointer of the zone of the first read. Otherwise they are dropped and the disk is unchanged,
  wherever the write goes and whether or not the device would admit it.
\<close>

theorem nbd_write_after_reads:
  assumes "hw_idle (nbd_hw s) d" "\<not> zd_hot d" "list_all session_request [(r1, []), (r2, []), (w, bs)]"
    and "rq_type r1 = NBD_CMD_LOCAL_READ" "rq_type r2 = NBD_CMD_LOCAL_READ" "rq_type w = NBD_CMD_LOCAL_WRITE"
  shows "\<exists>s'. transmission_loop pad buf (session_wire [(r1, []), (r2, []), (w, bs)]) s =
       Some (reply_to r1 0 @ disk_slice (user_disk_storage s) (unat (rq_from r1)) (unat (rq_len r1)) @
             reply_to r2 0 @ disk_slice (user_disk_storage s) (unat (rq_from r2)) (unat (rq_len r2)) @ reply_to w 0, s')
     \<and> user_disk_storage s' =
         (if target_page r2 < ucast (zone_wptr (zd_bram d (unat (target_zone_id r1))))
          then disk_store (unat (rq_from w)) bs (user_disk_storage s) else user_disk_storage s)"
proof -
  have "admits 0 (target_page r2) (zd_bram d (unat (target_zone_id r1))) d \<longleftrightarrow>
      target_page r2 < ucast (zone_wptr (zd_bram d (unat (target_zone_id r1))))"
    using assms(2) by (auto simp: admits_def zns_verdict_def zns_rules_checker_def not_less)
  then show ?thesis
    using session_refines [OF assms(3), of s "\<lparr>ss_phase = Idle, ss_dev = d, ss_disk = user_disk_storage s\<rparr>" pad buf] assms(1,4-6)
    by (simp add: refines_def hw_phase_idle serve_spec_def Let_def NBD_CMD_LOCAL_READ_def NBD_CMD_LOCAL_WRITE_def split: if_splits) blast+
qed

theorem nbd_write_after_reads_witness:
  "\<exists>s'. transmission_loop (\<lambda>_. 0) [] (session_wire [(small_request 0 4096, []), (small_request 0 8192, []), (small_request 1 0, [1, 2, 3, 4])])
       booted_nbd = Some (reply_to (small_request 0 4096) 0 @ [0, 0, 0, 0] @ reply_to (small_request 0 8192) 0 @ [0, 0, 0, 0]
         @ reply_to (small_request 1 0) 0, s') \<and> user_disk_storage s' 0 = 0"
  using nbd_write_after_reads [OF booted_nbd_idle fresh_dev_ok(3), of "small_request 0 4096" "small_request 0 8192" "small_request 1 0" "[1, 2, 3, 4]" "\<lambda>_. 0" "[]"]
    small_session_read [of 4096] small_session_read [of 8192] small_session_write [of 0 "[1, 2, 3, 4]"]
  by (simp add: small_request_def booted_nbd_def fresh_dev_def zone_word_simps disk_slice_def upt_rec NBD_CMD_LOCAL_READ_def NBD_CMD_LOCAL_WRITE_def)
     metis

text \<open>After the same two reads a third read is refused, whatever it asks for.\<close>

lemma nbd_third_read_refused:
  assumes "hw_idle (nbd_hw s) d" "list_all session_request [(r1, []), (r2, []), (r3, [])]"
    and "rq_type r1 = NBD_CMD_LOCAL_READ" "rq_type r2 = NBD_CMD_LOCAL_READ" "rq_type r3 = NBD_CMD_LOCAL_READ"
    and "ucast (zone_wptr (zd_bram d (unat (target_zone_id r1)))) \<le> target_page r2"
  shows "\<exists>s'. transmission_loop pad buf (session_wire [(r1, []), (r2, []), (r3, [])]) s =
       Some (reply_to r1 0 @ disk_slice (user_disk_storage s) (unat (rq_from r1)) (unat (rq_len r1)) @
             reply_to r2 0 @ disk_slice (user_disk_storage s) (unat (rq_from r2)) (unat (rq_len r2)) @ reply_to r3 EIO, s')"
proof -
  have "\<not> admits 0 (target_page r2) (zd_bram d (unat (target_zone_id r1))) d"
    using assms(6) by (simp add: admits_def zns_verdict_def zns_rules_checker_def)
  then show ?thesis
    using session_refines [OF assms(2), of s "\<lparr>ss_phase = Idle, ss_dev = d, ss_disk = user_disk_storage s\<rparr>" pad buf] assms(1,3-5)
    by (simp add: refines_def hw_phase_idle serve_spec_def Let_def NBD_CMD_LOCAL_READ_def NBD_CMD_LOCAL_WRITE_def) blast
qed

end
