(* ===== verification/Ftl_Dftl.thy ===== *)
theory Ftl_Dftl
  imports Ftl_Simple
begin

text \<open>
  \<open>FTLs/dftl_parent.cpp\<close> and \<open>FTLs/dftl_ftl.cpp\<close>: the demand-paged page FTL. The translation
  table is a Boost container with two indices; the random access index is a list, and the
  first element of the index ordered by last visit is the argument \<open>oldest\<close>, of which
  \<open>lru_index\<close> states what Boost documents. An access outside the table is \<open>None\<close>.

  A block is reached through its pointer (the physical address of the block) in a heap
  \<open>block_heap\<close> that the controller's world carries.
\<close>

section \<open>State\<close>

record mpage =
  vpn :: nat
  ppn :: int
  create_ts :: time
  modified_ts :: time
  last_visited_time :: time
  cached :: bool

definition MPage_new :: "nat \<Rightarrow> mpage" where
  "MPage_new v = \<lparr>vpn = v, ppn = - 1, create_ts = - 1, modified_ts = - 1, last_visited_time = - 1,
     cached = False\<rparr>"

text \<open>
  The order of the second index: the key of an entry that is not cached is the largest
  \<open>double\<close>, above every time.
\<close>

definition visited_before :: "mpage \<Rightarrow> mpage \<Rightarrow> bool" where
  "visited_before m n \<longleftrightarrow>
     (if cached m then cached n \<longrightarrow> last_visited_time m \<le> last_visited_time n else \<not> cached n)"

record dftl =
  cmt :: int
  trans_map :: "mpage list"
  reverse_trans_map :: "int list"
  addressPerPage :: nat
  totalCMTentries :: uint
  currentDataPage :: int

record 'w dftl_state =
  ds_ftl :: dftl
  ds_gs :: "'w bm_state"

record 'w block_heap =
  bh_get :: "nat \<Rightarrow> 'w \<Rightarrow> blk option"
  bh_env :: "'w \<Rightarrow> env"
  bh_put :: "nat \<Rightarrow> blk \<Rightarrow> env \<Rightarrow> 'w \<Rightarrow> 'w"

abbreviation ds_world :: "'w dftl_state \<Rightarrow> 'w" where
  "ds_world s \<equiv> gs_world (ds_gs s)"

definition set_world :: "'w \<Rightarrow> 'w dftl_state \<Rightarrow> 'w dftl_state" where
  "set_world w s = s\<lparr>ds_gs := (ds_gs s)\<lparr>gs_world := w\<rparr>\<rparr>"

definition count_stat :: "(stats \<Rightarrow> stats) \<Rightarrow> 'w dftl_state \<Rightarrow> 'w dftl_state" where
  "count_stat f s = s\<lparr>ds_gs := (ds_gs s)\<lparr>gs_stats := f (gs_stats (ds_gs s))\<rparr>\<rparr>"

definition set_map :: "mpage list \<Rightarrow> 'w dftl_state \<Rightarrow> 'w dftl_state" where
  "set_map tm s = s\<lparr>ds_ftl := (ds_ftl s)\<lparr>trans_map := tm\<rparr>\<rparr>"

abbreviation ds_map :: "'w dftl_state \<Rightarrow> mpage list" where
  "ds_map s \<equiv> trans_map (ds_ftl s)"

section \<open>Construction\<close>

text \<open>\<open>log n / log 2\<close> truncated to an integer; the logarithm of zero has no value.\<close>

fun floor_log2 :: "nat \<Rightarrow> nat" where
  "floor_log2 n = (if n \<le> 1 then 0 else Suc (floor_log2 (n div 2)))"

declare floor_log2.simps [simp del]

definition address_size :: "config \<Rightarrow> nat option" where
  "address_size c = do {
     cassert (total_ftl_pages c \<noteq> 0);
     Some (floor_log2 (total_ftl_pages c))
   }"

text \<open>The reverse table is not initialised: its content \<open>rv\<close> is arbitrary.\<close>

definition FtlImpl_DftlParent_new :: "config \<Rightarrow> int list \<Rightarrow> dftl option" where
  "FtlImpl_DftlParent_new c rv = do {
     n \<leftarrow> address_size c;
     cassert (n \<noteq> 0);
     cassert (length rv = total_ftl_pages c);
     let app = PAGE_SIZE c div ((n + 7) div 8);
     Some \<lparr>cmt = 0, trans_map = map MPage_new [0..<total_ftl_pages c], reverse_trans_map = rv,
       addressPerPage = app, totalCMTentries = mul32 (CACHE_DFTL_LIMIT c) app, currentDataPage = - 1\<rparr>
   }"

section \<open>The cached mapping table\<close>

text \<open>A transfer of a translation page: it goes to page 0 and does nothing but take time.\<close>

definition issue_noop :: "'w controller_if \<Rightarrow> config \<Rightarrow> ulong \<Rightarrow> event_type \<Rightarrow> event \<Rightarrow> 'w \<Rightarrow>
    (event \<times> 'w) option" where
  "issue_noop ci c junk ty e w = do {
     st \<leftarrow> get_start_time e;
     ne \<leftarrow> Event_new junk ty (logical_address e) 1 st;
     a \<leftarrow> Address_linear c 0 PAGE;
     (r, ne1, w1) \<leftarrow> ci_issue ci (ne\<lparr>ev_address := a, noop := True\<rparr>) w;
     cassert (r \<noteq> FAILURE);
     t \<leftarrow> get_time_taken ne1;
     Some (incr_time_taken t e, w1)
   }"

definition count_ftl_read :: "stats \<Rightarrow> stats" where
  "count_ftl_read st = st\<lparr>numFTLRead := numFTLRead st + 1\<rparr>"

definition count_ftl_write :: "stats \<Rightarrow> stats" where
  "count_ftl_write st = st\<lparr>numFTLWrite := numFTLWrite st + 1\<rparr>"

definition consult_GTD :: "'w controller_if \<Rightarrow> config \<Rightarrow> ulong \<Rightarrow> event \<Rightarrow> 'w dftl_state \<Rightarrow>
    (event \<times> 'w dftl_state) option" where
  "consult_GTD ci c junk e s = do {
     (e1, w) \<leftarrow> issue_noop ci c junk READ e (ds_world s);
     Some (e1, count_stat count_ftl_read (set_world w s))
   }"

definition reset_MPage :: "mpage \<Rightarrow> mpage" where
  "reset_MPage m = m\<lparr>create_ts := - 2, modified_ts := - 2, last_visited_time := - 2\<rparr>"

definition lookup_CMT :: "config \<Rightarrow> event \<Rightarrow> 'w dftl_state \<Rightarrow> (bool \<times> event \<times> 'w dftl_state) option" where
  "lookup_CMT c e s = do {
     m \<leftarrow> aget (ds_map s) (logical_address e);
     if \<not> cached m then Some (False, e, s)
     else Some (True, incr_time_taken (RAM_READ_DELAY c) e,
                count_stat (\<lambda>st. st\<lparr>numMemoryRead := numMemoryRead st + 1\<rparr>) s)
   }"

definition clean_entry :: "mpage \<Rightarrow> mpage" where
  "clean_entry m = (if cached m then m\<lparr>create_ts := modified_ts m\<rparr> else m)"

definition clean_translation_page :: "nat \<Rightarrow> nat \<Rightarrow> mpage list \<Rightarrow> mpage list option" where
  "clean_translation_page app v tm = do {
     cassert (app \<noteq> 0);
     let base = v - v mod app;
     cassert (base + app \<le> length tm);
     Some (take base tm @ map clean_entry (take app (drop base tm)) @ drop (base + app) tm)
   }"

definition write_back :: "'w controller_if \<Rightarrow> config \<Rightarrow> ulong \<Rightarrow> nat \<Rightarrow> event \<Rightarrow> 'w dftl_state \<Rightarrow>
    (event \<times> 'w dftl_state) option" where
  "write_back ci c junk v e s = do {
     tm \<leftarrow> clean_translation_page (addressPerPage (ds_ftl s)) v (ds_map s);
     (e1, w) \<leftarrow> issue_noop ci c junk WRITE e (ds_world s);
     Some (e1, count_stat (\<lambda>st. st\<lparr>numFTLWrite := numFTLWrite st + 1, numGCWrite := numGCWrite st + 1\<rparr>)
                 (set_world w (set_map tm s)))
   }"

definition uncache :: "mpage \<Rightarrow> mpage" where
  "uncache m = reset_MPage (m\<lparr>cached := False\<rparr>)"

definition evict_entry :: "'w controller_if \<Rightarrow> config \<Rightarrow> ulong \<Rightarrow> mpage \<Rightarrow> event \<Rightarrow> 'w dftl_state \<Rightarrow>
    (event \<times> 'w dftl_state) option" where
  "evict_entry ci c junk m e s = do {
     cassert (cached m \<and> 0 \<le> create_ts m \<and> 0 \<le> modified_ts m);
     (e1, s1) \<leftarrow> (if create_ts m \<noteq> modified_ts m then write_back ci c junk (vpn m) e s else Some (e, s));
     cassert (vpn m < length (ds_map s1));
     Some (e1, s1\<lparr>ds_ftl := (ds_ftl s1)\<lparr>cmt := cmt (ds_ftl s1) - 1,
                    trans_map := (ds_map s1)[vpn m := uncache m]\<rparr>\<rparr>)
   }"

lemma evict_entry_cmt:
  "evict_entry ci c junk m e s = Some (e1, s1) \<Longrightarrow>
   cmt (ds_ftl s1) = cmt (ds_ftl s) - 1 \<and> totalCMTentries (ds_ftl s1) = totalCMTentries (ds_ftl s)"
  by (auto simp: evict_entry_def write_back_def bind_eq_Some_conv count_stat_def set_world_def set_map_def
      split: if_splits)

function evict_page_from_cache :: "(mpage list \<Rightarrow> nat option) \<Rightarrow> 'w controller_if \<Rightarrow> config \<Rightarrow> ulong \<Rightarrow> event \<Rightarrow>
    'w dftl_state \<Rightarrow> (event \<times> 'w dftl_state) option" where
  "evict_page_from_cache oldest ci c junk e s =
     (if int (totalCMTentries (ds_ftl s)) \<le> cmt (ds_ftl s)
      then Option.bind (oldest (ds_map s)) (\<lambda>i.
           Option.bind (aget (ds_map s) i) (\<lambda>m.
           Option.bind (evict_entry ci c junk m e s) (\<lambda>es.
             evict_page_from_cache oldest ci c junk (fst es) (snd es))))
      else Some (e, s))"
  by pat_completeness auto
termination
  by (relation "measure (\<lambda>(_, _, _, _, _, s). nat (cmt (ds_ftl s) - int (totalCMTentries (ds_ftl s)) + 1))")
    (auto dest: evict_entry_cmt)

declare evict_page_from_cache.simps [simp del]

definition evict_specific_page_from_cache :: "'w controller_if \<Rightarrow> config \<Rightarrow> ulong \<Rightarrow> nat \<Rightarrow> event \<Rightarrow>
    'w dftl_state \<Rightarrow> (event \<times> 'w dftl_state) option" where
  "evict_specific_page_from_cache ci c junk lba e s = do {
     m \<leftarrow> aget (ds_map s) lba;
     if \<not> cached m then Some (e, s) else evict_entry ci c junk m e s
   }"

definition resolve_mapping :: "(mpage list \<Rightarrow> nat option) \<Rightarrow> 'w controller_if \<Rightarrow> config \<Rightarrow> ulong \<Rightarrow> bool \<Rightarrow> event \<Rightarrow>
    'w dftl_state \<Rightarrow> (event \<times> 'w dftl_state) option" where
  "resolve_mapping oldest ci c junk isWrite e s = do {
     let dlpn = logical_address e mod 2 ^ 32;
     (hit, e1, s1) \<leftarrow> lookup_CMT c e s;
     if hit then do {
       let s2 = count_stat (\<lambda>st. st\<lparr>numCacheHits := numCacheHits st + 1\<rparr>) s1;
       m \<leftarrow> aget (ds_map s2) dlpn;
       st \<leftarrow> get_start_time e1;
       let m1 = (if isWrite then m\<lparr>modified_ts := st\<rparr> else m);
       Some (e1, set_map ((ds_map s2)[dlpn := m1\<lparr>last_visited_time := st\<rparr>]) s2)
     } else do {
       let s2 = count_stat (\<lambda>st. st\<lparr>numCacheFaults := numCacheFaults st + 1\<rparr>) s1;
       (e2, s3) \<leftarrow> evict_page_from_cache oldest ci c junk e1 s2;
       (e3, s4) \<leftarrow> consult_GTD ci c junk e2 s3;
       m \<leftarrow> aget (ds_map s4) dlpn;
       st \<leftarrow> get_start_time e3;
       let m1 = m\<lparr>modified_ts := (if isWrite then st + 1 else st), last_visited_time := st, create_ts := st,
                  cached := True\<rparr>;
       Some (e3, s4\<lparr>ds_ftl := (ds_ftl s4)\<lparr>trans_map := (ds_map s4)[dlpn := m1],
                                            cmt := cmt (ds_ftl s4) + 1\<rparr>\<rparr>)
     }
   }"

text \<open>\<open>update_translation_map\<close> writes the reverse table at the new page, whatever that is.\<close>

definition update_translation_map :: "mpage \<Rightarrow> int \<Rightarrow> int list \<Rightarrow> (mpage \<times> int list) option" where
  "update_translation_map m p rv = do {
     cassert (0 \<le> p \<and> nat p < length rv);
     Some (m\<lparr>ppn := p\<rparr>, rv[nat p := int (vpn m)])
   }"

section \<open>Data pages\<close>

definition at_block_end :: "config \<Rightarrow> int \<Rightarrow> bool" where
  "at_block_end c p \<longleftrightarrow> p mod int (BLOCK_SIZE c) = int (BLOCK_SIZE c) - 1"

definition get_free_data_page :: "'w controller_if \<Rightarrow> config \<Rightarrow> ulong \<Rightarrow> bool \<Rightarrow> event \<Rightarrow> 'w dftl_state \<Rightarrow>
    (int \<times> event \<times> 'w dftl_state) option" where
  "get_free_data_page ci c junk ins e s = do {
     let cur = currentDataPage (ds_ftl s);
     cassert (cur = - 1 \<or> BLOCK_SIZE c \<noteq> 0);
     (e1, g1) \<leftarrow> (if cur = - 1 \<or> at_block_end c cur \<and> ins then insert_events ci c junk e (ds_gs s)
                  else Some (e, ds_gs s));
     (p, e2, g2) \<leftarrow> (if cur = - 1 \<or> at_block_end c cur then do {
                      (a, e2, g2) \<leftarrow> get_free_block ci c junk DATA e1 g1;
                      Some (int (get_linear_address a), e2, g2)
                    } else Some (cur + 1, e1, g1));
     Some (p, e2, \<lparr>ds_ftl = (ds_ftl s)\<lparr>currentDataPage := p\<rparr>, ds_gs = g2\<rparr>)
   }"

section \<open>Requests\<close>

definition uint_of_int :: "int \<Rightarrow> uint" where
  "uint_of_int i = nat (i mod 2 ^ 32)"

definition dftl_issue :: "'w controller_if \<Rightarrow> event \<Rightarrow> 'w dftl_state \<Rightarrow>
    (status \<times> event \<times> 'w dftl_state) option" where
  "dftl_issue ci e s = do {
     (r, e1, w) \<leftarrow> ci_issue ci e (ds_world s);
     Some (r, e1, set_world w s)
   }"

definition FtlImpl_Dftl_read :: "(mpage list \<Rightarrow> nat option) \<Rightarrow> 'w controller_if \<Rightarrow> config \<Rightarrow> ulong \<Rightarrow> event \<Rightarrow>
    'w dftl_state \<Rightarrow> (status \<times> event \<times> 'w dftl_state) option" where
  "FtlImpl_Dftl_read oldest ci c junk e s = do {
     let dlpn = logical_address e mod 2 ^ 32;
     (e1, s1) \<leftarrow> resolve_mapping oldest ci c junk False e s;
     m \<leftarrow> aget (ds_map s1) dlpn;
     e2 \<leftarrow> (if ppn m = - 1 then do {
              a \<leftarrow> Address_linear c 0 PAGE;
              Some (e1\<lparr>ev_address := a, noop := True\<rparr>)
            } else do {
              a \<leftarrow> Address_linear c (uint_of_int (ppn m)) PAGE;
              Some (e1\<lparr>ev_address := a\<rparr>)
            });
     dftl_issue ci e2 (count_stat count_ftl_read s1)
   }"

definition FtlImpl_Dftl_write :: "(mpage list \<Rightarrow> nat option) \<Rightarrow> 'w controller_if \<Rightarrow> config \<Rightarrow> ulong \<Rightarrow> event \<Rightarrow>
    'w dftl_state \<Rightarrow> (status \<times> event \<times> 'w dftl_state) option" where
  "FtlImpl_Dftl_write oldest ci c junk e s = do {
     let dlpn = logical_address e mod 2 ^ 32;
     (e1, s1) \<leftarrow> resolve_mapping oldest ci c junk True e s;
     (free_page, e2, s2) \<leftarrow> get_free_data_page ci c junk True e1 s1;
     m \<leftarrow> aget (ds_map s2) dlpn;
     a \<leftarrow> Address_linear c (uint_of_int (ppn m)) PAGE;
     let e3 = (if ppn m \<noteq> - 1 then e2\<lparr>replace_address := a\<rparr> else e2);
     (m1, rv) \<leftarrow> update_translation_map m free_page (reverse_trans_map (ds_ftl s2));
     let s3 = s2\<lparr>ds_ftl := (ds_ftl s2)\<lparr>trans_map := (ds_map s2)[dlpn := m1], reverse_trans_map := rv\<rparr>\<rparr>;
     b \<leftarrow> Address_linear c (uint_of_int free_page) PAGE;
     dftl_issue ci (e3\<lparr>ev_address := b\<rparr>) (count_stat count_ftl_write s3)
   }"

definition invalidate_at :: "'w block_heap \<Rightarrow> config \<Rightarrow> nat \<Rightarrow> uint \<Rightarrow> 'w \<Rightarrow> 'w option" where
  "invalidate_at bh c p i w = do {
     b \<leftarrow> bh_get bh p w;
     (b1, g1) \<leftarrow> invalidate_page c i b (bh_env bh w);
     Some (bh_put bh p b1 g1 w)
   }"

definition FtlImpl_Dftl_trim :: "'w controller_if \<Rightarrow> 'w block_heap \<Rightarrow> config \<Rightarrow> ulong \<Rightarrow> event \<Rightarrow>
    'w dftl_state \<Rightarrow> (status \<times> event \<times> 'w dftl_state) option" where
  "FtlImpl_Dftl_trim ci bh c junk e s = do {
     let dlpn = logical_address e mod 2 ^ 32;
     a0 \<leftarrow> Address_linear c 0 PAGE;
     let e1 = e\<lparr>ev_address := a0\<rparr>;
     m \<leftarrow> aget (ds_map s) dlpn;
     (e2, s1) \<leftarrow> (if ppn m \<noteq> - 1 then do {
         a \<leftarrow> Address_linear c (uint_of_int (ppn m)) PAGE;
         p \<leftarrow> ci_get_block_pointer ci a (ds_world s);
         w \<leftarrow> invalidate_at bh c p (page a) (ds_world s);
         (e2, s2) \<leftarrow> evict_specific_page_from_cache ci c junk dlpn e1 (set_world w s);
         (m1, rv) \<leftarrow> update_translation_map m (- 1) (reverse_trans_map (ds_ftl s2));
         Some (e2, s2\<lparr>ds_ftl := (ds_ftl s2)\<lparr>trans_map := (ds_map s2)[dlpn := m1], reverse_trans_map := rv\<rparr>\<rparr>)
       } else Some (e1, s));
     dftl_issue ci e2 (count_stat (\<lambda>st. st\<lparr>numFTLTrim := numFTLTrim st + 1\<rparr>) s1)
   }"

section \<open>Cleaning a block\<close>

text \<open>The counters of a moved page; \<open>numMemoryWrite =+ 3\<close> assigns.\<close>

definition count_move :: "stats \<Rightarrow> stats" where
  "count_move st = st\<lparr>numFTLRead := numFTLRead st + 1, numFTLWrite := numFTLWrite st + 1,
     numWLRead := numWLRead st + 1, numWLWrite := numWLWrite st + 1,
     numMemoryRead := numMemoryRead st + 1, numMemoryWrite := 3\<rparr>"

definition move_page :: "'w controller_if \<Rightarrow> config \<Rightarrow> ulong \<Rightarrow> nat \<Rightarrow> event \<Rightarrow> 'w dftl_state \<Rightarrow>
    (int \<times> event \<times> 'w dftl_state) option" where
  "move_page ci c junk src e s = do {
     st \<leftarrow> get_start_time e;
     re \<leftarrow> Event_new junk READ (logical_address e) 1 st;
     sa \<leftarrow> Address_linear c (src mod 2 ^ 32) PAGE;
     (_, re1, s1) \<leftarrow> dftl_issue ci (re\<lparr>ev_address := sa\<rparr>) s;
     rt \<leftarrow> get_time_taken re1;
     we \<leftarrow> Event_new junk WRITE (logical_address e) 1 (st + rt);
     (p, e1, s2) \<leftarrow> get_free_data_page ci c junk False e s1;
     da \<leftarrow> Address_linear c (uint_of_int p) PAGE;
     (_, we1, s3) \<leftarrow> dftl_issue ci (we\<lparr>ev_address := da, replace_address := sa,
                                      ev_payload := Some (PagePtr src)\<rparr>) s2;
     wt \<leftarrow> get_time_taken we1;
     Some (int (get_linear_address da), incr_time_taken (wt + rt) e1, count_stat count_move s3)
   }"

fun move_valid_pages :: "'w controller_if \<Rightarrow> 'w block_heap \<Rightarrow> config \<Rightarrow> ulong \<Rightarrow> nat \<Rightarrow> nat list \<Rightarrow> event \<Rightarrow>
    (int \<times> int) list \<Rightarrow> 'w dftl_state \<Rightarrow> (event \<times> (int \<times> int) list \<times> 'w dftl_state) option" where
  "move_valid_pages ci bh c junk p [] e moved s = Some (e, moved, s)"
| "move_valid_pages ci bh c junk p (i # is) e moved s = do {
     b \<leftarrow> bh_get bh p (ds_world s);
     ps \<leftarrow> get_page_state b i;
     cassert (ps \<noteq> EMPTY);
     if ps = VALID then do {
       (dataPpn, e1, s1) \<leftarrow> move_page ci c junk (physical_address b + i) e s;
       v \<leftarrow> aget (reverse_trans_map (ds_ftl s1)) (physical_address b + i);
       move_valid_pages ci bh c junk p is e1 (smap_put v dataPpn moved) s1
     } else move_valid_pages ci bh c junk p is e moved s
   }"

definition remap_entry :: "time \<Rightarrow> int \<Rightarrow> int \<Rightarrow> dftl \<Rightarrow> dftl option" where
  "remap_entry st real_vpn newppn f = do {
     cassert (0 \<le> real_vpn);
     m \<leftarrow> aget (trans_map f) (nat real_vpn);
     (m1, rv) \<leftarrow> update_translation_map m newppn (reverse_trans_map f);
     let m2 = (if cached m1 then m1\<lparr>modified_ts := st\<rparr>
               else m1\<lparr>modified_ts := st, create_ts := st, cached := True\<rparr>);
     Some (f\<lparr>trans_map := (trans_map f)[nat real_vpn := m2], reverse_trans_map := rv,
             cmt := (if cached m1 then cmt f else cmt f + 1)\<rparr>)
   }"

fun remap_entries :: "time \<Rightarrow> (int \<times> int) list \<Rightarrow> dftl \<Rightarrow> dftl option" where
  "remap_entries st [] f = Some f"
| "remap_entries st ((v, p) # r) f = Option.bind (remap_entry st v p f) (remap_entries st r)"

definition FtlImpl_Dftl_cleanup_block :: "'w controller_if \<Rightarrow> 'w block_heap \<Rightarrow> config \<Rightarrow> ulong \<Rightarrow> nat \<Rightarrow> event \<Rightarrow>
    'w dftl_state \<Rightarrow> (event \<times> 'w dftl_state) option" where
  "FtlImpl_Dftl_cleanup_block ci bh c junk p e s = do {
     (e1, moved, s1) \<leftarrow> move_valid_pages ci bh c junk p [0..<BLOCK_SIZE c] e [] s;
     st \<leftarrow> get_start_time e1;
     f \<leftarrow> remap_entries st moved (ds_ftl s1);
     Some (e1, s1\<lparr>ds_ftl := f\<rparr>)
   }"

end
