(* ===== verification/Ftl_Log.thy ===== *)
theory Ftl_Log
  imports Ftl_Dftl
begin

text \<open>
  What the two log-block FTLs share: \<open>LogPageBlock\<close>, the queries they put to the controller
  (the fields of \<open>log_controller\<close>; the controller class of this repository answers only
  \<open>get_state\<close>), the transfer of the map block and the delegations of \<open>ssd_ftlparent.cpp\<close>.
\<close>

section \<open>Log blocks\<close>

record log_block =
  lb_pages :: "int list"
  aPages :: "int list"
  lb_address :: address
  numPages :: int

text \<open>The address of a new object is default constructed, its linear address is arbitrary.\<close>

definition LogPageBlock_new :: "config \<Rightarrow> ulong \<Rightarrow> log_block" where
  "LogPageBlock_new c junk = \<lparr>lb_pages = replicate (BLOCK_SIZE c) (- 1), aPages = replicate (BLOCK_SIZE c) (- 1),
     lb_address = Address_default junk, numPages = 0\<rparr>"

definition fewer_pages :: "log_block \<Rightarrow> log_block \<Rightarrow> bool" where
  "fewer_pages lhs rhs \<longleftrightarrow> numPages lhs < numPages rhs"

record 'w log_controller =
  lc_get_num_valid :: "address \<Rightarrow> 'w \<Rightarrow> uint option"
  lc_get_free_page :: "address \<Rightarrow> 'w \<Rightarrow> address option"
  lc_get_state :: "address \<Rightarrow> 'w \<Rightarrow> page_state option"

section \<open>The parent class\<close>

text \<open>
  \<open>ssd_ftlparent.cpp\<close>: the constructor starts the one block manager of the process; queries go
  to the controller, whose answer is an argument where no layer asks for it; cleaning has no
  default.
\<close>

definition FtlParent_new :: "config \<Rightarrow> bm" where
  "FtlParent_new c = Block_manager_instance_initialize c"

definition FtlParent_get_erases_remaining :: "(address \<Rightarrow> 'w \<Rightarrow> ulong option) \<Rightarrow> address \<Rightarrow> 'w \<Rightarrow> ulong option" where
  "FtlParent_get_erases_remaining controller_get_erases_remaining a w = controller_get_erases_remaining a w"

definition FtlParent_get_least_worn :: "(address \<Rightarrow> 'w \<Rightarrow> address option) \<Rightarrow> address \<Rightarrow> 'w \<Rightarrow> address option" where
  "FtlParent_get_least_worn controller_get_least_worn a w = controller_get_least_worn a w"

definition FtlParent_get_block_state :: "(address \<Rightarrow> 'w \<Rightarrow> block_state option) \<Rightarrow> address \<Rightarrow> 'w \<Rightarrow> block_state option" where
  "FtlParent_get_block_state controller_get_block_state a w = controller_get_block_state a w"

definition FtlParent_get_state :: "'w log_controller \<Rightarrow> address \<Rightarrow> 'w \<Rightarrow> page_state option" where
  "FtlParent_get_state lc a w = lc_get_state lc a w"

definition FtlParent_get_block_pointer :: "'w controller_if \<Rightarrow> address \<Rightarrow> 'w \<Rightarrow> nat option" where
  "FtlParent_get_block_pointer ci a w = ci_get_block_pointer ci a w"

definition FtlParent_cleanup_block :: "event \<Rightarrow> nat \<Rightarrow> 'w \<Rightarrow> 'w option" where
  "FtlParent_cleanup_block e p w = None"

section \<open>Shared operations\<close>

text \<open>\<open>log n / log 2\<close> truncated, for a non-zero \<open>n\<close>; both constructors compute it.\<close>

definition shift_of :: "nat \<Rightarrow> nat option" where
  "shift_of n = do { cassert (n \<noteq> 0); Some (floor_log2 n) }"

definition bm_count :: "(stats \<Rightarrow> stats) \<Rightarrow> 'w bm_state \<Rightarrow> 'w bm_state" where
  "bm_count f g = g\<lparr>gs_stats := f (gs_stats g)\<rparr>"

definition count_copy :: "stats \<Rightarrow> stats" where
  "count_copy st = st\<lparr>numFTLRead := numFTLRead st + 1, numFTLWrite := numFTLWrite st + 1,
     numWLRead := numWLRead st + 1, numWLWrite := numWLWrite st + 1\<rparr>"

text \<open>The outcome of the map block write is not looked at.\<close>

definition update_map_block :: "'w controller_if \<Rightarrow> config \<Rightarrow> ulong \<Rightarrow> event \<Rightarrow> 'w bm_state \<Rightarrow>
    (event \<times> 'w bm_state) option" where
  "update_map_block ci c junk e g = do {
     st \<leftarrow> get_start_time e;
     we \<leftarrow> Event_new junk WRITE (logical_address e) 1 st;
     a \<leftarrow> Address_linear c 0 PAGE;
     (_, we1, w) \<leftarrow> ci_issue ci (we\<lparr>ev_address := a, noop := True\<rparr>) (gs_world g);
     t \<leftarrow> get_time_taken we1;
     Some (incr_time_taken t e,
       bm_count (\<lambda>st. st\<lparr>numGCWrite := numGCWrite st + 1, numFTLWrite := numFTLWrite st + 1\<rparr>) (g\<lparr>gs_world := w\<rparr>))
   }"

text \<open>Read a page, then write it to another; the statuses and the new event are returned.\<close>

definition copy_events :: "'w controller_if \<Rightarrow> config \<Rightarrow> ulong \<Rightarrow> bool \<Rightarrow> address \<Rightarrow> address \<Rightarrow> event \<Rightarrow> 'w bm_state \<Rightarrow>
    (status \<times> status \<times> event \<times> 'w bm_state) option" where
  "copy_events ci c junk replace ra wa e g = do {
     st \<leftarrow> get_start_time e;
     re \<leftarrow> Event_new junk READ (logical_address e) 1 st;
     (r1, re1, w1) \<leftarrow> ci_issue ci (re\<lparr>ev_address := ra\<rparr>) (gs_world g);
     if r1 = FAILURE \<and> \<not> replace then Some (FAILURE, FAILURE, e, g\<lparr>gs_world := w1\<rparr>)
     else do {
       rt \<leftarrow> get_time_taken re1;
       we \<leftarrow> Event_new junk WRITE (logical_address e) 1 (st + rt);
       let we0 = we\<lparr>ev_address := wa, ev_payload := Some (PagePtr (get_linear_address ra))\<rparr>;
       (r2, we1, w2) \<leftarrow> ci_issue ci (if replace then we0\<lparr>replace_address := ra\<rparr> else we0) w1;
       if r2 = FAILURE \<and> \<not> replace then Some (r1, FAILURE, e, g\<lparr>gs_world := w2\<rparr>)
       else do {
         wt \<leftarrow> get_time_taken we1;
         Some (r1, r2, incr_time_taken (wt + rt) e, bm_count count_copy (g\<lparr>gs_world := w2\<rparr>))
       }
     }
   }"

definition trim_block_page :: "'w controller_if \<Rightarrow> 'w block_heap \<Rightarrow> config \<Rightarrow> address \<Rightarrow> 'w \<Rightarrow> (block_state \<times> 'w) option" where
  "trim_block_page ci bh c a w = do {
     p \<leftarrow> ci_get_block_pointer ci a w;
     w1 \<leftarrow> invalidate_at bh c p (page a) w;
     b \<leftarrow> bh_get bh p w1;
     Some (bstate b, w1)
   }"

end
