(* ===== verification/Ftl_Bast.thy ===== *)
theory Ftl_Bast
  imports Ftl_Log
begin

text \<open>
  \<open>FTLs/bast_ftl.cpp\<close>: block-associative log blocks. Every logical block has a data block and
  at most one log block, in which \<open>lb_pages\<close> gives the log page of each logical page. The
  values that \<open>random()\<close> returns are the field \<open>ba_random\<close>, indexed by the number of the call.
\<close>

section \<open>State\<close>

record 'w bast_state =
  data_list :: "int list"
  log_map :: "(int \<times> log_block) list"
  addressShift :: nat
  ba_random :: "nat \<Rightarrow> nat"
  ba_calls :: nat
  ba_gs :: "'w bm_state"

definition FtlImpl_Bast_new :: "config \<Rightarrow> (nat \<Rightarrow> nat) \<Rightarrow> 'w bm_state \<Rightarrow> 'w bast_state option" where
  "FtlImpl_Bast_new c rnd g = do {
     _ \<leftarrow> shift_of (NUMBER_OF_ADDRESSABLE_BLOCKS c);
     sh \<leftarrow> shift_of (BLOCK_SIZE c);
     Some \<lparr>data_list = replicate (NUMBER_OF_ADDRESSABLE_BLOCKS c) (- 1), log_map = [], addressShift = sh,
       ba_random = rnd, ba_calls = 0, ba_gs = g\<rparr>
   }"

definition bast_lba :: "event \<Rightarrow> 'w bast_state \<Rightarrow> nat" where
  "bast_lba e s = logical_address e div 2 ^ addressShift s"

definition ba_count :: "(stats \<Rightarrow> stats) \<Rightarrow> 'w bast_state \<Rightarrow> 'w bast_state" where
  "ba_count f s = s\<lparr>ba_gs := bm_count f (ba_gs s)\<rparr>"

definition bast_issue :: "'w controller_if \<Rightarrow> event \<Rightarrow> 'w bast_state \<Rightarrow> (status \<times> event \<times> 'w bast_state) option" where
  "bast_issue ci e s = do {
     (r, e1, w) \<leftarrow> ci_issue ci e (gs_world (ba_gs s));
     Some (r, e1, s\<lparr>ba_gs := (ba_gs s)\<lparr>gs_world := w\<rparr>\<rparr>)
   }"

definition log_page_address :: "config \<Rightarrow> log_block \<Rightarrow> int \<Rightarrow> address option" where
  "log_page_address c lb p = Address_linear c (uint_of_int (int (get_linear_address (lb_address lb)) + p)) PAGE"

section \<open>Reading\<close>

text \<open>The entry of the log block for a logical page; \<open>- 1\<close> if there is none.\<close>

definition log_entry :: "log_block option \<Rightarrow> nat \<Rightarrow> int option" where
  "log_entry lb pg = (case lb of None \<Rightarrow> Some (- 1) | Some l \<Rightarrow> aget (lb_pages l) pg)"

definition bast_read_address :: "config \<Rightarrow> event \<Rightarrow> 'w bast_state \<Rightarrow> address option" where
  "bast_read_address c e s = do {
     ea \<leftarrow> Address_linear c (logical_address e mod 2 ^ 32) PAGE;
     let lb = map_of (log_map s) (int (bast_lba e s));
     pg \<leftarrow> log_entry lb (page ea);
     (case lb of
        Some l \<Rightarrow> if pg \<noteq> - 1 then log_page_address c l pg
                  else do {
                    d \<leftarrow> aget (data_list s) (bast_lba e s);
                    Address_linear c (if d = - 1 then 0
                      else uint_of_int (d + int (logical_address e mod BLOCK_SIZE c))) PAGE
                  }
      | None \<Rightarrow> do {
          d \<leftarrow> aget (data_list s) (bast_lba e s);
          Address_linear c (if d = - 1 then 0
            else uint_of_int (d + int (logical_address e mod BLOCK_SIZE c))) PAGE
        })
   }"

definition FtlImpl_Bast_read :: "'w controller_if \<Rightarrow> 'w log_controller \<Rightarrow> config \<Rightarrow> event \<Rightarrow>
    'w bast_state \<Rightarrow> (status \<times> event \<times> 'w bast_state) option" where
  "FtlImpl_Bast_read ci lc c e s = do {
     a \<leftarrow> bast_read_address c e s;
     ps \<leftarrow> lc_get_state lc a (gs_world (ba_gs s));
     a0 \<leftarrow> Address_linear c 0 PAGE;
     bast_issue ci (e\<lparr>ev_address := (if ps = INVALID then a0 else a)\<rparr>)
       (ba_count (\<lambda>st. st\<lparr>numMemoryRead := numMemoryRead st + 1, numFTLRead := numFTLRead st + 1\<rparr>) s)
   }"

section \<open>Merging\<close>

definition dispose_logblock :: "int \<Rightarrow> 'w bast_state \<Rightarrow> 'w bast_state" where
  "dispose_logblock lba s = s\<lparr>log_map := smap_erase lba (log_map s)\<rparr>"

definition bast_erase :: "'w controller_if \<Rightarrow> config \<Rightarrow> ulong \<Rightarrow> event \<Rightarrow> address \<Rightarrow> block_type \<Rightarrow> 'w bast_state \<Rightarrow>
    (event \<times> 'w bast_state) option" where
  "bast_erase ci c junk e a ty s = do {
     (e1, g) \<leftarrow> erase_and_invalidate ci c junk e a ty (ba_gs s);
     Some (e1, s\<lparr>ba_gs := g\<rparr>)
   }"

text \<open>\<open>if (data_list[lba] != -1) erase_and_invalidate(event, Address(data_list[lba], PAGE), DATA)\<close>.\<close>

definition erase_data_block :: "'w controller_if \<Rightarrow> config \<Rightarrow> ulong \<Rightarrow> nat \<Rightarrow> event \<Rightarrow> 'w bast_state \<Rightarrow>
    (event \<times> 'w bast_state) option" where
  "erase_data_block ci c junk lba e s = do {
     d \<leftarrow> aget (data_list s) lba;
     if d \<noteq> - 1 then do {
       a \<leftarrow> Address_linear c (uint_of_int d) PAGE;
       bast_erase ci c junk e a DATA s
     } else Some (e, s)
   }"

definition log_in_order :: "config \<Rightarrow> log_block \<Rightarrow> bool" where
  "log_in_order c lb \<longleftrightarrow> lb_pages lb = map int [0..<BLOCK_SIZE c]"

definition is_sequential :: "'w controller_if \<Rightarrow> config \<Rightarrow> ulong \<Rightarrow> log_block \<Rightarrow> nat \<Rightarrow> event \<Rightarrow> 'w bast_state \<Rightarrow>
    (bool \<times> event \<times> 'w bast_state) option" where
  "is_sequential ci c junk lb lba e s =
     (if log_in_order c lb then do {
        let s1 = s\<lparr>ba_gs := (ba_gs s)\<lparr>gs_bm := promote_block DATA (gs_bm (ba_gs s))\<rparr>\<rparr>;
        (e1, s2) \<leftarrow> erase_data_block ci c junk lba e s1;
        let s3 = dispose_logblock (int lba)
          (s2\<lparr>data_list := (data_list s2)[lba := int (get_linear_address (lb_address lb))]\<rparr>);
        let s4 = ba_count (\<lambda>st. st\<lparr>numLogMergeSwitch := numLogMergeSwitch st + 1\<rparr>) s3;
        (e2, g) \<leftarrow> update_map_block ci c junk e1 (ba_gs s4);
        Some (True, e2, s4\<lparr>ba_gs := g\<rparr>)
      } else Some (False, e, s))"

text \<open>Where the newest copy of page \<open>i\<close> of a block is, if there is one.\<close>

definition merge_source :: "config \<Rightarrow> ulong \<Rightarrow> log_block \<Rightarrow> int \<Rightarrow> nat \<Rightarrow> address option option" where
  "merge_source c junk lb d i = do {
     p \<leftarrow> aget (lb_pages lb) i;
     if p \<noteq> - 1 then
       map_option Some (set_linear_address_valid c
         (nat ((int (get_linear_address (lb_address lb)) + p) mod 2 ^ 64)) PAGE (Address_default junk))
     else if d \<noteq> - 1 then
       map_option Some (set_linear_address_valid c (nat ((d + int i) mod 2 ^ 64)) PAGE (Address_default junk))
     else Some None
   }"

definition bast_merge_page :: "'w controller_if \<Rightarrow> 'w log_controller \<Rightarrow> config \<Rightarrow> ulong \<Rightarrow> log_block \<Rightarrow> int \<Rightarrow> address \<Rightarrow> nat \<Rightarrow>
    event \<Rightarrow> 'w bm_state \<Rightarrow> (event \<times> 'w bm_state) option" where
  "bast_merge_page ci lc c junk lb d nb i e g = do {
     src \<leftarrow> merge_source c junk lb d i;
     (case src of
        None \<Rightarrow> Some (e, g)
      | Some ra \<Rightarrow> do {
          ps \<leftarrow> lc_get_state lc ra (gs_world g);
          if ps \<noteq> VALID then Some (e, g)
          else do {
            wa \<leftarrow> Address_linear c ((get_linear_address nb + i) mod 2 ^ 32) PAGE;
            (_, _, e1, g1) \<leftarrow> copy_events ci c junk True ra wa e g;
            Some (e1, g1)
          }
        })
   }"

fun merge_pages :: "'w controller_if \<Rightarrow> 'w log_controller \<Rightarrow> config \<Rightarrow> ulong \<Rightarrow> log_block \<Rightarrow> int \<Rightarrow> address \<Rightarrow> nat list \<Rightarrow>
    event \<Rightarrow> 'w bm_state \<Rightarrow> (event \<times> 'w bm_state) option" where
  "merge_pages ci lc c junk lb d nb [] e g = Some (e, g)"
| "merge_pages ci lc c junk lb d nb (i # is) e g = do {
     (e1, g1) \<leftarrow> bast_merge_page ci lc c junk lb d nb i e g;
     merge_pages ci lc c junk lb d nb is e1 g1
   }"

definition bast_random_merge :: "'w controller_if \<Rightarrow> 'w log_controller \<Rightarrow> config \<Rightarrow> ulong \<Rightarrow> log_block \<Rightarrow> nat \<Rightarrow> event \<Rightarrow>
    'w bast_state \<Rightarrow> (event \<times> 'w bast_state) option" where
  "bast_random_merge ci lc c junk lb lba e s = do {
     (nb, e1, g1) \<leftarrow> get_free_block ci c junk DATA e (ba_gs s);
     d \<leftarrow> aget (data_list s) lba;
     (e2, g2) \<leftarrow> merge_pages ci lc c junk lb d nb [0..<BLOCK_SIZE c] e1 g1;
     (e3, s3) \<leftarrow> bast_erase ci c junk e2 (lb_address lb) LOG (s\<lparr>ba_gs := g2\<rparr>);
     (e4, s4) \<leftarrow> erase_data_block ci c junk lba e3 s3;
     let s5 = s4\<lparr>data_list := (data_list s4)[lba := int (get_linear_address nb)]\<rparr>;
     (e5, g5) \<leftarrow> update_map_block ci c junk e4 (ba_gs s5);
     Some (e5, ba_count (\<lambda>st. st\<lparr>numLogMergeFull := numLogMergeFull st + 1\<rparr>)
                 (dispose_logblock (int lba) (s5\<lparr>ba_gs := g5\<rparr>)))
   }"

definition bast_merge :: "'w controller_if \<Rightarrow> 'w log_controller \<Rightarrow> config \<Rightarrow> ulong \<Rightarrow> log_block \<Rightarrow> nat \<Rightarrow> event \<Rightarrow>
    'w bast_state \<Rightarrow> (event \<times> 'w bast_state) option" where
  "bast_merge ci lc c junk lb lba e s = do {
     (sq, e1, s1) \<leftarrow> is_sequential ci c junk lb lba e s;
     if sq then Some (e1, s1) else bast_random_merge ci lc c junk lb lba e1 s1
   }"

text \<open>
  The victim is the log block that \<open>random() % size - 1\<close> steps of the iterator reach: the
  first for the remainders 0 and 1, never the last one of several.
\<close>

definition evict_log_block :: "'w controller_if \<Rightarrow> 'w log_controller \<Rightarrow> config \<Rightarrow> ulong \<Rightarrow> event \<Rightarrow>
    'w bast_state \<Rightarrow> (event \<times> 'w bast_state) option" where
  "evict_log_block ci lc c junk e s = do {
     cassert (log_map s \<noteq> []);
     let r = ba_random s (ba_calls s) mod length (log_map s);
     (k, lb) \<leftarrow> aget (log_map s) (r - 1);
     (e1, s1) \<leftarrow> bast_merge ci lc c junk lb (nat k) e (s\<lparr>ba_calls := Suc (ba_calls s)\<rparr>);
     Some (e1, ba_count (\<lambda>st. st\<lparr>numPageBlockToPageConversion := numPageBlockToPageConversion st + 1\<rparr>) s1)
   }"

definition allocate_new_logblock :: "'w controller_if \<Rightarrow> 'w log_controller \<Rightarrow> config \<Rightarrow> ulong \<Rightarrow> nat \<Rightarrow> event \<Rightarrow>
    'w bast_state \<Rightarrow> (event \<times> 'w bast_state) option" where
  "allocate_new_logblock ci lc c junk lba e s = do {
     (e1, s1) \<leftarrow> (if BAST_LOG_BLOCK_LIMIT c \<le> length (log_map s) then evict_log_block ci lc c junk e s
                  else Some (e, s));
     (a, e2, g) \<leftarrow> get_free_block ci c junk LOG e1 (ba_gs s1);
     Some (e2, s1\<lparr>ba_gs := g,
                  log_map := smap_put (int lba) ((LogPageBlock_new c junk)\<lparr>lb_address := a\<rparr>) (log_map s1)\<rparr>)
   }"

section \<open>Writing\<close>

definition put_log :: "nat \<Rightarrow> log_block \<Rightarrow> 'w bast_state \<Rightarrow> 'w bast_state" where
  "put_log lba lb s = s\<lparr>log_map := smap_put (int lba) lb (log_map s)\<rparr>"

definition set_page :: "nat \<Rightarrow> int \<Rightarrow> log_block \<Rightarrow> log_block" where
  "set_page pg v lb = lb\<lparr>lb_pages := (lb_pages lb)[pg := v]\<rparr>"

definition append_to_log :: "'w log_controller \<Rightarrow> config \<Rightarrow> nat \<Rightarrow> uint \<Rightarrow> uint \<Rightarrow> log_block \<Rightarrow> event \<Rightarrow>
    'w bast_state \<Rightarrow> (event \<times> 'w bast_state) option" where
  "append_to_log lc c lba pg numValid lb e s = do {
     p \<leftarrow> aget (lb_pages lb) pg;
     e1 \<leftarrow> (if p \<noteq> - 1 then map_option (\<lambda>a. e\<lparr>replace_address := a\<rparr>) (log_page_address c lb p) else Some e);
     a \<leftarrow> lc_get_free_page lc (lb_address lb) (gs_world (ba_gs s));
     Some (e1\<lparr>ev_address := a\<rparr>, put_log lba (set_page pg (int numValid) lb) s)
   }"

definition write_to_new_log :: "'w controller_if \<Rightarrow> 'w log_controller \<Rightarrow> config \<Rightarrow> ulong \<Rightarrow> nat \<Rightarrow> uint \<Rightarrow> log_block \<Rightarrow> event \<Rightarrow>
    'w bast_state \<Rightarrow> (event \<times> 'w bast_state) option" where
  "write_to_new_log ci lc c junk lba pg lb e s = do {
     (e1, s1) \<leftarrow> bast_merge ci lc c junk lb lba e s;
     (e2, s2) \<leftarrow> allocate_new_logblock ci lc c junk lba e1 s1;
     lb2 \<leftarrow> map_of (log_map s2) (int lba);
     cassert (pg < length (lb_pages lb2));
     Some (e2\<lparr>ev_address := (lb_address lb2)\<lparr>valid := PAGE\<rparr>\<rparr>, put_log lba (set_page pg 0 lb2) s2)
   }"

text \<open>The old copy in the data block, if that page was ever written, is what the write replaces.\<close>

definition replace_in_data :: "'w controller_if \<Rightarrow> 'w block_heap \<Rightarrow> config \<Rightarrow> nat \<Rightarrow> event \<Rightarrow> 'w bast_state \<Rightarrow> event option" where
  "replace_in_data ci bh c lba e s = do {
     d \<leftarrow> aget (data_list s) lba;
     if d \<noteq> - 1 then do {
       let offset = logical_address e mod BLOCK_SIZE c;
       a \<leftarrow> Address_linear c (uint_of_int (d + int offset)) PAGE;
       p \<leftarrow> ci_get_block_pointer ci a (gs_world (ba_gs s));
       b \<leftarrow> bh_get bh p (gs_world (ba_gs s));
       ps \<leftarrow> get_page_state b offset;
       Some (if ps \<noteq> EMPTY then e\<lparr>replace_address := a\<rparr> else e)
     } else Some e
   }"

definition FtlImpl_Bast_write :: "'w controller_if \<Rightarrow> 'w log_controller \<Rightarrow> 'w block_heap \<Rightarrow> config \<Rightarrow> ulong \<Rightarrow> event \<Rightarrow>
    'w bast_state \<Rightarrow> (status \<times> event \<times> 'w bast_state) option" where
  "FtlImpl_Bast_write ci lc bh c junk e s = do {
     let lba = bast_lba e s;
     ea \<leftarrow> Address_linear c (logical_address e mod 2 ^ 32) PAGE;
     (e1, s1) \<leftarrow> (if map_of (log_map s) (int lba) = None then allocate_new_logblock ci lc c junk lba e s
                  else Some (e, s));
     let s2 = ba_count (\<lambda>st. st\<lparr>numMemoryRead := numMemoryRead st + 1\<rparr>) s1;
     lb \<leftarrow> map_of (log_map s2) (int lba);
     numValid \<leftarrow> lc_get_num_valid lc (lb_address lb) (gs_world (ba_gs s2));
     (e2, s3) \<leftarrow> (if numValid < BLOCK_SIZE c then append_to_log lc c lba (page ea) numValid lb e1 s2
                  else write_to_new_log ci lc c junk lba (page ea) lb e1 s2);
     e3 \<leftarrow> replace_in_data ci bh c lba e2 s3;
     bast_issue ci e3 (ba_count count_ftl_write s3)
   }"

section \<open>Trimming\<close>

definition trim_log_page :: "'w controller_if \<Rightarrow> 'w block_heap \<Rightarrow> config \<Rightarrow> ulong \<Rightarrow> nat \<Rightarrow> uint \<Rightarrow> log_block \<Rightarrow> int \<Rightarrow> event \<Rightarrow>
    'w bast_state \<Rightarrow> (address \<times> event \<times> 'w bast_state) option" where
  "trim_log_page ci bh c junk lba pg lb p e s = do {
     a \<leftarrow> log_page_address c lb p;
     (bst, w) \<leftarrow> trim_block_page ci bh c a (gs_world (ba_gs s));
     let s1 = put_log lba (set_page pg (- 1) lb) (s\<lparr>ba_gs := (ba_gs s)\<lparr>gs_world := w\<rparr>\<rparr>);
     if bst = INACTIVE then do {
       (e1, s2) \<leftarrow> bast_erase ci c junk e a LOG (dispose_logblock (int lba) s1);
       Some (a, e1, s2)
     } else Some (a, e, s1)
   }"

definition trim_data_page :: "'w controller_if \<Rightarrow> 'w block_heap \<Rightarrow> config \<Rightarrow> ulong \<Rightarrow> nat \<Rightarrow> event \<Rightarrow>
    'w bast_state \<Rightarrow> (event \<times> 'w bast_state) option" where
  "trim_data_page ci bh c junk lba e s = do {
     d \<leftarrow> aget (data_list s) lba;
     if d \<noteq> - 1 then do {
       a \<leftarrow> Address_linear c (uint_of_int (d + int (logical_address e mod BLOCK_SIZE c))) PAGE;
       (bst, w) \<leftarrow> trim_block_page ci bh c a (gs_world (ba_gs s));
       let s1 = s\<lparr>ba_gs := (ba_gs s)\<lparr>gs_world := w\<rparr>\<rparr>;
       if bst = INACTIVE
       then bast_erase ci c junk e a DATA (s1\<lparr>data_list := (data_list s1)[lba := - 1]\<rparr>)
       else Some (e, s1)
     } else Some (e, s)
   }"

definition FtlImpl_Bast_trim :: "'w controller_if \<Rightarrow> 'w block_heap \<Rightarrow> config \<Rightarrow> ulong \<Rightarrow> event \<Rightarrow>
    'w bast_state \<Rightarrow> (status \<times> event \<times> 'w bast_state) option" where
  "FtlImpl_Bast_trim ci bh c junk e s = do {
     let lba = bast_lba e s;
     ea \<leftarrow> Address_linear c (logical_address e mod 2 ^ 32) PAGE;
     let s1 = ba_count (\<lambda>st. st\<lparr>numMemoryRead := numMemoryRead st + 1\<rparr>) s;
     let lb = map_of (log_map s1) (int lba);
     p \<leftarrow> log_entry lb (page ea);
     (a, e1, s2) \<leftarrow> (case lb of
          Some l \<Rightarrow> if p \<noteq> - 1 then trim_log_page ci bh c junk lba (page ea) l p e s1
                    else Some (Address_default junk, e, s1)
        | None \<Rightarrow> Some (Address_default junk, e, s1));
     (e2, s3) \<leftarrow> trim_data_page ci bh c junk lba e1 s2;
     bast_issue ci (e2\<lparr>ev_address := a, noop := True\<rparr>)
       (ba_count (\<lambda>st. st\<lparr>numFTLTrim := numFTLTrim st + 1\<rparr>) s3)
   }"

end
