(* ===== verification/Bast_Facts.thy ===== *)
theory Bast_Facts
  imports Ftl_Bast
begin

text \<open>
  Facts on the block-associative FTL: what a merge does to the two tables, how many log blocks
  there are, and which physical page a read goes to before and after an operation.
\<close>

section \<open>The frame of the block manager\<close>

lemma ba_simps [simp]:
  "data_list (ba_count f s) = data_list s" "log_map (ba_count f s) = log_map s"
  "addressShift (ba_count f s) = addressShift s"
  "data_list (dispose_logblock k s) = data_list s" "log_map (dispose_logblock k s) = smap_erase k (log_map s)"
  "addressShift (dispose_logblock k s) = addressShift s"
  "data_list (put_log l lb s) = data_list s" "log_map (put_log l lb s) = smap_put (int l) lb (log_map s)"
  "addressShift (put_log l lb s) = addressShift s"
  by (simp_all add: ba_count_def dispose_logblock_def put_log_def)

lemma bast_erase_frame:
  "bast_erase ci c junk e a ty s = Some (e', s') \<Longrightarrow>
   data_list s' = data_list s \<and> log_map s' = log_map s \<and> addressShift s' = addressShift s"
  by (auto simp: bast_erase_def bind_eq_Some_conv)

lemma erase_data_block_frame:
  "erase_data_block ci c junk lba e s = Some (e', s') \<Longrightarrow>
   data_list s' = data_list s \<and> log_map s' = log_map s \<and> addressShift s' = addressShift s \<and> lba < length (data_list s)"
  by (auto simp: erase_data_block_def bind_eq_Some_conv dest: bast_erase_frame split: if_splits)

section \<open>Merges\<close>

lemma is_sequential_frame:
  assumes "is_sequential ci c junk lb lba e s = Some (sq, e', s')"
  shows "sq = log_in_order c lb"
    "if sq then lba < length (data_list s) \<and> log_map s' = smap_erase (int lba) (log_map s)
        \<and> data_list s' = (data_list s)[lba := int (get_linear_address (lb_address lb))]
        \<and> addressShift s' = addressShift s
     else e' = e \<and> s' = s"
  using assms unfolding is_sequential_def
  by (auto simp: Let_def bind_eq_Some_conv dest!: erase_data_block_frame split: if_splits)

lemma random_merge_frame:
  assumes "bast_random_merge ci lc c junk lb lba e s = Some (e', s')"
  shows "log_map s' = smap_erase (int lba) (log_map s)" "addressShift s' = addressShift s"
    "\<exists>n. data_list s' = (data_list s)[lba := int n]"
  using assms unfolding bast_random_merge_def
  by (auto simp: Let_def bind_eq_Some_conv dest!: erase_data_block_frame bast_erase_frame)

lemma bast_merge_frame:
  assumes "bast_merge ci lc c junk lb lba e s = Some (e', s')"
  shows "log_map s' = smap_erase (int lba) (log_map s)" "addressShift s' = addressShift s"
    "\<exists>n. data_list s' = (data_list s)[lba := int n]"
proof -
  from assms obtain sq e1 s1 where q: "is_sequential ci c junk lb lba e s = Some (sq, e1, s1)"
    and r: "if sq then (e', s') = (e1, s1) else bast_random_merge ci lc c junk lb lba e1 s1 = Some (e', s')"
    unfolding bast_merge_def by (auto simp: bind_eq_Some_conv split: if_splits)
  note f = is_sequential_frame(2) [OF q]
  have "log_map s' = smap_erase (int lba) (log_map s) \<and> addressShift s' = addressShift s
      \<and> (\<exists>n. data_list s' = (data_list s)[lba := int n])"
    using f r random_merge_frame [of ci lc c junk lb lba e1 s1 e' s'] by (auto split: if_splits)
  then show "log_map s' = smap_erase (int lba) (log_map s)" "addressShift s' = addressShift s"
    "\<exists>n. data_list s' = (data_list s)[lba := int n]" by simp_all
qed

section \<open>The number of log blocks\<close>

definition log_map_ok :: "'w bast_state \<Rightarrow> bool" where
  "log_map_ok s \<longleftrightarrow> sorted (map fst (log_map s)) \<and> distinct (map fst (log_map s))
     \<and> list_all (\<lambda>q. 0 \<le> fst q) (log_map s)"

lemma smap_erase_length:
  assumes "distinct (map fst m)" "k \<in> fst ` set m"
  shows "length (smap_erase k m) = length m - 1"
  using assms
proof (induction m)
  case (Cons q m)
  show ?case
  proof (cases "fst q = k")
    case True
    with Cons.prems(1) have "k \<notin> fst ` set m" by auto
    then have "smap_erase k m = m" by (auto simp: smap_erase_def filter_id_conv)
    with True show ?thesis by (simp add: smap_erase_def)
  next
    case False
    with Cons have k: "k \<in> fst ` set m" by auto
    then have "0 < length m" by (cases m) auto
    with Cons False k show ?thesis by (simp add: smap_erase_def)
  qed
qed simp

lemma smap_put_length: "length (smap_put k v m) \<le> Suc (length m)"
  by (induction k v m rule: smap_put.induct) auto

lemma smap_put_same_length:
  "sorted (map fst m) \<Longrightarrow> k \<in> fst ` set m \<Longrightarrow> length (smap_put k v m) = length m"
  by (induction k v m rule: smap_put.induct) auto

lemma nonneg_keys: "list_all (\<lambda>q. 0 \<le> fst q) m \<longleftrightarrow> (\<forall>k\<in>fst ` set m. 0 \<le> k)"
  by (simp add: list_all_iff)

lemma log_map_ok_erase: "log_map_ok s \<Longrightarrow> log_map s' = smap_erase k (log_map s) \<Longrightarrow> log_map_ok s'"
  using smap_erase_sorted [of "log_map s" k] by (auto simp: log_map_ok_def smap_erase_def list_all_iff)

lemma log_map_ok_put: "log_map_ok s \<Longrightarrow> log_map s' = smap_put (int k) v (log_map s) \<Longrightarrow> log_map_ok s'"
  using smap_put_sorted [of "log_map s" "int k" v]
  by (simp add: log_map_ok_def nonneg_keys smap_put_keys)

definition bast_tables_ok :: "config \<Rightarrow> 'w bast_state \<Rightarrow> bool" where
  "bast_tables_ok c s \<longleftrightarrow> log_map_ok s \<and> list_all (\<lambda>q. length (lb_pages (snd q)) = BLOCK_SIZE c) (log_map s)"

definition bast_inv :: "config \<Rightarrow> 'w bast_state \<Rightarrow> bool" where
  "bast_inv c s \<longleftrightarrow> bast_tables_ok c s \<and> length (log_map s) \<le> BAST_LOG_BLOCK_LIMIT c"

lemma set_smap_put: "set (smap_put k v m) \<subseteq> insert (k, v) (set m)"
  by (induction k v m rule: smap_put.induct) auto

lemma tables_put:
  "bast_tables_ok c s \<Longrightarrow> length (lb_pages lb) = BLOCK_SIZE c \<Longrightarrow> log_map s' = smap_put (int k) lb (log_map s) \<Longrightarrow>
   bast_tables_ok c s'"
  using log_map_ok_put [of s s' k lb] set_smap_put [of "int k" lb "log_map s"]
  by (auto simp: bast_tables_ok_def list_all_iff)

lemma tables_erase:
  "bast_tables_ok c s \<Longrightarrow> log_map s' = smap_erase k (log_map s) \<Longrightarrow> bast_tables_ok c s'"
  using log_map_ok_erase [of s s' k] by (auto simp: bast_tables_ok_def list_all_iff smap_erase_def)

lemma tables_same: "log_map s' = log_map s \<Longrightarrow> bast_tables_ok c s' = bast_tables_ok c s"
  by (simp add: bast_tables_ok_def log_map_ok_def)

lemma inv_erase: "bast_inv c s \<Longrightarrow> log_map s' = smap_erase k (log_map s) \<Longrightarrow> bast_inv c s'"
  using tables_erase [of c s s' k] le_trans [OF length_filter_le [of "\<lambda>q. fst q \<noteq> k" "log_map s"]]
  by (simp add: bast_inv_def smap_erase_def)

lemma inv_same: "log_map s' = log_map s \<Longrightarrow> bast_inv c s' = bast_inv c s"
  by (simp add: bast_inv_def tables_same [of s' s])

lemma evict_log_block_room:
  assumes ev: "evict_log_block ci lc c junk e s = Some (e', s')" and ok: "bast_tables_ok c s"
  shows "bast_tables_ok c s' \<and> length (log_map s') < length (log_map s)"
proof -
  define i where "i = ba_random s (ba_calls s) mod length (log_map s) - Suc 0"
  obtain k lb where kl: "log_map s ! i = (k, lb)" by fastforce
  from ev obtain s0 where i: "i < length (log_map s)" and m: "log_map s' = log_map s0"
    and mg: "bast_merge ci lc c junk lb (nat k) e (s\<lparr>ba_calls := Suc (ba_calls s)\<rparr>) = Some (e', s0)"
    unfolding evict_log_block_def by (auto simp: bind_eq_Some_conv Let_def i_def [symmetric] kl split: if_splits)
  have mem: "(k, lb) \<in> set (log_map s)" using nth_mem [OF i] kl by simp
  then have "0 \<le> k" using ok by (auto simp: bast_tables_ok_def log_map_ok_def list_all_iff)
  with bast_merge_frame(1) [OF mg] m have er: "log_map s' = smap_erase k (log_map s)" by simp
  have "k \<in> fst ` set (log_map s)" using mem by force
  with ok have "length (log_map s') = length (log_map s) - 1"
    unfolding er by (intro smap_erase_length) (simp_all add: bast_tables_ok_def log_map_ok_def)
  with i tables_erase [OF ok er] show ?thesis by simp
qed

lemma allocate_inv:
  assumes al: "allocate_new_logblock ci lc c junk lba e s = Some (e', s')" and ok: "bast_inv c s"
  shows "bast_inv c s'"
proof -
  from al obtain e1 s1 a where
    s1: "(if BAST_LOG_BLOCK_LIMIT c \<le> length (log_map s) then evict_log_block ci lc c junk e s else Some (e, s))
      = Some (e1, s1)"
    and s': "log_map s' = smap_put (int lba) ((LogPageBlock_new c junk)\<lparr>lb_address := a\<rparr>) (log_map s1)"
    unfolding allocate_new_logblock_def by (auto simp: bind_eq_Some_conv)
  from s1 evict_log_block_room [of ci lc c junk e s e1 s1] ok
  have "bast_tables_ok c s1 \<and> length (log_map s1) < BAST_LOG_BLOCK_LIMIT c"
    by (auto simp: bast_inv_def split: if_splits)
  with s' smap_put_length [of "int lba" "(LogPageBlock_new c junk)\<lparr>lb_address := a\<rparr>" "log_map s1"] tables_put [OF _ _ s']
  show ?thesis by (simp add: bast_inv_def LogPageBlock_new_def)
qed

lemma append_frame:
  "append_to_log lc c lba pg nv lb e s = Some (e', s') \<Longrightarrow> s' = put_log lba (set_page pg (int nv) lb) s
   \<and> pg < length (lb_pages lb) \<and> logical_address e' = logical_address e"
  by (auto simp: append_to_log_def bind_eq_Some_conv split: if_splits)

lemma put_log_inv:
  assumes ok: "bast_inv c s" and lb: "map_of (log_map s) (int lba) = Some lb0" "length (lb_pages lb) = BLOCK_SIZE c"
  shows "bast_inv c (put_log lba lb s)"
proof -
  have "int lba \<in> fst ` set (log_map s)" using map_of_SomeD [OF lb(1)] by force
  then have "length (smap_put (int lba) lb (log_map s)) = length (log_map s)"
    using ok by (intro smap_put_same_length) (simp_all add: bast_inv_def bast_tables_ok_def log_map_ok_def)
  with tables_put [of c s lb "put_log lba lb s" lba] ok lb(2) show ?thesis by (simp add: bast_inv_def)
qed

lemma tables_ok_block:
  "bast_tables_ok c s \<Longrightarrow> map_of (log_map s) k = Some lb \<Longrightarrow> length (lb_pages lb) = BLOCK_SIZE c"
  by (auto simp: bast_tables_ok_def list_all_iff dest!: map_of_SomeD)

lemma set_page_length [simp]: "length (lb_pages (set_page pg v lb)) = length (lb_pages lb)"
  by (simp add: set_page_def)

lemma write_to_new_log_inv:
  assumes "write_to_new_log ci lc c junk lba pg lb e s = Some (e', s')" "bast_inv c s"
  shows "bast_inv c s'"
proof -
  from assms(1) obtain e1 s1 e2 s2 lb2 where m: "bast_merge ci lc c junk lb lba e s = Some (e1, s1)"
    and al: "allocate_new_logblock ci lc c junk lba e1 s1 = Some (e2, s2)"
    and lb2: "map_of (log_map s2) (int lba) = Some lb2" and s': "s' = put_log lba (set_page pg 0 lb2) s2"
    unfolding write_to_new_log_def by (auto simp: bind_eq_Some_conv split: if_splits)
  have inv: "bast_inv c s2" by (rule allocate_inv [OF al inv_erase [OF assms(2) bast_merge_frame(1) [OF m]]])
  then have "length (lb_pages lb2) = BLOCK_SIZE c" using tables_ok_block lb2 by (auto simp: bast_inv_def)
  then show ?thesis unfolding s' by (intro put_log_inv [OF inv lb2]) simp
qed

lemma issue_frame: "bast_issue ci e s = Some (r, e', s') \<Longrightarrow> log_map s' = log_map s"
  by (auto simp: bast_issue_def bind_eq_Some_conv)

lemma write_steps:
  assumes "FtlImpl_Bast_write ci lc bh c junk e s = Some (r, e', s')"
  obtains ea e1 s1 lb nv e2 s3 e3 where
    "Address_linear c (logical_address e mod 2 ^ 32) PAGE = Some ea"
    "(if map_of (log_map s) (int (bast_lba e s)) = None then allocate_new_logblock ci lc c junk (bast_lba e s) e s
      else Some (e, s)) = Some (e1, s1)"
    "map_of (log_map (ba_count (\<lambda>st. st\<lparr>numMemoryRead := numMemoryRead st + 1\<rparr>) s1)) (int (bast_lba e s)) = Some lb"
    "lc_get_num_valid lc (lb_address lb) (gs_world (ba_gs (ba_count (\<lambda>st. st\<lparr>numMemoryRead := numMemoryRead st + 1\<rparr>) s1))) = Some nv"
    "(if nv < BLOCK_SIZE c then append_to_log lc c (bast_lba e s) (page ea) nv lb e1 (ba_count (\<lambda>st. st\<lparr>numMemoryRead := numMemoryRead st + 1\<rparr>) s1)
      else write_to_new_log ci lc c junk (bast_lba e s) (page ea) lb e1 (ba_count (\<lambda>st. st\<lparr>numMemoryRead := numMemoryRead st + 1\<rparr>) s1)) = Some (e2, s3)"
    "replace_in_data ci bh c (bast_lba e s) e2 s3 = Some e3"
    "bast_issue ci e3 (ba_count count_ftl_write s3) = Some (r, e', s')"
proof -
  show thesis
    using assms unfolding FtlImpl_Bast_write_def Let_def bind_eq_Some_conv split_paired_Ex prod.case
    by - (elim exE conjE, rule that, assumption+)
qed

lemma trim_steps:
  assumes "FtlImpl_Bast_trim ci bh c junk e s = Some (r, e', s')"
  obtains ea p a e1 s2 e2 s3 where
    "Address_linear c (logical_address e mod 2 ^ 32) PAGE = Some ea"
    "(case map_of (log_map s) (int (bast_lba e s)) of
        Some l \<Rightarrow> if p \<noteq> - 1 then trim_log_page ci bh c junk (bast_lba e s) (page ea) l p e (ba_count (\<lambda>st. st\<lparr>numMemoryRead := numMemoryRead st + 1\<rparr>) s)
                  else Some (Address_default junk, e, ba_count (\<lambda>st. st\<lparr>numMemoryRead := numMemoryRead st + 1\<rparr>) s)
      | None \<Rightarrow> Some (Address_default junk, e, ba_count (\<lambda>st. st\<lparr>numMemoryRead := numMemoryRead st + 1\<rparr>) s)) = Some (a, e1, s2)"
    "trim_data_page ci bh c junk (bast_lba e s) e1 s2 = Some (e2, s3)"
    "bast_issue ci (e2\<lparr>ev_address := a, noop := True\<rparr>)
      (ba_count (\<lambda>st. st\<lparr>numFTLTrim := numFTLTrim st + 1\<rparr>) s3) = Some (r, e', s')"
proof -
  show thesis
    using assms unfolding FtlImpl_Bast_trim_def Let_def bind_eq_Some_conv split_paired_Ex prod.case ba_simps
    by - (elim exE conjE, rule that, assumption+)
qed

lemma write_inv:
  assumes "FtlImpl_Bast_write ci lc bh c junk e s = Some (r, e', s')" "bast_inv c s"
  shows "bast_inv c s'"
proof -
  let ?l = "bast_lba e s"
  from write_steps [OF assms(1)] obtain ea e1 s1 lb nv e2 s3 e3 where
    "Address_linear c (logical_address e mod 2 ^ 32) PAGE = Some ea"
    and s1: "(if map_of (log_map s) (int ?l) = None then allocate_new_logblock ci lc c junk ?l e s else Some (e, s)) = Some (e1, s1)"
    and lb: "map_of (log_map (ba_count (\<lambda>st. st\<lparr>numMemoryRead := numMemoryRead st + 1\<rparr>) s1)) (int ?l) = Some lb"
    and "lc_get_num_valid lc (lb_address lb) (gs_world (ba_gs (ba_count (\<lambda>st. st\<lparr>numMemoryRead := numMemoryRead st + 1\<rparr>) s1))) = Some nv"
    and s3: "(if nv < BLOCK_SIZE c
        then append_to_log lc c ?l (page ea) nv lb e1 (ba_count (\<lambda>st. st\<lparr>numMemoryRead := numMemoryRead st + 1\<rparr>) s1)
        else write_to_new_log ci lc c junk ?l (page ea) lb e1 (ba_count (\<lambda>st. st\<lparr>numMemoryRead := numMemoryRead st + 1\<rparr>) s1)) = Some (e2, s3)"
    and "replace_in_data ci bh c ?l e2 s3 = Some e3"
    and iss: "bast_issue ci e3 (ba_count count_ftl_write s3) = Some (r, e', s')" .
  let ?s2 = "ba_count (\<lambda>st. st\<lparr>numMemoryRead := numMemoryRead st + 1\<rparr>) s1"
  have "bast_inv c s1" using s1 assms(2) by (auto split: if_splits intro: allocate_inv)
  then have i2: "bast_inv c ?s2" using inv_same [of ?s2 s1 c] by simp
  have len: "length (lb_pages lb) = BLOCK_SIZE c" using i2 lb by (intro tables_ok_block [of c ?s2]) (simp_all add: bast_inv_def)
  have "bast_inv c s3"
  proof (cases "nv < BLOCK_SIZE c")
    case True
    then have "append_to_log lc c ?l (page ea) nv lb e1 ?s2 = Some (e2, s3)" using s3 by simp
    then have "s3 = put_log ?l (set_page (page ea) (int nv) lb) ?s2" using append_frame by blast
    then show ?thesis using put_log_inv [OF i2] lb len by simp
  next
    case False
    then show ?thesis using s3 write_to_new_log_inv [OF _ i2] by auto
  qed
  then show ?thesis using issue_frame [OF iss] inv_same [of s' s3 c] by simp
qed

lemma trim_inv:
  assumes "FtlImpl_Bast_trim ci bh c junk e s = Some (r, e', s')" "bast_inv c s"
  shows "bast_inv c s'"
proof -
  let ?l = "bast_lba e s" and ?s1 = "ba_count (\<lambda>st. st\<lparr>numMemoryRead := numMemoryRead st + 1\<rparr>) s"
  have i1: "bast_inv c ?s1" using assms(2) inv_same [of ?s1 s c] by simp
  from trim_steps [OF assms(1)] obtain ea p a e1 s2 e2 s3 where
    "Address_linear c (logical_address e mod 2 ^ 32) PAGE = Some ea"
    and s2: "(case map_of (log_map s) (int ?l) of
          Some l \<Rightarrow> if p \<noteq> - 1 then trim_log_page ci bh c junk ?l (page ea) l p e ?s1 else Some (Address_default junk, e, ?s1)
        | None \<Rightarrow> Some (Address_default junk, e, ?s1)) = Some (a, e1, s2)"
    and s3: "trim_data_page ci bh c junk ?l e1 s2 = Some (e2, s3)"
    and iss: "bast_issue ci (e2\<lparr>ev_address := a, noop := True\<rparr>)
      (ba_count (\<lambda>st. st\<lparr>numFTLTrim := numFTLTrim st + 1\<rparr>) s3) = Some (r, e', s')" .
  have "bast_inv c s2"
  proof (cases "map_of (log_map s) (int ?l)")
    case None
    then show ?thesis using s2 i1 by simp
  next
    case (Some lb)
    have len: "length (lb_pages lb) = BLOCK_SIZE c" using i1 Some by (intro tables_ok_block [of c ?s1]) (simp_all add: bast_inv_def)
    show ?thesis
    proof (cases "p = - 1")
      case False
      with s2 Some obtain w where "s2 = put_log ?l (set_page (page ea) (- 1) lb) (?s1\<lparr>ba_gs := (ba_gs ?s1)\<lparr>gs_world := w\<rparr>\<rparr>)
        \<or> (\<exists>s4. s4 = put_log ?l (set_page (page ea) (- 1) lb) (?s1\<lparr>ba_gs := (ba_gs ?s1)\<lparr>gs_world := w\<rparr>\<rparr>)
             \<and> log_map s2 = smap_erase (int ?l) (log_map s4))"
        by (auto simp: trim_log_page_def bind_eq_Some_conv Let_def dest: bast_erase_frame split: if_splits)
      moreover have "bast_inv c (put_log ?l (set_page (page ea) (- 1) lb) (?s1\<lparr>ba_gs := (ba_gs ?s1)\<lparr>gs_world := w\<rparr>\<rparr>))"
        using put_log_inv [of c "?s1\<lparr>ba_gs := (ba_gs ?s1)\<lparr>gs_world := w\<rparr>\<rparr>" ?l lb] i1 inv_same [of "?s1\<lparr>ba_gs := (ba_gs ?s1)\<lparr>gs_world := w\<rparr>\<rparr>" ?s1 c] Some len
        by simp
      ultimately show ?thesis using inv_erase by blast
    qed (use s2 i1 Some in simp)
  qed
  moreover have "log_map s3 = log_map s2"
    using s3 by (auto simp: trim_data_page_def bind_eq_Some_conv Let_def dest: bast_erase_frame split: if_splits)
  ultimately show ?thesis using issue_frame [OF iss] inv_same [of s' s2 c] by simp
qed

section \<open>Where a read goes\<close>

lemma linear_page:
  assumes "geometry_ok c"
  obtains a where "Address_linear c n PAGE = Some a" "page a = n mod BLOCK_SIZE c" "real_address a = n"
  using assms by (simp add: Address_linear_def set_linear_Some)

text \<open>The page that holds a logical page: in the log block, in the data block, or nowhere.\<close>

definition bast_target :: "config \<Rightarrow> event \<Rightarrow> 'w bast_state \<Rightarrow> int" where
  "bast_target c e s =
     (let off = logical_address e mod BLOCK_SIZE c;
          d = data_list s ! bast_lba e s;
          in_data = (if d = - 1 then 0 else d + int off)
      in case map_of (log_map s) (int (bast_lba e s)) of
           Some lb \<Rightarrow> if lb_pages lb ! off \<noteq> - 1 then int (get_linear_address (lb_address lb)) + lb_pages lb ! off
                      else in_data
         | None \<Rightarrow> in_data)"

lemma read_address_target:
  assumes geo: "geometry_ok c" and la: "logical_address e < 2 ^ 32" and ok: "bast_tables_ok c s"
    and lba: "bast_lba e s < length (data_list s)"
  shows "bast_read_address c e s = Address_linear c (uint_of_int (bast_target c e s)) PAGE"
proof -
  have pos: "0 < BLOCK_SIZE c" using geo by (simp add: geometry_ok_def)
  from linear_page [OF geo, of "logical_address e"] obtain ea where
    ea: "Address_linear c (logical_address e mod 2 ^ 32) PAGE = Some ea" "page ea = logical_address e mod BLOCK_SIZE c"
    using la by auto
  show ?thesis
  proof (cases "map_of (log_map s) (int (bast_lba e s))")
    case None
    then show ?thesis using ea lba
      by (simp add: bast_read_address_def bast_target_def log_entry_def Let_def aget_nth uint_of_int_def)
  next
    case (Some lb)
    have "length (lb_pages lb) = BLOCK_SIZE c" by (rule tables_ok_block [OF ok Some])
    then have "logical_address e mod BLOCK_SIZE c < length (lb_pages lb)" using pos by simp
    then show ?thesis using Some ea lba
      by (simp add: bast_read_address_def bast_target_def log_entry_def Let_def aget_nth log_page_address_def uint_of_int_def)
  qed
qed

text \<open>A switch merge: the log block becomes the data block and every page stays where it is.\<close>

lemma switch_target:
  assumes sq: "is_sequential ci c junk lb lba e s = Some (True, e', s')" and pos: "0 < BLOCK_SIZE c"
    and lb: "map_of (log_map s) (int lba) = Some lb"
  shows "bast_target c x s' = bast_target c x s"
proof -
  have ord: "lb_pages lb = map int [0..<BLOCK_SIZE c]"
    using is_sequential_frame(1) [OF sq] by (simp add: log_in_order_def)
  have f: "lba < length (data_list s)" "log_map s' = smap_erase (int lba) (log_map s)"
    "data_list s' = (data_list s)[lba := int (get_linear_address (lb_address lb))]" "addressShift s' = addressShift s"
    using is_sequential_frame(2) [OF sq] by auto
  have off: "logical_address x mod BLOCK_SIZE c < BLOCK_SIZE c" using pos by simp
  have same: "bast_lba x s' = bast_lba x s" by (simp add: bast_lba_def f(4))
  show ?thesis
  proof (cases "bast_lba x s = lba")
    case True
    then show ?thesis using f lb ord off same
      by (simp add: bast_target_def Let_def map_of_smap_erase)
  next
    case False
    then show ?thesis using f same by (simp add: bast_target_def Let_def map_of_smap_erase)
  qed
qed

text \<open>A write into the log block moves the page that is written and no other.\<close>

lemma bast_lba_simps [simp]: "bast_lba x (put_log l lb s) = bast_lba x s" "bast_lba x (ba_count f s) = bast_lba x s"
  by (simp_all add: bast_lba_def)

lemma target_count [simp]: "bast_target c x (ba_count f s) = bast_target c x s"
  by (simp add: bast_target_def)

lemma append_target:
  assumes "map_of (log_map s) (int lba) = Some lb" "length (lb_pages lb) = BLOCK_SIZE c" "pg < BLOCK_SIZE c"
  shows "bast_target c x (put_log lba (set_page pg (int nv) lb) s) =
    (if bast_lba x s = lba \<and> logical_address x mod BLOCK_SIZE c = pg
     then int (get_linear_address (lb_address lb)) + int nv else bast_target c x s)"
  using assms by (simp add: bast_target_def Let_def map_of_smap_put set_page_def nth_list_update)

lemma issue_target: "bast_issue ci e s = Some (r, e', s') \<Longrightarrow> bast_target c x s' = bast_target c x s"
  by (auto simp: bast_issue_def bind_eq_Some_conv bast_target_def bast_lba_def)

lemma replace_in_data_address: "replace_in_data ci bh c lba e s = Some e' \<Longrightarrow> ev_address e' = ev_address e"
  by (auto simp: replace_in_data_def bind_eq_Some_conv Let_def split: if_splits)

lemma append_address:
  "append_to_log lc c lba pg nv lb e s = Some (e', s') \<Longrightarrow>
   lc_get_free_page lc (lb_address lb) (gs_world (ba_gs s)) = Some (ev_address e')"
  by (auto simp: append_to_log_def bind_eq_Some_conv split: if_splits)

lemma write_moves:
  assumes w: "FtlImpl_Bast_write ci lc bh c junk e s = Some (r, e', s')" and inv: "bast_inv c s"
    and geo: "geometry_ok c" and la: "logical_address e < 2 ^ 32"
    and lb: "map_of (log_map s) (int (bast_lba e s)) = Some lb"
    and nv: "lc_get_num_valid lc (lb_address lb) (gs_world (ba_gs s)) = Some nv" "nv < BLOCK_SIZE c"
  shows "bast_target c x s' =
      (if bast_lba x s = bast_lba e s \<and> logical_address x mod BLOCK_SIZE c = logical_address e mod BLOCK_SIZE c
       then int (get_linear_address (lb_address lb)) + int nv else bast_target c x s)"
    and "\<exists>ev sx. bast_issue ci ev sx = Some (r, e', s')
      \<and> lc_get_free_page lc (lb_address lb) (gs_world (ba_gs s)) = Some (ev_address ev)"
    and "data_list s' = data_list s" "addressShift s' = addressShift s" "bast_lba e s < length (data_list s)"
proof -
  let ?l = "bast_lba e s" and ?s1 = "ba_count (\<lambda>st. st\<lparr>numMemoryRead := numMemoryRead st + 1\<rparr>) s"
  from write_steps [OF w] obtain ea e1 s1 lb' nv' e2 s3 e3 where
    st: "Address_linear c (logical_address e mod 2 ^ 32) PAGE = Some ea"
    "(if map_of (log_map s) (int ?l) = None then allocate_new_logblock ci lc c junk ?l e s else Some (e, s)) = Some (e1, s1)"
    "map_of (log_map (ba_count (\<lambda>st. st\<lparr>numMemoryRead := numMemoryRead st + 1\<rparr>) s1)) (int ?l) = Some lb'"
    "lc_get_num_valid lc (lb_address lb') (gs_world (ba_gs (ba_count (\<lambda>st. st\<lparr>numMemoryRead := numMemoryRead st + 1\<rparr>) s1))) = Some nv'"
    "(if nv' < BLOCK_SIZE c
      then append_to_log lc c ?l (page ea) nv' lb' e1 (ba_count (\<lambda>st. st\<lparr>numMemoryRead := numMemoryRead st + 1\<rparr>) s1)
      else write_to_new_log ci lc c junk ?l (page ea) lb' e1 (ba_count (\<lambda>st. st\<lparr>numMemoryRead := numMemoryRead st + 1\<rparr>) s1)) = Some (e2, s3)"
    "replace_in_data ci bh c ?l e2 s3 = Some e3"
    "bast_issue ci e3 (ba_count count_ftl_write s3) = Some (r, e', s')" .
  have eq: "s1 = s" "lb' = lb" "nv' = nv" using st(2,3,4) lb nv(1) by (auto simp: ba_count_def bm_count_def)
  have ap: "append_to_log lc c ?l (page ea) nv lb e1 ?s1 = Some (e2, s3)" using st(5) nv(2) eq by simp
  have pg: "page ea = logical_address e mod BLOCK_SIZE c"
    using st(1) la geo by (auto simp: Address_linear_def set_linear_Some)
  have len: "length (lb_pages lb) = BLOCK_SIZE c" using inv lb by (intro tables_ok_block) (simp_all add: bast_inv_def)
  have "s3 = put_log ?l (set_page (page ea) (int nv) lb) ?s1" using append_frame [OF ap] by simp
  moreover have "page ea < BLOCK_SIZE c" using pg geo by (simp add: geometry_ok_def)
  ultimately show "bast_target c x s' =
      (if bast_lba x s = ?l \<and> logical_address x mod BLOCK_SIZE c = logical_address e mod BLOCK_SIZE c
       then int (get_linear_address (lb_address lb)) + int nv else bast_target c x s)"
    using issue_target [OF st(7)] append_target [of ?s1 ?l lb c "page ea" x nv] lb len pg by simp
  have "lc_get_free_page lc (lb_address lb) (gs_world (ba_gs s)) = Some (ev_address e3)"
    using append_address [OF ap] replace_in_data_address [OF st(6)] by (simp add: ba_count_def bm_count_def)
  have tab: "data_list s' = data_list s3 \<and> addressShift s' = addressShift s3"
    using st(7) by (auto simp: bast_issue_def bind_eq_Some_conv)
  with append_frame [OF ap] show "data_list s' = data_list s" "addressShift s' = addressShift s" by simp_all
  from st(6) append_frame [OF ap] show "bast_lba e s < length (data_list s)"
    by (auto simp: replace_in_data_def bind_eq_Some_conv)
  from st(7) \<open>lc_get_free_page lc (lb_address lb) (gs_world (ba_gs s)) = Some (ev_address e3)\<close> show "\<exists>ev sx. bast_issue ci ev sx = Some (r, e', s')
      \<and> lc_get_free_page lc (lb_address lb) (gs_world (ba_gs s)) = Some (ev_address ev)" by blast
qed

section \<open>Reachable states\<close>

inductive bast_reaches :: "'w controller_if \<Rightarrow> 'w log_controller \<Rightarrow> 'w block_heap \<Rightarrow> config \<Rightarrow> ulong \<Rightarrow> 'w bast_state \<Rightarrow> bool"
  for ci lc bh c junk where
  reach_new: "FtlImpl_Bast_new c rnd g = Some s \<Longrightarrow> bast_reaches ci lc bh c junk s"
| reach_read: "bast_reaches ci lc bh c junk s \<Longrightarrow> FtlImpl_Bast_read ci lc c e s = Some (r, e', s') \<Longrightarrow>
    bast_reaches ci lc bh c junk s'"
| reach_write: "bast_reaches ci lc bh c junk s \<Longrightarrow> FtlImpl_Bast_write ci lc bh c junk e s = Some (r, e', s') \<Longrightarrow>
    bast_reaches ci lc bh c junk s'"
| reach_trim: "bast_reaches ci lc bh c junk s \<Longrightarrow> FtlImpl_Bast_trim ci bh c junk e s = Some (r, e', s') \<Longrightarrow>
    bast_reaches ci lc bh c junk s'"

lemma new_inv: "FtlImpl_Bast_new c rnd g = Some s \<Longrightarrow> bast_inv c s"
  by (auto simp: FtlImpl_Bast_new_def bind_eq_Some_conv bast_inv_def bast_tables_ok_def log_map_ok_def)

lemma read_inv: "FtlImpl_Bast_read ci lc c e s = Some (r, e', s') \<Longrightarrow> bast_inv c s \<Longrightarrow> bast_inv c s'"
  using inv_same [of s' s c] by (auto simp: FtlImpl_Bast_read_def bind_eq_Some_conv dest!: issue_frame)

lemma reaches_inv: "bast_reaches ci lc bh c junk s \<Longrightarrow> bast_inv c s"
  by (induction rule: bast_reaches.induct) (auto intro: new_inv read_inv write_inv trim_inv)

section \<open>The next free page\<close>

text \<open>
  What the log-block layers rely on in the controller's \<open>get_free_page\<close>, as \<open>Plane::get_free_page\<close>
  has it: in a block with \<open>n\<close> valid pages the result is page \<open>n\<close> of the block.
\<close>

locale next_free_page =
  fixes lc :: "'w log_controller" and c :: config
  assumes free_page_next: "BLOCK_SIZE c < 2 ^ 32 \<Longrightarrow> real_address a < 2 ^ 32 \<Longrightarrow> lc_get_num_valid lc a w = Some n \<Longrightarrow>
    lc_get_free_page lc a w = Some b \<Longrightarrow> real_address b = real_address a - real_address a mod BLOCK_SIZE c + n"
begin

lemma write_locates:
  assumes w: "FtlImpl_Bast_write ci lc bh c junk e s = Some (r, e', s')" and inv: "bast_inv c s"
    and geo: "geometry_ok c" "BLOCK_SIZE c < 2 ^ 32" and la: "logical_address e < 2 ^ 32"
    and lb: "map_of (log_map s) (int (bast_lba e s)) = Some lb" "real_address (lb_address lb) mod BLOCK_SIZE c = 0"
      "real_address (lb_address lb) < 2 ^ 32"
    and nv: "lc_get_num_valid lc (lb_address lb) (gs_world (ba_gs s)) = Some nv" "nv < BLOCK_SIZE c"
  shows "\<exists>ev t. bast_issue ci ev t = Some (r, e', s')
    \<and> bast_read_address c e s' = Address_linear c (real_address (ev_address ev) mod 2 ^ 32) PAGE"
    and "logical_address x < 2 ^ 32 \<Longrightarrow> bast_lba x s < length (data_list s) \<Longrightarrow>
      bast_lba x s \<noteq> bast_lba e s \<or> logical_address x mod BLOCK_SIZE c \<noteq> logical_address e mod BLOCK_SIZE c \<Longrightarrow>
      bast_read_address c x s' = bast_read_address c x s"
proof -
  note m = write_moves [OF w inv geo(1) la lb(1) nv]
  have ok: "bast_tables_ok c s" "bast_tables_ok c s'" using inv write_inv [OF w inv] by (simp_all add: bast_inv_def)
  have lba: "bast_lba y s' = bast_lba y s" for y by (simp add: bast_lba_def m(4))
  from m(2) obtain ev t where i: "bast_issue ci ev t = Some (r, e', s')"
    and a: "lc_get_free_page lc (lb_address lb) (gs_world (ba_gs s)) = Some (ev_address ev)" by blast
  have "real_address (ev_address ev) = real_address (lb_address lb) + nv"
    using free_page_next [OF geo(2) lb(3) nv(1) a] lb(2) by simp
  then have "bast_target c e s' = int (real_address (ev_address ev))" using m(1) [of e] by (simp add: get_linear_address_def)
  then have "uint_of_int (bast_target c e s') = real_address (ev_address ev) mod 2 ^ 32"
    by (simp add: uint_of_int_def nat_mod_distrib)
  then have "bast_read_address c e s' = Address_linear c (real_address (ev_address ev) mod 2 ^ 32) PAGE"
    using read_address_target [OF geo(1) la ok(2)] m(3,5) lba by simp
  with i show "\<exists>ev t. bast_issue ci ev t = Some (r, e', s')
    \<and> bast_read_address c e s' = Address_linear c (real_address (ev_address ev) mod 2 ^ 32) PAGE" by blast
  show "bast_read_address c x s' = bast_read_address c x s"
    if "logical_address x < 2 ^ 32" "bast_lba x s < length (data_list s)"
      "bast_lba x s \<noteq> bast_lba e s \<or> logical_address x mod BLOCK_SIZE c \<noteq> logical_address e mod BLOCK_SIZE c"
    using read_address_target [OF geo(1) that(1) ok(1) that(2)] read_address_target [OF geo(1) that(1) ok(2)] that m(1) [of x]
      m(3) lba by auto
qed

end

end
