(* ===== verification/Ftl_Fast.thy ===== *)
theory Ftl_Fast
  imports Ftl_Log
begin

text \<open>
  \<open>FTLs/fast_ftl.cpp\<close>: fully associative log blocks. One log block takes sequential writes,
  a list of \<open>FAST_LOG_BLOCK_LIMIT\<close> blocks takes all others; in these \<open>aPages\<close> holds the
  logical page of every log page. The list is the chain of \<open>next\<close> pointers, empty for the null
  pointer.
\<close>

section \<open>State\<close>

record 'w fast_state =
  fa_data_list :: "int list"
  pin_list :: "bool list"
  sequential_offset :: uint
  sequential_logicalblock_address :: int
  sequential_address :: address
  log_page_next :: uint
  log_pages :: "log_block list"
  fa_shift :: nat
  fa_gs :: "'w bm_state"

text \<open>The pin list is not initialised: its content \<open>pins\<close> is arbitrary.\<close>

definition FtlImpl_Fast_new :: "config \<Rightarrow> ulong \<Rightarrow> bool list \<Rightarrow> 'w bm_state \<Rightarrow> 'w fast_state option" where
  "FtlImpl_Fast_new c junk pins g = do {
     _ \<leftarrow> shift_of (NUMBER_OF_ADDRESSABLE_BLOCKS c);
     sh \<leftarrow> shift_of (BLOCK_SIZE c);
     cassert (length pins = total_ftl_pages c);
     Some \<lparr>fa_data_list = replicate (NUMBER_OF_ADDRESSABLE_BLOCKS c) (- 1), pin_list = pins, sequential_offset = 0,
       sequential_logicalblock_address = - 1, sequential_address = Address_default junk, log_page_next = 0,
       log_pages = [], fa_shift = sh, fa_gs = g\<rparr>
   }"

definition fa_count :: "(stats \<Rightarrow> stats) \<Rightarrow> 'w fast_state \<Rightarrow> 'w fast_state" where
  "fa_count f s = s\<lparr>fa_gs := bm_count f (fa_gs s)\<rparr>"

definition fast_issue :: "'w controller_if \<Rightarrow> event \<Rightarrow> 'w fast_state \<Rightarrow> (status \<times> event \<times> 'w fast_state) option" where
  "fast_issue ci e s = do {
     (r, e1, w) \<leftarrow> ci_issue ci e (gs_world (fa_gs s));
     Some (r, e1, s\<lparr>fa_gs := (fa_gs s)\<lparr>gs_world := w\<rparr>\<rparr>)
   }"

definition fast_lba :: "event \<Rightarrow> 'w fast_state \<Rightarrow> nat" where
  "fast_lba e s = logical_address e div 2 ^ fa_shift s"

definition int_get :: "'a list \<Rightarrow> int \<Rightarrow> 'a option" where
  "int_get xs i = (if 0 \<le> i then aget xs (nat i) else None)"

fun new_log_blocks :: "'w controller_if \<Rightarrow> config \<Rightarrow> ulong \<Rightarrow> nat \<Rightarrow> event \<Rightarrow> 'w bm_state \<Rightarrow>
    (log_block list \<times> event \<times> 'w bm_state) option" where
  "new_log_blocks ci c junk 0 e g = Some ([], e, g)"
| "new_log_blocks ci c junk (Suc n) e g = do {
     (a, e1, g1) \<leftarrow> get_free_block ci c junk LOG e g;
     (lbs, e2, g2) \<leftarrow> new_log_blocks ci c junk n e1 g1;
     Some ((LogPageBlock_new c junk)\<lparr>lb_address := a\<rparr> # lbs, e2, g2)
   }"

text \<open>One block, then \<open>FAST_LOG_BLOCK_LIMIT - 1\<close> more, counted in unsigned arithmetic.\<close>

definition initialize_log_pages :: "'w controller_if \<Rightarrow> config \<Rightarrow> ulong \<Rightarrow> 'w fast_state \<Rightarrow> 'w fast_state option" where
  "initialize_log_pages ci c junk s =
     (if log_pages s \<noteq> [] then Some s
      else do {
        e \<leftarrow> Event_new junk WRITE 1 1 0;
        (lbs, _, g) \<leftarrow> new_log_blocks ci c junk (Suc (dec32 (FAST_LOG_BLOCK_LIMIT c))) e (fa_gs s);
        Some (s\<lparr>log_pages := lbs, fa_gs := g\<rparr>)
      })"

section \<open>Reading\<close>

fun scan_pages :: "int \<Rightarrow> int list \<Rightarrow> nat list \<Rightarrow> nat option option" where
  "scan_pages la ap [] = Some None"
| "scan_pages la ap (i # is) = do {
     a \<leftarrow> aget ap i;
     if a = la then Some (Some i) else scan_pages la ap is
   }"

text \<open>The position of the first log page that holds \<open>la\<close>: block number and page.\<close>

fun find_log :: "int \<Rightarrow> nat \<Rightarrow> log_block list \<Rightarrow> (nat \<times> nat) option option" where
  "find_log la k [] = Some None"
| "find_log la k (lb # lbs) = do {
     r \<leftarrow> scan_pages la (aPages lb) [0..<nat (numPages lb)];
     (case r of Some i \<Rightarrow> Some (Some (k, i)) | None \<Rightarrow> find_log la (Suc k) lbs)
   }"

definition in_sequential :: "int \<Rightarrow> nat \<Rightarrow> 'w fast_state \<Rightarrow> bool" where
  "in_sequential lba off s \<longleftrightarrow> sequential_logicalblock_address s = lba \<and> off < sequential_offset s"

definition page_at :: "config \<Rightarrow> nat \<Rightarrow> nat \<Rightarrow> address option" where
  "page_at c base off = Address_linear c ((base + off) mod 2 ^ 32) PAGE"

definition data_page_at :: "config \<Rightarrow> int \<Rightarrow> nat \<Rightarrow> address option" where
  "data_page_at c d off = Address_linear c (uint_of_int (d + int off)) PAGE"

definition fast_locate :: "config \<Rightarrow> event \<Rightarrow> 'w fast_state \<Rightarrow> address option option" where
  "fast_locate c e s = do {
     let lba = fast_lba e s;
     let off = logical_address e mod BLOCK_SIZE c;
     r \<leftarrow> find_log (int (logical_address e)) 0 (log_pages s);
     (case r of
        Some (k, i) \<Rightarrow> map_option Some (page_at c (get_linear_address (lb_address (log_pages s ! k))) i)
      | None \<Rightarrow>
          if in_sequential (int lba) off s then map_option Some (page_at c (get_linear_address (sequential_address s)) off)
          else do {
            d \<leftarrow> aget (fa_data_list s) lba;
            if d \<noteq> - 1 then map_option Some (data_page_at c d off) else Some None
          })
   }"

definition FtlImpl_Fast_read :: "'w controller_if \<Rightarrow> config \<Rightarrow> ulong \<Rightarrow> event \<Rightarrow> 'w fast_state \<Rightarrow>
    (status \<times> event \<times> 'w fast_state) option" where
  "FtlImpl_Fast_read ci c junk e s = do {
     s1 \<leftarrow> initialize_log_pages ci c junk s;
     cassert (BLOCK_SIZE c \<noteq> 0);
     r \<leftarrow> fast_locate c e s1;
     e1 \<leftarrow> (case r of
          Some a \<Rightarrow> Some (e\<lparr>ev_address := a\<rparr>)
        | None \<Rightarrow> map_option (\<lambda>a. e\<lparr>ev_address := a, noop := True\<rparr>) (Address_linear c 0 PAGE));
     fast_issue ci e1 (fa_count count_ftl_read s1)
   }"

section \<open>The sequential log block\<close>

definition fast_invalidate :: "'w controller_if \<Rightarrow> address \<Rightarrow> block_type \<Rightarrow> 'w fast_state \<Rightarrow> 'w fast_state" where
  "fast_invalidate ci a ty s = s\<lparr>fa_gs := bm_invalidate ci a ty (fa_gs s)\<rparr>"

definition fast_map_block :: "'w controller_if \<Rightarrow> config \<Rightarrow> ulong \<Rightarrow> event \<Rightarrow> 'w fast_state \<Rightarrow>
    (event \<times> 'w fast_state) option" where
  "fast_map_block ci c junk e s = do {
     (e1, g) \<leftarrow> update_map_block ci c junk e (fa_gs s);
     Some (e1, s\<lparr>fa_gs := g\<rparr>)
   }"

definition fast_free_block :: "'w controller_if \<Rightarrow> config \<Rightarrow> ulong \<Rightarrow> block_type \<Rightarrow> event \<Rightarrow> 'w fast_state \<Rightarrow>
    (address \<times> event \<times> 'w fast_state) option" where
  "fast_free_block ci c junk ty e s = do {
     (a, e1, g) \<leftarrow> get_free_block ci c junk ty e (fa_gs s);
     Some (a, e1, s\<lparr>fa_gs := g\<rparr>)
   }"

definition fast_insert_events :: "'w controller_if \<Rightarrow> config \<Rightarrow> ulong \<Rightarrow> event \<Rightarrow> 'w fast_state \<Rightarrow>
    (event \<times> 'w fast_state) option" where
  "fast_insert_events ci c junk e s = do {
     (e1, g) \<leftarrow> insert_events ci c junk e (fa_gs s);
     Some (e1, s\<lparr>fa_gs := g\<rparr>)
   }"

definition gc_if_low :: "'w controller_if \<Rightarrow> config \<Rightarrow> ulong \<Rightarrow> event \<Rightarrow> 'w fast_state \<Rightarrow>
    (event \<times> 'w fast_state) option" where
  "gc_if_low ci c junk e s =
     (if get_num_free_blocks c (gs_bm (fa_gs s)) < 5 then fast_insert_events ci c junk e s else Some (e, s))"

text \<open>Give up the data block of \<open>lba\<close>, if it has one.\<close>

definition release_data :: "'w controller_if \<Rightarrow> config \<Rightarrow> int \<Rightarrow> 'w fast_state \<Rightarrow> 'w fast_state option" where
  "release_data ci c lba s = do {
     d \<leftarrow> int_get (fa_data_list s) lba;
     if d \<noteq> - 1 then do {
       a \<leftarrow> Address_linear c (uint_of_int d) BLOCK;
       Some (fast_invalidate ci a DATA s)
     } else Some s
   }"

definition set_data :: "int \<Rightarrow> nat \<Rightarrow> 'w fast_state \<Rightarrow> 'w fast_state" where
  "set_data lba n s = s\<lparr>fa_data_list := (fa_data_list s)[nat lba := int n]\<rparr>"

definition switch_sequential :: "'w controller_if \<Rightarrow> config \<Rightarrow> ulong \<Rightarrow> event \<Rightarrow> 'w fast_state \<Rightarrow>
    (event \<times> 'w fast_state) option" where
  "switch_sequential ci c junk e s = do {
     s1 \<leftarrow> release_data ci c (sequential_logicalblock_address s) s;
     let s2 = set_data (sequential_logicalblock_address s1) (get_linear_address (sequential_address s1)) s1;
     (e1, s3) \<leftarrow> fast_map_block ci c junk e s2;
     Some (e1, fa_count (\<lambda>st. st\<lparr>numLogMergeSwitch := numLogMergeSwitch st + 1\<rparr>) s3)
   }"

definition seq_merge_source :: "'w log_controller \<Rightarrow> config \<Rightarrow> ulong \<Rightarrow> nat \<Rightarrow> 'w fast_state \<Rightarrow> address option option" where
  "seq_merge_source lc c junk i s = do {
     sa \<leftarrow> page_at c (get_linear_address (sequential_address s)) i;
     ps \<leftarrow> FtlParent_get_state lc sa (gs_world (fa_gs s));
     if ps = VALID then Some (Some sa)
     else do {
       d \<leftarrow> int_get (fa_data_list s) (sequential_logicalblock_address s);
       if d = - 1 then Some None
       else do {
         da \<leftarrow> data_page_at c d i;
         ds \<leftarrow> FtlParent_get_state lc da (gs_world (fa_gs s));
         if ds = VALID
         then map_option Some (set_linear_address_valid c (nat ((d + int i) mod 2 ^ 64)) PAGE (Address_default junk))
         else Some None
       }
     }
   }"

text \<open>Copy a page; the first component says whether both events succeeded.\<close>

definition fast_copy :: "'w controller_if \<Rightarrow> config \<Rightarrow> ulong \<Rightarrow> address \<Rightarrow> address \<Rightarrow> event \<Rightarrow> 'w fast_state \<Rightarrow>
    (bool \<times> event \<times> 'w fast_state) option" where
  "fast_copy ci c junk ra wa e s = do {
     (r1, r2, e1, g) \<leftarrow> copy_events ci c junk False ra wa e (fa_gs s);
     Some (r1 \<noteq> FAILURE \<and> r2 \<noteq> FAILURE, e1, s\<lparr>fa_gs := g\<rparr>)
   }"

fun seq_merge_pages :: "'w controller_if \<Rightarrow> 'w log_controller \<Rightarrow> config \<Rightarrow> ulong \<Rightarrow> address \<Rightarrow> nat list \<Rightarrow> event \<Rightarrow>
    'w fast_state \<Rightarrow> (bool \<times> event \<times> 'w fast_state) option" where
  "seq_merge_pages ci lc c junk nb [] e s = Some (True, e, s)"
| "seq_merge_pages ci lc c junk nb (i # is) e s = do {
     src \<leftarrow> seq_merge_source lc c junk i s;
     (case src of
        None \<Rightarrow> seq_merge_pages ci lc c junk nb is e s
      | Some ra \<Rightarrow> do {
          wa \<leftarrow> page_at c (get_linear_address nb) i;
          (ok, e1, s1) \<leftarrow> fast_copy ci c junk ra wa e s;
          if ok then seq_merge_pages ci lc c junk nb is e1 s1 else Some (False, e1, s1)
        })
   }"

definition merge_sequential :: "'w controller_if \<Rightarrow> 'w log_controller \<Rightarrow> config \<Rightarrow> ulong \<Rightarrow> event \<Rightarrow> 'w fast_state \<Rightarrow>
    (event \<times> 'w fast_state) option" where
  "merge_sequential ci lc c junk e s =
     (if sequential_logicalblock_address s = - 1 then Some (e, s)
      else do {
        (nb, e1, s1) \<leftarrow> fast_free_block ci c junk DATA e s;
        (e2, s2) \<leftarrow> gc_if_low ci c junk e1 s1;
        (ok, e3, s3) \<leftarrow> seq_merge_pages ci lc c junk nb [0..<BLOCK_SIZE c] e2 s2;
        if \<not> ok then Some (e3, s3)
        else do {
          s4 \<leftarrow> release_data ci c (sequential_logicalblock_address s3)
                  (fast_invalidate ci (sequential_address s3) DATA s3);
          let s5 = set_data (sequential_logicalblock_address s4) (get_linear_address nb) s4;
          fast_map_block ci c junk e3 (fa_count (\<lambda>st. st\<lparr>numLogMergeFull := numLogMergeFull st + 1\<rparr>) s5)
        }
      })"

section \<open>Merging a log block\<close>

text \<open>The logical blocks with pages in the log block, in ascending order.\<close>

fun blocks_to_merge :: "config \<Rightarrow> nat \<Rightarrow> int list \<Rightarrow> nat list \<Rightarrow> event \<Rightarrow> (int \<times> bool) list \<Rightarrow>
    (event \<times> (int \<times> bool) list) option" where
  "blocks_to_merge c sh ap [] e mb = Some (e, mb)"
| "blocks_to_merge c sh ap (i # is) e mb = do {
     a \<leftarrow> aget ap i;
     let v = a div 2 ^ sh;
     blocks_to_merge c sh ap is (incr_time_taken (RAM_READ_DELAY c) e) (if v \<noteq> - 1 then smap_put v True mb else mb)
   }"

definition set_apage :: "nat \<Rightarrow> nat \<Rightarrow> int \<Rightarrow> 'w fast_state \<Rightarrow> 'w fast_state" where
  "set_apage k i v s = s\<lparr>log_pages := (log_pages s)[k := (log_pages s ! k)\<lparr>aPages := (aPages (log_pages s ! k))[i := v]\<rparr>]\<rparr>"

text \<open>
  One log page: \<open>- 1u\<close> is an unsigned value, so the comparison with it holds for the page
  4294967295 and for no trimmed page.
\<close>

definition merge_log_page :: "'w controller_if \<Rightarrow> 'w log_controller \<Rightarrow> config \<Rightarrow> ulong \<Rightarrow> int \<Rightarrow> address \<Rightarrow> nat \<Rightarrow> nat \<Rightarrow> event \<Rightarrow>
    bool list \<Rightarrow> 'w fast_state \<Rightarrow> (bool \<times> event \<times> bool list \<times> 'w fast_state) option" where
  "merge_log_page ci lc c junk victim ma k i e pinned s = do {
     lb \<leftarrow> aget (log_pages s) k;
     a \<leftarrow> aget (aPages lb) i;
     let e0 = incr_time_taken (RAM_READ_DELAY c) e;
     if a = 2 ^ 32 - 1 \<or> victim \<noteq> a div 2 ^ fa_shift s then Some (True, e0, pinned, s)
     else do {
       cassert (0 \<le> a);
       let off = nat a mod BLOCK_SIZE c;
       wa \<leftarrow> page_at c (get_linear_address ma) off;
       pin \<leftarrow> aget pinned off;
       if pin then Some (True, e0, pinned, set_apage k i (- 1) s)
       else do {
         ps \<leftarrow> FtlParent_get_state lc wa (gs_world (fa_gs s));
         if ps \<noteq> EMPTY then Some (True, e0, pinned, s)
         else do {
           ra \<leftarrow> page_at c (get_linear_address (lb_address lb)) i;
           (ok, e1, s1) \<leftarrow> fast_copy ci c junk ra wa e0 s;
           Some (ok, e1, if ok then pinned[off := True] else pinned, s1)
         }
       }
     }
   }"

fun merge_log_pages :: "'w controller_if \<Rightarrow> 'w log_controller \<Rightarrow> config \<Rightarrow> ulong \<Rightarrow> int \<Rightarrow> address \<Rightarrow> (nat \<times> nat) list \<Rightarrow> event \<Rightarrow>
    bool list \<Rightarrow> 'w fast_state \<Rightarrow> (bool \<times> event \<times> bool list \<times> 'w fast_state) option" where
  "merge_log_pages ci lc c junk victim ma [] e pinned s = Some (True, e, pinned, s)"
| "merge_log_pages ci lc c junk victim ma ((k, i) # ps) e pinned s = do {
     (ok, e1, pinned1, s1) \<leftarrow> merge_log_page ci lc c junk victim ma k i e pinned s;
     if ok then merge_log_pages ci lc c junk victim ma ps e1 pinned1 s1 else Some (False, e1, pinned1, s1)
   }"

text \<open>
  The pages a merge looks at: the last log block first, each from its last page down to
  page 1. The loop runs while \<open>i > 0\<close>, so page 0 of a log block is never among them.
\<close>

definition block_positions :: "log_block list \<Rightarrow> nat \<Rightarrow> (nat \<times> nat) list option" where
  "block_positions lbs k = do {
     lb \<leftarrow> aget lbs k;
     Some (map (Pair k) (rev [1..<nat (numPages lb)]))
   }"

fun log_positions :: "log_block list \<Rightarrow> nat \<Rightarrow> (nat \<times> nat) list option" where
  "log_positions lbs 0 = Some []"
| "log_positions lbs (Suc k) = do {
     ps \<leftarrow> block_positions lbs k;
     qs \<leftarrow> log_positions lbs k;
     Some (ps @ qs)
   }"

fun merge_data_pages :: "'w controller_if \<Rightarrow> 'w log_controller \<Rightarrow> config \<Rightarrow> ulong \<Rightarrow> int \<Rightarrow> address \<Rightarrow> nat list \<Rightarrow> event \<Rightarrow>
    bool list \<Rightarrow> 'w fast_state \<Rightarrow> (bool \<times> event \<times> 'w fast_state) option" where
  "merge_data_pages ci lc c junk victim ma [] e pinned s = Some (True, e, s)"
| "merge_data_pages ci lc c junk victim ma (i # is) e pinned s = do {
     let e0 = incr_time_taken (RAM_READ_DELAY c) e;
     wa \<leftarrow> page_at c (get_linear_address ma) i;
     ps \<leftarrow> FtlParent_get_state lc wa (gs_world (fa_gs s));
     pin \<leftarrow> aget pinned i;
     if ps = EMPTY \<and> \<not> pin then do {
       d \<leftarrow> int_get (fa_data_list s) victim;
       ra \<leftarrow> data_page_at c d i;
       rs \<leftarrow> FtlParent_get_state lc ra (gs_world (fa_gs s));
       if rs = VALID then do {
         (ok, e1, s1) \<leftarrow> fast_copy ci c junk ra wa e0 s;
         if ok then merge_data_pages ci lc c junk victim ma is e1 (pinned[i := True]) s1 else Some (False, e1, s1)
       } else merge_data_pages ci lc c junk victim ma is e0 pinned s
     } else merge_data_pages ci lc c junk victim ma is e0 pinned s
   }"

definition merge_victim :: "'w controller_if \<Rightarrow> 'w log_controller \<Rightarrow> config \<Rightarrow> ulong \<Rightarrow> int \<Rightarrow> event \<Rightarrow> 'w fast_state \<Rightarrow>
    (bool \<times> event \<times> 'w fast_state) option" where
  "merge_victim ci lc c junk victim e s = do {
     (e1, s1) \<leftarrow> gc_if_low ci c junk e s;
     (ma, e2, s2) \<leftarrow> fast_free_block ci c junk DATA e1 s1;
     ps \<leftarrow> log_positions (log_pages s2) (if FAST_LOG_BLOCK_LIMIT c < 2 ^ 31 then FAST_LOG_BLOCK_LIMIT c else 0);
     (ok, e3, pinned, s3) \<leftarrow> merge_log_pages ci lc c junk victim ma ps e2 (replicate (BLOCK_SIZE c) False) s2;
     if \<not> ok then Some (False, e3, s3)
     else do {
       (ok1, e4, s4) \<leftarrow> merge_data_pages ci lc c junk victim ma [0..<BLOCK_SIZE c] e3 pinned s3;
       if \<not> ok1 then Some (False, e4, s4)
       else do {
         d \<leftarrow> int_get (fa_data_list s4) victim;
         da \<leftarrow> Address_linear c (uint_of_int d) BLOCK;
         Some (True, e4, set_data victim (get_linear_address ma) (fast_invalidate ci da DATA s4))
       }
     }
   }"

fun merge_victims :: "'w controller_if \<Rightarrow> 'w log_controller \<Rightarrow> config \<Rightarrow> ulong \<Rightarrow> int list \<Rightarrow> event \<Rightarrow> 'w fast_state \<Rightarrow>
    (bool \<times> event \<times> 'w fast_state) option" where
  "merge_victims ci lc c junk [] e s = Some (True, e, s)"
| "merge_victims ci lc c junk (v # vs) e s = do {
     (ok, e1, s1) \<leftarrow> merge_victim ci lc c junk v e s;
     if ok then merge_victims ci lc c junk vs e1 s1 else Some (False, e1, s1)
   }"

definition fast_random_merge :: "'w controller_if \<Rightarrow> 'w log_controller \<Rightarrow> config \<Rightarrow> ulong \<Rightarrow> log_block \<Rightarrow> event \<Rightarrow>
    'w fast_state \<Rightarrow> (bool \<times> event \<times> 'w fast_state) option" where
  "fast_random_merge ci lc c junk lb e s = do {
     (e1, mb) \<leftarrow> blocks_to_merge c (fa_shift s) (aPages lb) [0..<nat (numPages lb)] e [];
     (ok, e2, s1) \<leftarrow> merge_victims ci lc c junk (map fst mb) e1 s;
     if \<not> ok then Some (False, e2, s1)
     else do {
       (e3, s2) \<leftarrow> fast_map_block ci c junk e2 (fa_count (\<lambda>st. st\<lparr>numLogMergeFull := numLogMergeFull st + 1\<rparr>) s1);
       Some (True, e3, s2)
     }
   }"

section \<open>Writing to the log\<close>

definition new_sequential :: "'w controller_if \<Rightarrow> config \<Rightarrow> ulong \<Rightarrow> nat \<Rightarrow> event \<Rightarrow> 'w fast_state \<Rightarrow>
    (event \<times> 'w fast_state) option" where
  "new_sequential ci c junk lba e s = do {
     (a, e1, s1) \<leftarrow> fast_free_block ci c junk DATA e s;
     Some (e1\<lparr>ev_address := a\<rparr>,
       s1\<lparr>sequential_offset := 1, sequential_address := a, sequential_logicalblock_address := int lba\<rparr>)
   }"

text \<open>
  The random-write log is full: its first block is merged and leaves the list, whatever the
  merge returned, and a fresh block joins at the end. With a single log block the list is
  empty in between, and following its first \<open>next\<close> pointer is undefined.
\<close>

definition recycle_log :: "'w controller_if \<Rightarrow> 'w log_controller \<Rightarrow> config \<Rightarrow> ulong \<Rightarrow> event \<Rightarrow> 'w fast_state \<Rightarrow>
    (event \<times> 'w fast_state) option" where
  "recycle_log ci lc c junk e s = do {
     lb \<leftarrow> aget (log_pages s) 0;
     (_, e1, s1) \<leftarrow> fast_random_merge ci lc c junk lb e s;
     let s2 = fast_invalidate ci (lb_address lb) LOG (s1\<lparr>log_pages := tl (log_pages s1)\<rparr>);
     (a, e2, s3) \<leftarrow> fast_free_block ci c junk LOG e1 s2;
     cassert (log_pages s3 \<noteq> []);
     Some (e2, s3\<lparr>log_pages := log_pages s3 @ [(LogPageBlock_new c junk)\<lparr>lb_address := a\<rparr>],
                  log_page_next := (log_page_next s3 + (2 ^ 32 - BLOCK_SIZE c)) mod 2 ^ 32\<rparr>)
   }"

fun first_open :: "int \<Rightarrow> nat \<Rightarrow> log_block list \<Rightarrow> nat option" where
  "first_open full k [] = None"
| "first_open full k (lb # lbs) = (if numPages lb = full then first_open full (Suc k) lbs else Some k)"

definition append_random :: "config \<Rightarrow> event \<Rightarrow> 'w fast_state \<Rightarrow> (event \<times> 'w fast_state) option" where
  "append_random c e s = do {
     k \<leftarrow> first_open (int (BLOCK_SIZE c)) 0 (log_pages s);
     let lb = log_pages s ! k;
     let i = log_page_next s mod BLOCK_SIZE c;
     cassert (i < length (aPages lb));
     let lb1 = lb\<lparr>aPages := (aPages lb)[i := int (logical_address e)], numPages := numPages lb + 1\<rparr>;
     a \<leftarrow> Address_plus c i ((lb_address lb)\<lparr>valid := PAGE\<rparr>);
     Some (e\<lparr>ev_address := a\<rparr>,
       s\<lparr>log_pages := (log_pages s)[k := lb1], log_page_next := inc32 (log_page_next s)\<rparr>)
   }"

definition write_to_log_block :: "'w controller_if \<Rightarrow> 'w log_controller \<Rightarrow> config \<Rightarrow> ulong \<Rightarrow> nat \<Rightarrow> event \<Rightarrow> 'w fast_state \<Rightarrow>
    (event \<times> 'w fast_state) option" where
  "write_to_log_block ci lc c junk lba e s = do {
     let off = logical_address e mod BLOCK_SIZE c;
     if off = 0 then do {
       (e1, s1) \<leftarrow> (if sequential_offset s = BLOCK_SIZE c then switch_sequential ci c junk e s
                    else merge_sequential ci lc c junk e s);
       new_sequential ci c junk lba e1 s1
     }
     else if sequential_logicalblock_address s = int lba then
       (if off = sequential_offset s then do {
          a \<leftarrow> lc_get_free_page lc (sequential_address s) (gs_world (fa_gs s));
          Some (e\<lparr>ev_address := a\<rparr>, s\<lparr>sequential_offset := inc32 (sequential_offset s)\<rparr>)
        } else do {
          (e1, s1) \<leftarrow> merge_sequential ci lc c junk e s;
          new_sequential ci c junk lba e1 s1
        })
     else do {
       (e1, s1) \<leftarrow> (if log_page_next s = mul32 (FAST_LOG_BLOCK_LIMIT c) (BLOCK_SIZE c)
                    then recycle_log ci lc c junk e s else Some (e, s));
       append_random c e1 s1
     }
   }"

definition FtlImpl_Fast_write :: "'w controller_if \<Rightarrow> 'w log_controller \<Rightarrow> config \<Rightarrow> ulong \<Rightarrow> event \<Rightarrow> 'w fast_state \<Rightarrow>
    (status \<times> event \<times> 'w fast_state) option" where
  "FtlImpl_Fast_write ci lc c junk e s = do {
     s1 \<leftarrow> initialize_log_pages ci c junk s;
     cassert (BLOCK_SIZE c \<noteq> 0);
     let lba = fast_lba e s1;
     cassert (logical_address e < length (pin_list s1));
     let s2 = s1\<lparr>pin_list := (pin_list s1)[logical_address e := True]\<rparr>;
     let off = logical_address e mod BLOCK_SIZE c;
     d \<leftarrow> aget (fa_data_list s2) lba;
     (e1, s3) \<leftarrow> (if d = - 1 then do {
          (a, e1, s3) \<leftarrow> fast_free_block ci c junk DATA e s2;
          b \<leftarrow> Address_plus c off a;
          Some (e1\<lparr>ev_address := b\<lparr>valid := PAGE\<rparr>\<rparr>, set_data (int lba) (get_linear_address a) s3)
        } else do {
          a \<leftarrow> data_page_at c d off;
          ps \<leftarrow> FtlParent_get_state lc a (gs_world (fa_gs s2));
          if ps = EMPTY then Some (e\<lparr>ev_address := a\<rparr>, s2) else write_to_log_block ci lc c junk lba e s2
        });
     (e2, s4) \<leftarrow> fast_insert_events ci c junk e1 s3;
     fast_issue ci e2 (fa_count count_ftl_write s4)
   }"

section \<open>Trimming\<close>

definition fast_erase :: "'w controller_if \<Rightarrow> config \<Rightarrow> ulong \<Rightarrow> event \<Rightarrow> address \<Rightarrow> 'w fast_state \<Rightarrow>
    (event \<times> 'w fast_state) option" where
  "fast_erase ci c junk e a s = do {
     (e1, g) \<leftarrow> erase_and_invalidate ci c junk e a LOG (fa_gs s);
     Some (e1, s\<lparr>fa_gs := g\<rparr>)
   }"

definition fast_trim_page :: "'w controller_if \<Rightarrow> 'w block_heap \<Rightarrow> config \<Rightarrow> address \<Rightarrow> 'w fast_state \<Rightarrow>
    (block_state \<times> 'w fast_state) option" where
  "fast_trim_page ci bh c a s = do {
     (bst, w) \<leftarrow> trim_block_page ci bh c a (gs_world (fa_gs s));
     Some (bst, s\<lparr>fa_gs := (fa_gs s)\<lparr>gs_world := w\<rparr>\<rparr>)
   }"

definition fast_trim_log :: "'w controller_if \<Rightarrow> 'w block_heap \<Rightarrow> config \<Rightarrow> ulong \<Rightarrow> nat \<Rightarrow> nat \<Rightarrow> nat \<Rightarrow> event \<Rightarrow> 'w fast_state \<Rightarrow>
    (event \<times> 'w fast_state) option" where
  "fast_trim_log ci bh c junk lba k i e s = do {
     lb \<leftarrow> aget (log_pages s) k;
     a \<leftarrow> page_at c (get_linear_address (lb_address lb)) i;
     (bst, s1) \<leftarrow> fast_trim_page ci bh c a s;
     let s2 = set_apage k i (- 1) s1;
     if bst = INACTIVE then do {
       (e1, s3) \<leftarrow> fast_erase ci c junk e (lb_address lb) s2;
       cassert (lba < length (fa_data_list s3));
       Some (e1, s3\<lparr>fa_data_list := (fa_data_list s3)[lba := - 1]\<rparr>)
     } else Some (e, s2)
   }"

definition fast_trim_blocks :: "'w controller_if \<Rightarrow> 'w block_heap \<Rightarrow> config \<Rightarrow> ulong \<Rightarrow> nat \<Rightarrow> nat \<Rightarrow> event \<Rightarrow> 'w fast_state \<Rightarrow>
    (event \<times> 'w fast_state) option" where
  "fast_trim_blocks ci bh c junk lba off e s =
     (if in_sequential (int lba) off s then do {
        a \<leftarrow> page_at c (get_linear_address (sequential_address s)) off;
        (bst, s1) \<leftarrow> fast_trim_page ci bh c a s;
        if bst = INACTIVE then do {
          (e1, s2) \<leftarrow> fast_erase ci c junk e a s1;
          Some (e1, s2\<lparr>sequential_logicalblock_address := - 1\<rparr>)
        } else Some (e, s1)
      } else do {
        d \<leftarrow> aget (fa_data_list s) lba;
        if d = - 1 then Some (e, s)
        else do {
          a \<leftarrow> data_page_at c d off;
          (bst, s1) \<leftarrow> fast_trim_page ci bh c a s;
          if bst = INACTIVE then do {
            (e1, s2) \<leftarrow> fast_erase ci c junk e a s1;
            Some (e1, s2\<lparr>fa_data_list := (fa_data_list s2)[lba := - 1]\<rparr>)
          } else Some (e, s1)
        }
      })"

definition FtlImpl_Fast_trim :: "'w controller_if \<Rightarrow> 'w block_heap \<Rightarrow> config \<Rightarrow> ulong \<Rightarrow> event \<Rightarrow> 'w fast_state \<Rightarrow>
    (status \<times> event \<times> 'w fast_state) option" where
  "FtlImpl_Fast_trim ci bh c junk e s = do {
     s1 \<leftarrow> initialize_log_pages ci c junk s;
     cassert (BLOCK_SIZE c \<noteq> 0);
     let lba = fast_lba e s1;
     let off = logical_address e mod BLOCK_SIZE c;
     r \<leftarrow> find_log (int (logical_address e)) 0 (log_pages s1);
     (e1, s2) \<leftarrow> (case r of
          Some (k, i) \<Rightarrow> fast_trim_log ci bh c junk lba k i e s1
        | None \<Rightarrow> fast_trim_blocks ci bh c junk lba off e s1);
     a0 \<leftarrow> Address_linear c 0 PAGE;
     (e2, s3) \<leftarrow> fast_insert_events ci c junk (e1\<lparr>noop := True, ev_address := a0\<rparr>) s2;
     fast_issue ci e2 (fa_count (\<lambda>st. st\<lparr>numFTLTrim := numFTLTrim st + 1\<rparr>) s3)
   }"

end
