(* ===== verification/Fast_Facts.thy ===== *)
theory Fast_Facts
  imports Ftl_Fast
begin

text \<open>
  The random-write log of the FAST FTL as one list: \<open>log_list\<close> reads the log blocks in order,
  \<open>filled bs n\<close> says that they hold \<open>n\<close> pages and are full up to the block in use. A write
  appends to the list and a lookup finds the first occurrence.
\<close>

section \<open>The log as a list\<close>

definition log_list :: "log_block list \<Rightarrow> int list" where
  "log_list lbs = concat (map (\<lambda>lb. take (nat (numPages lb)) (aPages lb)) lbs)"

fun filled :: "nat \<Rightarrow> nat \<Rightarrow> log_block list \<Rightarrow> bool" where
  "filled bs n [] \<longleftrightarrow> n = 0"
| "filled bs n (lb # lbs) \<longleftrightarrow> length (aPages lb) = bs \<and> numPages lb = int (min bs n) \<and> filled bs (n - bs) lbs"

fun first_at :: "'a \<Rightarrow> 'a list \<Rightarrow> nat option" where
  "first_at x [] = None"
| "first_at x (y # ys) = (if y = x then Some 0 else map_option Suc (first_at x ys))"

lemma first_at_append:
  "first_at x (ys @ zs) = (case first_at x ys of Some i \<Rightarrow> Some i
     | None \<Rightarrow> map_option (\<lambda>j. length ys + j) (first_at x zs))"
  by (induction ys; cases "first_at x zs") (auto split: option.splits)

lemma first_at_Some: "first_at x ys = Some i \<Longrightarrow> i < length ys \<and> ys ! i = x"
  by (induction ys arbitrary: i) (auto split: if_splits)

lemma first_at_None: "first_at x ys = None \<longleftrightarrow> x \<notin> set ys"
  by (induction ys) auto

lemma log_list_Cons: "log_list (lb # lbs) = take (nat (numPages lb)) (aPages lb) @ log_list lbs"
  by (simp add: log_list_def)

lemma filled_empty: "filled bs 0 lbs \<Longrightarrow> log_list lbs = []"
  by (induction lbs) (auto simp: log_list_def)

lemma filled_length: "filled bs n lbs \<Longrightarrow> length (log_list lbs) = n"
  by (induction bs n lbs rule: filled.induct) (auto simp: log_list_Cons log_list_def min_def split: if_splits)

lemma filled_nth: "filled bs n lbs \<Longrightarrow> k < length lbs \<Longrightarrow> length (aPages (lbs ! k)) = bs"
  by (induction bs n lbs arbitrary: k rule: filled.induct) (auto simp: nth_Cons')

lemma scan_pages_upt:
  "m \<le> length ap \<Longrightarrow> scan_pages la ap [0..<m] = Some (first_at la (take m ap))"
proof -
  have "i \<le> m \<Longrightarrow> m \<le> length ap \<Longrightarrow>
      scan_pages la ap [i..<m] = Some (map_option (\<lambda>j. i + j) (first_at la (drop i (take m ap))))" for i
  proof (induction "m - i" arbitrary: i)
    case (Suc d)
    then have i: "i < m" "i < length ap" by simp_all
    then have "drop i (take m ap) = ap ! i # drop (Suc i) (take m ap)"
      using Cons_nth_drop_Suc [of i "take m ap"] by simp
    moreover have "[i..<m] = i # [Suc i..<m]" using i by (simp add: upt_conv_Cons)
    ultimately show ?case
      using Suc.hyps(1) [of "Suc i"] Suc.hyps(2) Suc.prems i
      by (cases "first_at la (drop (Suc i) (take m ap))") (auto simp: aget_nth)
  qed simp
  from this [of 0] show "m \<le> length ap \<Longrightarrow> scan_pages la ap [0..<m] = Some (first_at la (take m ap))"
    by (simp add: option.map_ident)
qed

text \<open>A lookup finds the oldest copy.\<close>

lemma find_log_first:
  "filled bs n lbs \<Longrightarrow> 0 < bs \<Longrightarrow>
   find_log la k lbs = Some (map_option (\<lambda>j. (k + j div bs, j mod bs)) (first_at la (log_list lbs)))"
proof (induction bs n lbs arbitrary: k rule: filled.induct)
  case (2 bs n lb lbs)
  let ?m = "min bs n"
  have h: "length (aPages lb) = bs" "numPages lb = int ?m" "filled bs (n - bs) lbs" using "2.prems"(1) by auto
  have sc: "scan_pages la (aPages lb) [0..<?m] = Some (first_at la (take ?m (aPages lb)))"
    by (rule scan_pages_upt) (simp add: h(1))
  show ?case
  proof (cases "first_at la (take ?m (aPages lb))")
    case (Some i)
    then have "i < bs" using first_at_Some [OF Some] by simp
    then show ?thesis using Some sc h by (simp add: log_list_Cons first_at_append)
  next
    case None
    note IH = "2.IH" [OF h(3) "2.prems"(2), of "Suc k"]
    show ?thesis
    proof (cases "first_at la (log_list lbs)")
      case (Some j)
      then have "log_list lbs \<noteq> []" by auto
      with filled_empty h(3) have "bs < n" by (cases "bs < n") auto
      then have "length (take ?m (aPages lb)) = bs" using h(1) by simp
      then show ?thesis using None Some sc h IH "2.prems"(2)
        by (simp add: log_list_Cons first_at_append min_def split: if_splits)
    qed (use None sc h IH in \<open>simp add: log_list_Cons first_at_append\<close>)
  qed
qed (simp add: log_list_def)

section \<open>Appending\<close>

lemma first_open_filled:
  "filled bs n lbs \<Longrightarrow> 0 < bs \<Longrightarrow> n < bs * length lbs \<Longrightarrow> first_open (int bs) k lbs = Some (k + n div bs)"
proof (induction bs n lbs arbitrary: k rule: filled.induct)
  case (2 bs n lb lbs)
  show ?case
  proof (cases "n < bs")
    case False
    with "2.prems" "2.IH" [of "Suc k"] show ?thesis by (auto simp: le_div_geq min_def)
  qed (use "2.prems" in auto)
qed simp

definition log_slot_put :: "nat \<Rightarrow> nat \<Rightarrow> int \<Rightarrow> log_block list \<Rightarrow> log_block list" where
  "log_slot_put bs n la lbs = (let lb = lbs ! (n div bs) in
     lbs[n div bs := lb\<lparr>aPages := (aPages lb)[n mod bs := la], numPages := numPages lb + 1\<rparr>])"

lemma log_slot_put_spec:
  "filled bs n lbs \<Longrightarrow> 0 < bs \<Longrightarrow> n < bs * length lbs \<Longrightarrow>
   log_list (log_slot_put bs n la lbs) = log_list lbs @ [la] \<and> filled bs (Suc n) (log_slot_put bs n la lbs)"
proof (induction bs n lbs rule: filled.induct)
  case (2 bs n lb lbs)
  show ?case
  proof (cases "n < bs")
    case True
    then have "log_list lbs = []" using "2.prems" filled_empty by auto
    moreover have "take (Suc n) ((aPages lb)[n := la]) = take n (aPages lb) @ [la]"
      using True "2.prems" by (simp add: take_Suc_conv_app_nth)
    moreover have "nat (int n + 1) = Suc n" by simp
    ultimately show ?thesis using True "2.prems"
      by (auto simp: log_slot_put_def Let_def log_list_Cons)
  next
    case False
    then have d: "n div bs = Suc ((n - bs) div bs)" "n mod bs = (n - bs) mod bs" "Suc n - bs = Suc (n - bs)"
      using "2.prems" by (simp_all add: le_div_geq le_mod_geq Suc_diff_le)
    have step: "log_slot_put bs n la (lb # lbs) = lb # log_slot_put bs (n - bs) la lbs"
      by (simp add: log_slot_put_def Let_def d)
    show ?thesis
      using "2.IH" "2.prems" False by (auto simp: step log_list_Cons d(3) min_def)
  qed
qed simp

lemma append_random_spec:
  assumes ok: "filled (BLOCK_SIZE c) (log_page_next s) (log_pages s)" and geo: "geometry_ok c"
    and room: "log_page_next s < BLOCK_SIZE c * length (log_pages s)" "log_page_next s < 2 ^ 32 - 1"
  defines "k \<equiv> log_page_next s div BLOCK_SIZE c" and "i \<equiv> log_page_next s mod BLOCK_SIZE c"
  shows "\<exists>a. append_random c e s = Some (e\<lparr>ev_address := a\<rparr>,
      s\<lparr>log_pages := log_slot_put (BLOCK_SIZE c) (log_page_next s) (int (logical_address e)) (log_pages s),
        log_page_next := Suc (log_page_next s)\<rparr>)
    \<and> real_address a = add64 (get_linear_address (lb_address (log_pages s ! k))) i"
proof -
  have pos: "0 < BLOCK_SIZE c" using geo by (simp add: geometry_ok_def)
  have k: "k < length (log_pages s)" using room(1) by (simp add: k_def less_mult_imp_div_less mult.commute)
  have "length (aPages (log_pages s ! k)) = BLOCK_SIZE c" by (rule filled_nth [OF ok k])
  then have i: "i < length (aPages (log_pages s ! k))" using pos by (simp add: i_def)
  have "first_open (int (BLOCK_SIZE c)) 0 (log_pages s) = Some k"
    using first_open_filled [OF ok pos room(1), of 0] by (simp add: k_def)
  moreover obtain a where "Address_plus c i ((lb_address (log_pages s ! k))\<lparr>valid := PAGE\<rparr>) = Some a"
    "real_address a = add64 (get_linear_address (lb_address (log_pages s ! k))) i"
    using geo by (simp add: Address_plus_def set_linear_Some get_linear_address_def)
  ultimately show ?thesis using i room(2)
    by (intro exI [of _ a]) (simp add: append_random_def Let_def i_def [symmetric] k_def [symmetric] log_slot_put_def)
qed

section \<open>A write into the random log, and reading it back\<close>

text \<open>The conditions under which a write takes a page of the random log that has room.\<close>

definition goes_to_log :: "'w log_controller \<Rightarrow> config \<Rightarrow> event \<Rightarrow> 'w fast_state \<Rightarrow> bool" where
  "goes_to_log lc c e s \<longleftrightarrow>
     logical_address e < length (pin_list s) \<and> fast_lba e s < length (fa_data_list s)
     \<and> fa_data_list s ! fast_lba e s \<noteq> - 1 \<and> logical_address e mod BLOCK_SIZE c \<noteq> 0
     \<and> sequential_logicalblock_address s \<noteq> int (fast_lba e s)
     \<and> (\<exists>a ps. data_page_at c (fa_data_list s ! fast_lba e s) (logical_address e mod BLOCK_SIZE c) = Some a
              \<and> lc_get_state lc a (gs_world (fa_gs s)) = Some ps \<and> ps \<noteq> EMPTY)
     \<and> \<not> gc_needed c (gs_bm (fa_gs s))"

definition log_room :: "config \<Rightarrow> 'w fast_state \<Rightarrow> bool" where
  "log_room c s \<longleftrightarrow> filled (BLOCK_SIZE c) (log_page_next s) (log_pages s)
     \<and> log_page_next s < BLOCK_SIZE c * length (log_pages s) \<and> length (log_pages s) = FAST_LOG_BLOCK_LIMIT c
     \<and> BLOCK_SIZE c * FAST_LOG_BLOCK_LIMIT c < 2 ^ 32"

definition slot :: "config \<Rightarrow> 'w fast_state \<Rightarrow> nat \<Rightarrow> nat" where
  "slot c s j = get_linear_address (lb_address (log_pages s ! (j div BLOCK_SIZE c))) + j mod BLOCK_SIZE c"

lemma slot_put_address: "lb_address (log_slot_put bs n la lbs ! k) = lb_address (lbs ! k)"
proof (cases "n div bs < length lbs")
  case True
  then show ?thesis by (cases "k = n div bs") (simp_all add: log_slot_put_def Let_def)
qed (simp add: log_slot_put_def Let_def list_update_beyond)

lemma random_write:
  assumes rw: "goes_to_log lc c e s" and room: "log_room c s" and geo: "geometry_ok c"
  obtains a sx where "FtlImpl_Fast_write ci lc c junk e s = fast_issue ci (e\<lparr>ev_address := a\<rparr>) sx"
    "real_address a = slot c s (log_page_next s) mod 2 ^ 64"
    "log_pages sx = log_slot_put (BLOCK_SIZE c) (log_page_next s) (int (logical_address e)) (log_pages s)"
    "log_page_next sx = Suc (log_page_next s)" "fa_data_list sx = fa_data_list s" "fa_shift sx = fa_shift s"
    "sequential_logicalblock_address sx = sequential_logicalblock_address s"
    "sequential_offset sx = sequential_offset s" "sequential_address sx = sequential_address s"
proof -
  let ?n = "log_page_next s" and ?b = "BLOCK_SIZE c"
  let ?s2 = "s\<lparr>pin_list := (pin_list s)[logical_address e := True]\<rparr>"
  have pos: "?b \<noteq> 0" using geo by (simp add: geometry_ok_def)
  have r: "filled ?b ?n (log_pages s)" "?n < ?b * length (log_pages s)" "?n < 2 ^ 32 - 1"
    "?n \<noteq> mul32 (FAST_LOG_BLOCK_LIMIT c) ?b" "log_pages s \<noteq> []"
    using room by (auto simp: log_room_def mul32_def mult.commute)
  from append_random_spec [of c ?s2 e] r geo obtain a where
    ap: "append_random c e ?s2 = Some (e\<lparr>ev_address := a\<rparr>,
      ?s2\<lparr>log_pages := log_slot_put ?b ?n (int (logical_address e)) (log_pages s), log_page_next := Suc ?n\<rparr>)"
    "real_address a = slot c s ?n mod 2 ^ 64"
    by (auto simp: add64_def slot_def)
  define s3 where "s3 = ?s2\<lparr>log_pages := log_slot_put ?b ?n (int (logical_address e)) (log_pages s), log_page_next := Suc ?n\<rparr>"
  from rw obtain d ps where st: "data_page_at c (fa_data_list s ! fast_lba e s) (logical_address e mod ?b) = Some d"
    "lc_get_state lc d (gs_world (fa_gs s)) = Some ps" "ps \<noteq> EMPTY" by (auto simp: goes_to_log_def)
  have "write_to_log_block ci lc c junk (fast_lba e s) e ?s2 = Some (e\<lparr>ev_address := a\<rparr>, s3)"
    using rw r(4) ap(1) by (simp add: write_to_log_block_def Let_def goes_to_log_def s3_def)
  moreover have "fast_insert_events ci c junk (e\<lparr>ev_address := a\<rparr>) s3 = Some (e\<lparr>ev_address := a\<rparr>, s3)"
    using rw by (simp add: fast_insert_events_def insert_events_def goes_to_log_def s3_def)
  ultimately have "FtlImpl_Fast_write ci lc c junk e s = fast_issue ci (e\<lparr>ev_address := a\<rparr>) (fa_count count_ftl_write s3)"
    using rw st r(5) pos
    by (simp add: FtlImpl_Fast_write_def initialize_log_pages_def goes_to_log_def Let_def aget_nth FtlParent_get_state_def
        fast_lba_def)
  then show thesis by (rule that) (simp_all add: ap(2) s3_def fa_count_def)
qed

lemma locate_in_log:
  assumes "filled (BLOCK_SIZE c) n (log_pages s)" "geometry_ok c" "first_at (int (logical_address e)) (log_list (log_pages s)) = Some j"
  shows "\<exists>a. fast_locate c e s = Some (Some a) \<and> real_address a = slot c s j mod 2 ^ 32"
proof -
  have pos: "0 < BLOCK_SIZE c" using assms(2) by (simp add: geometry_ok_def)
  from find_log_first [OF assms(1) pos, of "int (logical_address e)" 0] assms(3)
  have f: "find_log (int (logical_address e)) 0 (log_pages s) = Some (Some (j div BLOCK_SIZE c, j mod BLOCK_SIZE c))" by simp
  have "\<exists>a. page_at c m i = Some a \<and> real_address a = (m + i) mod 2 ^ 32" for m i
    using assms(2) by (simp add: page_at_def Address_linear_def set_linear_Some)
  with f show ?thesis by (simp add: fast_locate_def Let_def slot_def)
qed

lemma log_write_locate:
  assumes gl: "goes_to_log lc c e s" and room: "log_room c s" and geo: "geometry_ok c"
    and ad: "\<forall>k<length (log_pages s). real_address (lb_address (log_pages s ! k)) + BLOCK_SIZE c \<le> 2 ^ 32"
  shows "\<exists>ev t a. FtlImpl_Fast_write ci lc c junk e s = fast_issue ci ev t
    \<and> real_address (ev_address ev) = slot c s (log_page_next s)
    \<and> log_list (log_pages t) = log_list (log_pages s) @ [int (logical_address e)]
    \<and> filled (BLOCK_SIZE c) (Suc (log_page_next s)) (log_pages t)
    \<and> fast_locate c e t = Some (Some a)
    \<and> real_address a = slot c s (case first_at (int (logical_address e)) (log_list (log_pages s)) of
        None \<Rightarrow> log_page_next s | Some j \<Rightarrow> j)"
proof -
  let ?n = "log_page_next s" and ?b = "BLOCK_SIZE c" and ?l = "int (logical_address e)"
  have pos: "0 < ?b" using geo by (simp add: geometry_ok_def)
  have r: "filled ?b ?n (log_pages s)" "?n < ?b * length (log_pages s)" using room by (auto simp: log_room_def)
  have sl: "slot c s j < 2 ^ 32" if "j \<le> ?n" for j
  proof -
    have "j div ?b < length (log_pages s)" using that r(2) by (simp add: less_mult_imp_div_less mult.commute)
    with ad have "real_address (lb_address (log_pages s ! (j div ?b))) + ?b \<le> 2 ^ 32" by blast
    moreover have "j mod ?b < ?b" using pos by simp
    ultimately show ?thesis by (simp add: slot_def get_linear_address_def)
  qed
  from random_write [OF gl room geo, of ci junk] obtain a0 t where
    w: "FtlImpl_Fast_write ci lc c junk e s = fast_issue ci (e\<lparr>ev_address := a0\<rparr>) t" "real_address a0 = slot c s ?n mod 2 ^ 64"
    "log_pages t = log_slot_put ?b ?n ?l (log_pages s)" by metis
  have a0: "real_address a0 = slot c s ?n" using w(2) sl [of ?n] by simp
  note p = log_slot_put_spec [OF r(1) pos r(2), of ?l]
  have ft: "filled ?b (Suc ?n) (log_pages t)" "log_list (log_pages t) = log_list (log_pages s) @ [?l]" using p w(3) by simp_all
  define j where "j = (case first_at ?l (log_list (log_pages s)) of None \<Rightarrow> ?n | Some j \<Rightarrow> j)"
  have f: "first_at ?l (log_list (log_pages t)) = Some j"
    using ft(2) filled_length [OF r(1)] by (simp add: first_at_append j_def split: option.splits)
  have "j \<le> ?n" using first_at_Some [of ?l "log_list (log_pages s)"] filled_length [OF r(1)]
    by (auto simp: j_def split: option.splits dest: less_imp_le)
  moreover from locate_in_log [OF ft(1) geo f] obtain a where
    a: "fast_locate c e t = Some (Some a)" "real_address a = slot c t j mod 2 ^ 32" by blast
  moreover have "slot c t j = slot c s j" by (simp add: slot_def w(3) slot_put_address)
  ultimately have "real_address a = slot c s j" using sl [of j] by simp
  with w(1) a0 ft a(1) show ?thesis by (intro exI [of _ "e\<lparr>ev_address := a0\<rparr>"] exI [of _ t] exI [of _ a]) (simp add: j_def)
qed

section \<open>The pages a merge looks at\<close>

lemma log_positions_spec:
  "log_positions lbs n = Some ps \<Longrightarrow>
   set ps = {(k, i). k < n \<and> 0 < i \<and> i < nat (numPages (lbs ! k))} \<and> distinct ps \<and> n \<le> length lbs"
proof (induction n arbitrary: ps)
  case (Suc n)
  from Suc.prems obtain qs where n: "n < length lbs" and q: "log_positions lbs n = Some qs"
    and ps: "ps = map (Pair n) (rev [1..<nat (numPages (lbs ! n))]) @ qs"
    by (auto simp: block_positions_def bind_eq_Some_conv)
  note IH = Suc.IH [OF q]
  have "distinct (map (Pair n) (rev [1..<nat (numPages (lbs ! n))]))" by (simp add: distinct_map inj_on_def)
  moreover have "set ps = {(k, i). k < Suc n \<and> 0 < i \<and> i < nat (numPages (lbs ! k))}"
    using IH by (auto simp: ps less_Suc_eq)
  ultimately show ?case using IH n by (auto simp: ps)
qed simp

end
