(* ===== verification/Ftl_Bdftl.thy ===== *)
theory Ftl_Bdftl
  imports Ftl_Dftl
begin

text \<open>
  \<open>FTLs/bdftl_ftl.cpp\<close>: the bimodal FTL. A logical block that has been written in order from
  its first page is \<open>optimal\<close> and mapped as a whole; a write out of order moves it to the
  demand-paged table of the parent class. Block pointers are physical block addresses, \<open>None\<close>
  the null pointer.
\<close>

section \<open>State\<close>

record bpage =
  pbn :: uint
  nextPage :: nat
  optimal :: bool

definition no_block :: uint where
  "no_block = 2 ^ 32 - 1"

definition BPage_new :: bpage where
  "BPage_new = \<lparr>pbn = no_block, nextPage = 0, optimal = True\<rparr>"

record 'w bdftl_state =
  block_map :: "bpage list"
  bd_trim_map :: "bool list"
  blockQueue :: "nat list"
  inuseBlock :: "nat option"
  bd_ds :: "'w dftl_state"

text \<open>The trim map is not initialised either: its content \<open>tm\<close> is arbitrary.\<close>

definition FtlImpl_BDftl_new :: "config \<Rightarrow> int list \<Rightarrow> bool list \<Rightarrow> 'w bm_state \<Rightarrow> 'w bdftl_state option" where
  "FtlImpl_BDftl_new c rv tm g = do {
     f \<leftarrow> FtlImpl_DftlParent_new c rv;
     cassert (length tm = total_ftl_pages c);
     Some \<lparr>block_map = replicate (NUMBER_OF_ADDRESSABLE_BLOCKS c) BPage_new, bd_trim_map = tm, blockQueue = [],
       inuseBlock = None, bd_ds = \<lparr>ds_ftl = f, ds_gs = g\<rparr>\<rparr>
   }"

definition bd_issue :: "'w controller_if \<Rightarrow> event \<Rightarrow> 'w bdftl_state \<Rightarrow> (status \<times> event \<times> 'w bdftl_state) option" where
  "bd_issue ci e s = do {
     (r, e1, d) \<leftarrow> dftl_issue ci e (bd_ds s);
     Some (r, e1, s\<lparr>bd_ds := d\<rparr>)
   }"

definition bd_count :: "(stats \<Rightarrow> stats) \<Rightarrow> 'w bdftl_state \<Rightarrow> 'w bdftl_state" where
  "bd_count f s = s\<lparr>bd_ds := count_stat f (bd_ds s)\<rparr>"

definition at_page :: "config \<Rightarrow> uint \<Rightarrow> event \<Rightarrow> event option" where
  "at_page c n e = map_option (\<lambda>a. e\<lparr>ev_address := a\<rparr>) (Address_linear c n PAGE)"

definition at_no_page :: "config \<Rightarrow> event \<Rightarrow> event option" where
  "at_no_page c e = map_option (\<lambda>a. e\<lparr>ev_address := a, noop := True\<rparr>) (Address_linear c 0 PAGE)"

section \<open>Reading\<close>

definition FtlImpl_BDftl_read :: "(mpage list \<Rightarrow> nat option) \<Rightarrow> 'w controller_if \<Rightarrow> config \<Rightarrow> ulong \<Rightarrow> event \<Rightarrow>
    'w bdftl_state \<Rightarrow> (status \<times> event \<times> 'w bdftl_state) option" where
  "FtlImpl_BDftl_read oldest ci c junk e s = do {
     let dlpn = logical_address e mod 2 ^ 32;
     cassert (BLOCK_SIZE c \<noteq> 0);
     bp \<leftarrow> aget (block_map s) (dlpn div BLOCK_SIZE c);
     (e1, s1) \<leftarrow> (if optimal bp then do {
          e1 \<leftarrow> (if pbn bp \<noteq> no_block then at_page c (add32 (pbn bp) (dlpn mod BLOCK_SIZE c)) e else at_no_page c e);
          Some (e1, s)
        } else do {
          (e1, d) \<leftarrow> resolve_mapping oldest ci c junk False e (bd_ds s);
          m \<leftarrow> aget (ds_map d) dlpn;
          e2 \<leftarrow> (if ppn m \<noteq> - 1 then at_page c (uint_of_int (ppn m)) e1 else at_no_page c e1);
          Some (e2, s\<lparr>bd_ds := d\<rparr>)
        });
     bd_issue ci (incr_time_taken (RAM_READ_DELAY c * 2) e1)
       (bd_count (\<lambda>st. st\<lparr>numMemoryRead := numMemoryRead st + 2, numFTLRead := numFTLRead st + 1\<rparr>) s1)
   }"

section \<open>Writing\<close>

definition set_bpage :: "nat \<Rightarrow> bpage \<Rightarrow> 'w bdftl_state \<Rightarrow> 'w bdftl_state" where
  "set_bpage i bp s = s\<lparr>block_map := (block_map s)[i := bp]\<rparr>"

text \<open>
  One page of a block that leaves block mapping. The source looks the page state up in the
  block at the logical address of the block, and moves the mapping of a page only if the
  page table has one already.
\<close>

definition transfer_page :: "'w block_heap \<Rightarrow> config \<Rightarrow> nat option \<Rightarrow> nat \<Rightarrow> uint \<Rightarrow> nat \<Rightarrow> event \<Rightarrow>
    'w dftl_state \<Rightarrow> (event \<times> 'w dftl_state) option" where
  "transfer_page bh c bptr startAdr base i e d = do {
     p \<leftarrow> bptr;
     b \<leftarrow> bh_get bh p (ds_world d);
     ps \<leftarrow> get_page_state b i;
     if ps \<noteq> VALID then Some (e, d)
     else do {
       m \<leftarrow> aget (ds_map d) (startAdr + i);
       if ppn m = - 1 then Some (e, d)
       else do {
         (m1, rv) \<leftarrow> update_translation_map m (int (add32 base i)) (reverse_trans_map (ds_ftl d));
         st \<leftarrow> get_start_time e;
         let m2 = m1\<lparr>create_ts := st, modified_ts := st, cached := True\<rparr>;
         Some (incr_time_taken (RAM_WRITE_DELAY c) e,
           count_stat (\<lambda>st. st\<lparr>numMemoryWrite := numMemoryWrite st + 1\<rparr>)
             (d\<lparr>ds_ftl := (ds_ftl d)\<lparr>trans_map := (ds_map d)[startAdr + i := m2], reverse_trans_map := rv,
                                      cmt := cmt (ds_ftl d) + 1\<rparr>\<rparr>))
       }
     }
   }"

fun transfer_pages :: "'w block_heap \<Rightarrow> config \<Rightarrow> nat option \<Rightarrow> nat \<Rightarrow> uint \<Rightarrow> nat list \<Rightarrow> event \<Rightarrow>
    'w dftl_state \<Rightarrow> (event \<times> 'w dftl_state) option" where
  "transfer_pages bh c bptr startAdr base [] e d = Some (e, d)"
| "transfer_pages bh c bptr startAdr base (i # is) e d = do {
     (e1, d1) \<leftarrow> transfer_page bh c bptr startAdr base i e d;
     transfer_pages bh c bptr startAdr base is e1 d1
   }"

definition leave_block_mapping :: "'w controller_if \<Rightarrow> 'w block_heap \<Rightarrow> config \<Rightarrow> nat \<Rightarrow> bpage \<Rightarrow> event \<Rightarrow>
    'w bdftl_state \<Rightarrow> (event \<times> 'w bdftl_state) option" where
  "leave_block_mapping ci bh c dlbn bp e s = do {
     let startAdr = mul32 dlbn (BLOCK_SIZE c);
     sa \<leftarrow> Address_linear c startAdr PAGE;
     let b = ci_get_block_pointer ci sa (ds_world (bd_ds s));
     (e1, d) \<leftarrow> transfer_pages bh c b startAdr (pbn bp) [0..<nextPage bp] e (bd_ds s);
     ba \<leftarrow> Address_linear c (pbn bp) BLOCK;
     p \<leftarrow> ci_get_block_pointer ci ba (ds_world d);
     blk \<leftarrow> bh_get bh p (ds_world d);
     let d1 = count_stat (\<lambda>st. st\<lparr>numMemoryWrite := numMemoryWrite st + 1,
                numPageBlockToPageConversion := numPageBlockToPageConversion st + 1\<rparr>) d;
     let s1 = set_bpage dlbn (bp\<lparr>optimal := False\<rparr>) (s\<lparr>bd_ds := d1\<rparr>);
     Some (incr_time_taken (RAM_WRITE_DELAY c) e1,
       if pages_valid blk = BLOCK_SIZE c then s1
       else if inuseBlock s1 = None then s1\<lparr>inuseBlock := Some p\<rparr>
       else s1\<lparr>blockQueue := blockQueue s1 @ [p]\<rparr>)
   }"

text \<open>The block-level case; the result says whether the write has its page.\<close>

definition block_level_write :: "'w controller_if \<Rightarrow> 'w block_heap \<Rightarrow> config \<Rightarrow> ulong \<Rightarrow> uint \<Rightarrow> bpage \<Rightarrow> event \<Rightarrow>
    'w bdftl_state \<Rightarrow> (bool \<times> event \<times> 'w bdftl_state) option" where
  "block_level_write ci bh c junk dlpn bp e s = do {
     let dlbn = dlpn div BLOCK_SIZE c;
     (bp1, e1, s1) \<leftarrow> (if pbn bp = no_block \<and> dlpn mod BLOCK_SIZE c = 0 then do {
          (a, e1, g) \<leftarrow> get_free_block ci c junk DATA e (ds_gs (bd_ds s));
          let bp1 = bp\<lparr>pbn := get_linear_address a mod 2 ^ 32\<rparr>;
          Some (bp1, e1, set_bpage dlbn bp1 (s\<lparr>bd_ds := (bd_ds s)\<lparr>ds_gs := g\<rparr>\<rparr>))
        } else Some (bp, e, s));
     if pbn bp1 \<noteq> no_block then do {
       let dppn = dlpn mod BLOCK_SIZE c mod 256;
       if nextPage bp1 = dppn then do {
         e2 \<leftarrow> at_page c (add32 (pbn bp1) dppn) (incr_time_taken (RAM_WRITE_DELAY c) e1);
         Some (True, e2, set_bpage dlbn (bp1\<lparr>nextPage := (nextPage bp1 + 1) mod 256\<rparr>)
                (bd_count (\<lambda>st. st\<lparr>numMemoryWrite := numMemoryWrite st + 1\<rparr>) s1))
       } else do {
         (e2, s2) \<leftarrow> leave_block_mapping ci bh c dlbn bp1 e1 s1;
         Some (False, e2, s2)
       }
     } else Some (False, e1, set_bpage dlbn (bp1\<lparr>optimal := False\<rparr>) s1)
   }"

definition next_page_of :: "'w block_heap \<Rightarrow> config \<Rightarrow> ulong \<Rightarrow> nat \<Rightarrow> 'w bdftl_state \<Rightarrow> (status \<times> address) option" where
  "next_page_of bh c junk p s = do {
     b \<leftarrow> bh_get bh p (ds_world (bd_ds s));
     Block_get_next_page c b (Address_default junk)
   }"

definition dftl_page :: "'w controller_if \<Rightarrow> config \<Rightarrow> ulong \<Rightarrow> event \<Rightarrow> 'w bdftl_state \<Rightarrow>
    (int \<times> event \<times> 'w bdftl_state) option" where
  "dftl_page ci c junk e s = do {
     (p, e1, d) \<leftarrow> get_free_data_page ci c junk True e (bd_ds s);
     Some (p, e1, s\<lparr>bd_ds := d\<rparr>)
   }"

definition get_free_biftl_page :: "'w controller_if \<Rightarrow> 'w block_heap \<Rightarrow> config \<Rightarrow> ulong \<Rightarrow> event \<Rightarrow> 'w bdftl_state \<Rightarrow>
    (int \<times> event \<times> 'w bdftl_state) option" where
  "get_free_biftl_page ci bh c junk e s = do {
     (p, e1, s1) \<leftarrow> (case inuseBlock s of
         None \<Rightarrow> dftl_page ci c junk e s
       | Some b \<Rightarrow> do {
           (r, a) \<leftarrow> next_page_of bh c junk b s;
           if r = SUCCESS then Some (int (get_linear_address a), e, s)
           else (case blockQueue s of
               q # qs \<Rightarrow> do {
                 (r1, a1) \<leftarrow> next_page_of bh c junk q s;
                 cassert (r1 = SUCCESS);
                 Some (int (get_linear_address a1), e, s\<lparr>inuseBlock := Some q, blockQueue := qs\<rparr>)
               }
             | [] \<Rightarrow> dftl_page ci c junk e (s\<lparr>inuseBlock := None\<rparr>))
         });
     cassert (p \<noteq> - 1);
     Some (p, e1, s1)
   }"

definition page_level_write :: "(mpage list \<Rightarrow> nat option) \<Rightarrow> 'w controller_if \<Rightarrow> 'w block_heap \<Rightarrow> config \<Rightarrow> ulong \<Rightarrow>
    uint \<Rightarrow> event \<Rightarrow> 'w bdftl_state \<Rightarrow> (event \<times> 'w bdftl_state) option" where
  "page_level_write oldest ci bh c junk dlpn e s = do {
     (free_page, e1, s1) \<leftarrow> get_free_biftl_page ci bh c junk e s;
     (e2, d) \<leftarrow> resolve_mapping oldest ci c junk True e1 (bd_ds s1);
     m \<leftarrow> aget (ds_map d) dlpn;
     a \<leftarrow> Address_linear c (uint_of_int (ppn m)) PAGE;
     let e3 = (if ppn m \<noteq> - 1 then e2\<lparr>replace_address := a\<rparr> else e2);
     (m1, rv) \<leftarrow> update_translation_map m free_page (reverse_trans_map (ds_ftl d));
     e4 \<leftarrow> at_page c (uint_of_int (ppn m1)) e3;
     Some (e4, s1\<lparr>bd_ds := d\<lparr>ds_ftl := (ds_ftl d)\<lparr>trans_map := (ds_map d)[dlpn := m1], reverse_trans_map := rv\<rparr>\<rparr>\<rparr>)
   }"

definition FtlImpl_BDftl_write :: "(mpage list \<Rightarrow> nat option) \<Rightarrow> 'w controller_if \<Rightarrow> 'w block_heap \<Rightarrow> config \<Rightarrow> ulong \<Rightarrow>
    event \<Rightarrow> 'w bdftl_state \<Rightarrow> (status \<times> event \<times> 'w bdftl_state) option" where
  "FtlImpl_BDftl_write oldest ci bh c junk e s = do {
     let dlpn = logical_address e mod 2 ^ 32;
     cassert (BLOCK_SIZE c \<noteq> 0);
     cassert (dlpn < length (bd_trim_map s));
     let s0 = s\<lparr>bd_trim_map := (bd_trim_map s)[dlpn := False]\<rparr>;
     bp \<leftarrow> aget (block_map s0) (dlpn div BLOCK_SIZE c);
     (handled, e1, s1) \<leftarrow> (if optimal bp then block_level_write ci bh c junk dlpn bp e s0
                           else Some (False, e, s0));
     (e2, s2) \<leftarrow> (if handled then Some (e1, s1) else page_level_write oldest ci bh c junk dlpn e1 s1);
     bd_issue ci (incr_time_taken (RAM_READ_DELAY c * 3) e2)
       (bd_count (\<lambda>st. st\<lparr>numMemoryRead := numMemoryRead st + 3, numFTLWrite := numFTLWrite st + 1\<rparr>) s2)
   }"

section \<open>Trimming\<close>

definition trim_optimal :: "'w controller_if \<Rightarrow> 'w block_heap \<Rightarrow> config \<Rightarrow> ulong \<Rightarrow> nat \<Rightarrow> bpage \<Rightarrow> event \<Rightarrow>
    'w bdftl_state \<Rightarrow> (event \<times> 'w bdftl_state) option" where
  "trim_optimal ci bh c junk dlbn bp e s = do {
     a \<leftarrow> Address_linear c ((pbn bp + logical_address e mod BLOCK_SIZE c) mod 2 ^ 32) PAGE;
     p \<leftarrow> ci_get_block_pointer ci a (ds_world (bd_ds s));
     w \<leftarrow> invalidate_at bh c p (page a) (ds_world (bd_ds s));
     let s1 = s\<lparr>bd_ds := set_world w (bd_ds s)\<rparr>;
     b \<leftarrow> bh_get bh p w;
     if bstate b = INACTIVE then do {
       (e1, g) \<leftarrow> erase_and_invalidate ci c junk e a DATA (ds_gs (bd_ds s1));
       Some (e1, set_bpage dlbn (bp\<lparr>pbn := no_block, nextPage := 0\<rparr>) (s1\<lparr>bd_ds := (bd_ds s1)\<lparr>ds_gs := g\<rparr>\<rparr>))
     } else Some (e, s1)
   }"

definition trim_mapped_page :: "'w controller_if \<Rightarrow> 'w block_heap \<Rightarrow> config \<Rightarrow> ulong \<Rightarrow> uint \<Rightarrow> mpage \<Rightarrow> event \<Rightarrow>
    'w dftl_state \<Rightarrow> (event \<times> 'w dftl_state) option" where
  "trim_mapped_page ci bh c junk dlpn m e d = do {
     a \<leftarrow> Address_linear c (uint_of_int (ppn m)) PAGE;
     p \<leftarrow> ci_get_block_pointer ci a (ds_world d);
     w \<leftarrow> invalidate_at bh c p (page a) (ds_world d);
     (e1, d1) \<leftarrow> evict_specific_page_from_cache ci c junk dlpn e (set_world w d);
     (m1, rv) \<leftarrow> update_translation_map m (- 1) (reverse_trans_map (ds_ftl d1));
     let d2 = d1\<lparr>ds_ftl := (ds_ftl d1)\<lparr>trans_map := (ds_map d1)[dlpn := m1], reverse_trans_map := rv\<rparr>\<rparr>;
     Some (incr_time_taken (RAM_WRITE_DELAY c) (incr_time_taken (RAM_READ_DELAY c) e1),
       count_stat (\<lambda>st. st\<lparr>numMemoryRead := numMemoryRead st + 1, numMemoryWrite := numMemoryWrite st + 1\<rparr>) d2)
   }"

definition trim_paged :: "'w controller_if \<Rightarrow> 'w block_heap \<Rightarrow> config \<Rightarrow> ulong \<Rightarrow> uint \<Rightarrow> nat \<Rightarrow> bpage \<Rightarrow> event \<Rightarrow>
    'w bdftl_state \<Rightarrow> (event \<times> 'w bdftl_state) option" where
  "trim_paged ci bh c junk dlpn dlbn bp e s = do {
     m \<leftarrow> aget (ds_map (bd_ds s)) dlpn;
     (e1, d1) \<leftarrow> (if ppn m \<noteq> - 1 then trim_mapped_page ci bh c junk dlpn m e (bd_ds s) else Some (e, bd_ds s));
     let start = dlpn - dlpn mod BLOCK_SIZE c;
     cassert (start + BLOCK_SIZE c \<le> length (bd_trim_map s));
     let s1 = bd_count (\<lambda>st. st\<lparr>numMemoryRead := numMemoryRead st + 1\<rparr>) (s\<lparr>bd_ds := d1\<rparr>);
     Some (e1,
       if list_all (\<lambda>t. t) (take (BLOCK_SIZE c) (drop start (bd_trim_map s)))
       then set_bpage dlbn BPage_new (bd_count (\<lambda>st. st\<lparr>numMemoryWrite := numMemoryWrite st + 1\<rparr>) s1)
       else s1)
   }"

definition FtlImpl_BDftl_trim :: "'w controller_if \<Rightarrow> 'w block_heap \<Rightarrow> config \<Rightarrow> ulong \<Rightarrow> event \<Rightarrow>
    'w bdftl_state \<Rightarrow> (status \<times> event \<times> 'w bdftl_state) option" where
  "FtlImpl_BDftl_trim ci bh c junk e s = do {
     let dlpn = logical_address e mod 2 ^ 32;
     cassert (BLOCK_SIZE c \<noteq> 0);
     let dlbn = dlpn div BLOCK_SIZE c;
     cassert (dlpn < length (bd_trim_map s));
     let s0 = s\<lparr>bd_trim_map := (bd_trim_map s)[dlpn := True]\<rparr>;
     bp \<leftarrow> aget (block_map s0) dlbn;
     (e1, s1) \<leftarrow> (if optimal bp then trim_optimal ci bh c junk dlbn bp e s0
                  else trim_paged ci bh c junk dlpn dlbn bp e s0);
     e2 \<leftarrow> at_no_page c e1;
     bd_issue ci (incr_time_taken (RAM_READ_DELAY c * 2) e2)
       (bd_count (\<lambda>st. st\<lparr>numMemoryRead := numMemoryRead st + 2, numFTLTrim := numFTLTrim st + 1\<rparr>) s1)
   }"

section \<open>Cleaning\<close>

text \<open>The body of \<open>cleanup_block\<close> is that of the parent's other child.\<close>

definition FtlImpl_BDftl_cleanup_block :: "'w controller_if \<Rightarrow> 'w block_heap \<Rightarrow> config \<Rightarrow> ulong \<Rightarrow> nat \<Rightarrow> event \<Rightarrow>
    'w bdftl_state \<Rightarrow> (event \<times> 'w bdftl_state) option" where
  "FtlImpl_BDftl_cleanup_block ci bh c junk p e s = do {
     (e1, moved, d) \<leftarrow> move_valid_pages ci bh c junk p [0..<BLOCK_SIZE c] e [] (bd_ds s);
     st \<leftarrow> get_start_time e1;
     f \<leftarrow> remap_entries st moved (ds_ftl d);
     Some (e1, s\<lparr>bd_ds := d\<lparr>ds_ftl := f\<rparr>\<rparr>)
   }"

definition block_next_new :: "config \<Rightarrow> 'w bdftl_state \<Rightarrow> bool option" where
  "block_next_new c s = (let cur = currentDataPage (ds_ftl (bd_ds s)) in
     if cur = - 1 then Some True
     else if BLOCK_SIZE c = 0 then None else Some (at_block_end c cur))"

end
