(* ===== verification/Dftl_Cache.thy ===== *)
theory Dftl_Cache
  imports Ftl_Dftl
begin

text \<open>
  The cached mapping table of \<open>dftl_parent.cpp\<close>: the counter \<open>cmt\<close> is the number of cached
  entries, eviction ends and takes the entry that was visited least recently, and looking a
  page up never changes where pages are. \<open>lru_index\<close> is what the code relies on of the
  Boost index; \<open>first_oldest\<close> satisfies it.
\<close>

section \<open>The index ordered by last visit\<close>

locale lru_index =
  fixes oldest :: "mpage list \<Rightarrow> nat option"
  assumes oldest_first: "ms \<noteq> [] \<Longrightarrow>
    \<exists>i<length ms. oldest ms = Some i \<and> (\<forall>j<length ms. visited_before (ms ! i) (ms ! j))"
begin

lemma victim:
  assumes "0 < count_if cached ms"
  obtains i where "oldest ms = Some i" "i < length ms" "cached (ms ! i)"
    "\<And>j. j < length ms \<Longrightarrow> cached (ms ! j) \<Longrightarrow> last_visited_time (ms ! i) \<le> last_visited_time (ms ! j)"
proof -
  from assms have ne: "ms \<noteq> []" by auto
  from assms obtain j where j: "j < length ms" "cached (ms ! j)"
    by (auto simp: count_if_def filter_empty_conv in_set_conv_nth)
  from oldest_first [OF ne] obtain i where i: "i < length ms" "oldest ms = Some i"
    "\<forall>j<length ms. visited_before (ms ! i) (ms ! j)" by blast
  from i j have "cached (ms ! i)" by (auto simp: visited_before_def split: if_splits)
  with i show thesis by (intro that [of i]) (auto simp: visited_before_def)
qed

end

fun first_oldest :: "mpage list \<Rightarrow> nat option" where
  "first_oldest [] = None"
| "first_oldest (m # ms) = (case first_oldest ms of
       None \<Rightarrow> Some 0
     | Some i \<Rightarrow> if visited_before m (ms ! i) then Some 0 else Some (Suc i))"

lemma visited_before_order:
  "visited_before m m"
  "visited_before a b \<Longrightarrow> visited_before b d \<Longrightarrow> visited_before a d"
  "\<not> visited_before a b \<Longrightarrow> visited_before b a"
  by (auto simp: visited_before_def split: if_splits)

lemma first_oldest_spec:
  "ms \<noteq> [] \<Longrightarrow> \<exists>i<length ms. first_oldest ms = Some i \<and> (\<forall>j<length ms. visited_before (ms ! i) (ms ! j))"
proof (induction ms)
  case (Cons m ms)
  show ?case
  proof (cases "ms = []")
    case False
    with Cons obtain i where i: "i < length ms" "first_oldest ms = Some i"
      "\<forall>j<length ms. visited_before (ms ! i) (ms ! j)" by blast
    let ?k = "if visited_before m (ms ! i) then 0 else Suc i"
    have "visited_before ((m # ms) ! ?k) ((m # ms) ! j)" if "j < length (m # ms)" for j
      using that i visited_before_order(1) [of m] visited_before_order(2) [of m "ms ! i"]
        visited_before_order(3) [of m "ms ! i"]
      by (cases j) auto
    with i show ?thesis by (intro exI [of _ ?k]) auto
  qed (simp add: visited_before_order(1))
qed simp

interpretation boost: lru_index first_oldest
  by unfold_locales (rule first_oldest_spec)

section \<open>Transfers of translation pages\<close>

definition controller_accepts :: "'w controller_if \<Rightarrow> bool" where
  "controller_accepts ci \<longleftrightarrow>
     (\<forall>e w. 0 \<le> time_taken e \<longrightarrow> (\<exists>e' w'. ci_issue ci e w = Some (SUCCESS, e', w') \<and> 0 \<le> time_taken e'))"

lemma issue_noop_returns:
  assumes "controller_accepts ci" "geometry_ok c" "0 \<le> start_time e"
  shows "\<exists>e' w'. issue_noop ci c junk ty e w = Some (e', w') \<and> progress e e'"
proof -
  from assms(3) obtain ne where ne: "Event_new junk ty (logical_address e) 1 (start_time e) = Some ne"
    and t: "time_taken ne = 0" by (simp add: Event_new_def)
  from assms(2) obtain a where a: "Address_linear c 0 PAGE = Some a"
    by (simp add: Address_linear_def set_linear_Some)
  from assms(1) t obtain ne' w' where i: "ci_issue ci (ne\<lparr>ev_address := a, noop := True\<rparr>) w = Some (SUCCESS, ne', w')"
    "0 \<le> time_taken ne'" unfolding controller_accepts_def by force
  from ne a i assms(3) show ?thesis by (simp add: issue_noop_def get_start_time_def get_time_taken_def)
qed

section \<open>The cache invariant\<close>

definition cache_ok :: "dftl \<Rightarrow> bool" where
  "cache_ok f \<longleftrightarrow> cmt f = int (count_if cached (trans_map f))
     \<and> map vpn (trans_map f) = [0..<length (trans_map f)]
     \<and> list_all (\<lambda>m. cached m \<longrightarrow> 0 \<le> create_ts m \<and> 0 \<le> modified_ts m) (trans_map f)"

definition cache_fits :: "dftl \<Rightarrow> bool" where
  "cache_fits f \<longleftrightarrow> 0 < addressPerPage f \<and> addressPerPage f dvd length (trans_map f) \<and> 0 < totalCMTentries f"

text \<open>What the table says of the pages, apart from the cache.\<close>

definition same_mapping :: "dftl \<Rightarrow> dftl \<Rightarrow> bool" where
  "same_mapping f f' \<longleftrightarrow> map ppn (trans_map f') = map ppn (trans_map f)
     \<and> reverse_trans_map f' = reverse_trans_map f \<and> currentDataPage f' = currentDataPage f
     \<and> addressPerPage f' = addressPerPage f \<and> totalCMTentries f' = totalCMTentries f"

lemma same_mapping_refl [simp]: "same_mapping f f"
  by (simp add: same_mapping_def)

lemma same_mapping_trans: "same_mapping f g \<Longrightarrow> same_mapping g h \<Longrightarrow> same_mapping f h"
  by (simp add: same_mapping_def)

lemma same_mapping_length: "same_mapping f f' \<Longrightarrow> length (trans_map f') = length (trans_map f)"
  unfolding same_mapping_def by (metis length_map)

lemma same_mapping_fits: "same_mapping f f' \<Longrightarrow> cache_fits f \<Longrightarrow> cache_fits f'"
  by (auto simp: cache_fits_def same_mapping_length) (simp_all add: same_mapping_def)

lemma vpn_nth: "cache_ok f \<Longrightarrow> i < length (trans_map f) \<Longrightarrow> vpn (trans_map f ! i) = i"
  using nth_map [of i "trans_map f" vpn] by (simp add: cache_ok_def)

lemma clean_entry_simps [simp]:
  "cached (clean_entry m) = cached m" "vpn (clean_entry m) = vpn m" "ppn (clean_entry m) = ppn m"
  "modified_ts (clean_entry m) = modified_ts m"
  by (simp_all add: clean_entry_def)

lemma uncache_simps [simp]: "\<not> cached (uncache m)" "vpn (uncache m) = vpn m" "ppn (uncache m) = ppn m"
  by (simp_all add: uncache_def reset_MPage_def)

lemma split_at_page: "base + app \<le> length tm \<Longrightarrow>
   tm = take base tm @ take app (drop base tm) @ drop (base + app) tm"
  by (metis add.commute append_take_drop_id drop_drop)

lemma clean_Some:
  assumes "clean_translation_page app v tm = Some tm'"
  obtains base where "base + app \<le> length tm"
    "tm' = take base tm @ map clean_entry (take app (drop base tm)) @ drop (base + app) tm"
  by (rule that [of "v - v mod app"]) (use assms in \<open>auto simp: clean_translation_page_def Let_def split: if_splits\<close>)

text \<open>Cleaning a translation page changes no column but the creation times.\<close>

lemma clean_column:
  assumes "clean_translation_page app v tm = Some tm'" "\<And>m. h (clean_entry m) = h m"
  shows "map h tm' = map h tm"
proof -
  from clean_Some [OF assms(1)] obtain base where b: "base + app \<le> length tm"
    "tm' = take base tm @ map clean_entry (take app (drop base tm)) @ drop (base + app) tm" .
  from arg_cong [OF split_at_page [OF b(1)], of "map h"] b(2) assms(2) show ?thesis by (simp add: comp_def)
qed

lemma clean_total:
  assumes "0 < app" "app dvd length tm" "v < length tm"
  shows "\<exists>tm'. clean_translation_page app v tm = Some tm'"
proof -
  from assms(2) obtain k where k: "length tm = app * k" by (auto elim: dvdE)
  have "v - v mod app = app * (v div app)" by (simp add: minus_mod_eq_mult_div)
  moreover have "v div app < k" using assms k by (simp add: less_mult_imp_div_less mult.commute)
  then have "app * (v div app + 1) \<le> app * k" by (intro mult_le_mono) simp_all
  ultimately show ?thesis using assms(1) k by (simp add: clean_translation_page_def Let_def)
qed

lemma count_cached_column: "map cached xs = map cached ys \<Longrightarrow> count_if cached xs = count_if cached ys"
  using count_if_map [of id cached xs] count_if_map [of id cached ys] by (simp add: comp_def)

lemma clean_times:
  assumes "clean_translation_page app v tm = Some tm'" "list_all P tm" "\<And>m. P m \<Longrightarrow> P (clean_entry m)"
  shows "list_all P tm'"
proof -
  from clean_Some [OF assms(1)] obtain base where b: "base + app \<le> length tm"
    "tm' = take base tm @ map clean_entry (take app (drop base tm)) @ drop (base + app) tm" .
  have "list_all P (take base tm) \<and> list_all P (take app (drop base tm)) \<and> list_all P (drop (base + app) tm)"
    using arg_cong [OF split_at_page [OF b(1)], of "list_all P"] assms(2) by simp
  with b(2) assms(3) show ?thesis by (auto simp: list_all_iff)
qed

lemma cache_ok_clean:
  assumes "cache_ok f" "clean_translation_page app v (trans_map f) = Some tm"
  shows "cache_ok (f\<lparr>trans_map := tm\<rparr>)" "same_mapping f (f\<lparr>trans_map := tm\<rparr>)"
  using assms(1) clean_column [OF assms(2), of cached] clean_column [OF assms(2), of vpn]
    clean_column [OF assms(2), of ppn] clean_times [OF assms(2), of "\<lambda>m. cached m \<longrightarrow> 0 \<le> create_ts m \<and> 0 \<le> modified_ts m"]
    count_cached_column [of tm "trans_map f"] map_eq_imp_length_eq [of cached tm cached "trans_map f"]
  by (simp_all add: cache_ok_def same_mapping_def clean_entry_def)

section \<open>Eviction\<close>

lemma set_simps [simp]:
  "ds_ftl (set_world w s) = ds_ftl s" "ds_ftl (count_stat h s) = ds_ftl s"
  "gs_bm (ds_gs (set_world w s)) = gs_bm (ds_gs s)" "gs_bm (ds_gs (count_stat h s)) = gs_bm (ds_gs s)"
  "gs_bm (ds_gs (set_map tm s)) = gs_bm (ds_gs s)" "ds_ftl (set_map tm s) = (ds_ftl s)\<lparr>trans_map := tm\<rparr>"
  by (simp_all add: set_world_def count_stat_def set_map_def)

text \<open>The frame of every cache operation: the request, the block manager, the mapping.\<close>

definition cache_step :: "event \<Rightarrow> 'w dftl_state \<Rightarrow> event \<Rightarrow> 'w dftl_state \<Rightarrow> bool" where
  "cache_step e s e' s' \<longleftrightarrow> progress e e' \<and> same_mapping (ds_ftl s) (ds_ftl s')
     \<and> gs_bm (ds_gs s') = gs_bm (ds_gs s) \<and> cache_ok (ds_ftl s')"

definition only_drops :: "dftl \<Rightarrow> dftl \<Rightarrow> bool" where
  "only_drops f f' \<longleftrightarrow> (\<forall>i<length (trans_map f). cached (trans_map f' ! i) \<longrightarrow> cached (trans_map f ! i))"

lemma cache_step_trans: "cache_step e s e1 s1 \<Longrightarrow> cache_step e1 s1 e2 s2 \<Longrightarrow> cache_step e s e2 s2"
  using progress_trans [of e e1 e2] same_mapping_trans [of "ds_ftl s" "ds_ftl s1" "ds_ftl s2"]
  by (simp add: cache_step_def)

lemma cache_step_refl [simp]: "cache_step e s e s \<longleftrightarrow> cache_ok (ds_ftl s)"
  by (simp add: cache_step_def)

lemma cache_ok_uncache:
  assumes "cache_ok f" "i < length (trans_map f)" "cached (trans_map f ! i)" "vpn m = i" "ppn m = ppn (trans_map f ! i)"
  shows "cache_ok (f\<lparr>cmt := cmt f - 1, trans_map := (trans_map f)[i := uncache m]\<rparr>)"
    "same_mapping f (f\<lparr>cmt := cmt f - 1, trans_map := (trans_map f)[i := uncache m]\<rparr>)"
  using assms count_if_update [OF assms(2), of cached "uncache m"]
  by (auto simp: cache_ok_def same_mapping_def map_update list_all_update list_update_same_conv nth_map)

lemma cache_ok_enter:
  assumes "cache_ok f" "i < length (trans_map f)" "\<not> cached (trans_map f ! i)" "cached n"
    "vpn n = vpn (trans_map f ! i)" "ppn n = ppn (trans_map f ! i)" "0 \<le> create_ts n" "0 \<le> modified_ts n"
  shows "cache_ok (f\<lparr>trans_map := (trans_map f)[i := n], cmt := cmt f + 1\<rparr>)"
    "same_mapping f (f\<lparr>trans_map := (trans_map f)[i := n], cmt := cmt f + 1\<rparr>)"
  using assms count_if_update [OF assms(2), of cached n] vpn_nth [OF assms(1,2)]
  by (auto simp: cache_ok_def same_mapping_def map_update list_all_update list_update_same_conv nth_map)

lemma column_nth: "map h xs = map h ys \<Longrightarrow> i < length ys \<Longrightarrow> h (xs ! i) = h (ys ! i)"
  by (metis length_map nth_map)

lemma drops_column: "map cached (trans_map f') = (map cached (trans_map f))[i := False] \<Longrightarrow> only_drops f f'"
proof -
  assume c: "map cached (trans_map f') = (map cached (trans_map f))[i := False]"
  then have len: "length (trans_map f') = length (trans_map f)" by (metis length_list_update length_map)
  have "cached (trans_map f' ! j) = (map cached (trans_map f))[i := False] ! j" if "j < length (trans_map f)" for j
    using arg_cong [OF c, of "\<lambda>xs. xs ! j"] that len by simp
  then show ?thesis
    by (cases "i < length (trans_map f)")
      (auto simp: only_drops_def nth_list_update list_update_beyond split: if_splits)
qed

lemma write_back_returns:
  assumes "controller_accepts ci" "geometry_ok c" "0 \<le> start_time e" "cache_ok (ds_ftl s)"
    "cache_fits (ds_ftl s)" "v < length (ds_map s)"
  shows "\<exists>e' s'. write_back ci c junk v e s = Some (e', s') \<and> cache_step e s e' s'
    \<and> map cached (ds_map s') = map cached (ds_map s) \<and> cmt (ds_ftl s') = cmt (ds_ftl s)"
proof -
  from clean_total [of "addressPerPage (ds_ftl s)" "ds_map s" v] assms(5,6) obtain tm where
    tm: "clean_translation_page (addressPerPage (ds_ftl s)) v (ds_map s) = Some tm"
    by (auto simp: cache_fits_def)
  from issue_noop_returns [OF assms(1-3)] obtain e' w' where
    "issue_noop ci c junk WRITE e (ds_world s) = Some (e', w')" "progress e e'" by blast
  with tm cache_ok_clean [OF assms(4) tm] clean_column [OF tm, of cached] show ?thesis
    by (simp add: write_back_def cache_step_def)
qed

lemma evict_entry_returns:
  assumes "controller_accepts ci" "geometry_ok c" "0 \<le> start_time e" "cache_ok (ds_ftl s)"
    "cache_fits (ds_ftl s)" "i < length (ds_map s)" "cached (ds_map s ! i)"
  shows "\<exists>e' s'. evict_entry ci c junk (ds_map s ! i) e s = Some (e', s') \<and> cache_step e s e' s'
    \<and> map cached (ds_map s') = (map cached (ds_map s))[i := False]"
proof -
  let ?m = "ds_map s ! i"
  have v: "vpn ?m = i" by (rule vpn_nth [OF assms(4,6)])
  have times: "0 \<le> create_ts ?m \<and> 0 \<le> modified_ts ?m"
    using assms(4,6,7) by (simp add: cache_ok_def list_all_length)
  from write_back_returns [OF assms(1-5), of i junk] assms(6) obtain e1 s1 where
    wb: "write_back ci c junk i e s = Some (e1, s1)" "cache_step e s e1 s1"
    "map cached (ds_map s1) = map cached (ds_map s)" by blast
  define q where "q = (if create_ts ?m \<noteq> modified_ts ?m then (e1, s1) else (e, s))"
  have q: "(if create_ts ?m \<noteq> modified_ts ?m then write_back ci c junk (vpn ?m) e s else Some (e, s)) = Some q"
    "cache_step e s (fst q) (snd q)" "map cached (ds_map (snd q)) = map cached (ds_map s)"
    using wb v assms(4) by (simp_all add: q_def)
  let ?s = "snd q"
  have len: "length (ds_map ?s) = length (ds_map s)" using q(3) map_eq_imp_length_eq by blast
  have "cached (ds_map ?s ! i)" using column_nth [OF q(3)] assms(6,7) by simp
  moreover have "ppn ?m = ppn (ds_map ?s ! i)"
    using q(2) assms(6) column_nth [of ppn "ds_map ?s" "ds_map s" i] by (simp add: cache_step_def same_mapping_def)
  moreover have ok: "cache_ok (ds_ftl ?s)" using q(2) by (simp add: cache_step_def)
  ultimately have "cache_step (fst q) ?s (fst q) (?s\<lparr>ds_ftl := (ds_ftl ?s)\<lparr>cmt := cmt (ds_ftl ?s) - 1,
      trans_map := (ds_map ?s)[i := uncache ?m]\<rparr>\<rparr>)"
    using cache_ok_uncache [of "ds_ftl ?s" i ?m] len assms(6) v by (simp add: cache_step_def)
  note step = cache_step_trans [OF q(2) this]
  have "map cached ((ds_map ?s)[i := uncache ?m]) = (map cached (ds_map s))[i := False]"
    using q(3) by (simp add: map_update)
  then show ?thesis
    using times assms(6,7) v len step q(1)
    by (simp add: evict_entry_def case_prod_beta')
qed

context lru_index
begin

lemma evict_returns:
  assumes "controller_accepts ci" "geometry_ok c" "0 \<le> start_time e" "cache_ok (ds_ftl s)" "cache_fits (ds_ftl s)"
  shows "\<exists>e' s'. evict_page_from_cache oldest ci c junk e s = Some (e', s') \<and> cache_step e s e' s'
    \<and> cmt (ds_ftl s') = min (cmt (ds_ftl s)) (int (totalCMTentries (ds_ftl s)) - 1)
    \<and> only_drops (ds_ftl s) (ds_ftl s')"
  using assms(3-5)
proof (induction "nat (cmt (ds_ftl s) + 1)" arbitrary: e s rule: less_induct)
  case less
  show ?case
  proof (cases "int (totalCMTentries (ds_ftl s)) \<le> cmt (ds_ftl s)")
    case True
    with less.prems(2,3) have pos: "0 < count_if cached (ds_map s)"
      by (auto simp: cache_ok_def cache_fits_def)
    from victim [OF pos] obtain i where i: "oldest (ds_map s) = Some i" "i < length (ds_map s)" "cached (ds_map s ! i)"
      by blast
    from evict_entry_returns [OF assms(1,2) less.prems i(2,3)] obtain e1 s1 where
      step: "evict_entry ci c junk (ds_map s ! i) e s = Some (e1, s1)" "cache_step e s e1 s1"
      "map cached (ds_map s1) = (map cached (ds_map s))[i := False]" by blast
    have drop: "only_drops (ds_ftl s) (ds_ftl s1)" by (rule drops_column [OF step(3)])
    note c = evict_entry_cmt [OF step(1)]
    have "0 \<le> start_time e1" "cache_ok (ds_ftl s1)" "cache_fits (ds_ftl s1)"
      using step(2) less.prems progress_fields [of e e1] same_mapping_fits
      by (auto simp: cache_step_def)
    with less.hyps [of s1 e1] c True obtain e2 s2 where
      rec: "evict_page_from_cache oldest ci c junk e1 s1 = Some (e2, s2)" "cache_step e1 s1 e2 s2"
      "cmt (ds_ftl s2) = min (cmt (ds_ftl s1)) (int (totalCMTentries (ds_ftl s1)) - 1)"
      "only_drops (ds_ftl s1) (ds_ftl s2)" by auto
    have "only_drops (ds_ftl s) (ds_ftl s2)"
      using step(2) drop rec(4) same_mapping_length [of "ds_ftl s" "ds_ftl s1"]
      by (auto simp: only_drops_def cache_step_def)
    moreover
    have "evict_page_from_cache oldest ci c junk e s = Some (e2, s2)"
      using True i step(1) rec(1) by (subst evict_page_from_cache.simps) (simp add: aget_nth)
    ultimately show ?thesis using cache_step_trans [OF step(2) rec(2)] rec(3) c True by auto
  next
    case False
    then have "evict_page_from_cache oldest ci c junk e s = Some (e, s)"
      by (subst evict_page_from_cache.simps) simp
    with False less.prems(2) show ?thesis by (simp add: only_drops_def)
  qed
qed

text \<open>
  Looking a page up: the table afterwards maps every page as before, the entry is cached, and
  the cache is at most as full as its limit if it was.
\<close>

lemma resolve_returns:
  assumes acc: "controller_accepts ci" "geometry_ok c" and st: "0 \<le> start_time e"
    and ok: "cache_ok (ds_ftl s)" "cache_fits (ds_ftl s)"
    and la: "logical_address e < length (ds_map s)" "length (ds_map s) \<le> 2 ^ 32"
  shows "\<exists>e' s'. resolve_mapping oldest ci c junk wr e s = Some (e', s') \<and> cache_step e s e' s'
    \<and> cached (ds_map s' ! logical_address e)
    \<and> cmt (ds_ftl s') \<le> max (cmt (ds_ftl s)) (int (totalCMTentries (ds_ftl s)))"
proof (cases "cached (ds_map s ! logical_address e)")
  case True
  let ?d = "logical_address e" and ?m = "ds_map s ! logical_address e"
  let ?n = "(if wr then ?m\<lparr>modified_ts := start_time e\<rparr> else ?m)\<lparr>last_visited_time := start_time e\<rparr>"
  have "count_if cached ((ds_map s)[?d := ?n]) = count_if cached (ds_map s)"
    using count_if_update [OF la(1), of cached ?n] True by (simp split: if_splits)
  moreover have "0 \<le> create_ts ?m \<and> 0 \<le> modified_ts ?m"
    using ok(1) la(1) True by (simp add: cache_ok_def list_all_length)
  ultimately have "cache_ok ((ds_ftl s)\<lparr>trans_map := (ds_map s)[?d := ?n]\<rparr>)"
    using ok(1) la(1) st vpn_nth [OF ok(1) la(1)]
    by (auto simp: cache_ok_def map_update list_all_update list_update_same_conv)
  moreover have "same_mapping (ds_ftl s) ((ds_ftl s)\<lparr>trans_map := (ds_map s)[?d := ?n]\<rparr>)"
    using la(1) by (simp add: same_mapping_def map_update list_update_same_conv)
  ultimately show ?thesis
    using True la st
    by (auto simp: resolve_mapping_def lookup_CMT_def Let_def get_start_time_def cache_step_def aget_nth)
next
  case False
  let ?d = "logical_address e"
  from evict_returns [OF acc st, of "count_stat (\<lambda>st. st\<lparr>numCacheFaults := numCacheFaults st + 1\<rparr>) s" junk] ok
  obtain e2 s3 where ev: "evict_page_from_cache oldest ci c junk e
      (count_stat (\<lambda>st. st\<lparr>numCacheFaults := numCacheFaults st + 1\<rparr>) s) = Some (e2, s3)"
    "cache_step e s e2 s3" "cmt (ds_ftl s3) \<le> int (totalCMTentries (ds_ftl s)) - 1"
    "only_drops (ds_ftl s) (ds_ftl s3)"
    by (auto simp: cache_step_def)
  have st2: "0 \<le> start_time e2" using ev(2) st progress_fields [of e e2] by (simp add: cache_step_def)
  from issue_noop_returns [OF acc st2, of junk READ "ds_world s3"] obtain e3 w where
    nop: "issue_noop ci c junk READ e2 (ds_world s3) = Some (e3, w)" "progress e2 e3" by blast
  define s4 where "s4 = count_stat count_ftl_read (set_world w s3)"
  have gtd: "consult_GTD ci c junk e2 s3 = Some (e3, s4)" using nop(1) by (simp add: consult_GTD_def s4_def)
  have step4: "cache_step e s e3 s4"
    using cache_step_trans [OF ev(2), of e3 s4] ev(2) nop(2) by (simp add: cache_step_def s4_def)
  have st3: "start_time e3 = start_time e" using step4 progress_fields [of e e3] by (simp add: cache_step_def)
  have len: "length (ds_map s4) = length (ds_map s)"
    using step4 same_mapping_length [of "ds_ftl s" "ds_ftl s4"] by (simp add: cache_step_def)
  let ?m = "ds_map s4 ! ?d"
  let ?n = "?m\<lparr>modified_ts := (if wr then start_time e + 1 else start_time e), last_visited_time := start_time e,
      create_ts := start_time e, cached := True\<rparr>"
  let ?f = "(ds_ftl s4)\<lparr>trans_map := (ds_map s4)[?d := ?n], cmt := cmt (ds_ftl s4) + 1\<rparr>"
  have "\<not> cached ?m" using ev(4) False la(1) by (auto simp: only_drops_def s4_def)
  then have "cache_ok ?f \<and> same_mapping (ds_ftl s4) ?f"
    using step4 st la(1) len by (intro cache_ok_enter conjI) (simp_all add: cache_step_def)
  then have "cache_step e s e3 (s4\<lparr>ds_ftl := ?f\<rparr>)"
    using step4 same_mapping_trans [of "ds_ftl s" "ds_ftl s4" ?f] by (simp add: cache_step_def)
  moreover have "resolve_mapping oldest ci c junk wr e s = Some (e3, s4\<lparr>ds_ftl := ?f\<rparr>)"
    using False la st st3 ev(1) gtd len
    by (simp add: resolve_mapping_def lookup_CMT_def Let_def get_start_time_def aget_nth)
  ultimately show ?thesis using ev(3) len la(1) by (auto simp: s4_def)
qed

text \<open>When the cache is exactly full, one eviction makes room, and it takes the oldest entry.\<close>

lemma evict_one:
  assumes "controller_accepts ci" "geometry_ok c" "0 \<le> start_time e" "cache_ok (ds_ftl s)" "cache_fits (ds_ftl s)"
    and full: "cmt (ds_ftl s) = int (totalCMTentries (ds_ftl s))"
  shows "\<exists>i e' s'. evict_page_from_cache oldest ci c junk e s = Some (e', s') \<and> cache_step e s e' s'
    \<and> i < length (ds_map s) \<and> cached (ds_map s ! i) \<and> map cached (ds_map s') = (map cached (ds_map s))[i := False]
    \<and> (\<forall>j<length (ds_map s). cached (ds_map s ! j) \<longrightarrow>
          last_visited_time (ds_map s ! i) \<le> last_visited_time (ds_map s ! j))"
proof -
  from assms(4,5) full have "0 < count_if cached (ds_map s)" by (auto simp: cache_ok_def cache_fits_def)
  from victim [OF this] obtain i where i: "oldest (ds_map s) = Some i" "i < length (ds_map s)" "cached (ds_map s ! i)"
    "\<forall>j<length (ds_map s). cached (ds_map s ! j) \<longrightarrow> last_visited_time (ds_map s ! i) \<le> last_visited_time (ds_map s ! j)"
    by blast
  from evict_entry_returns [OF assms(1-5) i(2,3)] obtain e1 s1 where
    step: "evict_entry ci c junk (ds_map s ! i) e s = Some (e1, s1)" "cache_step e s e1 s1"
    "map cached (ds_map s1) = (map cached (ds_map s))[i := False]" by blast
  have "evict_page_from_cache oldest ci c junk e1 s1 = Some (e1, s1)"
    using evict_entry_cmt [OF step(1)] full by (subst evict_page_from_cache.simps) simp
  then have "evict_page_from_cache oldest ci c junk e s = Some (e1, s1)"
    using full i step(1) by (subst evict_page_from_cache.simps) (simp add: aget_nth)
  with i step(2,3) show ?thesis by blast
qed

end

end
