(* ===== verification/Dftl_Write.thy ===== *)
theory Dftl_Write
  imports Dftl_Cache
begin

text \<open>
  Writes through the demand-paged FTL while blocks are handed out in order. After \<open>n\<close> page
  writes the FTL has used the physical pages \<open>0, \<dots>, n - 1\<close>, and a logical page is mapped to
  the number of the last write that addressed it (\<open>last_write\<close>).
\<close>

section \<open>Sequential allocation of data pages\<close>

definition blocks_used :: "config \<Rightarrow> nat \<Rightarrow> nat" where
  "blocks_used c n = (n + (BLOCK_SIZE c - 1)) div BLOCK_SIZE c"

definition bm_seq :: "config \<Rightarrow> nat \<Rightarrow> bm \<Rightarrow> bool" where
  "bm_seq c k b \<longleftrightarrow> data_active b = k \<and> simpleCurrentFree b = k * BLOCK_SIZE c \<and> log_active b = 0
     \<and> free_list b = [] \<and> invalid_list b = [] \<and> max_blocks b = NUMBER_OF_ADDRESSABLE_BLOCKS c"

definition seq_alloc :: "config \<Rightarrow> nat \<Rightarrow> 'w dftl_state \<Rightarrow> bool" where
  "seq_alloc c n s \<longleftrightarrow> currentDataPage (ds_ftl s) = int n - 1 \<and> bm_seq c (blocks_used c n) (gs_bm (ds_gs s))"

definition has_blocks :: "'w controller_if \<Rightarrow> bool" where
  "has_blocks ci \<longleftrightarrow> (\<forall>a w. ci_get_block_pointer ci a w \<noteq> None)"

definition below_gc :: "config \<Rightarrow> nat \<Rightarrow> bool" where
  "below_gc c k \<longleftrightarrow> 10 * k < 9 * NUMBER_OF_ADDRESSABLE_BLOCKS c"

definition dftl_config :: "config \<Rightarrow> bool" where
  "dftl_config c \<longleftrightarrow> geometry_ok c \<and> NUMBER_OF_ADDRESSABLE_BLOCKS c * BLOCK_SIZE c < 2 ^ 32
     \<and> BLOCK_SIZE c < 2 ^ 32"

lemma blocks_used_step:
  assumes "0 < BLOCK_SIZE c"
  shows "n mod BLOCK_SIZE c = 0 \<Longrightarrow> blocks_used c n = n div BLOCK_SIZE c \<and> blocks_used c (Suc n) = Suc (n div BLOCK_SIZE c)"
    and "n mod BLOCK_SIZE c \<noteq> 0 \<Longrightarrow> blocks_used c (Suc n) = blocks_used c n"
proof -
  let ?b = "BLOCK_SIZE c"
  assume z: "n mod ?b = 0"
  then obtain k where k: "n = ?b * k" by auto
  have "(?b * k + (?b - 1)) div ?b = k" by (rule div_nat_eqI) (use assms in auto)
  then show "blocks_used c n = n div ?b \<and> blocks_used c (Suc n) = Suc (n div ?b)"
    using assms k by (simp add: blocks_used_def)
next
  let ?b = "BLOCK_SIZE c"
  assume z: "n mod ?b \<noteq> 0"
  define q r where "q = n div ?b" and "r = n mod ?b"
  have n: "n = ?b * q + r" and r: "r < ?b" "0 < r" using z assms by (simp_all add: q_def r_def)
  have "(n + (?b - 1)) div ?b = Suc q" by (rule div_nat_eqI) (use n r in auto)
  moreover have "(Suc n + (?b - 1)) div ?b = Suc q" by (rule div_nat_eqI) (use n r in auto)
  ultimately show "blocks_used c (Suc n) = blocks_used c n" by (simp add: blocks_used_def)
qed

lemma no_gc: "bm_seq c k b \<Longrightarrow> below_gc c k \<Longrightarrow> \<not> gc_needed c b"
  by (auto simp: bm_seq_def below_gc_def gc_needed_def Let_def)

lemma get_free_block_seq:
  assumes "bm_seq c k (gs_bm g)" "dftl_config c" "has_blocks ci" "k < NUMBER_OF_ADDRESSABLE_BLOCKS c"
  shows "\<exists>a g'. get_free_block ci c junk DATA e g = Some (a, e, g') \<and> real_address a = k * BLOCK_SIZE c
    \<and> bm_seq c (Suc k) (gs_bm g')"
proof -
  have geo: "geometry_ok c" and pos: "0 < BLOCK_SIZE c" using assms(2) by (simp_all add: dftl_config_def geometry_ok_def)
  have fresh: "fresh_blocks c (gs_bm g)" using assms(1,4) pos by (simp add: fresh_blocks_def bm_seq_def)
  have "max_blocks (gs_bm g) * BLOCK_SIZE c + BLOCK_SIZE c < 2 ^ 64"
    using assms(1,2) by (simp add: bm_seq_def dftl_config_def)
  from get_page_block_fresh [OF fresh geo this, of ci junk e] obtain a where a:
    "get_page_block ci c junk e g = Some (a, e, g\<lparr>gs_bm := (gs_bm g)\<lparr>
      current_writing_block := simpleCurrentFree (gs_bm g) mod 2 ^ 32,
      simpleCurrentFree := simpleCurrentFree (gs_bm g) + BLOCK_SIZE c\<rparr>\<rparr>)"
    "real_address a = simpleCurrentFree (gs_bm g)" by blast
  from assms(3) obtain p where p: "ci_get_block_pointer ci a (gs_world g) = Some p"
    by (auto simp: has_blocks_def)
  have "NUMBER_OF_ADDRESSABLE_BLOCKS c \<le> NUMBER_OF_ADDRESSABLE_BLOCKS c * BLOCK_SIZE c" using pos by simp
  with assms(2,4) have "k < 2 ^ 32" unfolding dftl_config_def by linarith
  then have "k < 2 ^ 64 - 1" by simp
  then show ?thesis
    using a p assms(1) by (simp add: get_free_block_def bm_seq_def Let_def)
qed

lemma at_block_end_seq:
  assumes "0 < BLOCK_SIZE c" "0 < n"
  shows "at_block_end c (int n - 1) \<longleftrightarrow> n mod BLOCK_SIZE c = 0"
proof -
  let ?b = "int (BLOCK_SIZE c)"
  have "(int n - 1) mod ?b = ?b - 1 \<longleftrightarrow> int n mod ?b = 0"
    using assms(1) by (smt (verit) mod_pos_pos_trivial mod_diff_left_eq mod_add_left_eq mod_self pos_mod_bound pos_mod_sign of_nat_0_less_iff)
  then show ?thesis by (simp add: at_block_end_def flip: of_nat_mod)
qed

lemma get_free_data_page_seq:
  assumes "seq_alloc c n s" "dftl_config c" "has_blocks ci" "below_gc c (blocks_used c n)"
  shows "\<exists>s'. get_free_data_page ci c junk True e s = Some (int n, e, s') \<and> seq_alloc c (Suc n) s'
    \<and> ds_ftl s' = (ds_ftl s)\<lparr>currentDataPage := int n\<rparr>"
proof -
  have pos: "0 < BLOCK_SIZE c" using assms(2) by (simp add: dftl_config_def geometry_ok_def)
  have seq: "bm_seq c (blocks_used c n) (gs_bm (ds_gs s))" and cur: "currentDataPage (ds_ftl s) = int n - 1"
    using assms(1) by (simp_all add: seq_alloc_def)
  note ends = at_block_end_seq [OF pos, of n]
  show ?thesis
  proof (cases "n mod BLOCK_SIZE c = 0")
    case True
    note used = blocks_used_step(1) [OF pos True]
    have "blocks_used c n < NUMBER_OF_ADDRESSABLE_BLOCKS c" using assms(4) by (simp add: below_gc_def)
    from get_free_block_seq [OF seq assms(2,3) this, of junk e] obtain a g where
      a: "get_free_block ci c junk DATA e (ds_gs s) = Some (a, e, g)" "real_address a = blocks_used c n * BLOCK_SIZE c"
      "bm_seq c (Suc (blocks_used c n)) (gs_bm g)" by blast
    have "real_address a = n" using a(2) used True by (auto simp: mult.commute)
    moreover have "insert_events ci c junk e (ds_gs s) = Some (e, ds_gs s)"
      using no_gc [OF seq assms(4)] by (simp add: insert_events_def)
    moreover have "int n - 1 = - 1 \<or> at_block_end c (int n - 1)" using ends True by auto
    ultimately show ?thesis
      using a used cur pos by (simp add: get_free_data_page_def Let_def seq_alloc_def get_linear_address_def)
  next
    case False
    then have "n \<noteq> 0" by (intro notI) simp
    with False ends have "\<not> at_block_end c (int n - 1)" "int n - 1 \<noteq> - 1" by simp_all
    with blocks_used_step(2) [OF pos False] seq cur pos show ?thesis
      by (simp add: get_free_data_page_def Let_def seq_alloc_def)
  qed
qed

section \<open>One write\<close>

definition dftl_ready :: "config \<Rightarrow> nat \<Rightarrow> 'w dftl_state \<Rightarrow> bool" where
  "dftl_ready c n s \<longleftrightarrow> cache_ok (ds_ftl s) \<and> cache_fits (ds_ftl s) \<and> seq_alloc c n s
     \<and> length (ds_map s) = NUMBER_OF_ADDRESSABLE_BLOCKS c * BLOCK_SIZE c
     \<and> length (reverse_trans_map (ds_ftl s)) = NUMBER_OF_ADDRESSABLE_BLOCKS c * BLOCK_SIZE c"

lemma Address_linear_Some:
  "geometry_ok c \<Longrightarrow> \<exists>a. Address_linear c n v = Some a \<and> real_address a = n \<and> valid a = v"
  by (simp add: Address_linear_def set_linear_Some)

lemma same_mapping_nth:
  "same_mapping f f' \<Longrightarrow> i < length (trans_map f) \<Longrightarrow> ppn (trans_map f' ! i) = ppn (trans_map f ! i)"
  using column_nth [of ppn "trans_map f'" "trans_map f" i] by (simp add: same_mapping_def)

lemma remap_cache:
  assumes "cache_ok f" "i < length (trans_map f)"
  shows "cache_ok (f\<lparr>currentDataPage := q, trans_map := (trans_map f)[i := (trans_map f ! i)\<lparr>ppn := p\<rparr>],
    reverse_trans_map := rv\<rparr>)"
  using assms count_if_update [OF assms(2), of cached "(trans_map f ! i)\<lparr>ppn := p\<rparr>"] vpn_nth [OF assms]
    list_all_nthD [OF _ assms(2), of "\<lambda>m. cached m \<longrightarrow> 0 \<le> create_ts m \<and> 0 \<le> modified_ts m"]
  by (auto simp: cache_ok_def map_update list_update_same_conv intro!: list_all_update)

lemma pages_before_gc:
  assumes "0 < BLOCK_SIZE c" "below_gc c (blocks_used c n)"
  shows "n < NUMBER_OF_ADDRESSABLE_BLOCKS c * BLOCK_SIZE c"
proof -
  let ?b = "BLOCK_SIZE c"
  have "n + (?b - 1) < Suc (blocks_used c n) * ?b"
    using dividend_less_div_times [OF assms(1), of "n + (?b - 1)"] by (simp add: blocks_used_def)
  then have "n \<le> blocks_used c n * ?b" using assms(1) by simp
  also have "\<dots> < NUMBER_OF_ADDRESSABLE_BLOCKS c * ?b" using assms by (simp add: below_gc_def)
  finally show ?thesis .
qed

lemma dftl_issue_returns:
  assumes "controller_accepts ci" "0 \<le> time_taken e"
  obtains e' w where "dftl_issue ci e s = Some (SUCCESS, e', set_world w s)"
proof -
  from assms obtain e' w where "ci_issue ci e (ds_world s) = Some (SUCCESS, e', w)"
    unfolding controller_accepts_def by blast
  then show thesis by (intro that [of e' w]) (simp add: dftl_issue_def)
qed

context lru_index
begin

lemma write_returns:
  assumes acc: "controller_accepts ci" "has_blocks ci" and cfg: "dftl_config c"
    and ev: "0 \<le> start_time e" "0 \<le> time_taken e"
    and rdy: "dftl_ready c n s" and room: "below_gc c (blocks_used c n)" and la: "logical_address e < length (ds_map s)"
  shows "\<exists>e' s'. FtlImpl_Dftl_write oldest ci c junk e s = Some (SUCCESS, e', s') \<and> dftl_ready c (Suc n) s'
    \<and> map ppn (ds_map s') = (map ppn (ds_map s))[logical_address e := int n]
    \<and> reverse_trans_map (ds_ftl s') = (reverse_trans_map (ds_ftl s))[n := int (logical_address e)]"
proof -
  let ?d = "logical_address e"
  have geo: "geometry_ok c" and pos: "0 < BLOCK_SIZE c" using cfg by (simp_all add: dftl_config_def geometry_ok_def)
  have len: "length (ds_map s) \<le> 2 ^ 32" "?d mod 2 ^ 32 = ?d" using cfg rdy la by (simp_all add: dftl_config_def dftl_ready_def)
  from resolve_returns [OF acc(1) geo ev(1) _ _ la len(1), of junk True] rdy obtain e1 s1 where
    res: "resolve_mapping oldest ci c junk True e s = Some (e1, s1)" "cache_step e s e1 s1"
    by (auto simp: dftl_ready_def)
  have sm: "same_mapping (ds_ftl s) (ds_ftl s1)" and pr: "progress e e1" using res(2) by (simp_all add: cache_step_def)
  have seq1: "seq_alloc c n s1" using rdy res(2) by (simp add: cache_step_def dftl_ready_def seq_alloc_def same_mapping_def)
  from get_free_data_page_seq [OF seq1 cfg acc(2) room, of junk e1] obtain s2 where
    fr: "get_free_data_page ci c junk True e1 s1 = Some (int n, e1, s2)" "seq_alloc c (Suc n) s2"
    "ds_ftl s2 = (ds_ftl s1)\<lparr>currentDataPage := int n\<rparr>" by blast
  have l1: "length (ds_map s1) = length (ds_map s)" using sm by (rule same_mapping_length)
  let ?m = "ds_map s1 ! ?d"
  have nlen: "n < length (reverse_trans_map (ds_ftl s1))"
    using pages_before_gc [OF pos room] rdy sm by (simp add: dftl_ready_def same_mapping_def)
  have vp: "vpn ?m = ?d" using res(2) la l1 vpn_nth [of "ds_ftl s1" ?d] by (simp add: cache_step_def)
  from Address_linear_Some [OF geo, of "uint_of_int (ppn ?m)" PAGE] obtain a where
    a: "Address_linear c (uint_of_int (ppn ?m)) PAGE = Some a" by blast
  from Address_linear_Some [OF geo, of "uint_of_int (int n)" PAGE] obtain b where
    b: "Address_linear c (uint_of_int (int n)) PAGE = Some b" by blast
  define s3 where "s3 = s2\<lparr>ds_ftl := (ds_ftl s1)\<lparr>currentDataPage := int n, trans_map := (ds_map s1)[?d := ?m\<lparr>ppn := int n\<rparr>],
      reverse_trans_map := (reverse_trans_map (ds_ftl s1))[n := int ?d]\<rparr>\<rparr>"
  define e3 where "e3 = (if ppn ?m \<noteq> - 1 then e1\<lparr>replace_address := a\<rparr> else e1)\<lparr>ev_address := b\<rparr>"
  have "0 \<le> time_taken e3" using pr ev(2) by (auto simp: e3_def progress_def time_grows_def)
  from dftl_issue_returns [OF acc(1) this, of "count_stat count_ftl_write s3"] obtain e4 w where
    iss: "dftl_issue ci e3 (count_stat count_ftl_write s3) = Some (SUCCESS, e4, set_world w (count_stat count_ftl_write s3))" .
  have wr: "FtlImpl_Dftl_write oldest ci c junk e s = Some (SUCCESS, e4, set_world w (count_stat count_ftl_write s3))"
    using res(1) fr(1,3) la l1 len(2) a b nlen vp iss
    by (simp add: FtlImpl_Dftl_write_def Let_def update_translation_map_def aget_nth s3_def [symmetric] e3_def [symmetric])
  have "cache_ok (ds_ftl s3)"
    using remap_cache [of "ds_ftl s1" ?d] res(2) la l1 fr(3) by (simp add: s3_def cache_step_def)
  moreover have "cache_fits (ds_ftl s1)" using rdy same_mapping_fits [OF sm] by (simp add: dftl_ready_def)
  then have "cache_fits (ds_ftl s3)" by (simp add: s3_def cache_fits_def)
  ultimately have "dftl_ready c (Suc n) (set_world w (count_stat count_ftl_write s3))"
    using rdy fr(2,3) sm l1 by (simp add: dftl_ready_def s3_def seq_alloc_def same_mapping_def)
  moreover have "map ppn (ds_map s3) = (map ppn (ds_map s))[?d := int n]"
    using sm fr(3) by (simp add: s3_def map_update same_mapping_def)
  moreover have "reverse_trans_map (ds_ftl s3) = (reverse_trans_map (ds_ftl s))[n := int ?d]"
    using sm by (simp add: s3_def same_mapping_def)
  ultimately show ?thesis using wr by simp
qed

lemma read_address:
  assumes acc: "controller_accepts ci" and geo: "geometry_ok c" and ev: "0 \<le> start_time e" "0 \<le> time_taken e"
    and ok: "cache_ok (ds_ftl s)" "cache_fits (ds_ftl s)"
    and la: "logical_address e < length (ds_map s)" "length (ds_map s) \<le> 2 ^ 32"
    and big: "\<forall>m\<in>set (ds_map s). - 1 \<le> ppn m \<and> ppn m < 2 ^ 32"
  shows "\<exists>e1 s1 e' w. FtlImpl_Dftl_read oldest ci c junk e s = dftl_issue ci e1 s1
    \<and> dftl_issue ci e1 s1 = Some (SUCCESS, e', set_world w s1) \<and> same_mapping (ds_ftl s) (ds_ftl s1)
    \<and> (if ppn (ds_map s ! logical_address e) = - 1 then noop e1
       else noop e1 = noop e \<and> int (real_address (ev_address e1)) = ppn (ds_map s ! logical_address e))"
proof -
  let ?d = "logical_address e"
  have d: "?d mod 2 ^ 32 = ?d" using la by simp
  from resolve_returns [OF acc geo ev(1) ok la, of junk False] obtain e1 s1 where
    res: "resolve_mapping oldest ci c junk False e s = Some (e1, s1)" "cache_step e s e1 s1" by blast
  have sm: "same_mapping (ds_ftl s) (ds_ftl s1)" and pr: "progress e e1" using res(2) by (simp_all add: cache_step_def)
  have l1: "length (ds_map s1) = length (ds_map s)" using sm by (rule same_mapping_length)
  have pp: "ppn (ds_map s1 ! ?d) = ppn (ds_map s ! ?d)" by (rule same_mapping_nth [OF sm la(1)])
  define k where "k = (if ppn (ds_map s ! ?d) = - 1 then 0 else uint_of_int (ppn (ds_map s ! ?d)))"
  from Address_linear_Some [OF geo, of k PAGE] obtain a where
    a: "Address_linear c k PAGE = Some a" "real_address a = k" by blast
  define e2 where "e2 = (if ppn (ds_map s ! ?d) = - 1 then e1\<lparr>ev_address := a, noop := True\<rparr> else e1\<lparr>ev_address := a\<rparr>)"
  have rd: "FtlImpl_Dftl_read oldest ci c junk e s = dftl_issue ci e2 (count_stat count_ftl_read s1)"
    using res(1) la l1 d pp a(1) by (simp add: FtlImpl_Dftl_read_def Let_def aget_nth k_def e2_def split: if_splits)
  have "0 \<le> time_taken e2" using pr ev(2) by (auto simp: e2_def progress_def time_grows_def)
  from dftl_issue_returns [OF acc this, of "count_stat count_ftl_read s1"] obtain e' w where
    iss: "dftl_issue ci e2 (count_stat count_ftl_read s1) = Some (SUCCESS, e', set_world w (count_stat count_ftl_read s1))" .
  have "- 1 \<le> ppn (ds_map s ! ?d) \<and> ppn (ds_map s ! ?d) < 2 ^ 32" using big la(1) by simp
  then have "ppn (ds_map s ! ?d) \<noteq> - 1 \<Longrightarrow> int k = ppn (ds_map s ! ?d)" by (simp add: k_def uint_of_int_def)
  then have at: "if ppn (ds_map s ! ?d) = - 1 then noop e2
      else noop e2 = noop e \<and> int (real_address (ev_address e2)) = ppn (ds_map s ! ?d)"
    using a(2) progress_fields [OF pr] by (simp add: e2_def)
  show ?thesis
    by (rule exI [of _ e2], rule exI [of _ "count_stat count_ftl_read s1"], rule exI [of _ e'], rule exI [of _ w])
      (use rd iss sm at in simp)
qed

end

section \<open>A sequence of writes\<close>

fun dftl_writes :: "(mpage list \<Rightarrow> nat option) \<Rightarrow> 'w controller_if \<Rightarrow> config \<Rightarrow> ulong \<Rightarrow> event list \<Rightarrow>
    'w dftl_state \<Rightarrow> 'w dftl_state option" where
  "dftl_writes oldest ci c junk [] s = Some s"
| "dftl_writes oldest ci c junk (e # es) s = do {
     (r, e1, s1) \<leftarrow> FtlImpl_Dftl_write oldest ci c junk e s;
     dftl_writes oldest ci c junk es s1
   }"

text \<open>The number of the last write to page \<open>l\<close>, the writes numbered from \<open>n\<close> on.\<close>

fun last_write :: "nat \<Rightarrow> nat list \<Rightarrow> nat \<Rightarrow> int \<Rightarrow> int" where
  "last_write n [] l d = d"
| "last_write n (x # xs) l d = last_write (Suc n) xs l (if x = l then int n else d)"

definition host_events :: "nat \<Rightarrow> event list \<Rightarrow> bool" where
  "host_events n es \<longleftrightarrow> list_all (\<lambda>e. 0 \<le> start_time e \<and> 0 \<le> time_taken e \<and> logical_address e < n) es"

lemma below_gc_mono: "m \<le> n \<Longrightarrow> below_gc c (blocks_used c n) \<Longrightarrow> below_gc c (blocks_used c m)"
  unfolding below_gc_def blocks_used_def by (meson add_le_mono1 div_le_mono le_less_trans mult_le_mono2)

context lru_index
begin

lemma writes_return:
  assumes acc: "controller_accepts ci" "has_blocks ci" and cfg: "dftl_config c"
  shows "dftl_ready c n s \<Longrightarrow> host_events (length (ds_map s)) es \<Longrightarrow> below_gc c (blocks_used c (n + length es)) \<Longrightarrow>
    \<exists>s'. dftl_writes oldest ci c junk es s = Some s' \<and> dftl_ready c (n + length es) s'
      \<and> (\<forall>l<length (ds_map s). ppn (ds_map s' ! l) = last_write n (map logical_address es) l (ppn (ds_map s ! l)))"
proof (induction es arbitrary: n s)
  case (Cons e es)
  from Cons.prems(2) have ev: "0 \<le> start_time e" "0 \<le> time_taken e" "logical_address e < length (ds_map s)"
    and es: "host_events (length (ds_map s)) es" by (simp_all add: host_events_def)
  have room: "below_gc c (blocks_used c n)" by (rule below_gc_mono [OF _ Cons.prems(3)]) simp
  from write_returns [OF acc cfg ev(1,2) Cons.prems(1) room ev(3), of junk] obtain e1 s1 where
    w: "FtlImpl_Dftl_write oldest ci c junk e s = Some (SUCCESS, e1, s1)" "dftl_ready c (Suc n) s1"
    "map ppn (ds_map s1) = (map ppn (ds_map s))[logical_address e := int n]" by blast
  have len: "length (ds_map s1) = length (ds_map s)" using arg_cong [OF w(3), of length] by simp
  from Cons.IH [OF w(2)] es Cons.prems(3) len obtain s2 where
    r: "dftl_writes oldest ci c junk es s1 = Some s2" "dftl_ready c (Suc n + length es) s2"
    "\<forall>l<length (ds_map s). ppn (ds_map s2 ! l) = last_write (Suc n) (map logical_address es) l (ppn (ds_map s1 ! l))"
    by auto
  have "ppn (ds_map s1 ! l) = (if logical_address e = l then int n else ppn (ds_map s ! l))" if "l < length (ds_map s)" for l
    using arg_cong [OF w(3), of "\<lambda>xs. xs ! l"] that len by (simp add: nth_list_update)
  with r w(1) show ?case by simp
qed simp

end

end
