(* ===== verification/Bdftl_Facts.thy ===== *)
theory Bdftl_Facts
  imports Ftl_Bdftl Dftl_Write
begin

text \<open>
  Facts on the bimodal FTL: the block manager only adds time to a request, a block that is
  written in order is read where it was written, and what happens to its pages when it leaves
  block mapping.
\<close>

section \<open>The block manager and its request\<close>

lemma reclaim_progress: "reclaim_invalid ci c junk n e s = Some (e', s') \<Longrightarrow> progress e e'"
proof (induction ci c junk n e s rule: reclaim_invalid.induct)
  case (2 ci c junk n e s)
  show ?case
  proof (cases "invalid_list (gs_bm s) = []")
    case False
    with "2.prems" obtain t where "progress (incr_time_taken t e) e'"
      by (auto simp: bind_eq_Some_conv dest!: "2.IH" [rotated -1])
    then show ?thesis using progress_trans [OF progress_incr_time] by blast
  qed (use "2.prems" in simp)
qed simp

lemma insert_events_progress: "insert_events ci c junk e s = Some (e', s') \<Longrightarrow> progress e e'"
  by (auto simp: insert_events_def bind_eq_Some_conv Let_def split: if_splits dest: reclaim_progress)

lemma get_page_block_progress: "get_page_block ci c junk e s = Some (a, e', s') \<Longrightarrow> progress e e'"
  by (auto simp: get_page_block_def bind_eq_Some_conv Let_def split: if_splits dest: insert_events_progress)

lemma get_free_block_progress: "get_free_block ci c junk ty e s = Some (a, e', s') \<Longrightarrow> progress e e'"
  by (cases ty) (auto simp: get_free_block_def bind_eq_Some_conv Let_def split: if_splits dest: get_page_block_progress)

lemma get_free_data_page_frame:
  "get_free_data_page ci c junk ins e s = Some (p, e', s') \<Longrightarrow>
   progress e e' \<and> ds_ftl s' = (ds_ftl s)\<lparr>currentDataPage := p\<rparr>"
  by (auto simp: get_free_data_page_def bind_eq_Some_conv Let_def split: if_splits
      dest: insert_events_progress get_free_block_progress intro: progress_trans)

lemma progress_la: "progress e e' \<Longrightarrow> logical_address e' = logical_address e"
  by (cases e; cases e') (simp add: progress_def same_request_def)

lemma get_free_biftl_page_frame:
  assumes "get_free_biftl_page ci bh c junk e s = Some (p, e', s')"
  shows "progress e e' \<and> block_map s' = block_map s \<and> bd_trim_map s' = bd_trim_map s
    \<and> (\<exists>q. ds_ftl (bd_ds s') = (ds_ftl (bd_ds s))\<lparr>currentDataPage := q\<rparr>)"
proof -
  have page: "progress e e1 \<and> block_map s1 = block_map s0 \<and> bd_trim_map s1 = bd_trim_map s0
      \<and> ds_ftl (bd_ds s1) = (ds_ftl (bd_ds s0))\<lparr>currentDataPage := q\<rparr>"
    if "dftl_page ci c junk e s0 = Some (q, e1, s1)" for q e1 s0 s1
    using that by (auto simp: dftl_page_def bind_eq_Some_conv dest: get_free_data_page_frame)
  have same: "\<exists>q. f = f\<lparr>currentDataPage := q\<rparr>" for f :: dftl
    by (rule exI [of _ "currentDataPage f"]) simp
  show ?thesis
    using assms unfolding get_free_biftl_page_def
    by (auto simp: same bind_eq_Some_conv split: option.splits if_splits list.splits dest!: page)
qed

section \<open>A block written in order\<close>

lemma set_bpage_simps [simp]:
  "block_map (set_bpage i bp s) = (block_map s)[i := bp]" "bd_ds (set_bpage i bp s) = bd_ds s"
  "block_map (bd_count f s) = block_map s" "bd_ds (bd_count f s) = count_stat f (bd_ds s)"
  "bd_trim_map (set_bpage i bp s) = bd_trim_map s"
  by (simp_all add: set_bpage_def bd_count_def)

lemma at_page_Some:
  "geometry_ok c \<Longrightarrow> \<exists>a. at_page c n e = Some (e\<lparr>ev_address := a\<rparr>) \<and> real_address a = n"
  using Address_linear_Some [of c n PAGE] by (auto simp: at_page_def)

lemma at_no_page_Some: "geometry_ok c \<Longrightarrow> \<exists>a. at_no_page c e = Some (e\<lparr>ev_address := a, noop := True\<rparr>)"
  using Address_linear_Some [of c 0 PAGE] by (auto simp: at_no_page_def)

lemma optimal_read:
  assumes "geometry_ok c" "logical_address x < 2 ^ 32" "logical_address x div BLOCK_SIZE c < length (block_map s)"
    "optimal (block_map s ! (logical_address x div BLOCK_SIZE c))"
    "pbn (block_map s ! (logical_address x div BLOCK_SIZE c)) \<noteq> no_block"
  shows "\<exists>ev sx. FtlImpl_BDftl_read oldest ci c junk x s = bd_issue ci ev sx
    \<and> real_address (ev_address ev) =
        add32 (pbn (block_map s ! (logical_address x div BLOCK_SIZE c))) (logical_address x mod BLOCK_SIZE c)
    \<and> noop ev = noop x"
proof -
  let ?bp = "block_map s ! (logical_address x div BLOCK_SIZE c)"
  have pos: "BLOCK_SIZE c \<noteq> 0" using assms(1) by (simp add: geometry_ok_def)
  from at_page_Some [OF assms(1)] obtain a where
    a: "at_page c (add32 (pbn ?bp) (logical_address x mod BLOCK_SIZE c)) x = Some (x\<lparr>ev_address := a\<rparr>)"
    "real_address a = add32 (pbn ?bp) (logical_address x mod BLOCK_SIZE c)" by blast
  define ev where "ev = incr_time_taken (RAM_READ_DELAY c * 2) (x\<lparr>ev_address := a\<rparr>)"
  have "FtlImpl_BDftl_read oldest ci c junk x s = bd_issue ci ev
      (bd_count (\<lambda>st. st\<lparr>numMemoryRead := numMemoryRead st + 2, numFTLRead := numFTLRead st + 1\<rparr>) s)"
    using assms a(1) pos by (simp add: FtlImpl_BDftl_read_def Let_def aget_nth ev_def)
  moreover have "real_address (ev_address ev) = add32 (pbn ?bp) (logical_address x mod BLOCK_SIZE c)" "noop ev = noop x"
    using a(2) by (simp_all add: ev_def)
  ultimately show ?thesis by blast
qed

lemma in_order_write:
  assumes geo: "geometry_ok c" and la: "logical_address e < 2 ^ 32" "logical_address e < length (bd_trim_map s)"
    and b: "logical_address e div BLOCK_SIZE c < length (block_map s)"
    and bp: "optimal (block_map s ! (logical_address e div BLOCK_SIZE c))"
      "pbn (block_map s ! (logical_address e div BLOCK_SIZE c)) \<noteq> no_block"
      "nextPage (block_map s ! (logical_address e div BLOCK_SIZE c)) = logical_address e mod BLOCK_SIZE c"
      "BLOCK_SIZE c \<le> 256"
  shows "\<exists>ev sx. FtlImpl_BDftl_write oldest ci bh c junk e s = bd_issue ci ev sx
    \<and> real_address (ev_address ev) =
        add32 (pbn (block_map s ! (logical_address e div BLOCK_SIZE c))) (logical_address e mod BLOCK_SIZE c)
    \<and> block_map sx = (block_map s)[logical_address e div BLOCK_SIZE c :=
        (block_map s ! (logical_address e div BLOCK_SIZE c))\<lparr>nextPage :=
           Suc (logical_address e mod BLOCK_SIZE c) mod 256\<rparr>]"
proof -
  let ?bp = "block_map s ! (logical_address e div BLOCK_SIZE c)" and ?o = "logical_address e mod BLOCK_SIZE c"
  have pos: "BLOCK_SIZE c \<noteq> 0" using geo by (simp add: geometry_ok_def)
  then have "?o < BLOCK_SIZE c" by simp
  with bp(4) have o: "?o mod 256 = ?o" by simp
  from at_page_Some [OF geo] obtain a where
    a: "at_page c (add32 (pbn ?bp) ?o) (incr_time_taken (RAM_WRITE_DELAY c) e)
        = Some ((incr_time_taken (RAM_WRITE_DELAY c) e)\<lparr>ev_address := a\<rparr>)"
    "real_address a = add32 (pbn ?bp) ?o" by blast
  define sx where "sx = bd_count (\<lambda>st. st\<lparr>numMemoryRead := numMemoryRead st + 3, numFTLWrite := numFTLWrite st + 1\<rparr>)
    (set_bpage (logical_address e div BLOCK_SIZE c) (?bp\<lparr>nextPage := Suc ?o mod 256\<rparr>)
      (bd_count (\<lambda>st. st\<lparr>numMemoryWrite := numMemoryWrite st + 1\<rparr>)
        (s\<lparr>bd_trim_map := (bd_trim_map s)[logical_address e := False]\<rparr>)))"
  define ev where "ev = incr_time_taken (RAM_READ_DELAY c * 3)
    ((incr_time_taken (RAM_WRITE_DELAY c) e)\<lparr>ev_address := a\<rparr>)"
  have "FtlImpl_BDftl_write oldest ci bh c junk e s = bd_issue ci ev sx"
    using la b bp(1,2,3) a(1) pos o
    by (simp add: FtlImpl_BDftl_write_def block_level_write_def Let_def aget_nth ev_def sx_def)
  moreover have "block_map sx = (block_map s)[logical_address e div BLOCK_SIZE c := ?bp\<lparr>nextPage := Suc ?o mod 256\<rparr>]"
    by (simp add: sx_def)
  moreover have "real_address (ev_address ev) = add32 (pbn ?bp) ?o" using a(2) by (simp add: ev_def)
  ultimately show ?thesis by blast
qed

section \<open>Leaving block mapping\<close>

lemma transfer_unmapped:
  assumes "transfer_pages bh c bptr start base is e d = Some (e', d')"
    "\<forall>i\<in>set is. start + i < length (ds_map d) \<longrightarrow> ppn (ds_map d ! (start + i)) = - 1"
  shows "e' = e \<and> d' = d"
  using assms
proof (induction "is" arbitrary: e d)
  case (Cons i "is")
  from Cons.prems(1) obtain e1 d1 where
    t: "transfer_page bh c bptr start base i e d = Some (e1, d1)"
    "transfer_pages bh c bptr start base is e1 d1 = Some (e', d')" by (auto simp: bind_eq_Some_conv)
  from t(1) Cons.prems(2) have "e1 = e \<and> d1 = d"
    by (auto simp: transfer_page_def bind_eq_Some_conv split: if_splits)
  with t(2) Cons.IH Cons.prems(2) show ?case by simp
qed simp

lemma leave_unmapped:
  assumes "leave_block_mapping ci bh c dlbn bp e s = Some (e', s')"
    "\<forall>i<nextPage bp. mul32 dlbn (BLOCK_SIZE c) + i < length (ds_map (bd_ds s)) \<longrightarrow>
       ppn (ds_map (bd_ds s) ! (mul32 dlbn (BLOCK_SIZE c) + i)) = - 1"
  shows "progress e e'" "block_map s' = (block_map s)[dlbn := bp\<lparr>optimal := False\<rparr>]"
    "ds_ftl (bd_ds s') = ds_ftl (bd_ds s)" "bd_trim_map s' = bd_trim_map s"
proof -
  from assms(1) obtain b e1 d where
    t: "transfer_pages bh c b (mul32 dlbn (BLOCK_SIZE c)) (pbn bp) [0..<nextPage bp] e (bd_ds s) = Some (e1, d)"
    and r: "progress e1 e'" "block_map s' = (block_map s)[dlbn := bp\<lparr>optimal := False\<rparr>]"
      "ds_ftl (bd_ds s') = ds_ftl d" "bd_trim_map s' = bd_trim_map s"
    unfolding leave_block_mapping_def by (auto simp: bind_eq_Some_conv Let_def)
  from transfer_unmapped [OF t] assms(2) have "e1 = e \<and> d = bd_ds s" by simp
  with r show "progress e e'" "block_map s' = (block_map s)[dlbn := bp\<lparr>optimal := False\<rparr>]"
    "ds_ftl (bd_ds s') = ds_ftl (bd_ds s)" "bd_trim_map s' = bd_trim_map s" by simp_all
qed

context lru_index
begin

text \<open>A write through the page table touches the mapping of no other page.\<close>

lemma page_level_frame:
  assumes w: "page_level_write oldest ci bh c junk dlpn e s = Some (e', s')"
    and acc: "controller_accepts ci" "geometry_ok c" and st: "0 \<le> start_time e"
    and ok: "cache_ok (ds_ftl (bd_ds s))" "cache_fits (ds_ftl (bd_ds s))"
    and la: "logical_address e = dlpn" "dlpn < length (ds_map (bd_ds s))" "length (ds_map (bd_ds s)) \<le> 2 ^ 32"
    and l: "l < length (ds_map (bd_ds s))" "l \<noteq> dlpn"
  shows "ppn (ds_map (bd_ds s') ! l) = ppn (ds_map (bd_ds s) ! l) \<and> block_map s' = block_map s
    \<and> length (ds_map (bd_ds s')) = length (ds_map (bd_ds s))
    \<and> cache_ok (ds_ftl (bd_ds s')) \<and> cache_fits (ds_ftl (bd_ds s'))"
proof -
  from w obtain fp e1 s1 e2 d rv m1 where
    g: "get_free_biftl_page ci bh c junk e s = Some (fp, e1, s1)"
    and r: "resolve_mapping oldest ci c junk True e1 (bd_ds s1) = Some (e2, d)"
    and m1: "m1 = (ds_map d ! dlpn)\<lparr>ppn := fp\<rparr>"
    and s': "s' = s1\<lparr>bd_ds := d\<lparr>ds_ftl := (ds_ftl d)\<lparr>trans_map := (ds_map d)[dlpn := m1], reverse_trans_map := rv\<rparr>\<rparr>\<rparr>"
    unfolding page_level_write_def by (auto simp: bind_eq_Some_conv Let_def update_translation_map_def split: if_splits)
  from get_free_biftl_page_frame [OF g] obtain q where f: "progress e e1" "block_map s1 = block_map s"
    "ds_ftl (bd_ds s1) = (ds_ftl (bd_ds s))\<lparr>currentDataPage := q\<rparr>" by blast
  have ok1: "cache_ok (ds_ftl (bd_ds s1))" "cache_fits (ds_ftl (bd_ds s1))"
    using ok f(3) by (simp_all add: cache_ok_def cache_fits_def)
  have "0 \<le> start_time e1" "logical_address e1 = dlpn" using f(1) st la(1) progress_fields [of e e1] progress_la by simp_all
  with resolve_returns [OF acc _ ok1, of e1 junk True] r la f(3) have step: "cache_step e1 (bd_ds s1) e2 d" by auto
  then have sm: "same_mapping (ds_ftl (bd_ds s1)) (ds_ftl d)" and okd: "cache_ok (ds_ftl d)"
    by (simp_all add: cache_step_def)
  have len: "length (ds_map d) = length (ds_map (bd_ds s))" using same_mapping_length [OF sm] f(3) by simp
  have "ppn (ds_map d ! l) = ppn (ds_map (bd_ds s) ! l)" using same_mapping_nth [OF sm, of l] l(1) f(3) by simp
  moreover have "cache_fits (ds_ftl d)" by (rule same_mapping_fits [OF sm ok1(2)])
  moreover have "cache_ok (ds_ftl (bd_ds s'))"
    using remap_cache [OF okd, where i = dlpn and q = "currentDataPage (ds_ftl d)" and p = fp and rv = rv] la(2) len
    by (simp add: s' m1)
  ultimately show ?thesis using f(2) l len by (simp add: s' cache_fits_def)
qed

lemma unmapped_read:
  assumes acc: "controller_accepts ci" "geometry_ok c" and st: "0 \<le> start_time x"
    and ok: "cache_ok (ds_ftl (bd_ds s))" "cache_fits (ds_ftl (bd_ds s))"
    and la: "logical_address x < length (ds_map (bd_ds s))" "length (ds_map (bd_ds s)) \<le> 2 ^ 32"
    and b: "logical_address x div BLOCK_SIZE c < length (block_map s)"
      "\<not> optimal (block_map s ! (logical_address x div BLOCK_SIZE c))"
    and un: "ppn (ds_map (bd_ds s) ! logical_address x) = - 1"
  shows "\<exists>ev t. FtlImpl_BDftl_read oldest ci c junk x s = bd_issue ci ev t \<and> noop ev"
proof -
  have pos: "BLOCK_SIZE c \<noteq> 0" using acc(2) by (simp add: geometry_ok_def)
  have m: "logical_address x mod 2 ^ 32 = logical_address x" using la by simp
  from resolve_returns [OF acc st ok la, of junk False] obtain e1 d where
    r: "resolve_mapping oldest ci c junk False x (bd_ds s) = Some (e1, d)" "cache_step x (bd_ds s) e1 d" by blast
  then have sm: "same_mapping (ds_ftl (bd_ds s)) (ds_ftl d)" by (simp add: cache_step_def)
  have pp: "ppn (ds_map d ! logical_address x) = - 1" using same_mapping_nth [OF sm la(1)] un by simp
  have len: "logical_address x < length (ds_map d)" using same_mapping_length [OF sm] la(1) by simp
  from at_no_page_Some [OF acc(2), of e1] obtain a where a: "at_no_page c e1 = Some (e1\<lparr>ev_address := a, noop := True\<rparr>)" ..
  have "FtlImpl_BDftl_read oldest ci c junk x s = bd_issue ci (incr_time_taken (RAM_READ_DELAY c * 2) (e1\<lparr>ev_address := a, noop := True\<rparr>))
      (bd_count (\<lambda>st. st\<lparr>numMemoryRead := numMemoryRead st + 2, numFTLRead := numFTLRead st + 1\<rparr>) (s\<lparr>bd_ds := d\<rparr>))"
    using b pos m r(1) len pp a by (simp add: FtlImpl_BDftl_read_def Let_def aget_nth)
  moreover have "noop (incr_time_taken (RAM_READ_DELAY c * 2) (e1\<lparr>ev_address := a, noop := True\<rparr>))" by simp
  ultimately show ?thesis by blast
qed

end

lemma bd_issue_frame:
  "bd_issue ci e s = Some (r, e', s') \<Longrightarrow> block_map s' = block_map s \<and> ds_ftl (bd_ds s') = ds_ftl (bd_ds s)"
  by (auto simp: bd_issue_def dftl_issue_def bind_eq_Some_conv)

text \<open>The steps of a write that finds its block out of order.\<close>

lemma out_of_order_steps:
  assumes w: "FtlImpl_BDftl_write oldest ci bh c junk e s = Some (r, e', s')" and la: "logical_address e < 2 ^ 32"
    and bp: "block_map s ! (logical_address e div BLOCK_SIZE c) = bp" "optimal bp" "pbn bp \<noteq> no_block"
      "nextPage bp \<noteq> logical_address e mod BLOCK_SIZE c mod 256"
  obtains e1 s1 e2 s2 where
    "leave_block_mapping ci bh c (logical_address e div BLOCK_SIZE c) bp e
      (s\<lparr>bd_trim_map := (bd_trim_map s)[logical_address e := False]\<rparr>) = Some (e1, s1)"
    "page_level_write oldest ci bh c junk (logical_address e) e1 s1 = Some (e2, s2)"
    "block_map s' = block_map s2" "ds_ftl (bd_ds s') = ds_ftl (bd_ds s2)"
    "logical_address e div BLOCK_SIZE c < length (block_map s)"
proof -
  let ?s0 = "s\<lparr>bd_trim_map := (bd_trim_map s)[logical_address e := False]\<rparr>"
  from w la bp obtain e1 s1 e2 s2 e3 t where
    b: "logical_address e div BLOCK_SIZE c < length (block_map s)"
    and l: "leave_block_mapping ci bh c (logical_address e div BLOCK_SIZE c) bp e ?s0 = Some (e1, s1)"
    and p: "page_level_write oldest ci bh c junk (logical_address e) e1 s1 = Some (e2, s2)"
    and i: "bd_issue ci e3 (bd_count t s2) = Some (r, e', s')"
    by (auto simp: FtlImpl_BDftl_write_def block_level_write_def Let_def bind_eq_Some_conv split: if_splits)
  from bd_issue_frame [OF i] have "block_map s' = block_map s2" "ds_ftl (bd_ds s') = ds_ftl (bd_ds s2)" by simp_all
  with b l p that show thesis by blast
qed

end
