(* ===== verification/Ftl_Properties.thy ===== *)
theory Ftl_Properties
  imports Bdftl_Facts
begin

text \<open>
  Properties of the demand-paged and the bimodal translation layer. The witnesses run on four blocks of four pages
  with a controller that accepts every event; its blocks have two valid pages and two empty ones.
\<close>

section \<open>A small instance\<close>

definition ftl_config :: config where
  "ftl_config = default_config\<lparr>SSD_SIZE := 1, PACKAGE_SIZE := 1, DIE_SIZE := 1, PLANE_SIZE := 4, BLOCK_SIZE := 4,
     PAGE_SIZE := 4, NUMBER_OF_ADDRESSABLE_BLOCKS := 4, CACHE_DFTL_LIMIT := 1, BAST_LOG_BLOCK_LIMIT := 2,
     FAST_LOG_BLOCK_LIMIT := 2, FTL_IMPLEMENTATION := 3\<rparr>"

definition echo_controller :: "unit controller_if" where
  "echo_controller = \<lparr>ci_issue = (\<lambda>e w. Some (SUCCESS, e, w)),
     ci_get_block_pointer = (\<lambda>a w. Some (real_address a - real_address a mod 4)), ci_set_block_type = (\<lambda>p t w. w)\<rparr>"

definition echo_heap :: "unit block_heap" where
  "echo_heap = \<lparr>bh_get = (\<lambda>p w. Some ((Block_new ftl_config 4 10 0 p)\<lparr>bdata := map (\<lambda>st. (Page_new 0 0)\<lparr>pg_state := st\<rparr>)
       [VALID, VALID, EMPTY, EMPTY], pages_valid := 2\<rparr>)),
     bh_env = (\<lambda>w. \<lparr>page_data = (\<lambda>_. []), global_buffer = None, active_cost = []\<rparr>), bh_put = (\<lambda>p b g w. w)\<rparr>"

definition host_event :: "event_type \<Rightarrow> nat \<Rightarrow> event" where
  "host_event ty la = the (Event_new 0 ty la 1 0)"

definition no_stats :: stats where
  "no_stats = \<lparr>numFTLRead = 0, numFTLWrite = 0, numFTLErase = 0, numFTLTrim = 0, numGCRead = 0, numGCWrite = 0,
     numGCErase = 0, numWLRead = 0, numWLWrite = 0, numWLErase = 0, numLogMergeSwitch = 0, numLogMergePartial = 0,
     numLogMergeFull = 0, numPageBlockToPageConversion = 0, numCacheHits = 0, numCacheFaults = 0,
     numMemoryTranslation = 0, numMemoryCache = 0, numMemoryRead = 0, numMemoryWrite = 0\<rparr>"

definition fresh_gs :: "config \<Rightarrow> 'w \<Rightarrow> 'w bm_state" where
  "fresh_gs c w = \<lparr>gs_bm = Block_manager_new c, gs_stats = no_stats, gs_world = w\<rparr>"

lemma ftl_config_simps [simp]:
  "SSD_SIZE ftl_config = 1" "PACKAGE_SIZE ftl_config = 1" "DIE_SIZE ftl_config = 1" "PLANE_SIZE ftl_config = 4"
  "BLOCK_SIZE ftl_config = 4" "PAGE_SIZE ftl_config = 4" "NUMBER_OF_ADDRESSABLE_BLOCKS ftl_config = 4"
  "CACHE_DFTL_LIMIT ftl_config = 1" "BAST_LOG_BLOCK_LIMIT ftl_config = 2" "FAST_LOG_BLOCK_LIMIT ftl_config = 2"
  "RAM_READ_DELAY ftl_config = 1 / 100000000" "RAM_WRITE_DELAY ftl_config = 1 / 100000000"
  "geometry_ok ftl_config" "dftl_config ftl_config"
  by (simp_all add: ftl_config_def default_config_def geometry_ok_def dftl_config_def)

lemma host_event_simps [simp]:
  "start_time (host_event ty la) = 0" "time_taken (host_event ty la) = 0" "logical_address (host_event ty la) = la"
  "noop (host_event ty la) = False"
  by (simp_all add: host_event_def Event_new_def)

lemma echo_accepts [simp]: "controller_accepts echo_controller" "has_blocks echo_controller"
  by (simp_all add: controller_accepts_def has_blocks_def echo_controller_def)

lemma echo_issue [simp]:
  "dftl_issue echo_controller e d = Some (SUCCESS, e, set_world () d)"
  "bd_issue echo_controller e t = Some (SUCCESS, e, t\<lparr>bd_ds := set_world () (bd_ds t)\<rparr>)"
  by (simp_all add: dftl_issue_def bd_issue_def echo_controller_def)

section \<open>The demand-paged FTL\<close>

lemma last_write_range:
  "last_write n ls l d = d \<or> int n \<le> last_write n ls l d \<and> last_write n ls l d < int (n + length ls)"
proof (induction n ls l d rule: last_write.induct)
  case (2 n x xs l d)
  then show ?case by (cases "x = l") auto
qed simp

lemma dftl_starts_ready:
  assumes "FtlImpl_DftlParent_new c rv = Some f" "dftl_config c" "cache_fits f"
  shows "dftl_ready c 0 \<lparr>ds_ftl = f, ds_gs = fresh_gs c w\<rparr>" "map ppn (trans_map f) = replicate (NUMBER_OF_ADDRESSABLE_BLOCKS c * BLOCK_SIZE c) (- 1)"
proof -
  have n: "total_ftl_pages c = NUMBER_OF_ADDRESSABLE_BLOCKS c * BLOCK_SIZE c"
    using assms(2) by (simp add: total_ftl_pages_def dftl_config_def)
  have f: "cmt f = 0" "trans_map f = map MPage_new [0..<NUMBER_OF_ADDRESSABLE_BLOCKS c * BLOCK_SIZE c]"
    "currentDataPage f = - 1" "length (reverse_trans_map f) = NUMBER_OF_ADDRESSABLE_BLOCKS c * BLOCK_SIZE c"
    using assms(1) n by (auto simp: FtlImpl_DftlParent_new_def Let_def bind_eq_Some_conv split: if_splits)
  have "0 < BLOCK_SIZE c" using assms(2) by (simp add: dftl_config_def geometry_ok_def)
  then have "blocks_used c 0 = 0" by (simp add: blocks_used_def)
  then have "seq_alloc c 0 \<lparr>ds_ftl = f, ds_gs = fresh_gs c w\<rparr>"
    using f by (simp add: seq_alloc_def bm_seq_def fresh_gs_def Block_manager_new_def)
  moreover have "cache_ok f"
    using f(1,2) count_if_all_false [of cached "trans_map f"]
    by (simp add: cache_ok_def comp_def MPage_new_def list_all_iff count_if_map)
  ultimately show "dftl_ready c 0 \<lparr>ds_ftl = f, ds_gs = fresh_gs c w\<rparr>"
    using f assms(3) by (simp add: dftl_ready_def)
  show "map ppn (trans_map f) = replicate (NUMBER_OF_ADDRESSABLE_BLOCKS c * BLOCK_SIZE c) (- 1)"
    using f(2) by (simp add: comp_def MPage_new_def map_replicate_const)
qed

text \<open>
  C17. A demand-paged FTL that starts empty serves every sequence of page writes that stays
  below the garbage collection threshold, whatever the Boost index does with ties: afterwards a
  read of a logical page goes to the physical page of the last write to it (write number \<open>n\<close>
  has taken physical page \<open>n\<close>), or is marked as no operation if the page was never written.\<close>

theorem dftl_read_after_writes:
  assumes "lru_index oldest" "controller_accepts ci" "has_blocks ci" "dftl_config c"
    and f: "FtlImpl_DftlParent_new c rv = Some f" "cache_fits f"
    and es: "host_events (NUMBER_OF_ADDRESSABLE_BLOCKS c * BLOCK_SIZE c) es" "below_gc c (blocks_used c (length es))"
    and x: "0 \<le> start_time x" "0 \<le> time_taken x" "logical_address x < NUMBER_OF_ADDRESSABLE_BLOCKS c * BLOCK_SIZE c"
  shows "\<exists>s. dftl_writes oldest ci c junk es \<lparr>ds_ftl = f, ds_gs = fresh_gs c w\<rparr> = Some s \<and>
    (\<exists>ev t e' w'. FtlImpl_Dftl_read oldest ci c junk x s = dftl_issue ci ev t
       \<and> dftl_issue ci ev t = Some (SUCCESS, e', set_world w' t)
       \<and> (let n = last_write 0 (map logical_address es) (logical_address x) (- 1) in
          if n = - 1 then noop ev else noop ev = noop x \<and> int (real_address (ev_address ev)) = n))"
proof -
  let ?N = "NUMBER_OF_ADDRESSABLE_BLOCKS c * BLOCK_SIZE c" and ?s0 = "\<lparr>ds_ftl = f, ds_gs = fresh_gs c w\<rparr>"
  have geo: "geometry_ok c" and small: "?N < 2 ^ 32" and pos: "0 < BLOCK_SIZE c"
    using assms(4) by (simp_all add: dftl_config_def geometry_ok_def)
  note start = dftl_starts_ready(1) [OF f(1) assms(4) f(2), of w] dftl_starts_ready(2) [OF f(1) assms(4) f(2)]
  have len0: "length (trans_map f) = ?N" using start(1) by (simp add: dftl_ready_def)
  from lru_index.writes_return [OF assms(1-4) start(1), of es junk] es len0 obtain s where
    s: "dftl_writes oldest ci c junk es ?s0 = Some s" "dftl_ready c (length es) s"
    "\<forall>l<?N. ppn (ds_map s ! l) = last_write 0 (map logical_address es) l (ppn (trans_map f ! l))" by auto
  have "ppn (trans_map f ! l) = - 1" if "l < ?N" for l
    using arg_cong [OF start(2), of "\<lambda>xs. xs ! l"] that len0 by simp
  with s(3) have pp: "ppn (ds_map s ! l) = last_write 0 (map logical_address es) l (- 1)" if "l < ?N" for l
    using that by simp
  have len: "length (ds_map s) = ?N" using s(2) by (simp add: dftl_ready_def)
  have n: "length es < ?N" by (rule pages_before_gc [OF pos es(2)])
  have "- 1 \<le> ppn (ds_map s ! l) \<and> ppn (ds_map s ! l) < 2 ^ 32" if "l < ?N" for l
    using last_write_range [of 0 "map logical_address es" l "- 1"] pp [OF that] n small by auto
  then have big: "\<forall>m\<in>set (ds_map s). - 1 \<le> ppn m \<and> ppn m < 2 ^ 32" by (auto simp: in_set_conv_nth len)
  from lru_index.read_address [OF assms(1,2) geo x(1,2) _ _ _ _ big, of junk] s(2) x(3) len small
  obtain ev t e' w' where r: "FtlImpl_Dftl_read oldest ci c junk x s = dftl_issue ci ev t"
    "dftl_issue ci ev t = Some (SUCCESS, e', set_world w' t)"
    "if ppn (ds_map s ! logical_address x) = - 1 then noop ev
     else noop ev = noop x \<and> int (real_address (ev_address ev)) = ppn (ds_map s ! logical_address x)"
    by (auto simp: dftl_ready_def)
  show ?thesis unfolding Let_def using s(1) r(1,2) r(3) [unfolded pp [OF x(3)]] by blast
qed

definition demo_dftl :: dftl where
  "demo_dftl = the (FtlImpl_DftlParent_new ftl_config (replicate 16 0))"

lemma total_demo [simp]: "total_ftl_pages ftl_config = 16"
  by (simp add: total_ftl_pages_def mul32_def)

lemma demo_dftl_new: "FtlImpl_DftlParent_new ftl_config (replicate 16 0) = Some demo_dftl"
  by (simp add: demo_dftl_def FtlImpl_DftlParent_new_def address_size_def floor_log2.simps Let_def)

lemma demo_dftl_fits: "cache_fits demo_dftl"
  by (simp add: demo_dftl_def FtlImpl_DftlParent_new_def address_size_def floor_log2.simps Let_def cache_fits_def mul32_def)

theorem dftl_read_after_writes_witness:
  "\<exists>s. dftl_writes first_oldest echo_controller ftl_config 0 [host_event WRITE 7, host_event WRITE 5, host_event WRITE 7]
      \<lparr>ds_ftl = demo_dftl, ds_gs = fresh_gs ftl_config ()\<rparr> = Some s \<and>
    (\<exists>ev t e' w'. FtlImpl_Dftl_read first_oldest echo_controller ftl_config 0 (host_event READ 7) s
         = dftl_issue echo_controller ev t
       \<and> dftl_issue echo_controller ev t = Some (SUCCESS, e', set_world w' t)
       \<and> \<not> noop ev \<and> int (real_address (ev_address ev)) = 2)"
  using dftl_read_after_writes [OF boost.lru_index_axioms echo_accepts ftl_config_simps(14) demo_dftl_new demo_dftl_fits,
      of "[host_event WRITE 7, host_event WRITE 5, host_event WRITE 7]" "host_event READ 7" 0 "()"]
  by (simp add: host_events_def below_gc_def blocks_used_def Let_def del: echo_issue)

text \<open>
  C18. For a table that fills whole translation pages, a cache limit above zero (\<open>cache_fits\<close>) and a controller that accepts
  events, looking up a page of the table returns from every well-formed cache within its limit: eviction ends, the cache
  invariant is kept (the counter is the number of cached entries), the cache does not grow
  beyond its limit, the page is cached afterwards, and no page has moved. Without whole translation
  pages a lookup can abort (\<open>dftl_partial_page_aborts\<close>).\<close>

theorem dftl_cache_bounded:
  assumes "lru_index oldest" "controller_accepts ci" "geometry_ok c" "0 \<le> start_time e"
    "cache_ok (ds_ftl s)" "cache_fits (ds_ftl s)" "cmt (ds_ftl s) \<le> int (totalCMTentries (ds_ftl s))"
    "logical_address e < length (ds_map s)" "length (ds_map s) \<le> 2 ^ 32"
  shows "\<exists>e' s'. resolve_mapping oldest ci c junk wr e s = Some (e', s') \<and> cache_ok (ds_ftl s')
    \<and> cmt (ds_ftl s') \<le> int (totalCMTentries (ds_ftl s')) \<and> cached (ds_map s' ! logical_address e)
    \<and> map ppn (ds_map s') = map ppn (ds_map s) \<and> reverse_trans_map (ds_ftl s') = reverse_trans_map (ds_ftl s)
    \<and> progress e e'"
  using lru_index.resolve_returns [OF assms(1-6,8,9), of junk wr] assms(7)
  by (auto simp: cache_step_def same_mapping_def)

definition demo_cache :: "mpage list \<Rightarrow> unit dftl_state" where
  "demo_cache ms = \<lparr>ds_ftl = demo_dftl\<lparr>trans_map := ms, cmt := int (count_if cached ms)\<rparr>, ds_gs = fresh_gs ftl_config ()\<rparr>"

definition entry :: "nat \<Rightarrow> time \<Rightarrow> bool \<Rightarrow> mpage" where
  "entry v t dirty = (MPage_new v)\<lparr>create_ts := 0, modified_ts := (if dirty then 1 else 0), last_visited_time := t,
     cached := True\<rparr>"

definition full_cache :: "mpage list" where
  "full_cache = map MPage_new [0..<8] @ [entry 8 3 True, entry 9 1 True, entry 10 2 False, entry 11 4 False]
     @ map MPage_new [12..<16]"

lemma full_cache_length [simp]: "length full_cache = 16"
  by (simp add: full_cache_def)

lemma full_cache_ok [simp]:
  "cache_ok (ds_ftl (demo_cache full_cache))" "cmt (ds_ftl (demo_cache full_cache)) = 4"
  by (simp_all add: demo_cache_def full_cache_def cache_ok_def entry_def MPage_new_def upt_rec)

lemma demo_cache_fits [simp]:
  "cache_fits (ds_ftl (demo_cache full_cache))" "totalCMTentries (ds_ftl (demo_cache full_cache)) = 4"
  "length (ds_map (demo_cache full_cache)) = 16"
  by (simp_all add: demo_cache_def cache_fits_def demo_dftl_def FtlImpl_DftlParent_new_def address_size_def
      floor_log2.simps Let_def mul32_def)

theorem dftl_cache_bounded_witness:
  "\<exists>e' s'. resolve_mapping first_oldest echo_controller ftl_config 0 True (host_event WRITE 3) (demo_cache full_cache)
      = Some (e', s') \<and> cache_ok (ds_ftl s')
    \<and> cmt (ds_ftl s') \<le> int (totalCMTentries (ds_ftl s')) \<and> cached (ds_map s' ! 3)"
  using dftl_cache_bounded [OF boost.lru_index_axioms echo_accepts(1) ftl_config_simps(13),
      of "host_event WRITE 3" "demo_cache full_cache" 0 True]
  by auto

text \<open>
  C19. When the cached mapping table is full, making room drops exactly one entry, one whose
  last visit is not later than that of any other cached entry, and moves no page.\<close>

theorem dftl_evicts_least_recent:
  assumes "lru_index oldest" "controller_accepts ci" "geometry_ok c" "0 \<le> start_time e" "cache_ok (ds_ftl s)"
    "cache_fits (ds_ftl s)" "cmt (ds_ftl s) = int (totalCMTentries (ds_ftl s))"
  shows "\<exists>i e' s'. evict_page_from_cache oldest ci c junk e s = Some (e', s')
    \<and> i < length (ds_map s) \<and> cached (ds_map s ! i) \<and> map cached (ds_map s') = (map cached (ds_map s))[i := False]
    \<and> map ppn (ds_map s') = map ppn (ds_map s)
    \<and> (\<forall>j<length (ds_map s). cached (ds_map s ! j) \<longrightarrow>
          last_visited_time (ds_map s ! i) \<le> last_visited_time (ds_map s ! j))"
  using lru_index.evict_one [OF assms, of junk] by (auto simp: cache_step_def same_mapping_def)

theorem dftl_evicts_least_recent_witness:
  "\<exists>i e' s'. evict_page_from_cache first_oldest echo_controller ftl_config 0 (host_event READ 3) (demo_cache full_cache)
      = Some (e', s')
    \<and> i < 16 \<and> cached (ds_map (demo_cache full_cache) ! i)
    \<and> map cached (ds_map s') = (map cached (ds_map (demo_cache full_cache)))[i := False]"
  using dftl_evicts_least_recent [OF boost.lru_index_axioms echo_accepts(1) ftl_config_simps(13),
      of "host_event READ 3" "demo_cache full_cache" 0]
  by auto

text \<open>
  The translation page of an evicted dirty entry is rewritten in full, without a look at
  the size of the table: if the number of mapped pages is not a multiple of the entries per
  translation page, evicting a dirty entry of the last translation page reads past the table.\<close>

theorem dftl_partial_page_aborts:
  assumes "int (totalCMTentries (ds_ftl s)) \<le> cmt (ds_ftl s)" "oldest (ds_map s) = Some i" "i < length (ds_map s)"
    "vpn (ds_map s ! i) = i" "create_ts (ds_map s ! i) \<noteq> modified_ts (ds_map s ! i)"
    "length (ds_map s) < i - i mod addressPerPage (ds_ftl s) + addressPerPage (ds_ftl s)"
  shows "evict_page_from_cache oldest ci c junk e s = None"
  using assms
  by (subst evict_page_from_cache.simps)
    (simp add: aget_nth evict_entry_def write_back_def clean_translation_page_def Let_def)

theorem dftl_partial_page_aborts_witness:
  "evict_page_from_cache first_oldest echo_controller ftl_config 0 (host_event READ 0)
     \<lparr>ds_ftl = \<lparr>cmt = 1, trans_map = map MPage_new [0..<4] @ [entry 4 0 True], reverse_trans_map = replicate 5 0,
       addressPerPage = 4, totalCMTentries = 1, currentDataPage = - 1\<rparr>, ds_gs = fresh_gs ftl_config ()\<rparr> = None"
  by (rule dftl_partial_page_aborts [where i = 4])
    (simp_all add: upt_rec entry_def MPage_new_def visited_before_def)

text \<open>
  Trimming a logical page that is mapped writes the reverse table at index \<open>- 1\<close>: the
  operation has no defined outcome, in whatever state it runs.\<close>

theorem dftl_trim_mapped_undefined:
  assumes "logical_address e < 2 ^ 32" "logical_address e < length (ds_map s)" "ppn (ds_map s ! logical_address e) \<noteq> - 1"
  shows "FtlImpl_Dftl_trim ci bh c junk e s = None"
  using assms
  by (simp add: FtlImpl_Dftl_trim_def Let_def aget_nth update_translation_map_def bind_eq_None_conv)

theorem dftl_trim_mapped_undefined_witness:
  "FtlImpl_Dftl_trim echo_controller echo_heap ftl_config 0 (host_event TRIM 0)
     (demo_cache [(MPage_new 0)\<lparr>ppn := 5\<rparr>]) = None"
  by (rule dftl_trim_mapped_undefined) (simp_all add: demo_cache_def MPage_new_def)

section \<open>The bimodal FTL\<close>

text \<open>
  C24. A logical block that is mapped as a whole and written in order: the write of its next
  page goes to that page of its physical block, the block stays optimal with the following
  page next, and every later read of the block goes to the page with the same offset.\<close>

theorem bdftl_block_write_then_read:
  assumes "geometry_ok c" "BLOCK_SIZE c \<le> 256" "logical_address e < 2 ^ 32" "logical_address e < length (bd_trim_map s)"
    "logical_address e div BLOCK_SIZE c < length (block_map s)"
    "block_map s ! (logical_address e div BLOCK_SIZE c) = \<lparr>pbn = b, nextPage = logical_address e mod BLOCK_SIZE c, optimal = True\<rparr>"
    "b \<noteq> no_block" "logical_address x < 2 ^ 32" "logical_address x div BLOCK_SIZE c = logical_address e div BLOCK_SIZE c"
  shows "\<exists>ev t. FtlImpl_BDftl_write oldest ci bh c junk e s = bd_issue ci ev t
    \<and> real_address (ev_address ev) = add32 b (logical_address e mod BLOCK_SIZE c)
    \<and> block_map t ! (logical_address e div BLOCK_SIZE c)
        = \<lparr>pbn = b, nextPage = Suc (logical_address e mod BLOCK_SIZE c) mod 256, optimal = True\<rparr>
    \<and> (\<exists>ev' t'. FtlImpl_BDftl_read oldest ci c junk x t = bd_issue ci ev' t' \<and> noop ev' = noop x
         \<and> real_address (ev_address ev') = add32 b (logical_address x mod BLOCK_SIZE c))"
proof -
  let ?k = "logical_address e div BLOCK_SIZE c"
  from in_order_write [of c e s oldest ci bh junk] assms obtain ev t where
    w: "FtlImpl_BDftl_write oldest ci bh c junk e s = bd_issue ci ev t"
    "real_address (ev_address ev) = add32 b (logical_address e mod BLOCK_SIZE c)"
    "block_map t = (block_map s)[?k := (block_map s ! ?k)\<lparr>nextPage := Suc (logical_address e mod BLOCK_SIZE c) mod 256\<rparr>]"
    by auto
  then have bp: "block_map t ! ?k = \<lparr>pbn = b, nextPage = Suc (logical_address e mod BLOCK_SIZE c) mod 256, optimal = True\<rparr>"
    "?k < length (block_map t)" using assms(5,6) by simp_all
  from optimal_read [OF assms(1,8), of t oldest ci junk] bp assms(7,9) obtain ev' t' where
    "FtlImpl_BDftl_read oldest ci c junk x t = bd_issue ci ev' t'" "noop ev' = noop x"
    "real_address (ev_address ev') = add32 b (logical_address x mod BLOCK_SIZE c)" by auto
  with w(1,2) bp(1) show ?thesis by blast
qed

definition demo_bdftl :: "nat \<Rightarrow> unit bdftl_state" where
  "demo_bdftl n = \<lparr>block_map = [\<lparr>pbn = 8, nextPage = n, optimal = True\<rparr>, BPage_new, BPage_new, BPage_new],
     bd_trim_map = replicate 16 False, blockQueue = [], inuseBlock = None,
     bd_ds = \<lparr>ds_ftl = demo_dftl, ds_gs = fresh_gs ftl_config ()\<rparr>\<rparr>"

theorem bdftl_block_write_then_read_witness:
  "\<exists>ev t. FtlImpl_BDftl_write first_oldest echo_controller echo_heap ftl_config 0 (host_event WRITE 2) (demo_bdftl 2)
      = bd_issue echo_controller ev t
    \<and> real_address (ev_address ev) = 10
    \<and> (\<exists>ev' t'. FtlImpl_BDftl_read first_oldest echo_controller ftl_config 0 (host_event READ 2) t
         = bd_issue echo_controller ev' t' \<and> \<not> noop ev' \<and> real_address (ev_address ev') = 10)"
proof -
  have a: "add32 8 2 = 10" by (simp add: add32_def)
  have "2 mod 4 = (2::nat)" by simp
  with bdftl_block_write_then_read [OF ftl_config_simps(13), of "host_event WRITE 2" "demo_bdftl 2" 8 "host_event READ 2"
      first_oldest echo_controller echo_heap 0]
  show ?thesis by (auto simp: demo_bdftl_def no_block_def a simp del: echo_issue)
qed

text \<open>
  C37. A write out of order takes a block out of block mapping, and only pages that the page
  table maps already are carried over, which the pages of such a block are not: before the
  write a read of any other page of the block went to its physical block, after it the page
  is unmapped and its read is no operation. The data written in order is lost.\<close>

theorem bdftl_conversion_loses_pages:
  assumes lru: "lru_index oldest" and acc: "controller_accepts ci" and geo: "geometry_ok c"
    and ok: "cache_ok (ds_ftl (bd_ds s))" "cache_fits (ds_ftl (bd_ds s))" "length (ds_map (bd_ds s)) \<le> 2 ^ 32"
    and e: "0 \<le> start_time e" "logical_address e < length (ds_map (bd_ds s))"
    and bp: "block_map s ! (logical_address e div BLOCK_SIZE c) = bp" "optimal bp" "pbn bp \<noteq> no_block"
      "nextPage bp \<noteq> logical_address e mod BLOCK_SIZE c mod 256"
    and un: "\<forall>l<length (ds_map (bd_ds s)). ppn (ds_map (bd_ds s) ! l) = - 1"
    and w: "FtlImpl_BDftl_write oldest ci bh c junk e s = Some (r, e', s')"
    and x: "0 \<le> start_time x" "logical_address x < length (ds_map (bd_ds s))" "logical_address x \<noteq> logical_address e"
      "logical_address x div BLOCK_SIZE c = logical_address e div BLOCK_SIZE c"
  shows "(\<exists>ev t. FtlImpl_BDftl_read oldest ci c junk x s = bd_issue ci ev t \<and> noop ev = noop x
      \<and> real_address (ev_address ev) = add32 (pbn bp) (logical_address x mod BLOCK_SIZE c))
    \<and> (\<exists>ev t. FtlImpl_BDftl_read oldest ci c junk x s' = bd_issue ci ev t \<and> noop ev)"
proof -
  let ?k = "logical_address e div BLOCK_SIZE c"
    and ?s0 = "s\<lparr>bd_trim_map := (bd_trim_map s)[logical_address e := False]\<rparr>"
  have small: "logical_address e < 2 ^ 32" "logical_address x < 2 ^ 32" using e(2) x(2) ok(3) by simp_all
  from out_of_order_steps [OF w small(1) bp] obtain e1 s1 e2 s2 where
    l: "leave_block_mapping ci bh c ?k bp e ?s0 = Some (e1, s1)"
    and p: "page_level_write oldest ci bh c junk (logical_address e) e1 s1 = Some (e2, s2)"
    and s': "block_map s' = block_map s2" "ds_ftl (bd_ds s') = ds_ftl (bd_ds s2)" and k: "?k < length (block_map s)" .
  have un0: "\<forall>i<nextPage bp. mul32 ?k (BLOCK_SIZE c) + i < length (ds_map (bd_ds ?s0)) \<longrightarrow>
       ppn (ds_map (bd_ds ?s0) ! (mul32 ?k (BLOCK_SIZE c) + i)) = - 1" using un by simp
  note lf = leave_unmapped [OF l un0]
  have f1: "0 \<le> start_time e1" "logical_address e1 = logical_address e"
    using lf(1) e(1) progress_fields [of e e1] progress_la by simp_all
  have ds: "ds_ftl (bd_ds s1) = ds_ftl (bd_ds s)" using lf(3) by simp
  have pf: "ppn (ds_map (bd_ds s2) ! logical_address x) = - 1" "block_map s2 = block_map s1"
    "length (ds_map (bd_ds s2)) = length (ds_map (bd_ds s))" "cache_ok (ds_ftl (bd_ds s2))" "cache_fits (ds_ftl (bd_ds s2))"
    using lru_index.page_level_frame [OF lru p acc geo f1(1)] f1(2) ds ok e(2) x(2,3) un by simp_all
  have "\<not> optimal (block_map s' ! ?k)" "?k < length (block_map s')" using s'(1) pf(2) lf(2) k by simp_all
  then have "\<exists>ev t. FtlImpl_BDftl_read oldest ci c junk x s' = bd_issue ci ev t \<and> noop ev"
    using s'(2) pf ok(3) x by (intro lru_index.unmapped_read [OF lru acc geo x(1)]) simp_all
  moreover have "\<exists>ev t. FtlImpl_BDftl_read oldest ci c junk x s = bd_issue ci ev t \<and>
      real_address (ev_address ev) = add32 (pbn bp) (logical_address x mod BLOCK_SIZE c) \<and> noop ev = noop x"
    using optimal_read [OF geo small(2), of s oldest ci junk] bp k x(4) by simp
  ultimately show ?thesis by blast
qed

lemma demo_dftl_fields [simp]:
  "trans_map demo_dftl = map MPage_new [0..<16]" "cmt demo_dftl = 0" "totalCMTentries demo_dftl = 4"
  "reverse_trans_map demo_dftl = replicate 16 0"
  by (simp_all add: demo_dftl_def FtlImpl_DftlParent_new_def address_size_def floor_log2.simps Let_def mul32_def)

lemma echo_blocks [simp]:
  "bh_get echo_heap p w = Some \<lparr>physical_address = p, pages_invalid = 0, bsize = 4,
     bdata = map (\<lambda>st. \<lparr>pg_state = st, pg_read_delay = 0, pg_write_delay = 0\<rparr>) [VALID, VALID, EMPTY, EMPTY],
     pages_valid = 2, bstate = FREE, erases_remaining = 10, last_erase_time = 0, erase_delay = 0,
     modification_time = - 1, btype = None\<rparr>"
  "ci_get_block_pointer echo_controller a w = Some (real_address a - real_address a mod 4)"
  by (simp_all add: echo_heap_def echo_controller_def Block_new_def Page_new_def)

lemma demo_leave:
  "leave_block_mapping echo_controller echo_heap ftl_config 0 \<lparr>pbn = 8, nextPage = 2, optimal = True\<rparr> (host_event WRITE 0)
     ((demo_bdftl 2)\<lparr>bd_trim_map := (replicate 16 False)[0 := False]\<rparr>) = Some (e1, s1) \<Longrightarrow>
   inuseBlock s1 = Some 8 \<and> ds_ftl (bd_ds s1) = demo_dftl \<and> progress (host_event WRITE 0) e1"
  "leave_block_mapping echo_controller echo_heap ftl_config 0 \<lparr>pbn = 8, nextPage = 2, optimal = True\<rparr> (host_event WRITE 0)
     ((demo_bdftl 2)\<lparr>bd_trim_map := (replicate 16 False)[0 := False]\<rparr>) \<noteq> None"
proof -
  have u: "[0..<2] = [0, 1 :: nat]" by (simp add: upt_rec)
  have t: "transfer_pages echo_heap ftl_config (Some 0) 0 8 [0..<2] (host_event WRITE 0) (bd_ds (demo_bdftl 2))
      = Some (host_event WRITE 0, bd_ds (demo_bdftl 2))"
    by (simp add: u transfer_page_def get_page_state_def aget_nth demo_bdftl_def MPage_new_def)
  show "leave_block_mapping echo_controller echo_heap ftl_config 0 \<lparr>pbn = 8, nextPage = 2, optimal = True\<rparr> (host_event WRITE 0)
     ((demo_bdftl 2)\<lparr>bd_trim_map := (replicate 16 False)[0 := False]\<rparr>) \<noteq> None"
    using t by (simp add: leave_block_mapping_def Let_def Address_linear_def set_linear_Some mul32_def bind_eq_None_conv)
  assume "leave_block_mapping echo_controller echo_heap ftl_config 0 \<lparr>pbn = 8, nextPage = 2, optimal = True\<rparr> (host_event WRITE 0)
     ((demo_bdftl 2)\<lparr>bd_trim_map := (replicate 16 False)[0 := False]\<rparr>) = Some (e1, s1)"
  then show "inuseBlock s1 = Some 8 \<and> ds_ftl (bd_ds s1) = demo_dftl \<and> progress (host_event WRITE 0) e1"
    using t by (auto simp: leave_block_mapping_def Let_def Address_linear_def set_linear_Some mul32_def demo_bdftl_def set_bpage_def)
qed

lemma demo_page_write:
  assumes "inuseBlock t = Some 8" "ds_ftl (bd_ds t) = demo_dftl" "0 \<le> start_time e" "logical_address e = 0"
  shows "\<exists>e2 t2. page_level_write first_oldest echo_controller echo_heap ftl_config 0 0 e t = Some (e2, t2)"
proof -
  have "cache_ok demo_dftl" using dftl_starts_ready(1) [OF demo_dftl_new _ demo_dftl_fits, of "()"] by (simp add: dftl_ready_def)
  with boost.resolve_returns [OF echo_accepts(1) ftl_config_simps(13) assms(3), of "bd_ds t" 0 True] assms demo_dftl_fits
  obtain e1 d where r: "resolve_mapping first_oldest echo_controller ftl_config 0 True e (bd_ds t) = Some (e1, d)"
    "cache_step e (bd_ds t) e1 d" by auto
  then have sm: "same_mapping demo_dftl (ds_ftl d)" using assms(2) by (simp add: cache_step_def)
  have len: "length (ds_map d) = 16" "length (reverse_trans_map (ds_ftl d)) = 16"
    using same_mapping_length [OF sm] sm by (simp_all add: same_mapping_def)
  from Address_linear_Some [OF ftl_config_simps(13)] obtain a where
    a: "Address_linear ftl_config (uint_of_int (ppn (ds_map d ! 0))) PAGE = Some a" by blast
  from at_page_Some [OF ftl_config_simps(13)] obtain b where
    b: "at_page ftl_config (uint_of_int 10) (if ppn (ds_map d ! 0) \<noteq> - 1 then e1\<lparr>replace_address := a\<rparr> else e1) = Some b"
    by blast
  have "get_free_biftl_page echo_controller echo_heap ftl_config 0 e t = Some (10, e, t)"
    using assms(1) by (simp add: get_free_biftl_page_def next_page_of_def Block_get_next_page_def
        set_linear_address_valid_def set_linear_Some get_linear_address_def)
  with r(1) len a b show ?thesis
    by (simp add: page_level_write_def update_translation_map_def aget_nth Let_def)
qed

lemma demo_bdftl_rewrites:
  "\<exists>r e' s'. FtlImpl_BDftl_write first_oldest echo_controller echo_heap ftl_config 0 (host_event WRITE 0) (demo_bdftl 2)
     = Some (r, e', s')"
proof -
  from demo_leave(2) obtain e1 s1 where
    l: "leave_block_mapping echo_controller echo_heap ftl_config 0 \<lparr>pbn = 8, nextPage = 2, optimal = True\<rparr> (host_event WRITE 0)
     ((demo_bdftl 2)\<lparr>bd_trim_map := (replicate 16 False)[0 := False]\<rparr>) = Some (e1, s1)" by auto
  note f = demo_leave(1) [OF l]
  have "0 \<le> start_time e1" "logical_address e1 = 0" using f progress_fields [of "host_event WRITE 0" e1] progress_la [of "host_event WRITE 0" e1] by auto
  with demo_page_write f obtain e2 t2 where
    "page_level_write first_oldest echo_controller echo_heap ftl_config 0 0 e1 s1 = Some (e2, t2)" by blast
  with l show ?thesis
    by (simp add: FtlImpl_BDftl_write_def block_level_write_def Let_def aget_nth demo_bdftl_def no_block_def)
qed

theorem bdftl_conversion_loses_pages_witness:
  "\<exists>r e' s'. FtlImpl_BDftl_write first_oldest echo_controller echo_heap ftl_config 0 (host_event WRITE 0) (demo_bdftl 2)
      = Some (r, e', s')
    \<and> (\<exists>ev t. FtlImpl_BDftl_read first_oldest echo_controller ftl_config 0 (host_event READ 1) (demo_bdftl 2)
         = bd_issue echo_controller ev t \<and> \<not> noop ev \<and> real_address (ev_address ev) = 9)
    \<and> (\<exists>ev t. FtlImpl_BDftl_read first_oldest echo_controller ftl_config 0 (host_event READ 1) s'
         = bd_issue echo_controller ev t \<and> noop ev)"
proof -
  from demo_bdftl_rewrites obtain r e' s' where
    w: "FtlImpl_BDftl_write first_oldest echo_controller echo_heap ftl_config 0 (host_event WRITE 0) (demo_bdftl 2)
      = Some (r, e', s')" by blast
  have ok: "cache_ok demo_dftl" using dftl_starts_ready(1) [OF demo_dftl_new _ demo_dftl_fits, of "()"] by (simp add: dftl_ready_def)
  have n: "add32 8 1 = 9" by (simp add: add32_def)
  have "(\<exists>ev t. FtlImpl_BDftl_read first_oldest echo_controller ftl_config 0 (host_event READ 1) (demo_bdftl 2)
         = bd_issue echo_controller ev t \<and> noop ev = noop (host_event READ 1) \<and> real_address (ev_address ev)
           = add32 (pbn \<lparr>pbn = 8, nextPage = 2, optimal = True\<rparr>) (logical_address (host_event READ 1) mod BLOCK_SIZE ftl_config))
    \<and> (\<exists>ev t. FtlImpl_BDftl_read first_oldest echo_controller ftl_config 0 (host_event READ 1) s'
         = bd_issue echo_controller ev t \<and> noop ev)"
    by (rule bdftl_conversion_loses_pages [OF boost.lru_index_axioms echo_accepts(1) ftl_config_simps(13) _ _ _ _ _ _ _ _ _ _ w])
      (use ok demo_dftl_fits in \<open>simp_all add: demo_bdftl_def no_block_def MPage_new_def\<close>)
  with w n show ?thesis by (auto simp del: echo_issue)
qed

end
