(* ===== verification/Log_Properties.thy ===== *)
theory Log_Properties
  imports Bast_Facts Fast_Facts Ftl_Properties Ssd_Device
begin

text \<open>
  Properties of the two log-block translation layers. The witnesses run on the small instance
  of the page-mapped layers, with a controller that reports two valid pages in every block.
  The device of \<open>Ssd_Device\<close> meets the contract of the next free page.
\<close>

section \<open>The device under the log-block layers\<close>

text \<open>The queries of \<open>Controller\<close> that the log-block layers use, as \<open>Ssd\<close> answers them.\<close>

definition device_log :: "config \<Rightarrow> ssd log_controller" where
  "device_log c = \<lparr>lc_get_num_valid = Ssd_get_num_valid, lc_get_free_page = (\<lambda>a d. Ssd_get_free_page c d a),
     lc_get_state = Ssd_get_state\<rparr>"

lemmas free_page_defs = Ssd_get_free_page_def Package_get_free_page_def Die_get_free_page_def Plane_get_free_page_def
  Ssd_get_num_valid_def Package_get_num_valid_def Die_get_num_valid_def Plane_get_num_valid_def

lemma set_linear_real: "set_linear_address c n a = Some b \<Longrightarrow> real_address b = n"
  by (auto simp: set_linear_address_def Let_def split: if_splits)

lemma next_page_sum: "n < 2 ^ 32 \<Longrightarrow> k < m \<Longrightarrow> m < 2 ^ 32 \<Longrightarrow> sub64 (n + k) (n mod m) = n + k - n mod m"
  by (rule sub64_exact) (use mod_less_eq_dividend [of n m] in \<open>simp_all add: trans_le_add1\<close>)

interpretation device: next_free_page "device_log c" c for c
proof
  fix a w n b
  assume "BLOCK_SIZE c < 2 ^ 32" "real_address a < 2 ^ 32" "lc_get_num_valid (device_log c) a w = Some n"
    "lc_get_free_page (device_log c) a w = Some b"
  then show "real_address b = real_address a - real_address a mod BLOCK_SIZE c + n"
    by (auto simp: device_log_def free_page_defs bind_eq_Some_conv Let_def get_linear_address_def
        next_page_sum split: if_splits dest!: set_linear_real)
qed

section \<open>A small instance\<close>

definition echo_log :: "unit log_controller" where
  "echo_log = \<lparr>lc_get_num_valid = (\<lambda>a w. Some 2),
     lc_get_free_page = (\<lambda>a w. set_linear_address_valid ftl_config (real_address a - real_address a mod 4 + 2) PAGE a),
     lc_get_state = (\<lambda>a w. Some VALID)\<rparr>"

interpretation echo: next_free_page echo_log ftl_config
  by unfold_locales (auto simp: echo_log_def set_linear_address_valid_def set_linear_Some)

definition log_at :: "nat \<Rightarrow> int list \<Rightarrow> log_block" where
  "log_at n ps = (LogPageBlock_new ftl_config 0)\<lparr>lb_address := the (Address_linear ftl_config n BLOCK), lb_pages := ps\<rparr>"

definition demo_bast :: "int list \<Rightarrow> unit bast_state" where
  "demo_bast ps = \<lparr>data_list = [- 1, - 1, - 1, - 1], log_map = [(1, log_at 8 ps)], addressShift = 2,
     ba_random = (\<lambda>_. 0), ba_calls = 0, ba_gs = fresh_gs ftl_config ()\<rparr>"

lemma log_at_simps [simp]: "lb_pages (log_at n ps) = ps" "real_address (lb_address (log_at n ps)) = n"
  by (simp_all add: log_at_def Address_linear_def set_linear_Some)

section \<open>Block-associative log blocks\<close>

text \<open>
  C20. In every state that a block-associative FTL reaches there are at most as many log blocks
  as configured, every logical block has at most one, and each has an entry for every page.\<close>

theorem bast_log_bounded:
  assumes "bast_reaches ci lc bh c junk s"
  shows "length (log_map s) \<le> BAST_LOG_BLOCK_LIMIT c \<and> distinct (map fst (log_map s)) \<and> sorted (map fst (log_map s))
    \<and> list_all (\<lambda>q. length (lb_pages (snd q)) = BLOCK_SIZE c) (log_map s)"
  using reaches_inv [OF assms] by (simp add: bast_inv_def bast_tables_ok_def log_map_ok_def)

lemma demo_bast_new:
  "FtlImpl_Bast_new ftl_config (\<lambda>_. 0) (fresh_gs ftl_config ())
     = Some ((demo_bast [])\<lparr>log_map := []\<rparr>)"
proof -
  have "replicate 4 (- 1 :: int) = [- 1, - 1, - 1, - 1]" by (simp add: numeral_eq_Suc)
  then show ?thesis by (simp add: FtlImpl_Bast_new_def shift_of_def floor_log2.simps demo_bast_def)
qed

lemma demo_bast_first_write:
  "\<exists>r e' s'. FtlImpl_Bast_write echo_controller echo_log echo_heap ftl_config 0 (host_event WRITE 5) ((demo_bast [])\<lparr>log_map := []\<rparr>)
     = Some (r, e', s') \<and> log_map s' \<noteq> []"
  by (simp add: FtlImpl_Bast_write_def bast_lba_def demo_bast_def Let_def Address_linear_def set_linear_Some append_to_log_def
      ba_count_def bm_count_def echo_log_def aget_nth set_linear_address_valid_def replace_in_data_def put_log_def
      bast_issue_def echo_controller_def allocate_new_logblock_def get_free_block_def get_page_block_def fresh_gs_def
      Block_manager_new_def LogPageBlock_new_def set_page_def)

theorem bast_log_bounded_witness:
  "\<exists>s. bast_reaches echo_controller echo_log echo_heap ftl_config 0 s \<and> log_map s \<noteq> [] \<and> length (log_map s) \<le> 2"
proof -
  from demo_bast_first_write obtain r e' s' where
    w: "FtlImpl_Bast_write echo_controller echo_log echo_heap ftl_config 0 (host_event WRITE 5) ((demo_bast [])\<lparr>log_map := []\<rparr>)
     = Some (r, e', s')" "log_map s' \<noteq> []" by blast
  have "bast_reaches echo_controller echo_log echo_heap ftl_config 0 s'"
    by (rule reach_write [OF reach_new [OF demo_bast_new] w(1)])
  with bast_log_bounded [OF this] w(2) show ?thesis by auto
qed

text \<open>
  C21. A write that finds room in the log block of its logical block: the event that is issued
  is addressed to the page that a later read of the same logical page goes to, and a read of
  any other logical page goes where it went before.\<close>

theorem bast_write_then_read:
  assumes "next_free_page lc c" "FtlImpl_Bast_write ci lc bh c junk e s = Some (r, e', s')" "bast_inv c s"
    and "geometry_ok c" "BLOCK_SIZE c < 2 ^ 32" "logical_address e < 2 ^ 32"
    and "map_of (log_map s) (int (bast_lba e s)) = Some lb" "real_address (lb_address lb) mod BLOCK_SIZE c = 0"
      "real_address (lb_address lb) < 2 ^ 32"
    and "lc_get_num_valid lc (lb_address lb) (gs_world (ba_gs s)) = Some nv" "nv < BLOCK_SIZE c"
  shows "(\<exists>ev t. bast_issue ci ev t = Some (r, e', s')
      \<and> bast_read_address c e s' = Address_linear c (real_address (ev_address ev) mod 2 ^ 32) PAGE)
    \<and> (\<forall>x. logical_address x < 2 ^ 32 \<and> bast_lba x s < length (data_list s)
         \<and> (bast_lba x s \<noteq> bast_lba e s \<or> logical_address x mod BLOCK_SIZE c \<noteq> logical_address e mod BLOCK_SIZE c)
         \<longrightarrow> bast_read_address c x s' = bast_read_address c x s)"
  using next_free_page.write_locates [OF assms] by blast

lemma demo_bast_write:
  "\<exists>r e' s'. FtlImpl_Bast_write echo_controller echo_log echo_heap ftl_config 0 (host_event WRITE 5) (demo_bast [0, - 1, 1, - 1])
     = Some (r, e', s')"
  by (simp add: FtlImpl_Bast_write_def bast_lba_def demo_bast_def Let_def Address_linear_def set_linear_Some append_to_log_def
      ba_count_def bm_count_def echo_log_def aget_nth set_linear_address_valid_def replace_in_data_def put_log_def
      bast_issue_def echo_controller_def)

lemma demo_bast_inv: "length ps = 4 \<Longrightarrow> bast_inv ftl_config (demo_bast ps)"
  by (simp add: bast_inv_def bast_tables_ok_def log_map_ok_def demo_bast_def)

theorem bast_write_then_read_witness:
  "\<exists>ev t r e' s'. FtlImpl_Bast_write echo_controller echo_log echo_heap ftl_config 0 (host_event WRITE 5) (demo_bast [0, - 1, 1, - 1])
      = Some (r, e', s') \<and> bast_issue echo_controller ev t = Some (r, e', s')
    \<and> bast_read_address ftl_config (host_event WRITE 5) s' = Address_linear ftl_config (real_address (ev_address ev) mod 2 ^ 32) PAGE"
proof -
  from demo_bast_write obtain r e' s' where
    w: "FtlImpl_Bast_write echo_controller echo_log echo_heap ftl_config 0 (host_event WRITE 5) (demo_bast [0, - 1, 1, - 1])
      = Some (r, e', s')" by blast
  have "bast_inv ftl_config (demo_bast [0, - 1, 1, - 1])" by (rule demo_bast_inv) simp
  from bast_write_then_read [OF echo.next_free_page_axioms w this ftl_config_simps(13), of "log_at 8 [0, - 1, 1, - 1]" 2]
  show ?thesis using w by (auto simp: demo_bast_def bast_lba_def echo_log_def)
qed

text \<open>
  C22. A switch merge. When the log block of a logical block holds its pages in order it becomes
  the data block: the log block leaves the table, and the address that a read of any page
  resolves to, in this block or another, is the same before and after.\<close>

theorem bast_switch_keeps_reads:
  assumes sq: "is_sequential ci c junk lb lba e s = Some (True, e', s')" and inv: "bast_inv c s"
    and geo: "geometry_ok c" and lb: "map_of (log_map s) (int lba) = Some lb"
    and x: "logical_address x < 2 ^ 32" "bast_lba x s < length (data_list s)"
  shows "bast_read_address c x s' = bast_read_address c x s \<and> map_of (log_map s') (int lba) = None
    \<and> data_list s' ! lba = int (real_address (lb_address lb))"
proof -
  have pos: "0 < BLOCK_SIZE c" using geo by (simp add: geometry_ok_def)
  have f: "lba < length (data_list s)" "log_map s' = smap_erase (int lba) (log_map s)"
    "data_list s' = (data_list s)[lba := int (get_linear_address (lb_address lb))]" "addressShift s' = addressShift s"
    using is_sequential_frame(2) [OF sq] by auto
  have ok: "bast_tables_ok c s" "bast_tables_ok c s'" using inv tables_erase [OF _ f(2)] by (simp_all add: bast_inv_def)
  have "bast_lba x s' < length (data_list s')" using x(2) f(3,4) by (simp add: bast_lba_def)
  from read_address_target [OF geo x(1) ok(2) this] read_address_target [OF geo x(1) ok(1) x(2)]
    switch_target [OF sq pos lb, of x] f show ?thesis by (simp add: map_of_smap_erase get_linear_address_def)
qed

lemma demo_bast_switch:
  "\<exists>e' s'. is_sequential echo_controller ftl_config 0 (log_at 8 [0, 1, 2, 3]) 1 (host_event WRITE 5) (demo_bast [0, 1, 2, 3])
     = Some (True, e', s')"
  by (simp add: is_sequential_def log_in_order_def upt_rec demo_bast_def erase_data_block_def aget_nth Let_def
      update_map_block_def get_start_time_def get_time_taken_def Event_new_def Address_linear_def set_linear_Some
      echo_controller_def ba_count_def bm_count_def dispose_logblock_def)

theorem bast_switch_keeps_reads_witness:
  "\<exists>e' s'. is_sequential echo_controller ftl_config 0 (log_at 8 [0, 1, 2, 3]) 1 (host_event WRITE 5) (demo_bast [0, 1, 2, 3])
      = Some (True, e', s')
    \<and> bast_read_address ftl_config (host_event READ 6) s' = bast_read_address ftl_config (host_event READ 6) (demo_bast [0, 1, 2, 3])"
proof -
  from demo_bast_switch obtain e' s' where
    sq: "is_sequential echo_controller ftl_config 0 (log_at 8 [0, 1, 2, 3]) 1 (host_event WRITE 5) (demo_bast [0, 1, 2, 3])
      = Some (True, e', s')" by blast
  have "bast_inv ftl_config (demo_bast [0, 1, 2, 3])" by (rule demo_bast_inv) simp
  from bast_switch_keeps_reads [OF sq this ftl_config_simps(13), of "host_event READ 6"] show ?thesis
    using sq by (auto simp: demo_bast_def bast_lba_def)
qed

section \<open>Fully associative log blocks\<close>

text \<open>
  C23. A rewrite of a page outside the sequential log block, while the random log has room: the
  log grows by this page at its end, the event is addressed to the new log page, and a read
  of the logical page resolves to the first log page that holds it: the new one if the page
  was not in the log, the copy that was already there otherwise.\<close>

theorem fast_log_write_then_read:
  assumes gl: "goes_to_log lc c e s" and room: "log_room c s" and geo: "geometry_ok c"
    and ad: "\<forall>k<length (log_pages s). real_address (lb_address (log_pages s ! k)) + BLOCK_SIZE c \<le> 2 ^ 32"
  shows "\<exists>ev t a. FtlImpl_Fast_write ci lc c junk e s = fast_issue ci ev t
    \<and> real_address (ev_address ev) = slot c s (log_page_next s)
    \<and> log_list (log_pages t) = log_list (log_pages s) @ [int (logical_address e)]
    \<and> filled (BLOCK_SIZE c) (Suc (log_page_next s)) (log_pages t)
    \<and> fast_locate c e t = Some (Some a)
    \<and> real_address a = slot c s (case first_at (int (logical_address e)) (log_list (log_pages s)) of
        None \<Rightarrow> log_page_next s | Some j \<Rightarrow> j)"
  by (rule log_write_locate [OF assms])

definition demo_fast :: "int list \<Rightarrow> unit fast_state" where
  "demo_fast ls = \<lparr>fa_data_list = [0, 4, - 1, - 1], pin_list = replicate 16 False, sequential_offset = 0,
     sequential_logicalblock_address = - 1, sequential_address = Address_default 0, log_page_next = length ls,
     log_pages = [(log_at 8 [])\<lparr>aPages := ls @ replicate (4 - length ls) (- 1), numPages := int (length ls)\<rparr>, log_at 12 []],
     fa_shift = 2, fa_gs = fresh_gs ftl_config ()\<rparr>"

lemma log_at_empty: "aPages (log_at n ps) = replicate 4 (- 1)" "numPages (log_at n ps) = 0"
  by (simp_all add: log_at_def LogPageBlock_new_def)

lemma demo_fast_ready:
  assumes "length ls < 4"
  shows "log_room ftl_config (demo_fast ls)" "goes_to_log echo_log ftl_config (host_event WRITE 5) (demo_fast ls)"
  using assms
  by (auto simp: log_room_def goes_to_log_def demo_fast_def log_at_empty fast_lba_def data_page_at_def Address_linear_def
      set_linear_Some echo_log_def gc_needed_def fresh_gs_def Block_manager_new_def)

lemma demo_fast_blocks:
  "k < length (log_pages (demo_fast ls)) \<Longrightarrow> real_address (lb_address (log_pages (demo_fast ls) ! k)) = 8 + 4 * k"
  using less_2_cases_iff [of k] by (auto simp: demo_fast_def numeral_2_eq_2 [symmetric])

lemma demo_fast_log: "length ls < 4 \<Longrightarrow> log_list (log_pages (demo_fast ls)) = ls"
  by (simp add: log_list_def demo_fast_def log_at_empty)

theorem fast_log_write_then_read_witness:
  "\<exists>ev t a. FtlImpl_Fast_write echo_controller echo_log ftl_config 0 (host_event WRITE 5) (demo_fast []) = fast_issue echo_controller ev t
    \<and> real_address (ev_address ev) = 8 \<and> fast_locate ftl_config (host_event WRITE 5) t = Some (Some a) \<and> real_address a = 8"
proof -
  have l: "length ([] :: int list) < 4" by simp
  have "\<forall>k<length (log_pages (demo_fast [])). real_address (lb_address (log_pages (demo_fast []) ! k)) + BLOCK_SIZE ftl_config \<le> 2 ^ 32"
    using demo_fast_blocks [of _ "[]"] by (auto simp: demo_fast_def)
  from fast_log_write_then_read [OF demo_fast_ready(2,1) [OF l] ftl_config_simps(13) this, of echo_controller 0]
  show ?thesis using demo_fast_log [OF l] by (auto simp: slot_def demo_fast_def get_linear_address_def)
qed

text \<open>
  C38. The log keeps the superseded copies, so a logical page that is rewritten while it has a
  copy in the log is not read back: the read after the second write resolves to the old log
  page, not to the page that was just written.\<close>

theorem fast_rewrite_reads_stale:
  assumes gl: "goes_to_log lc c e s" and room: "log_room c s" and geo: "geometry_ok c"
    and ad: "\<forall>k<length (log_pages s). real_address (lb_address (log_pages s ! k)) + BLOCK_SIZE c \<le> 2 ^ 32"
    and apart: "\<forall>k<length (log_pages s). \<forall>i<length (log_pages s). k \<noteq> i \<longrightarrow>
      real_address (lb_address (log_pages s ! k)) div BLOCK_SIZE c \<noteq> real_address (lb_address (log_pages s ! i)) div BLOCK_SIZE c"
    and start: "\<forall>k<length (log_pages s). real_address (lb_address (log_pages s ! k)) mod BLOCK_SIZE c = 0"
    and old: "int (logical_address e) \<in> set (log_list (log_pages s))"
  shows "\<exists>ev t a. FtlImpl_Fast_write ci lc c junk e s = fast_issue ci ev t \<and> fast_locate c e t = Some (Some a)
    \<and> real_address a \<noteq> real_address (ev_address ev)"
proof -
  let ?n = "log_page_next s" and ?b = "BLOCK_SIZE c" and ?L = "log_pages s"
  have pos: "0 < ?b" using geo by (simp add: geometry_ok_def)
  have r: "filled ?b ?n ?L" "?n < ?b * length ?L" using room by (auto simp: log_room_def)
  obtain j where j: "first_at (int (logical_address e)) (log_list ?L) = Some j"
    using old by (cases "first_at (int (logical_address e)) (log_list ?L)") (auto simp: first_at_None)
  then have jn: "j < ?n" using first_at_Some [OF j] filled_length [OF r(1)] by simp
  have k: "j div ?b < length ?L" "?n div ?b < length ?L"
    using jn r(2) by (simp_all add: less_mult_imp_div_less mult.commute)
  have unslot: "slot c s i div ?b = real_address (lb_address (?L ! (i div ?b))) div ?b" "slot c s i mod ?b = i mod ?b"
    if "i div ?b < length ?L" for i
    using start that pos by (auto simp: slot_def get_linear_address_def div_add1_eq mod_add_left_eq [symmetric])
  have "slot c s j \<noteq> slot c s ?n"
  proof
    assume eq: "slot c s j = slot c s ?n"
    then have "j div ?b = ?n div ?b" using unslot(1) [OF k(1)] unslot(1) [OF k(2)] apart k by metis
    moreover have "j mod ?b = ?n mod ?b" using unslot(2) [OF k(1)] unslot(2) [OF k(2)] eq by simp
    ultimately have "j = ?n" by (metis mult_div_mod_eq)
    with jn show False by simp
  qed
  moreover from log_write_locate [OF gl room geo ad, of ci junk] j obtain ev t a where
    "FtlImpl_Fast_write ci lc c junk e s = fast_issue ci ev t" "fast_locate c e t = Some (Some a)"
    "real_address (ev_address ev) = slot c s ?n" "real_address a = slot c s j" by auto
  ultimately show ?thesis by metis
qed

theorem fast_rewrite_reads_stale_witness:
  "\<exists>ev t a. FtlImpl_Fast_write echo_controller echo_log ftl_config 0 (host_event WRITE 5) (demo_fast [5]) = fast_issue echo_controller ev t
    \<and> fast_locate ftl_config (host_event WRITE 5) t = Some (Some a) \<and> real_address a \<noteq> real_address (ev_address ev)"
proof -
  have l: "length [5 :: int] < 4" by simp
  show ?thesis
    by (rule fast_rewrite_reads_stale [OF demo_fast_ready(2,1) [OF l] ftl_config_simps(13)])
      (use demo_fast_log [OF l] in \<open>auto simp: demo_fast_blocks\<close>, simp add: demo_fast_def)
qed

text \<open>
  The log pages a full merge looks at, each once: of every log block the pages it has used
  except its first. The loop stops before page 0, so the newest copy of a logical page that
  lies in the first page of a log block is not merged when that block is given up.\<close>

theorem fast_merge_positions:
  assumes "log_positions lbs n = Some ps"
  shows "set ps = {(k, i). k < n \<and> 0 < i \<and> i < nat (numPages (lbs ! k))} \<and> distinct ps \<and> (\<forall>k. (k, 0) \<notin> set ps)"
  using log_positions_spec [OF assms] by auto

theorem fast_merge_positions_witness:
  "\<exists>ps. log_positions (log_pages (demo_fast [5, 6, 7])) (Suc (Suc 0)) = Some ps \<and> set ps = {(0, 1), (0, 2)}"
proof -
  have u: "[Suc 0..<3] = [1, 2]" by (simp add: upt_conv_Cons)
  have e: "log_positions (log_pages (demo_fast [5, 6, 7])) (Suc (Suc 0)) = Some [(0, 2), (0, 1)]"
    by (simp add: demo_fast_def block_positions_def aget_def log_at_empty u)
  have "set [(0, 2), (0, 1)] = {(k, i). k < Suc (Suc 0) \<and> 0 < i \<and> i < nat (numPages (log_pages (demo_fast [5, 6, 7]) ! k))}"
    using fast_merge_positions [OF e] by blast
  with e show ?thesis by (intro exI [of _ "[(0, 2), (0, 1)]"]) (simp add: insert_commute)
qed

end
