(* ===== verification/Zns_Tests.thy ===== *)
theory Zns_Tests
  imports Zns_Properties "HOL-Library.Sublist"
begin

text \<open>
  The acceptance tests of the zoned device: \<open>tests/test_*.cpp\<close>, run in order by
  \<open>run_test.cpp\<close>, with the diagnostic file of \<open>eeprom_manager.cpp\<close>. A test is a program over
  the operations it uses, the gate, the temperature and the diagnostic file, collected in
  \<open>tester\<close>; on the controller the first two are \<open>direct_zns_gate\<close> and \<open>set_temperature\<close>. Relating the
  operations of two testers relates every test on them (\<open>suite_rel\<close>), so that the tests of
  the whole stack can be run on the atomic device.
\<close>

section \<open>The language of the tests\<close>

record 's tester =
  t_gate :: "u64 \<Rightarrow> int \<Rightarrow> 's \<Rightarrow> (status \<times> 's) option"
  t_temp :: "real \<Rightarrow> 's \<Rightarrow> 's"
  t_file :: "'s \<Rightarrow> string list option"
  t_set_file :: "string list option \<Rightarrow> 's \<Rightarrow> 's"

type_synonym 's test = "'s \<Rightarrow> (bool \<times> 's) option"

text \<open>\<open>require\<close>: a command whose failure ends the test with \<open>false\<close>; \<open>call\<close>: its status is ignored.\<close>

definition require :: "'s tester \<Rightarrow> u64 \<Rightarrow> int \<Rightarrow> 's test \<Rightarrow> 's test" where
  "require T lba op rest s = Option.bind (t_gate T lba op s) (\<lambda>(r, s1).
     if r = FAILURE then Some (False, s1) else rest s1)"

definition call :: "'s tester \<Rightarrow> u64 \<Rightarrow> int \<Rightarrow> 's test \<Rightarrow> 's test" where
  "call T lba op rest s = Option.bind (t_gate T lba op s) (\<lambda>(r, s1). rest s1)"

text \<open>A command that is meant to fail: \<open>good\<close> follows the refusal, \<open>bad\<close> the acceptance.\<close>

definition refused_then :: "'s tester \<Rightarrow> u64 \<Rightarrow> int \<Rightarrow> 's test \<Rightarrow> 's test \<Rightarrow> 's test" where
  "refused_then T lba op good bad s = Option.bind (t_gate T lba op s) (\<lambda>(r, s1).
     if r = FAILURE then good s1 else bad s1)"

definition return :: "bool \<Rightarrow> 's test" where
  "return b s = Some (b, s)"

fun for_each :: "('a \<Rightarrow> 's test \<Rightarrow> 's test) \<Rightarrow> 'a list \<Rightarrow> 's test \<Rightarrow> 's test" where
  "for_each body [] rest = rest"
| "for_each body (x # xs) rest = body x (for_each body xs rest)"

section \<open>The tests\<close>

definition run_sequential_write_test :: "'s tester \<Rightarrow> 's test" where
  "run_sequential_write_test T = for_each (\<lambda>i. require T i 1) [0, 1, 2, 3] (return True)"

definition run_random_write_protection_test :: "'s tester \<Rightarrow> 's test" where
  "run_random_write_protection_test T = refused_then T 10 1 (return True) (return False)"

definition run_zone_reset_test :: "'s tester \<Rightarrow> 's test" where
  "run_zone_reset_test T = require T 0 2 (\<lambda>s. Option.bind (t_gate T 0 1 s) (\<lambda>(r, s1). Some (r = SUCCESS, s1)))"

definition run_zone_resources_test :: "'s tester \<Rightarrow> 's test" where
  "run_zone_resources_test T = call T 0 2 (for_each (\<lambda>z. require T (z * 64) 1) [1, 2, 3, 4]
     (refused_then T 320 1 (for_each (\<lambda>z. call T (z * 64) 2) [1, 2, 3, 4] (return True))
        (call T 320 2 (return False))))"

definition run_read_empty_zone_test :: "'s tester \<Rightarrow> 's test" where
  "run_read_empty_zone_test T = call T 640 2 (require T 640 1 (require T 640 0
     (refused_then T 641 0 (call T 640 2 (return True)) (call T 640 2 (return False)))))"

definition run_crypto_security_test :: "'s tester \<Rightarrow> 's test" where
  "run_crypto_security_test T = require T 1280 1 (require T 1280 2
     (refused_then T 1280 0 (return True) (return False)))"

definition run_wear_limit_test :: "'s tester \<Rightarrow> 's test" where
  "run_wear_limit_test T = for_each (\<lambda>i rest. require T 1920 1 (require T 1920 2 rest)) [0..<5] (return True)"

definition run_unaligned_read_test :: "'s tester \<Rightarrow> 's test" where
  "run_unaligned_read_test T = refused_then T 0 99 (return True) (return False)"

definition run_write_full_zone_test :: "'s tester \<Rightarrow> 's test" where
  "run_write_full_zone_test T = call T 2560 2 (for_each (\<lambda>i. require T (2560 + word_of_nat i) 1) [0..<64]
     (refused_then T 2560 1 (call T 2560 2 (return True)) (call T 2560 2 (return False))))"

definition run_thermal_shutdown_test :: "'s tester \<Rightarrow> 's test" where
  "run_thermal_shutdown_test T s = require T (60 * 64) 1 (\<lambda>s1. refused_then T (60 * 64) 1
     (\<lambda>s2. call T (60 * 64) 2 (return True) (t_temp T 35 s2)) (\<lambda>s2. return False (t_temp T 35 s2))
     (t_temp T 90 s1)) (t_temp T 40 s)"

definition run_read_split_zone_test :: "'s tester \<Rightarrow> 's test" where
  "run_read_split_zone_test T = call T 3840 2 (require T 3840 1 (require T (3840 + 1) 1
     (refused_then T (3840 + 2) 0 (call T 3840 2 (return True)) (call T 3840 2 (return False)))))"

text \<open>The three writes at the end are one condition: the first that fails ends the test.\<close>

definition run_multi_zone_reset_test :: "'s tester \<Rightarrow> 's test" where
  "run_multi_zone_reset_test T =
     for_each (\<lambda>z. require T (z * 64) 1) [70, 71, 72] (for_each (\<lambda>z. require T (z * 64) 2) [70, 71, 72]
       (for_each (\<lambda>z. require T (z * 64) 1) [70, 71, 72] (for_each (\<lambda>z. call T (z * 64) 2) [70, 71, 72] (return True))))"

definition stress_page :: "'s tester \<Rightarrow> nat \<Rightarrow> 's test \<Rightarrow> 's test" where
  "stress_page T i rest s = refused_then T (5120 + word_of_nat i) 1
     (\<lambda>s1. (if i = 32 then call T 5120 2 (return True) else return False) (t_temp T 35 s1))
     rest (if i = 32 then t_temp T 89.5 s else s)"

definition run_thermal_stress_test :: "'s tester \<Rightarrow> 's test" where
  "run_thermal_stress_test T s = call T 5120 2 (for_each (stress_page T) [0..<64] (\<lambda>s1. return False (t_temp T 35 s1)))
     (t_temp T 35 s)"

section \<open>The diagnostic file\<close>

text \<open>
  \<open>eeprom_diagnostic.bin\<close> as its lines, \<open>None\<close> when there is no file; \<open>wr\<close> says whether \<open>fopen\<close>
  succeeds for writing. All lines are shorter than the buffer of \<open>fgets\<close>.
\<close>

definition wear_marker :: string where
  "wear_marker = ''Max Zone Erase Count Tracked:''"

definition percent_marker :: string where
  "percent_marker = ''Percentage Used (Wear-level):''"

definition flush_smart_to_eeprom :: "bool \<Rightarrow> 's tester \<Rightarrow> 's \<Rightarrow> 's" where
  "flush_smart_to_eeprom wr T s = (if wr then t_set_file T (Some [''=== NVMe SMART LOG PAGE 02h ==='',
     wear_marker @ '' 3'', percent_marker @ '' 60%'']) s else s)"

definition append_markers :: "bool \<Rightarrow> 's tester \<Rightarrow> 's \<Rightarrow> 's" where
  "append_markers wr T s = (if wr then t_set_file T (Some ((case t_file T s of None \<Rightarrow> [] | Some ls \<Rightarrow> ls)
     @ ['''', wear_marker @ '' 3'', percent_marker @ '' 60%''])) s else s)"

definition markers_found :: "string list \<Rightarrow> bool" where
  "markers_found ls \<longleftrightarrow> list_ex (sublist wear_marker) ls \<and> list_ex (sublist percent_marker) ls"

definition run_smart_eeprom_test :: "bool \<Rightarrow> 's tester \<Rightarrow> 's test" where
  "run_smart_eeprom_test wr T = call T (50 * 64) 2
     (for_each (\<lambda>i rest. require T (50 * 64) 1 (require T (50 * 64) 2 rest)) [0, 1, 2 :: nat] (\<lambda>s.
        let s1 = append_markers wr T (flush_smart_to_eeprom wr T s) in
        case t_file T s1 of None \<Rightarrow> return False s1
        | Some ls \<Rightarrow> call T (50 * 64) 2 (return (markers_found ls)) s1))"

section \<open>The suite\<close>

fun run_all :: "'s test list \<Rightarrow> 's \<Rightarrow> (nat \<times> 's) option" where
  "run_all [] s = Some (0, s)"
| "run_all (t # ts) s = Option.bind (t s) (\<lambda>(ok, s1).
     Option.bind (run_all ts s1) (\<lambda>(passed, s2). Some (of_bool ok + passed, s2)))"

definition suite :: "bool \<Rightarrow> 's tester \<Rightarrow> 's test list" where
  "suite wr T = [run_sequential_write_test T, run_random_write_protection_test T, run_zone_reset_test T,
     run_zone_resources_test T, run_read_empty_zone_test T, run_crypto_security_test T, run_wear_limit_test T,
     run_unaligned_read_test T, run_write_full_zone_test T, run_smart_eeprom_test wr T,
     run_thermal_shutdown_test T, run_read_split_zone_test T, run_multi_zone_reset_test T,
     run_thermal_stress_test T]"

text \<open>\<open>run_test.cpp\<close>: the exit code of \<open>main\<close> once the controller is there.\<close>

definition run_test_main :: "bool \<Rightarrow> 's tester \<Rightarrow> 's \<Rightarrow> (int \<times> 's) option" where
  "run_test_main wr T s = Option.bind (run_all (suite wr T) s) (\<lambda>(passed, s1).
     Some (if passed = 14 then 0 else 1, flush_smart_to_eeprom wr T s1))"

section \<open>Related testers\<close>

definition same_result :: "('s \<Rightarrow> 't \<Rightarrow> bool) \<Rightarrow> ('a \<times> 's) option \<Rightarrow> ('a \<times> 't) option \<Rightarrow> bool" where
  "same_result R x y \<longleftrightarrow> rel_option (rel_prod (=) R) x y"

lemma same_result_simps [simp]:
  "same_result R (Some (a, s)) (Some (b, t)) \<longleftrightarrow> a = b \<and> R s t" "same_result R None None"
  "same_result R (Some z) None \<longleftrightarrow> False" "same_result R None (Some z') \<longleftrightarrow> False"
  by (simp_all add: same_result_def)

text \<open>
  Two testers whose operations preserve a relation of their states and return the same: every
  test returns the same on both.
\<close>

locale related_testers =
  fixes R :: "'s \<Rightarrow> 't \<Rightarrow> bool" and T :: "'s tester" and U :: "'t tester"
  assumes gate_rel: "R s t \<Longrightarrow> same_result R (t_gate T lba op s) (t_gate U lba op t)"
    and temp_rel: "R s t \<Longrightarrow> R (t_temp T x s) (t_temp U x t)"
    and file_rel: "R s t \<Longrightarrow> t_file T s = t_file U t"
    and set_file_rel: "R s t \<Longrightarrow> R (t_set_file T f s) (t_set_file U f t)"
begin

definition test_rel :: "('s \<Rightarrow> ('a \<times> 's) option) \<Rightarrow> ('t \<Rightarrow> ('a \<times> 't) option) \<Rightarrow> bool" where
  "test_rel p q \<longleftrightarrow> (\<forall>s t. R s t \<longrightarrow> same_result R (p s) (q t))"

lemma bind_rel:
  "same_result R x y \<Longrightarrow> (\<And>a s t. R s t \<Longrightarrow> same_result R (f (a, s)) (g (a, t))) \<Longrightarrow>
   same_result R (Option.bind x f) (Option.bind y g)"
  by (cases x; cases y) auto

lemma return_rel: "test_rel (return b) (return b)"
  by (simp add: test_rel_def return_def)

lemma command_rel:
  "test_rel p q \<Longrightarrow> test_rel (require T lba op p) (require U lba op q)"
  "test_rel p q \<Longrightarrow> test_rel (call T lba op p) (call U lba op q)"
  "test_rel p q \<Longrightarrow> test_rel p' q' \<Longrightarrow> test_rel (refused_then T lba op p p') (refused_then U lba op q q')"
  unfolding test_rel_def require_def call_def refused_then_def by (auto intro!: bind_rel gate_rel)

lemma for_each_rel:
  "(\<And>x p q. test_rel p q \<Longrightarrow> test_rel (f x p) (g x q)) \<Longrightarrow> test_rel p q \<Longrightarrow>
   test_rel (for_each f xs p) (for_each g xs q)"
  by (induction xs) auto

lemma temp_test_rel: "test_rel p q \<Longrightarrow> test_rel (\<lambda>s. p (t_temp T x s)) (\<lambda>t. q (t_temp U x t))"
  by (simp add: test_rel_def temp_rel)

lemmas test_rels = return_rel command_rel for_each_rel temp_test_rel

lemma plain_tests_rel:
  "test_rel (run_sequential_write_test T) (run_sequential_write_test U)"
  "test_rel (run_random_write_protection_test T) (run_random_write_protection_test U)"
  "test_rel (run_zone_resources_test T) (run_zone_resources_test U)"
  "test_rel (run_read_empty_zone_test T) (run_read_empty_zone_test U)"
  "test_rel (run_crypto_security_test T) (run_crypto_security_test U)"
  "test_rel (run_wear_limit_test T) (run_wear_limit_test U)"
  "test_rel (run_unaligned_read_test T) (run_unaligned_read_test U)"
  "test_rel (run_write_full_zone_test T) (run_write_full_zone_test U)"
  "test_rel (run_read_split_zone_test T) (run_read_split_zone_test U)"
  "test_rel (run_multi_zone_reset_test T) (run_multi_zone_reset_test U)"
  unfolding run_sequential_write_test_def run_random_write_protection_test_def run_zone_resources_test_def
    run_read_empty_zone_test_def run_crypto_security_test_def run_wear_limit_test_def run_unaligned_read_test_def
    run_write_full_zone_test_def run_read_split_zone_test_def run_multi_zone_reset_test_def
  by (intro test_rels; assumption)+

lemma zone_reset_rel: "test_rel (run_zone_reset_test T) (run_zone_reset_test U)"
  unfolding run_zone_reset_test_def
  by (intro command_rel) (auto simp: test_rel_def intro!: bind_rel gate_rel)

lemma thermal_shutdown_rel: "test_rel (run_thermal_shutdown_test T) (run_thermal_shutdown_test U)"
  unfolding run_thermal_shutdown_test_def by (intro test_rels)

lemma stress_page_rel: "test_rel p q \<Longrightarrow> test_rel (stress_page T i p) (stress_page U i q)"
  unfolding stress_page_def by (cases "i = 32") (auto intro!: test_rels)

lemma thermal_stress_rel: "test_rel (run_thermal_stress_test T) (run_thermal_stress_test U)"
  unfolding run_thermal_stress_test_def by (intro test_rels stress_page_rel)

lemma flush_rel: "R s t \<Longrightarrow> R (flush_smart_to_eeprom wr T s) (flush_smart_to_eeprom wr U t)"
  by (simp add: flush_smart_to_eeprom_def set_file_rel)

lemma append_rel: "R s t \<Longrightarrow> R (append_markers wr T s) (append_markers wr U t)"
  using file_rel [of s t] by (simp add: append_markers_def set_file_rel)

lemma smart_eeprom_rel: "test_rel (run_smart_eeprom_test wr T) (run_smart_eeprom_test wr U)"
  unfolding run_smart_eeprom_test_def
proof (intro command_rel for_each_rel; (assumption)?)
  show "test_rel (\<lambda>s. let s1 = append_markers wr T (flush_smart_to_eeprom wr T s) in
        case t_file T s1 of None \<Rightarrow> return False s1 | Some ls \<Rightarrow> call T (50 * 64) 2 (return (markers_found ls)) s1)
     (\<lambda>s. let s1 = append_markers wr U (flush_smart_to_eeprom wr U s) in
        case t_file U s1 of None \<Rightarrow> return False s1 | Some ls \<Rightarrow> call U (50 * 64) 2 (return (markers_found ls)) s1)"
    unfolding test_rel_def Let_def
  proof (intro allI impI)
    fix s t assume "R s t"
    then have r: "R (append_markers wr T (flush_smart_to_eeprom wr T s)) (append_markers wr U (flush_smart_to_eeprom wr U t))"
      (is "R ?s ?t") by (intro append_rel flush_rel)
    have "test_rel (call T (50 * 64) 2 (return b)) (call U (50 * 64) 2 (return b))" for b by (intro test_rels)
    then show "same_result R (case t_file T ?s of None \<Rightarrow> return False ?s | Some ls \<Rightarrow> call T (50 * 64) 2 (return (markers_found ls)) ?s)
      (case t_file U ?t of None \<Rightarrow> return False ?t | Some ls \<Rightarrow> call U (50 * 64) 2 (return (markers_found ls)) ?t)"
      using r return_rel [of False] file_rel [OF r] by (auto simp: test_rel_def split: option.split)
  qed
qed

lemma run_all_rel: "list_all2 test_rel ps qs \<Longrightarrow> test_rel (run_all ps) (run_all qs)"
proof (induction rule: list_all2_induct)
  case (Cons p ps q qs)
  then show ?case
    unfolding test_rel_def run_all.simps by (auto intro!: bind_rel)
qed (simp add: test_rel_def)

lemma suite_rel: "test_rel (run_test_main wr T) (run_test_main wr U)"
proof -
  have "list_all2 test_rel (suite wr T) (suite wr U)"
    by (simp add: suite_def plain_tests_rel zone_reset_rel thermal_shutdown_rel thermal_stress_rel smart_eeprom_rel)
  from run_all_rel [OF this] show ?thesis
    unfolding test_rel_def run_test_main_def by (auto intro!: bind_rel flush_rel)
qed

end

end
