(* ===== verification/Zns_Acceptance.thy ===== *)
theory Zns_Acceptance
  imports Zns_Tests
begin

text \<open>
  The acceptance tests on the whole stack. The controller with its driver, bridge and state
  machine is related to the atomic device of \<open>zns_command\<close> (\<open>stack\<close>), on which every test is
  evaluated; the outcome of \<open>run_test.cpp\<close> follows.
\<close>

section \<open>The controller and the atomic device\<close>

type_synonym 'a filed = "'a \<times> string list option"

definition ctrl_tester :: "zns_ctrl filed tester" where
  "ctrl_tester = \<lparr>t_gate = (\<lambda>lba op (k, f). map_option (\<lambda>(r, k1). (r, k1, f)) (direct_zns_gate lba op k)),
     t_temp = (\<lambda>x (k, f). (set_temperature x k, f)), t_file = snd, t_set_file = (\<lambda>g (k, f). (k, g))\<rparr>"

definition dev_gate :: "u64 \<Rightarrow> int \<Rightarrow> zns_dev \<Rightarrow> status \<times> zns_dev" where
  "dev_gate lba op d = (if op \<in> {0, 1, 2}
     then (let r = zns_command (word_of_int op) (lba_zone lba) (lba_page lba) d
           in (if fst (fst r) = 3 then SUCCESS else FAILURE, snd r))
     else (FAILURE, d))"

text \<open>\<open>b\<close>: the bridge holds a controller, so that its temperature reaches the thermal input.\<close>

definition dev_tester :: "bool \<Rightarrow> zns_dev filed tester" where
  "dev_tester b = \<lparr>t_gate = (\<lambda>lba op (d, f). let (r, d1) = dev_gate lba op d in Some (r, d1, f)),
     t_temp = (\<lambda>x (d, f). (if b then d\<lparr>zd_hot := check_thermal_shutdown x\<rparr> else d, f)),
     t_file = snd, t_set_file = (\<lambda>g (d, f). (d, g))\<rparr>"

definition runs_device :: "bool \<Rightarrow> zns_ctrl filed \<Rightarrow> zns_dev filed \<Rightarrow> bool" where
  "runs_device b = (\<lambda>(k, f) (d, g). f = g \<and> (\<exists>zs. ctrl_idle k zs d) \<and> (hw_temperature (drv_hw (zc_driver k)) \<noteq> None \<longleftrightarrow> b))"

lemma poll_temperature:
  assumes "poll_status D = Some r"
  shows "hw_temperature (drv_hw (snd r)) = hw_temperature (drv_hw D)"
proof (rule poll_status.raw_induct [OF _ assms, where P = "\<lambda>D r. hw_temperature (drv_hw (snd r)) = hw_temperature (drv_hw D)"])
  fix poll D r
  assume IH: "\<And>D r. poll D = Some r \<Longrightarrow> hw_temperature (drv_hw (snd r)) = hw_temperature (drv_hw D)"
    and r: "(let r = csr_read32 CSR_ZNS_OUT_STATUS D in if fst r = 2 \<or> fst r = 0 then poll (snd r) else Some r) = Some r"
  have "hw_temperature (drv_hw (snd (csr_read32 CSR_ZNS_OUT_STATUS D))) = hw_temperature (drv_hw D)"
    by (simp add: csr_read_status drv_tick_def tick_temperature)
  with r show "hw_temperature (drv_hw (snd r)) = hw_temperature (drv_hw D)"
    by (auto simp: Let_def IH split: if_splits)
qed

lemma csr_write_temperature [simp]: "hw_temperature (drv_hw (csr_write32 v a D)) = hw_temperature (drv_hw D)"
  by (simp add: csr_write32_def present_lba_def bridge_defs split: csr_addr.split)

lemma csr_read_err: "csr_read32 CSR_ZNS_ERR_CODE D = (ucast (sim_get_out_err_code (drv_hw D)), D)"
  by (simp add: csr_read32_def)

lemma command_temperature:
  "zns_process_nvme_command q cqe D = Some (cqe', D') \<Longrightarrow> hw_temperature (drv_hw D') = hw_temperature (drv_hw D)"
  by (auto simp: zns_process_nvme_command_def Let_def bind_eq_Some_conv tick_temperature csr_read_err
      split: sum.splits dest!: poll_temperature)

lemma mirror_driver: "mirror_zones zid op k = Some k' \<Longrightarrow> zc_driver k' = zc_driver k"
  by (auto simp: mirror_zones_def bind_eq_Some_conv split: option.splits if_splits)

lemma gate_temperature:
  "direct_zns_gate lba op k = Some (r, k') \<Longrightarrow>
   hw_temperature (drv_hw (zc_driver k')) = hw_temperature (drv_hw (zc_driver k))"
  by (auto simp: direct_zns_gate_def Let_def bind_eq_Some_conv split: if_splits dest!: command_temperature mirror_driver)

lemma set_temperature_idle:
  assumes "ctrl_idle k zs d"
  shows "ctrl_idle (set_temperature x k) zs
    (if hw_temperature (drv_hw (zc_driver k)) = None then d else d\<lparr>zd_hot := check_thermal_shutdown x\<rparr>)"
  using assms
  by (auto simp: ctrl_idle_def set_temperature_def Let_def hw_idle_def hw_core_def core_of_def dev_of_def thermal_input_def)

interpretation stack: related_testers "runs_device b" ctrl_tester "dev_tester b" for b
proof
  fix s t lba op x f
  assume r: "runs_device b s t"
  obtain k d g where st: "s = (k, g)" "t = (d, g)" using r by (cases s; cases t) (auto simp: runs_device_def)
  from r obtain zs where i: "ctrl_idle k zs d" "hw_temperature (drv_hw (zc_driver k)) \<noteq> None \<longleftrightarrow> b"
    by (auto simp: runs_device_def st)
  have "hw_temperature (drv_hw (zc_driver (set_temperature x k))) \<noteq> None \<longleftrightarrow> b"
    using i(2) by (simp add: set_temperature_def Let_def)
  moreover have "ctrl_idle (set_temperature x k) zs (if b then d\<lparr>zd_hot := check_thermal_shutdown x\<rparr> else d)"
    using set_temperature_idle [OF i(1), of x] i(2) by auto
  ultimately show "runs_device b (t_temp ctrl_tester x s) (t_temp (dev_tester b) x t)"
    by (auto simp: st ctrl_tester_def dev_tester_def runs_device_def)
  show "t_file ctrl_tester s = t_file (dev_tester b) t" by (simp add: st ctrl_tester_def dev_tester_def)
  show "runs_device b (t_set_file ctrl_tester f s) (t_set_file (dev_tester b) f t)"
    using i by (auto simp: st ctrl_tester_def dev_tester_def runs_device_def)
  show "same_result (runs_device b) (t_gate ctrl_tester lba op s) (t_gate (dev_tester b) lba op t)"
  proof (cases "op \<in> {0, 1, 2}")
    case True
    let ?r = "zns_command (word_of_int op) (lba_zone lba) (lba_page lba) d"
    from gate_command [OF i(1) True, of lba] obtain k' where
      k': "direct_zns_gate lba op k = Some (if fst (fst ?r) = 3 then SUCCESS else FAILURE, k')"
      "ctrl_idle k' (if fst (fst ?r) = 3 then mirrored (lba_zone lba) op zs else zs) (snd ?r)" .
    have "t_gate ctrl_tester lba op s = Some (if fst (fst ?r) = 3 then SUCCESS else FAILURE, k', g)"
      by (simp add: st ctrl_tester_def k'(1))
    moreover have "t_gate (dev_tester b) lba op t = Some (if fst (fst ?r) = 3 then SUCCESS else FAILURE, snd ?r, g)"
      using True by (simp add: st dev_tester_def dev_gate_def Let_def)
    moreover have "runs_device b (k', g) (snd ?r, g)"
      using k'(2) gate_temperature [OF k'(1)] i(2) by (auto simp: runs_device_def)
    ultimately show ?thesis by simp
  next
    case False
    then show ?thesis using gate_bad_operation [OF False] r by (simp add: st ctrl_tester_def dev_tester_def dev_gate_def)
  qed
qed

section \<open>The tests on the device\<close>

text \<open>
  Commands on a device given by its fields, as rewrite rules: a test is evaluated from its first
  command on, with descriptors kept as packed words.
\<close>

definition dev_at :: "bool \<Rightarrow> (nat \<Rightarrow> u32) \<Rightarrow> 4 word \<Rightarrow> u32 \<Rightarrow> zns_dev" where
  "dev_at h B n w = \<lparr>zd_bram = B, zd_open = n, zd_wdata = w, zd_hot = h\<rparr>"

lemma dev_gate_at:
  assumes "in_bram (lba_zone lba)"
  shows "dev_gate lba 1 (dev_at False B n w) = (let z = unat (lba_zone lba); c = B z; d = next_descriptor 1 c w in
      if zone_is_full c \<or> lba_page lba \<noteq> ucast (zone_wptr c) \<or> zone_wptr c = 0 \<and> 4 \<le> n then (FAILURE, dev_at False B n w)
      else (SUCCESS, dev_at False (B(z := d)) (track_open 1 c n) d))"
    and "dev_gate lba 2 (dev_at False B n w) = (let z = unat (lba_zone lba); c = B z; d = next_descriptor 2 c w in
      if 10 \<le> zone_erase_cnt c then (FAILURE, dev_at False B n w)
      else (SUCCESS, dev_at False (B(z := d)) (track_open 2 c n) d))"
    and "dev_gate lba 0 (dev_at False B n w) = (let z = unat (lba_zone lba); c = B z in
      if ucast (zone_wptr c) \<le> lba_page lba then (FAILURE, dev_at False B n w)
      else (SUCCESS, dev_at False (B(z := w)) n w))"
    and "op \<in> {0, 1, 2} \<Longrightarrow> dev_gate lba op (dev_at True B n w) = (FAILURE, dev_at True B n w)"
  by (auto simp: dev_gate_def zns_command_inside [OF assms] Let_def dev_at_def zns_verdict_def zns_rules_checker_def
      next_descriptor_def track_open_def)

lemma dev_gate_bad: "op \<notin> {0, 1, 2} \<Longrightarrow> dev_gate lba op d = (FAILURE, d)"
  by (simp add: dev_gate_def)

lemma dev_temp_at [simp]: "t_temp (dev_tester b) x (dev_at h B n w, f) = (dev_at (if b then 85 \<le> x else h) B n w, f)"
  by (simp add: dev_tester_def dev_at_def check_thermal_shutdown_def)

lemma dev_file [simp]: "t_file (dev_tester b) (d, f) = f" "t_set_file (dev_tester b) g (d, f) = (d, g)"
  by (simp_all add: dev_tester_def)

lemma dev_commands:
  "require (dev_tester b) lba op rest (dev_at h B n w, f) = (let r = dev_gate lba op (dev_at h B n w) in
     if fst r = FAILURE then Some (False, snd r, f) else rest (snd r, f))"
  "call (dev_tester b) lba op rest (dev_at h B n w, f) = rest (snd (dev_gate lba op (dev_at h B n w)), f)"
  "refused_then (dev_tester b) lba op good bad (dev_at h B n w, f) = (let r = dev_gate lba op (dev_at h B n w) in
     if fst r = FAILURE then good (snd r, f) else bad (snd r, f))"
  by (simp_all add: require_def call_def refused_then_def dev_tester_def Let_def split_beta)

lemma unat_small [simp]: "in_bram (numeral k) \<longleftrightarrow> unat (numeral k :: u32) < 1024" "in_bram 1"
  by (simp_all add: in_bram_def BRAM_CELLS_def)

lemmas dev_eval = dev_gate_at dev_gate_bad dev_commands Let_def next_descriptor_def track_open_def zone_word_simps
  lba_zone_def lba_page_def

lemma small_words [simp]: "\<not> (4 :: 4 word) \<le> 1" "\<not> (10 :: u8) \<le> 1"
  by (simp_all add: word_le_nat_alt)

lemma sequential_write_passes:
  "run_sequential_write_test (dev_tester b) (dev_at False (\<lambda>_. 0) 0 0, f)
   = Some (True, dev_at False ((\<lambda>_. 0)(0 := pack_zone 0 False 4)) 1 (pack_zone 0 False 4), f)"
  by (simp add: run_sequential_write_test_def dev_eval return_def)

lemma random_write_protection_passes:
  "B 0 = pack_zone 0 False 4 \<Longrightarrow> run_random_write_protection_test (dev_tester b) (dev_at False B n w, f)
   = Some (True, dev_at False B n w, f)"
  by (simp add: run_random_write_protection_test_def dev_eval return_def)

lemma zone_reset_passes:
  "B 0 = pack_zone 0 False 4 \<Longrightarrow> run_zone_reset_test (dev_tester b) (dev_at False B 1 w, f)
   = Some (True, dev_at False (B(0 := pack_zone 1 False 1)) 1 (pack_zone 1 False 1), f)"
  by (simp add: run_zone_reset_test_def dev_eval) (simp add: dev_tester_def dev_eval)

lemma zone_resources_passes:
  "B 0 = pack_zone 1 False 1 \<Longrightarrow> B 1 = 0 \<Longrightarrow> B 2 = 0 \<Longrightarrow> B 3 = 0 \<Longrightarrow> B 4 = 0 \<Longrightarrow> B 5 = 0 \<Longrightarrow>
   run_zone_resources_test (dev_tester b) (dev_at False B 1 w, f) = Some (True, dev_at False (B(0 := pack_zone 2 False 0,
     1 := pack_zone 1 False 0, 2 := pack_zone 1 False 0, 3 := pack_zone 1 False 0, 4 := pack_zone 1 False 0)) 0
     (pack_zone 1 False 0), f)"
  by (simp add: run_zone_resources_test_def dev_eval return_def)

lemma read_empty_zone_passes:
  "B 10 = 0 \<Longrightarrow> run_read_empty_zone_test (dev_tester b) (dev_at False B 0 w, f)
   = Some (True, dev_at False (B(10 := pack_zone 2 False 0)) 0 (pack_zone 2 False 0), f)"
  by (simp add: run_read_empty_zone_test_def dev_eval return_def)

lemma crypto_security_passes:
  "B 20 = 0 \<Longrightarrow> run_crypto_security_test (dev_tester b) (dev_at False B 0 w, f)
   = Some (True, dev_at False (B(20 := pack_zone 1 False 0)) 0 (pack_zone 1 False 0), f)"
  by (simp add: run_crypto_security_test_def dev_eval return_def)

lemma wear_limit_passes:
  "B 30 = 0 \<Longrightarrow> run_wear_limit_test (dev_tester b) (dev_at False B 0 w, f)
   = Some (True, dev_at False (B(30 := pack_zone 5 False 0)) 0 (pack_zone 5 False 0), f)"
  by (simp add: run_wear_limit_test_def upt_rec dev_eval return_def)

lemma unaligned_read_passes:
  "run_unaligned_read_test (dev_tester b) (dev_at False B n w, f) = Some (True, dev_at False B n w, f)"
  by (simp add: run_unaligned_read_test_def dev_eval return_def)

lemma found_markers: "markers_found [a, wear_marker @ x, percent_marker @ y, b, c, d]"
  by (auto simp: markers_found_def)

lemma smart_eeprom_passes:
  "B 50 = 0 \<Longrightarrow> run_smart_eeprom_test True (dev_tester b) (dev_at False B 0 w, f)
   = Some (True, dev_at False (B(50 := pack_zone 5 False 0)) 0 (pack_zone 5 False 0),
       Some [''=== NVMe SMART LOG PAGE 02h ==='', wear_marker @ '' 3'', percent_marker @ '' 60%'',
         '''', wear_marker @ '' 3'', percent_marker @ '' 60%''])"
  by (simp add: run_smart_eeprom_test_def dev_eval flush_smart_to_eeprom_def append_markers_def found_markers return_def)

lemma thermal_shutdown_passes:
  "B 60 = 0 \<Longrightarrow> run_thermal_shutdown_test (dev_tester b) (dev_at False B 0 w, f)
   = Some (True, dev_at False (B(60 := pack_zone 1 False 0)) 0 (pack_zone 1 False 0), f)"
  by (simp add: run_thermal_shutdown_test_def dev_eval return_def)

lemma read_split_zone_passes:
  "B 60 = pack_zone 1 False 0 \<Longrightarrow> run_read_split_zone_test (dev_tester b) (dev_at False B 0 w, f)
   = Some (True, dev_at False (B(60 := pack_zone 3 False 0)) 0 (pack_zone 3 False 0), f)"
  by (simp add: run_read_split_zone_test_def dev_eval return_def)

lemma multi_zone_reset_passes:
  "B 70 = 0 \<Longrightarrow> B 71 = 0 \<Longrightarrow> B 72 = 0 \<Longrightarrow> run_multi_zone_reset_test (dev_tester b) (dev_at False B 0 w, f)
   = Some (True, dev_at False (B(70 := pack_zone 2 False 0, 71 := pack_zone 2 False 0, 72 := pack_zone 2 False 0)) 0
       (pack_zone 2 False 0), f)"
  by (simp add: run_multi_zone_reset_test_def dev_eval return_def)

lemma for_each_append: "for_each body (xs @ ys) rest = for_each body xs (for_each body ys rest)"
  by (induction xs) simp_all

lemma zone_lba:
  assumes "z < 1024" "i < 64"
  shows "lba_zone (word_of_nat (z * 64) + word_of_nat i) = word_of_nat z"
    and "lba_page (word_of_nat (z * 64) + word_of_nat i) = word_of_nat i"
proof -
  let ?l = "word_of_nat (z * 64) + word_of_nat i :: u64"
  have l: "?l = word_of_nat (z * 64 + i)" by simp
  have u: "unat ?l = z * 64 + i" unfolding l unat_of_nat using assms by simp
  have "?l div 64 = word_of_nat z" using assms u by (simp add: word_unat_eq_iff unat_div unat_of_nat)
  then show "lba_zone ?l = word_of_nat z"
    unfolding gate_zone [symmetric] using assms by (simp add: unsigned_of_nat take_bit_nat_eq_self)
  have m: "(0x3F :: u64) = mask 6" by (simp add: mask_eq_exp_minus_1)
  have "?l AND 0x3F = ?l mod 64" unfolding m take_bit_eq_mask [symmetric] by (simp add: take_bit_eq_mod)
  then have "?l AND 0x3F = word_of_nat i" using assms u by (simp add: word_unat_eq_iff unat_mod unat_of_nat)
  then show "lba_page ?l = word_of_nat i" using assms by (simp add: lba_page_def unsigned_of_nat take_bit_nat_eq_self)
qed

lemma write_next_page:
  assumes "z < 1024" "0 < p" "p < 63" "B z = pack_zone e False (word_of_nat p)"
  shows "dev_gate (word_of_nat (z * 64) + word_of_nat p) 1 (dev_at False B n w)
    = (SUCCESS, dev_at False (B(z := pack_zone e False (word_of_nat (Suc p)))) n (pack_zone e False (word_of_nat (Suc p))))"
proof -
  note l = zone_lba [OF assms(1), of p]
  have p: "p < 64" using assms(3) by simp
  have z: "unat (word_of_nat z :: u32) = z" using assms(1) by (simp add: unat_of_nat)
  have c: "zone_wptr (B z) = word_of_nat p" "\<not> zone_is_full (B z)" "zone_erase_cnt (B z) = e"
    by (simp_all add: assms(4) zone_word_simps)
  have n: "unat (word_of_nat p :: 7 word) = p" using p by (simp add: unat_of_nat)
  have "(word_of_nat p :: 7 word) \<noteq> 0" "(word_of_nat p :: 7 word) \<noteq> 63" "(word_of_nat p :: u32) = ucast (word_of_nat p :: 7 word)"
    using assms(2,3) n by (simp_all add: word_unat_eq_iff unat_of_nat)
  then show ?thesis
    using c l [OF p] z assms(1)
    by (subst dev_gate_at) (simp_all add: in_bram_def BRAM_CELLS_def Let_def next_descriptor_def track_open_def add.commute)
qed

text \<open>A loop over the pages of a zone whose body goes on exactly when its write is accepted.\<close>

definition writes_page :: "nat \<Rightarrow> nat \<Rightarrow> (nat \<Rightarrow> zns_dev filed test \<Rightarrow> zns_dev filed test) \<Rightarrow> nat \<Rightarrow> bool" where
  "writes_page z k body i \<longleftrightarrow> (\<forall>rest B n w d f. i < k \<longrightarrow>
     dev_gate (word_of_nat (z * 64) + word_of_nat i) 1 (dev_at False B n w) = (SUCCESS, d) \<longrightarrow>
     body i rest (dev_at False B n w, f) = rest (d, f))"

lemma write_pages:
  assumes body: "\<And>i. writes_page z k body i" and "z < 1024" "0 < p" "p + m \<le> 63" "p + m \<le> k"
    and "B z = pack_zone e False (word_of_nat p)"
  shows "\<exists>w'. for_each body [p..<p + m] rest (dev_at False B n w, f)
    = rest (dev_at False (B(z := pack_zone e False (word_of_nat (p + m)))) n w', f)"
  using assms(3-6)
proof (induction m arbitrary: p B w)
  case 0
  then have "B(z := pack_zone e False (word_of_nat (p + 0))) = B" by (simp add: fun_upd_idem)
  then show ?case by (intro exI [of _ w]) simp
next
  case (Suc m)
  let ?B = "B(z := pack_zone e False (word_of_nat (Suc p)))" and ?w = "pack_zone e False (word_of_nat (Suc p))"
  have u: "[p..<p + Suc m] = p # [Suc p..<Suc p + m]" by (simp add: upt_conv_Cons)
  have step: "body p rest' (dev_at False B n w, f) = rest' (dev_at False ?B n ?w, f)" for rest'
    using body [of p] write_next_page [of z p B e n w] assms(2) Suc.prems by (simp add: writes_page_def)
  have "\<exists>w'. for_each body [Suc p..<Suc p + m] rest (dev_at False ?B n ?w, f)
      = rest (dev_at False (?B(z := pack_zone e False (word_of_nat (Suc p + m)))) n w', f)"
    by (rule Suc.IH) (use Suc.prems in simp_all)
  then show ?case unfolding u for_each.simps step by (simp only: fun_upd_upd add_Suc add_Suc_right)
qed

lemma require_writes: "writes_page z k (\<lambda>i. require (dev_tester b) (word_of_nat (z * 64) + word_of_nat i) 1) i"
  by (simp add: writes_page_def dev_commands)

lemma stress_writes: "writes_page 80 (if b then 32 else 64) (stress_page (dev_tester b)) i"
  by (auto simp: writes_page_def stress_page_def dev_commands)

lemma write_full_zone_passes:
  assumes "B 40 = 0"
  shows "run_write_full_zone_test (dev_tester b) (dev_at False B 0 w, f)
   = Some (True, dev_at False (B(40 := pack_zone 2 False 0)) 0 (pack_zone 2 False 0), f)"
proof -
  have u: "[0..<64] = 0 # [1..<1 + 62] @ [63 :: nat]" by (simp add: upt_rec_numeral upt_rec)
  let ?rest = "for_each (\<lambda>i. require (dev_tester b) (2560 + word_of_nat i) 1) [63] (refused_then (dev_tester b) 2560 1
      (call (dev_tester b) 2560 2 (return True)) (call (dev_tester b) 2560 2 (return False)))"
  obtain w' where w': "for_each (\<lambda>i. require (dev_tester b) (2560 + word_of_nat i) 1) [1..<1 + 62] ?rest
     (dev_at False (B(40 := pack_zone 1 False 1)) 1 (pack_zone 1 False 1), f)
    = ?rest (dev_at False (B(40 := pack_zone 1 False 63)) 1 w', f)"
    using write_pages [where p = 1 and m = 62 and e = 1 and rest = ?rest and n = 1 and B = "B(40 := pack_zone 1 False 1)",
        OF require_writes [where z = 40 and k = 63 and b = b]] by auto
  show ?thesis
    unfolding run_write_full_zone_test_def u for_each.simps for_each_append
    using assms w' by (simp add: dev_eval return_def)
qed

lemma thermal_stress_passes:
  assumes "B 80 = 0"
  shows "run_thermal_stress_test (dev_tester True) (dev_at False B 0 w, f)
   = Some (True, dev_at False (B(80 := pack_zone 2 False 0)) 0 (pack_zone 2 False 0), f)"
proof -
  have u: "[0..<64] = 0 # [1..<1 + 31] @ 32 # [33 :: nat..<64]" by (simp add: upt_rec_numeral upt_rec)
  let ?over = "\<lambda>s. return False (t_temp (dev_tester True) 35 s)"
  let ?rest = "stress_page (dev_tester True) 32 (for_each (stress_page (dev_tester True)) [33..<64] ?over)"
  obtain w' where w': "for_each (stress_page (dev_tester True)) [1..<1 + 31] ?rest
     (dev_at False (B(80 := pack_zone 1 False 1)) 1 (pack_zone 1 False 1), f)
    = ?rest (dev_at False (B(80 := pack_zone 1 False 32)) 1 w', f)"
    using write_pages [where p = 1 and m = 31 and e = 1 and rest = ?rest and n = 1 and B = "B(80 := pack_zone 1 False 1)",
        OF stress_writes [where b = True]] by auto
  have first: "stress_page (dev_tester True) 0 r (dev_at False (B(80 := pack_zone 1 False 0)) 0 x, f)
      = r (dev_at False (B(80 := pack_zone 1 False 1)) 1 (pack_zone 1 False 1), f)" for r x
    by (simp add: stress_page_def dev_eval)
  have last: "?rest (dev_at False (B(80 := pack_zone 1 False 32)) 1 w', f)
      = Some (True, dev_at False (B(80 := pack_zone 2 False 0)) 0 (pack_zone 2 False 0), f)"
    by (simp add: stress_page_def dev_eval return_def)
  show ?thesis
    unfolding run_thermal_stress_test_def u for_each.simps for_each_append
    using assms w' first last by (simp add: dev_eval del: upt_rec_numeral)
qed

text \<open>Without a controller behind the bridge nothing trips: the stress test writes the whole zone and fails.\<close>

lemma thermal_stress_fails:
  assumes "B 80 = 0"
  shows "run_thermal_stress_test (dev_tester False) (dev_at False B 0 w, f)
   = Some (False, dev_at False (B(80 := pack_zone 1 True 64)) 0 (pack_zone 1 True 64), f)"
proof -
  have u: "[0..<64] = 0 # [1..<1 + 62] @ [63 :: nat]" by (simp add: upt_rec_numeral upt_rec)
  let ?over = "\<lambda>s. return False (t_temp (dev_tester False) 35 s)"
  let ?rest = "stress_page (dev_tester False) 63 ?over"
  obtain w' where w': "for_each (stress_page (dev_tester False)) [1..<1 + 62] ?rest
     (dev_at False (B(80 := pack_zone 1 False 1)) 1 (pack_zone 1 False 1), f)
    = ?rest (dev_at False (B(80 := pack_zone 1 False 63)) 1 w', f)"
    using write_pages [where p = 1 and m = 62 and e = 1 and rest = ?rest and n = 1 and B = "B(80 := pack_zone 1 False 1)",
        OF stress_writes [where b = False]] by auto
  have first: "stress_page (dev_tester False) 0 r (dev_at False (B(80 := pack_zone 1 False 0)) 0 x, f)
      = r (dev_at False (B(80 := pack_zone 1 False 1)) 1 (pack_zone 1 False 1), f)" for r x
    by (simp add: stress_page_def dev_eval)
  have last: "?rest (dev_at False (B(80 := pack_zone 1 False 63)) 1 w', f)
      = Some (False, dev_at False (B(80 := pack_zone 1 True 64)) 0 (pack_zone 1 True 64), f)"
    by (simp add: stress_page_def dev_eval return_def)
  show ?thesis
    unfolding run_thermal_stress_test_def u for_each.simps for_each_append
    using assms w' first last by (simp add: dev_eval del: upt_rec_numeral)
qed

section \<open>The outcome of the suite\<close>

definition smart_log :: "string list" where
  "smart_log = [''=== NVMe SMART LOG PAGE 02h ==='', wear_marker @ '' 3'', percent_marker @ '' 60%'']"

text \<open>The descriptors after the suite: nothing is open, and the tests have used up these erases.\<close>

definition used_bram :: "nat \<Rightarrow> u32" where
  "used_bram = (\<lambda>_. 0)(0 := pack_zone 2 False 0, 1 := pack_zone 1 False 0, 2 := pack_zone 1 False 0,
     3 := pack_zone 1 False 0, 4 := pack_zone 1 False 0, 10 := pack_zone 2 False 0, 20 := pack_zone 1 False 0,
     30 := pack_zone 5 False 0, 40 := pack_zone 2 False 0, 50 := pack_zone 5 False 0, 60 := pack_zone 3 False 0,
     70 := pack_zone 2 False 0, 71 := pack_zone 2 False 0, 72 := pack_zone 2 False 0)"

lemmas passes = sequential_write_passes random_write_protection_passes zone_reset_passes zone_resources_passes
  read_empty_zone_passes crypto_security_passes wear_limit_passes unaligned_read_passes write_full_zone_passes
  smart_eeprom_passes thermal_shutdown_passes read_split_zone_passes multi_zone_reset_passes

lemma device_suite:
  "run_test_main True (dev_tester True) (dev_at False (\<lambda>_. 0) 0 0, f)
     = Some (0, dev_at False (used_bram(80 := pack_zone 2 False 0)) 0 (pack_zone 2 False 0), Some smart_log)"
  "run_test_main True (dev_tester False) (dev_at False (\<lambda>_. 0) 0 0, f)
     = Some (1, dev_at False (used_bram(80 := pack_zone 1 True 64)) 0 (pack_zone 1 True 64), Some smart_log)"
  by (simp_all add: run_test_main_def suite_def passes thermal_stress_passes thermal_stress_fails used_bram_def
      flush_smart_to_eeprom_def smart_log_def)

text \<open>
  C16. The acceptance tests of \<open>run_test.cpp\<close> on the whole stack, from an idle device with empty
  zones and a writable diagnostic file: the program ends, with exit code 0 (all fourteen tests
  pass) exactly when the bridge holds a controller; it leaves the device idle with no zone open,
  the erases of the tests counted in the descriptors, and the three lines of the log in the file.
  Without a controller behind the bridge one test fails, the thermal stress test.
\<close>

theorem acceptance_suite_outcome:
  assumes "ctrl_idle k zs (dev_at False (\<lambda>_. 0) 0 0)"
  shows "\<exists>k' zs' d. run_test_main True ctrl_tester (k, f) =
       Some (if hw_temperature (drv_hw (zc_driver k)) = None then 1 else 0, k', Some smart_log)
     \<and> ctrl_idle k' zs' d \<and> zd_open d = 0 \<and> (\<forall>z. z \<noteq> 80 \<longrightarrow> zd_bram d z = used_bram z)"
proof -
  define b where "b = (hw_temperature (drv_hw (zc_driver k)) \<noteq> None)"
  define c where "c = (if b then pack_zone 2 False 0 else pack_zone 1 True 64)"
  have "runs_device b (k, f) (dev_at False (\<lambda>_. 0) 0 0, f)" using assms by (auto simp: runs_device_def b_def)
  then have "same_result (runs_device b) (run_test_main True ctrl_tester (k, f)) (run_test_main True (dev_tester b) (dev_at False (\<lambda>_. 0) 0 0, f))"
    using stack.suite_rel [of b True] unfolding stack.test_rel_def by blast
  moreover have "run_test_main True (dev_tester b) (dev_at False (\<lambda>_. 0) 0 0, f)
      = Some (if b then 0 else 1, dev_at False (used_bram(80 := c)) 0 c, Some smart_log)"
    by (cases b) (simp_all add: device_suite c_def)
  ultimately obtain k' zs' where "run_test_main True ctrl_tester (k, f) = Some (if b then 0 else 1, k', Some smart_log)"
    "ctrl_idle k' zs' (dev_at False (used_bram(80 := c)) 0 c)"
    by (cases "run_test_main True ctrl_tester (k, f)") (auto simp: runs_device_def)
  then show ?thesis by (auto simp: b_def dev_at_def intro!: exI [of _ "dev_at False (used_bram(80 := c)) 0 c"])
qed

definition warm_ctrl :: zns_ctrl where
  "warm_ctrl = Controller_new 1024 (booted_driver\<lparr>drv_hw := boot_hardware power_on (blank_hw (Some 35))\<rparr>)"

lemma warm_ctrl_idle:
  "ctrl_idle warm_ctrl (replicate 1024 ZnsZone_zero) (dev_at False (\<lambda>_. 0) 0 0)"
  "hw_temperature (drv_hw (zc_driver warm_ctrl)) = Some 35"
proof -
  have "hw_idle (boot_hardware power_on (blank_hw (Some 35))) (dev_at False (\<lambda>_. 0) 0 0)"
    using boot_idle [of power_on "blank_hw (Some 35)"]
    by (simp add: power_on_def blank_hw_def thermal_input_def check_thermal_shutdown_def dev_at_def)
  then show "ctrl_idle warm_ctrl (replicate 1024 ZnsZone_zero) (dev_at False (\<lambda>_. 0) 0 0)"
    by (simp add: warm_ctrl_def Controller_new_def ctrl_idle_def)
  show "hw_temperature (drv_hw (zc_driver warm_ctrl)) = Some 35"
    by (simp add: warm_ctrl_def Controller_new_def Let_def boot_hardware_def tick_temperature blank_hw_def)
qed

theorem acceptance_suite_outcome_witness:
  "\<exists>k'. run_test_main True ctrl_tester (warm_ctrl, None) = Some (0, k', Some smart_log)"
  using acceptance_suite_outcome [OF warm_ctrl_idle(1), of None] warm_ctrl_idle(2) by auto

text \<open>
  The thermal shutdown test says nothing about the thermal shutdown: it repeats a write of
  page 0, which the sequential rule refuses at any temperature, so the test passes on a stack
  whose thermal input is not connected.
\<close>

theorem thermal_shutdown_test_vacuous:
  assumes "ctrl_idle k zs (dev_at False B 0 w)" "B 60 = 0" "hw_temperature (drv_hw (zc_driver k)) = None"
  shows "\<exists>k'. run_thermal_shutdown_test ctrl_tester (k, f) = Some (True, k', f)"
proof -
  have "runs_device False (k, f) (dev_at False B 0 w, f)" using assms by (auto simp: runs_device_def)
  then have "same_result (runs_device False) (run_thermal_shutdown_test ctrl_tester (k, f))
      (run_thermal_shutdown_test (dev_tester False) (dev_at False B 0 w, f))"
    using stack.thermal_shutdown_rel [of False] unfolding stack.test_rel_def by blast
  then show ?thesis
    using thermal_shutdown_passes [of B False w f] assms(2)
    by (cases "run_thermal_shutdown_test ctrl_tester (k, f)") (auto simp: runs_device_def)
qed

theorem thermal_shutdown_test_vacuous_witness:
  "\<exists>k'. run_thermal_shutdown_test ctrl_tester (booted_ctrl, None) = Some (True, k', None)"
  by (rule thermal_shutdown_test_vacuous [of _ "replicate 1024 ZnsZone_zero" "\<lambda>_. 0" 0])
    (use booted_ctrl_idle in \<open>simp_all add: fresh_dev_def dev_at_def booted_ctrl_def Controller_new_def booted_driver_def
        booted_hw_def boot_hardware_def Let_def tick_temperature blank_hw_def\<close>)

end
