(* ===== verification/Zns_Verilated.thy ===== *)
theory Zns_Verilated
  imports Zns_Bridge
begin

text \<open>
  The C++ model of the validator that the simulation links: \<open>Vzns_fsm_validator\<close> under
  \<open>obj_dir/\<close>, checked in beside the Verilog it was compiled from. The model keeps the
  combinational nets in variables and recomputes them only when a trigger says that an input
  has changed, and runs the clocked blocks when an edge was recorded. It is modelled line by
  line, on words of the widths of the C++ types, and related to \<open>validator_eval\<close>, the
  model of the Verilog source, in \<open>Verilated_Facts\<close>.
\<close>

section \<open>State\<close>

text \<open>
  The input ports. \<open>__Vtrigprevexpr___TOP__*__0\<close> are copies of all of them, the
  values seen by the last evaluation.
\<close>

record ports =
  p_clk :: u8
  p_rst :: u8
  p_io_trigger :: u8
  p_io_cmd :: u8
  p_addr_bound_error :: u8
  p_thermal_shutdown_tripped :: u8
  p_validated_zone_id :: u32
  p_validated_target_page :: u32
  p_bram_rdata :: u32

text \<open>
  The loop variables \<open>__VactIterCount\<close> and \<open>__V*PhaseResult\<close>, which are assigned before every use, are
  local to the loops here; the one-element arrays of triggers are words.
\<close>

record vroot =
  ins :: ports
  v_bram_we :: u8
  v_out_status :: u8
  v_out_err_code :: u8
  v_bram_addr :: u32
  v_bram_wdata :: u32
  v_current_state :: u8
  v_open_zones_count :: u8
  v_has_error :: u8
  v_internal_error_code :: u8
  v_is_opening_new_zone :: u8
  v_dly_current_state :: u8
  v_stl_first_iteration :: u8
  v_stl_triggered :: u64
  v_prev0 :: ports
  v_ico_did_init :: u8
  v_ico_triggered0 :: u64
  v_ico_triggered1 :: u64
  v_prev_clk1 :: u8
  v_prev_rst1 :: u8
  v_act_triggered :: u64
  v_nba_triggered :: u64

section \<open>Combinational nets\<close>

text \<open>\<open>IData\<close> of a byte and of a comparison.\<close>

abbreviation idata :: "u8 \<Rightarrow> u32" where
  "idata x \<equiv> ucast x"

abbreviation flag :: "bool \<Rightarrow> u32" where
  "flag b \<equiv> of_bool b"

definition net_bram_addr :: "ports \<Rightarrow> u8 \<Rightarrow> u32" where
  "net_bram_addr p s = p_validated_zone_id p AND (- (idata (p_io_trigger p) OR flag (0 \<noteq> idata s)))"

definition net_is_opening_new_zone :: "ports \<Rightarrow> u8" where
  "net_is_opening_new_zone p = ucast (flag (1 = idata (p_io_cmd p)) AND flag (0 = 0xFF AND p_bram_rdata p))"

definition net_has_error :: "ports \<Rightarrow> u8 \<Rightarrow> u8 \<Rightarrow> u8" where
  "net_has_error p opening count = of_bool (p_thermal_shutdown_tripped p \<noteq> 0
     \<or> 0x63 = idata (p_io_cmd p)
     \<or> flag (1 = idata (p_io_cmd p)) AND drop_bit 7 (p_bram_rdata p) \<noteq> 0
     \<or> flag (1 = idata (p_io_cmd p)) AND flag (p_validated_target_page p \<noteq> 0x7F AND p_bram_rdata p) \<noteq> 0
     \<or> (flag (1 = idata (p_io_cmd p)) AND idata opening) AND flag (4 \<le> idata count) \<noteq> 0
     \<or> flag (0 = idata (p_io_cmd p)) AND flag (0x7F AND p_bram_rdata p \<le> p_validated_target_page p) \<noteq> 0
     \<or> flag (2 = idata (p_io_cmd p)) AND flag (0x0A \<le> 0xFF AND drop_bit 16 (p_bram_rdata p)) \<noteq> 0
     \<or> p_addr_bound_error p \<noteq> 0)"

definition net_internal_error_code :: "ports \<Rightarrow> u8 \<Rightarrow> u8 \<Rightarrow> u8" where
  "net_internal_error_code p opening count =
     (if p_thermal_shutdown_tripped p \<noteq> 0 then 8
      else if 0x63 = idata (p_io_cmd p) then 6
      else if flag (1 = idata (p_io_cmd p)) AND drop_bit 7 (p_bram_rdata p) \<noteq> 0 then 7
      else if flag (1 = idata (p_io_cmd p)) AND flag (p_validated_target_page p \<noteq> 0x7F AND p_bram_rdata p) \<noteq> 0 then 1
      else if (flag (1 = idata (p_io_cmd p)) AND idata opening) AND flag (4 \<le> idata count) \<noteq> 0 then 2
      else if flag (0 = idata (p_io_cmd p)) AND flag (0x7F AND p_bram_rdata p \<le> p_validated_target_page p) \<noteq> 0 then 3
      else if flag (2 = idata (p_io_cmd p)) AND flag (0x0A \<le> 0xFF AND drop_bit 16 (p_bram_rdata p)) \<noteq> 0 then 5
      else if p_addr_bound_error p \<noteq> 0 then 7
      else 0)"

definition put_bram_addr :: "vroot \<Rightarrow> vroot" where
  "put_bram_addr r = r\<lparr>v_bram_addr := net_bram_addr (ins r) (v_current_state r)\<rparr>"

definition put_is_opening :: "vroot \<Rightarrow> vroot" where
  "put_is_opening r = r\<lparr>v_is_opening_new_zone := net_is_opening_new_zone (ins r)\<rparr>"

definition put_verdict :: "vroot \<Rightarrow> vroot" where
  "put_verdict r = r\<lparr>
     v_has_error := net_has_error (ins r) (v_is_opening_new_zone r) (v_open_zones_count r),
     v_internal_error_code := net_internal_error_code (ins r) (v_is_opening_new_zone r) (v_open_zones_count r)\<rparr>"

section \<open>The input-combinational region\<close>

definition trigger_anySet :: "u64 list \<Rightarrow> bool" where
  "trigger_anySet ts = list_ex (\<lambda>t. t \<noteq> 0) ts"

definition changed_inputs :: "ports \<Rightarrow> ports \<Rightarrow> u32" where
  "changed_inputs p q =
     push_bit 8 (flag (p_bram_rdata p \<noteq> p_bram_rdata q))
     OR (push_bit 4 ((push_bit 3 (flag (p_thermal_shutdown_tripped p \<noteq> p_thermal_shutdown_tripped q))
          OR push_bit 2 (flag (p_addr_bound_error p \<noteq> p_addr_bound_error q)))
          OR (push_bit 1 (flag (p_validated_target_page p \<noteq> p_validated_target_page q))
          OR flag (p_validated_zone_id p \<noteq> p_validated_zone_id q)))
     OR ((push_bit 3 (flag (p_io_cmd p \<noteq> p_io_cmd q)) OR push_bit 2 (flag (p_io_trigger p \<noteq> p_io_trigger q)))
          OR (push_bit 1 (flag (p_rst p \<noteq> p_rst q)) OR flag (p_clk p \<noteq> p_clk q))))"

definition set_all_triggers :: "u64 \<Rightarrow> u64" where
  "set_all_triggers t = fold (OR) [1, 2, 4, 8, 0x10, 0x20, 0x40, 0x80, 0x100] t"

definition eval_triggers_ico :: "vroot \<Rightarrow> vroot" where
  "eval_triggers_ico r =
     (let r1 = r\<lparr>v_ico_triggered0 := ucast (changed_inputs (ins r) (v_prev0 r)), v_prev0 := ins r\<rparr> in
      if 1 AND NOT (idata (v_ico_did_init r1)) \<noteq> 0
      then r1\<lparr>v_ico_did_init := 1, v_ico_triggered0 := set_all_triggers (v_ico_triggered0 r1)\<rparr>
      else r1)"

definition eval_ico :: "vroot \<Rightarrow> vroot" where
  "eval_ico r =
     (let r1 = (if 0x14 AND v_ico_triggered0 r \<noteq> 0 then put_bram_addr r else r);
          r2 = (if 0x108 AND v_ico_triggered0 r1 \<noteq> 0 then put_is_opening r1 else r1)
      in if 0x1E8 AND v_ico_triggered0 r2 \<noteq> 0 then put_verdict r2 else r2)"

definition eval_phase_ico :: "vroot \<Rightarrow> bool \<times> vroot" where
  "eval_phase_ico r =
     (let r1 = eval_triggers_ico r; execute = trigger_anySet [v_ico_triggered0 r1, v_ico_triggered1 r1]
      in (execute, if execute then eval_ico r1 else r1))"

section \<open>The clocked blocks\<close>

definition delayed_state :: "u8 \<Rightarrow> u8 \<Rightarrow> u8 \<Rightarrow> u32" where
  "delayed_state s trigger error =
     (if 4 AND idata s \<noteq> 0
      then (if 2 AND idata s \<noteq> 0 then 6 AND (- (NOT (idata s) AND idata trigger))
            else if 1 AND idata s \<noteq> 0 then 5 AND (- idata trigger) else 5)
      else (if 2 AND idata s \<noteq> 0
            then (if 1 AND idata s \<noteq> 0 then (if error \<noteq> 0 then 6 else 4) else 3)
            else if 1 AND idata s \<noteq> 0 then 2 else 1 AND (- idata trigger)))"

definition put_status_we :: "u8 \<Rightarrow> vroot \<Rightarrow> vroot" where
  "put_status_we s r =
     (if s = 0 then r\<lparr>v_out_status := 0, v_bram_we := 0\<rparr>
      else let r1 = (if s = 1 then r\<lparr>v_out_status := 2\<rparr>
                     else if s = 6 then r\<lparr>v_out_status := 1\<rparr>
                     else if s \<noteq> 4 then (if s = 5 then r\<lparr>v_out_status := 3\<rparr> else r)
                     else r)
           in if s \<noteq> 1 \<and> s \<noteq> 6
              then (if s = 4 then r1\<lparr>v_bram_we := 1\<rparr> else if s = 5 then r1\<lparr>v_bram_we := 0\<rparr> else r1)
              else r1)"

definition put_wdata_err :: "u8 \<Rightarrow> vroot \<Rightarrow> vroot" where
  "put_wdata_err s r = (let w = p_bram_rdata (ins r) in
     if s \<noteq> 0 \<and> s \<noteq> 1 then
       (let r1 = (if s \<noteq> 6 \<and> s = 4
                  then (if 1 = idata (p_io_cmd (ins r))
                        then r\<lparr>v_bram_wdata := (if 0x3F = 0x7F AND w then 0xC0 OR (0xFF0000 AND w)
                                                 else (0xFF0000 AND w) OR (0x7F AND (1 + w)))\<rparr>
                        else if 2 = idata (p_io_cmd (ins r))
                        then r\<lparr>v_bram_wdata := 0xFF0000 AND push_bit 16 (1 + drop_bit 16 w)\<rparr>
                        else r)
                  else r)
        in if s = 6 then r1\<lparr>v_out_err_code := v_internal_error_code r1\<rparr>
           else if s \<noteq> 4 then (if s = 5 then r1\<lparr>v_out_err_code := 0\<rparr> else r1)
           else r1)
     else r)"

definition nba_sequent_0 :: "vroot \<Rightarrow> vroot" where
  "nba_sequent_0 r =
     (let r1 = r\<lparr>v_dly_current_state := v_current_state r\<rparr> in
      if p_rst (ins r1) \<noteq> 0
      then r1\<lparr>v_dly_current_state := 0, v_out_status := 0, v_bram_we := 0, v_bram_wdata := 0, v_out_err_code := 0\<rparr>
      else put_wdata_err (v_current_state r1) (put_status_we (v_current_state r1)
        (r1\<lparr>v_dly_current_state := ucast (delayed_state (v_current_state r1) (p_io_trigger (ins r1)) (v_has_error r1))\<rparr>)))"

definition delayed_count :: "vroot \<Rightarrow> u8" where
  "delayed_count r = (let w = p_bram_rdata (ins r); cmd = idata (p_io_cmd (ins r)); n = idata (v_open_zones_count r);
       d0 = v_open_zones_count r in
     if p_rst (ins r) \<noteq> 0 then 0
     else if v_current_state r = 4 then
       (let d1 = (if flag (1 = cmd) AND flag (0 = 0xFF AND w) \<noteq> 0 then ucast (0xF AND (1 + n)) else d0)
        in if (flag (1 = cmd) AND flag (0x3F = 0x7F AND w)) AND flag (0 < n) \<noteq> 0 then ucast (0xF AND (n - 1))
           else if ((flag (2 = cmd) AND flag (0 < 0x7F AND w)) AND NOT (drop_bit 7 w)) AND flag (0 < n) \<noteq> 0
           then ucast (0xF AND (n - 1)) else d1)
     else d0)"

definition nba_sequent_1 :: "vroot \<Rightarrow> vroot" where
  "nba_sequent_1 r = put_verdict (r\<lparr>v_open_zones_count := delayed_count r\<rparr>)"

definition nba_sequent_2 :: "vroot \<Rightarrow> vroot" where
  "nba_sequent_2 r = put_bram_addr (r\<lparr>v_current_state := v_dly_current_state r\<rparr>)"

definition eval_nba :: "vroot \<Rightarrow> vroot" where
  "eval_nba r =
     (let r1 = (if 3 AND v_nba_triggered r \<noteq> 0 then nba_sequent_0 r else r);
          r2 = (if 1 AND v_nba_triggered r1 \<noteq> 0 then nba_sequent_1 r1 else r1)
      in if 3 AND v_nba_triggered r2 \<noteq> 0 then nba_sequent_2 r2 else r2)"

definition eval_phase_act :: "vroot \<Rightarrow> bool \<times> vroot" where
  "eval_phase_act r =
     (let r1 = r\<lparr>v_act_triggered := ucast (push_bit 1 (idata (p_rst (ins r)) AND NOT (idata (v_prev_rst1 r)))
              OR (idata (p_clk (ins r)) AND NOT (idata (v_prev_clk1 r)))),
            v_prev_clk1 := p_clk (ins r), v_prev_rst1 := p_rst (ins r)\<rparr>
      in (False, r1\<lparr>v_nba_triggered := v_nba_triggered r1 OR v_act_triggered r1\<rparr>))"

definition eval_phase_nba :: "vroot \<Rightarrow> bool \<times> vroot" where
  "eval_phase_nba r =
     (let execute = trigger_anySet [v_nba_triggered r]
      in (execute, if execute then (eval_nba r)\<lparr>v_nba_triggered := 0\<rparr> else r))"

section \<open>Evaluation\<close>

text \<open>
  A region is evaluated until its phase reports that nothing was executed; after 10000 rounds
  the run-time system stops the program.
\<close>

function until_settled :: "(vroot \<Rightarrow> (bool \<times> vroot) option) \<Rightarrow> nat \<Rightarrow> vroot \<Rightarrow> vroot option" where
  "until_settled phase n r =
     (if 10000 < n then None
      else Option.bind (phase r) (\<lambda>(again, r1). if again then until_settled phase (Suc n) r1 else Some r1))"
  by pat_completeness auto
termination by (relation "measure (\<lambda>(phase, n, r). 10001 - n)") auto

declare until_settled.simps [simp del]

definition nba_round :: "vroot \<Rightarrow> (bool \<times> vroot) option" where
  "nba_round r = map_option eval_phase_nba (until_settled (\<lambda>s. Some (eval_phase_act s)) 0 r)"

definition root_eval :: "vroot \<Rightarrow> vroot option" where
  "root_eval r = Option.bind (until_settled (\<lambda>s. Some (eval_phase_ico s)) 0 r) (until_settled nba_round 0)"

section \<open>Initialisation\<close>

definition eval_static :: "vroot \<Rightarrow> vroot" where
  "eval_static r = r\<lparr>v_prev0 := ins r, v_prev_clk1 := p_clk (ins r), v_prev_rst1 := p_rst (ins r)\<rparr>"

definition eval_phase_stl :: "vroot \<Rightarrow> bool \<times> vroot" where
  "eval_phase_stl r =
     (let r1 = r\<lparr>v_stl_triggered := (0xFFFFFFFFFFFFFFFE AND v_stl_triggered r) OR ucast (v_stl_first_iteration r)\<rparr>;
          execute = trigger_anySet [v_stl_triggered r1]
      in (execute, if execute \<and> 1 AND v_stl_triggered r1 \<noteq> 0
                   then put_verdict (put_is_opening (put_bram_addr r1)) else r1))"

definition eval_settle :: "vroot \<Rightarrow> vroot option" where
  "eval_settle r = until_settled (\<lambda>s. let (again, s1) = eval_phase_stl s in Some (again, s1\<lparr>v_stl_first_iteration := 0\<rparr>)) 0
     (r\<lparr>v_stl_first_iteration := 1\<rparr>)"

text \<open>
  The model object: the root module and \<open>__Vm_didInit\<close>. \<open>eval_initial\<close> is empty for this design.
\<close>

record vmodel =
  m_root :: vroot
  m_didInit :: bool

definition eval_step :: "vmodel \<Rightarrow> vmodel option" where
  "eval_step m = Option.bind (if m_didInit m then Some (m_root m) else eval_settle (eval_static (m_root m)))
     (\<lambda>r. map_option (\<lambda>r1. \<lparr>m_root = r1, m_didInit = True\<rparr>) (root_eval r))"

text \<open>
  \<open>ctor_var_reset\<close>: \<open>rnd w salt\<close> is \<open>VL_SCOPED_RAND_RESET_I\<close> of the run-time system for the name of the
  model, a value of at most \<open>w\<close> bits.
\<close>

definition ctor_var_reset :: "(nat \<Rightarrow> nat \<Rightarrow> u32) \<Rightarrow> u8 \<Rightarrow> vroot" where
  "ctor_var_reset rnd junk = (let zero = \<lparr>p_clk = 0, p_rst = 0, p_io_trigger = 0, p_io_cmd = 0, p_addr_bound_error = 0,
        p_thermal_shutdown_tripped = 0, p_validated_zone_id = 0, p_validated_target_page = 0, p_bram_rdata = 0\<rparr> in
     \<lparr>ins = \<lparr>p_clk = ucast (rnd 1 16707436170211756652), p_rst = ucast (rnd 1 18209466448985614591),
        p_io_trigger = ucast (rnd 1 11702515870220541776), p_io_cmd = ucast (rnd 8 8862194297607448292),
        p_addr_bound_error = ucast (rnd 1 17038217529723612280),
        p_thermal_shutdown_tripped = ucast (rnd 1 787050669766383031),
        p_validated_zone_id = rnd 32 4260644288930188368, p_validated_target_page = rnd 32 14687996885297042022,
        p_bram_rdata = rnd 32 17664034088567969531\<rparr>,
      v_bram_we = ucast (rnd 1 5892086736947945850), v_out_status = ucast (rnd 8 15606078872201372946),
      v_out_err_code = ucast (rnd 8 6154418305893886848), v_bram_addr = rnd 32 10458784103138679157,
      v_bram_wdata = rnd 32 5145022849444923699, v_current_state = ucast (rnd 3 6882111589295431825),
      v_open_zones_count = ucast (rnd 4 1751866187105926349), v_has_error = ucast (rnd 1 15961367106081493593),
      v_internal_error_code = ucast (rnd 8 13643812718829098627),
      v_is_opening_new_zone = ucast (rnd 1 948012770907508813), v_dly_current_state = 0,
      v_stl_first_iteration = junk, v_stl_triggered = 0, v_prev0 = zero, v_ico_did_init = 0,
      v_ico_triggered0 = 0, v_ico_triggered1 = 0, v_prev_clk1 = 0, v_prev_rst1 = 0,
      v_act_triggered = 0, v_nba_triggered = 0\<rparr>)"

definition Vzns_fsm_validator_new :: "(nat \<Rightarrow> nat \<Rightarrow> u32) \<Rightarrow> u8 \<Rightarrow> vmodel" where
  "Vzns_fsm_validator_new rnd junk = \<lparr>m_root = ctor_var_reset rnd junk, m_didInit = False\<rparr>"

end
