(* ===== verification/Verilated_Facts.thy ===== *)
theory Verilated_Facts
  imports Zns_Verilated
begin

text \<open>
  The compiled model computes what the Verilog says: \<open>root_eval_rtl\<close>. The nets that the model
  keeps in variables agree with the inputs of the last evaluation (\<open>nets_ok\<close>), so the
  input-combinational region settles in one round (\<open>ico_loop\<close>); the clocked blocks then run once for
  the recorded edges (\<open>nba_loop\<close>) and do what \<open>clocked\<close> does (\<open>fire_rtl\<close>).
\<close>

section \<open>Trigger words\<close>

lemma flag_and [simp]:
  "of_bool a AND of_bool b = (of_bool (a \<and> b) :: 'a::len word)"
  "(of_bool a AND w \<noteq> 0) \<longleftrightarrow> a \<and> odd (w :: 'a word)"
  by (cases a; cases b; simp) (cases a; simp add: one_and_eq odd_iff_mod_2_eq_one)

lemma or_and_nonzero: "(a OR b) AND t \<noteq> 0 \<longleftrightarrow> a AND t \<noteq> 0 \<or> b AND (t :: 'a::len word) \<noteq> 0"
  by (simp add: bit.conj_disj_distrib2 or_eq_0_iff)

lemma single_and_nonzero: "push_bit n 1 AND t \<noteq> 0 \<longleftrightarrow> bit (t :: 'a::len word) n"
  by (simp add: bit_iff_and_push_bit_not_eq_0 and.commute)

lemma mask_bits:
  "0x14 AND (t :: u64) \<noteq> 0 \<longleftrightarrow> bit t 2 \<or> bit t 4"
  "0x108 AND t \<noteq> 0 \<longleftrightarrow> bit t 3 \<or> bit t 8"
  "0x1E8 AND t \<noteq> 0 \<longleftrightarrow> bit t 3 \<or> bit t 5 \<or> bit t 6 \<or> bit t 7 \<or> bit t 8"
  "3 AND t \<noteq> 0 \<longleftrightarrow> bit t 0 \<or> bit t 1"
  "1 AND t \<noteq> 0 \<longleftrightarrow> bit t 0"
proof -
  have e: "(0x14 :: u64) = push_bit 2 1 OR push_bit 4 1" "(0x108 :: u64) = push_bit 3 1 OR push_bit 8 1"
    "(0x1E8 :: u64) = push_bit 3 1 OR push_bit 5 1 OR push_bit 6 1 OR push_bit 7 1 OR push_bit 8 1"
    "(3 :: u64) = push_bit 0 1 OR push_bit 1 1"
    by simp_all
  show "0x14 AND (t :: u64) \<noteq> 0 \<longleftrightarrow> bit t 2 \<or> bit t 4"
    "0x108 AND t \<noteq> 0 \<longleftrightarrow> bit t 3 \<or> bit t 8"
    "0x1E8 AND t \<noteq> 0 \<longleftrightarrow> bit t 3 \<or> bit t 5 \<or> bit t 6 \<or> bit t 7 \<or> bit t 8"
    "3 AND t \<noteq> 0 \<longleftrightarrow> bit t 0 \<or> bit t 1"
    by (simp_all only: e or_and_nonzero single_and_nonzero)
  show "1 AND t \<noteq> 0 \<longleftrightarrow> bit t 0"
    by (simp add: one_and_eq bit_0 odd_iff_mod_2_eq_one)
qed

lemma changed_bits:
  "bit (changed_inputs p q) 0 \<longleftrightarrow> p_clk p \<noteq> p_clk q"
  "bit (changed_inputs p q) 1 \<longleftrightarrow> p_rst p \<noteq> p_rst q"
  "bit (changed_inputs p q) 2 \<longleftrightarrow> p_io_trigger p \<noteq> p_io_trigger q"
  "bit (changed_inputs p q) 3 \<longleftrightarrow> p_io_cmd p \<noteq> p_io_cmd q"
  "bit (changed_inputs p q) 4 \<longleftrightarrow> p_validated_zone_id p \<noteq> p_validated_zone_id q"
  "bit (changed_inputs p q) 5 \<longleftrightarrow> p_validated_target_page p \<noteq> p_validated_target_page q"
  "bit (changed_inputs p q) 6 \<longleftrightarrow> p_addr_bound_error p \<noteq> p_addr_bound_error q"
  "bit (changed_inputs p q) 7 \<longleftrightarrow> p_thermal_shutdown_tripped p \<noteq> p_thermal_shutdown_tripped q"
  "bit (changed_inputs p q) 8 \<longleftrightarrow> p_bram_rdata p \<noteq> p_bram_rdata q"
  unfolding changed_inputs_def by (simp_all add: bit_simps)

lemma changed_same [simp]: "changed_inputs p p = 0"
  by (simp add: changed_inputs_def)

section \<open>Relation to the Verilog\<close>

definition fsm_of :: "u8 \<Rightarrow> fsm_state" where
  "fsm_of s = (if s = 0 then ST_IDLE else if s = 1 then ST_BRAM_READ else if s = 2 then ST_BRAM_WAIT
     else if s = 3 then ST_VALIDATE else if s = 4 then ST_EXECUTE else if s = 5 then ST_UPDATE_BRAM else ST_ERROR)"

definition rtl_of :: "vroot \<Rightarrow> validator" where
  "rtl_of r = \<lparr>clk = p_clk (ins r) \<noteq> 0, rst = p_rst (ins r) \<noteq> 0, io_trigger = p_io_trigger (ins r) \<noteq> 0,
     io_cmd = p_io_cmd (ins r), validated_zone_id = p_validated_zone_id (ins r),
     validated_target_page = p_validated_target_page (ins r), addr_bound_error = p_addr_bound_error (ins r) \<noteq> 0,
     thermal_shutdown_tripped = p_thermal_shutdown_tripped (ins r) \<noteq> 0, bram_addr = v_bram_addr r,
     bram_rdata = p_bram_rdata (ins r), bram_wdata = v_bram_wdata r, bram_we = v_bram_we r \<noteq> 0,
     out_status = v_out_status r, out_err_code = v_out_err_code r, current_state = fsm_of (v_current_state r),
     open_zones_count = ucast (v_open_zones_count r), prev_clk = v_prev_clk1 r \<noteq> 0, prev_rst = v_prev_rst1 r \<noteq> 0\<rparr>"

text \<open>What the one-bit ports may hold, and the ranges of the registers.\<close>

definition bit_ports :: "ports \<Rightarrow> bool" where
  "bit_ports p \<longleftrightarrow> p_clk p \<in> {0, 1} \<and> p_rst p \<in> {0, 1} \<and> p_io_trigger p \<in> {0, 1}"

definition regs_ok :: "vroot \<Rightarrow> bool" where
  "regs_ok r \<longleftrightarrow> bit_ports (ins r) \<and> v_prev_clk1 r \<in> {0, 1} \<and> v_prev_rst1 r \<in> {0, 1} \<and>
     v_current_state r \<in> {0, 1, 2, 3, 4, 5, 6} \<and> unat (v_open_zones_count r) < 16 \<and>
     v_ico_triggered1 r = 0 \<and> v_ico_did_init r \<in> {0, 1}"

text \<open>The nets hold the values of the inputs of the last evaluation.\<close>

definition nets_ok :: "ports \<Rightarrow> vroot \<Rightarrow> bool" where
  "nets_ok p r \<longleftrightarrow> v_bram_addr r = net_bram_addr p (v_current_state r) \<and>
     v_is_opening_new_zone r = net_is_opening_new_zone p \<and>
     v_has_error r = net_has_error p (net_is_opening_new_zone p) (v_open_zones_count r) \<and>
     v_internal_error_code r = net_internal_error_code p (net_is_opening_new_zone p) (v_open_zones_count r)"

definition root_ok :: "vroot \<Rightarrow> bool" where
  "root_ok r \<longleftrightarrow> regs_ok r \<and> v_nba_triggered r = 0 \<and> (v_ico_did_init r = 1 \<longrightarrow> nets_ok (v_prev0 r) r)"

section \<open>The input-combinational region settles in one round\<close>

definition settled :: "vroot \<Rightarrow> vroot" where
  "settled r = put_verdict (put_is_opening (put_bram_addr (r\<lparr>v_prev0 := ins r, v_ico_did_init := 1, v_ico_triggered0 := 0\<rparr>)))"

lemma nets_depend:
  "p_io_trigger p = p_io_trigger q \<Longrightarrow> p_validated_zone_id p = p_validated_zone_id q \<Longrightarrow> net_bram_addr p s = net_bram_addr q s"
  "p_io_cmd p = p_io_cmd q \<Longrightarrow> p_bram_rdata p = p_bram_rdata q \<Longrightarrow> net_is_opening_new_zone p = net_is_opening_new_zone q"
  "p_io_cmd p = p_io_cmd q \<Longrightarrow> p_bram_rdata p = p_bram_rdata q \<Longrightarrow> p_validated_target_page p = p_validated_target_page q \<Longrightarrow>
   p_addr_bound_error p = p_addr_bound_error q \<Longrightarrow> p_thermal_shutdown_tripped p = p_thermal_shutdown_tripped q \<Longrightarrow>
   net_has_error p x n = net_has_error q x n \<and> net_internal_error_code p x n = net_internal_error_code q x n"
  by (simp_all add: net_bram_addr_def net_is_opening_new_zone_def net_has_error_def net_internal_error_code_def)

lemmas put_defs = put_verdict_def put_is_opening_def put_bram_addr_def

lemma first_triggers: "bit (set_all_triggers t) n \<longleftrightarrow> bit t n \<or> n < 9"
proof -
  have m: "mask 9 = (0x100 OR 0x80 OR 0x40 OR 0x20 OR 0x10 OR 8 OR 4 OR 2 OR 1 :: u64)"
    by (simp add: mask_eq_exp_minus_1)
  have "set_all_triggers t = mask 9 OR t"
    unfolding m set_all_triggers_def by (simp only: fold_simps or.assoc)
  then show ?thesis by (auto simp: bit_simps)
qed

lemma ico_bits:
  assumes "v_ico_did_init r \<in> {0, 1}" "n < 9"
  shows "bit (v_ico_triggered0 (eval_triggers_ico r)) n \<longleftrightarrow> v_ico_did_init r = 0 \<or> bit (changed_inputs (ins r) (v_prev0 r)) n"
  using assms by (auto simp: eval_triggers_ico_def Let_def first_triggers bit_simps)

lemma ico_frame:
  assumes "v_ico_did_init r \<in> {0, 1}"
  shows "(eval_triggers_ico r)\<lparr>v_ico_triggered0 := t\<rparr> = r\<lparr>v_prev0 := ins r, v_ico_did_init := 1, v_ico_triggered0 := t\<rparr>"
  using assms by (auto simp: eval_triggers_ico_def Let_def)

lemma eval_ico_settles:
  assumes "root_ok r"
  shows "(eval_ico (eval_triggers_ico r))\<lparr>v_ico_triggered0 := 0\<rparr> = settled r"
proof -
  define t where "t = v_ico_triggered0 (eval_triggers_ico r)"
  define r1 where "r1 = r\<lparr>v_prev0 := ins r, v_ico_did_init := 1, v_ico_triggered0 := t\<rparr>"
  have i: "v_ico_did_init r \<in> {0, 1}" using assms by (simp add: root_ok_def regs_ok_def)
  have e: "eval_triggers_ico r = r1" using ico_frame [OF i, of t] by (simp add: t_def r1_def)
  have b: "bit t n \<longleftrightarrow> v_ico_did_init r = 0 \<or> bit (changed_inputs (ins r) (v_prev0 r)) n" if "n < 9" for n
    using ico_bits [OF i that] by (simp add: t_def)
  have n: "v_ico_did_init r \<noteq> 0 \<Longrightarrow> nets_ok (v_prev0 r) r" using assms i by (auto simp: root_ok_def)
  let ?a = "if 0x14 AND t \<noteq> 0 then net_bram_addr (ins r) (v_current_state r) else v_bram_addr r"
  let ?o = "if 0x108 AND t \<noteq> 0 then net_is_opening_new_zone (ins r) else v_is_opening_new_zone r"
  have a: "?a = net_bram_addr (ins r) (v_current_state r)"
    using n nets_depend(1) [of "v_prev0 r" "ins r"] by (auto simp: mask_bits b changed_bits nets_ok_def)
  have o: "?o = net_is_opening_new_zone (ins r)"
    using n nets_depend(2) [of "v_prev0 r" "ins r"] by (auto simp: mask_bits b changed_bits nets_ok_def)
  have v: "\<not> 0x1E8 AND t \<noteq> 0 \<Longrightarrow> net_has_error (ins r) (net_is_opening_new_zone (ins r)) (v_open_zones_count r) = v_has_error r \<and>
      net_internal_error_code (ins r) (net_is_opening_new_zone (ins r)) (v_open_zones_count r) = v_internal_error_code r"
    using n nets_depend(2,3) [of "v_prev0 r" "ins r"] by (auto simp: mask_bits b changed_bits nets_ok_def)
  have "eval_ico r1 = (if 0x1E8 AND t \<noteq> 0 then put_verdict else id) (r1\<lparr>v_bram_addr := ?a, v_is_opening_new_zone := ?o\<rparr>)"
    by (simp add: eval_ico_def Let_def r1_def put_bram_addr_def put_is_opening_def)
  then show ?thesis
    unfolding e a o settled_def put_defs using v by (auto simp: r1_def put_defs)
qed

lemma ico_again:
  assumes "v_ico_did_init r = 1" "v_prev0 r = ins r" "v_ico_triggered1 r = 0"
  shows "eval_phase_ico r = (False, r\<lparr>v_ico_triggered0 := 0\<rparr>)"
  using assms by (simp add: eval_phase_ico_def eval_triggers_ico_def Let_def trigger_anySet_def)

lemma settled_frame [simp]:
  "v_ico_did_init (settled r) = 1" "v_prev0 (settled r) = ins r" "ins (settled r) = ins r"
  "v_ico_triggered0 (settled r) = 0" "v_ico_triggered1 (settled r) = v_ico_triggered1 r"
  "v_current_state (settled r) = v_current_state r" "v_open_zones_count (settled r) = v_open_zones_count r"
  "v_prev_clk1 (settled r) = v_prev_clk1 r" "v_prev_rst1 (settled r) = v_prev_rst1 r"
  "v_nba_triggered (settled r) = v_nba_triggered r"
  by (simp_all add: settled_def put_defs)

lemma no_update: "v_ico_triggered0 r = t \<Longrightarrow> r\<lparr>v_ico_triggered0 := t\<rparr> = r" for r :: vroot
  by auto

lemma until_once: "phase r = Some (False, r1) \<Longrightarrow> until_settled phase 0 r = Some r1"
  by (simp add: until_settled.simps)

lemma until_twice: "phase r = Some (True, r1) \<Longrightarrow> phase r1 = Some (False, r2) \<Longrightarrow> until_settled phase 0 r = Some r2"
  by (simp add: until_settled.simps [of phase 0] until_settled.simps [of phase "Suc 0"])

lemma ico_loop:
  assumes "root_ok r"
  shows "until_settled (\<lambda>s. Some (eval_phase_ico s)) 0 r = Some (settled r)"
proof -
  let ?r = "eval_triggers_ico r"
  have t1: "v_ico_triggered1 ?r = 0"
    using assms by (simp add: eval_triggers_ico_def Let_def root_ok_def regs_ok_def)
  note st = eval_ico_settles [OF assms]
  show ?thesis
  proof (cases "v_ico_triggered0 ?r = 0")
    case True
    then have "eval_ico ?r = ?r" by (simp add: eval_ico_def)
    with True st have "?r = settled r" using no_update [of ?r] by simp
    with True t1 have "eval_phase_ico r = (False, settled r)" by (simp add: eval_phase_ico_def trigger_anySet_def)
    then show ?thesis by (simp add: until_once)
  next
    case False
    let ?s = "eval_ico ?r"
    have "v_ico_did_init ?s = 1 \<and> v_prev0 ?s = ins ?s \<and> v_ico_triggered1 ?s = 0"
      using arg_cong [OF st, of v_ico_did_init] arg_cong [OF st, of v_prev0] arg_cong [OF st, of ins]
        arg_cong [OF st, of v_ico_triggered1] assms by (simp add: root_ok_def regs_ok_def)
    then have "eval_phase_ico ?s = (False, settled r)" using st by (simp add: ico_again)
    moreover have "eval_phase_ico r = (True, ?s)" using False by (simp add: eval_phase_ico_def trigger_anySet_def)
    ultimately show ?thesis by (simp add: until_twice)
  qed
qed

section \<open>The clocked region\<close>

definition clk_rises :: "vroot \<Rightarrow> bool" where
  "clk_rises r \<longleftrightarrow> p_clk (ins r) = 1 \<and> v_prev_clk1 r = 0"

definition rst_rises :: "vroot \<Rightarrow> bool" where
  "rst_rises r \<longleftrightarrow> p_rst (ins r) = 1 \<and> v_prev_rst1 r = 0"

definition edges :: "vroot \<Rightarrow> u64" where
  "edges r = push_bit 1 (of_bool (rst_rises r)) OR of_bool (clk_rises r)"

definition seen :: "vroot \<Rightarrow> vroot" where
  "seen r = r\<lparr>v_prev_clk1 := p_clk (ins r), v_prev_rst1 := p_rst (ins r)\<rparr>"

lemma edge_word:
  assumes "a \<in> {0, 1}" "b \<in> {0, 1 :: u8}"
  shows "idata a AND NOT (idata b) = flag (a = 1 \<and> b = 0)"
  using assms by auto

lemma act_phase:
  assumes "regs_ok r" "v_nba_triggered r = 0"
  shows "eval_phase_act r = (False, (seen r)\<lparr>v_act_triggered := edges r, v_nba_triggered := edges r\<rparr>)"
  using assms
  by (simp add: eval_phase_act_def Let_def regs_ok_def bit_ports_def edge_word edges_def seen_def clk_rises_def rst_rises_def)

section \<open>Nets\<close>

lemma unat_idata [simp]: "unat (idata a) = unat a"
proof -
  have "unat a < 2 ^ LENGTH(8)" by (rule unsigned_less)
  then have "unat a < 2 ^ 32" by simp
  then show ?thesis by (simp add: unsigned_ucast_eq take_bit_nat_eq_self)
qed

lemma idata_eq [simp]: "idata a = idata b \<longleftrightarrow> a = b"
  by (metis unat_idata word_unat_eq_iff)

lemma idata_numeral:
  "1 = idata a \<longleftrightarrow> a = 1" "0 = idata a \<longleftrightarrow> a = 0" "2 = idata a \<longleftrightarrow> a = 2" "0x63 = idata a \<longleftrightarrow> a = 99"
  using idata_eq [of a 1] idata_eq [of a 0] idata_eq [of a 2] idata_eq [of a "0x63"]  by (auto simp del: idata_eq)

lemma wptr_field: "0x7F AND w = ucast (zone_wptr w)"
proof -
  have m: "(0x7F :: u32) = mask 7" by (simp add: mask_eq_exp_minus_1)
  show ?thesis unfolding m zone_wptr_def by (rule bit_word_eqI) (auto simp: bit_simps dest: bit_imp_le_length)
qed

lemma erase_field: "0xFF AND drop_bit 16 w = ucast (zone_erase_cnt w)"
proof -
  have m: "(0xFF :: u32) = mask 8" by (simp add: mask_eq_exp_minus_1)
  show ?thesis unfolding m zone_erase_cnt_def by (rule bit_word_eqI) (auto simp: bit_simps dest: bit_imp_le_length)
qed

lemma full_field: "odd (drop_bit 7 w) \<longleftrightarrow> zone_is_full w"
  by (simp add: zone_is_full_def bit_iff_odd_drop_bit)

lemma open_field: "0 = 0xFF AND w \<longleftrightarrow> zone_wptr w = 0 \<and> \<not> zone_is_full w"
proof -
  have m: "(0xFF :: u32) = mask 8" by (simp add: mask_eq_exp_minus_1)
  have e: "n < 8 \<longleftrightarrow> n < 7 \<or> n = 7" for n :: nat by arith
  have "0 = mask 8 AND w \<longleftrightarrow> (\<forall>n < 8. \<not> bit w n)"
    by (auto simp: bit_eq_iff bit_simps dest: bit_imp_le_length)
  also have "\<dots> \<longleftrightarrow> (\<forall>n < 7. \<not> bit w n) \<and> \<not> bit w 7"
    by (auto simp: e)
  also have "(\<forall>n < 7. \<not> bit w n) \<longleftrightarrow> zone_wptr w = 0"
    unfolding zone_wptr_def by (auto simp: bit_eq_iff bit_simps dest: bit_imp_le_length)
  finally show ?thesis unfolding m zone_is_full_def .
qed

lemma count_field:
  assumes "unat n < 16"
  shows "4 \<le> idata n \<longleftrightarrow> 4 \<le> (ucast n :: 4 word)" "0 < idata n \<longleftrightarrow> 0 < (ucast n :: 4 word)"
    "unat (ucast n :: 4 word) = unat n"
  using assms by (simp_all add: word_le_nat_alt word_less_nat_alt unsigned_ucast_eq take_bit_nat_eq_self)

lemma erase_limit: "0x0A \<le> (ucast e :: u32) \<longleftrightarrow> 10 \<le> (e :: u8)"
  by (simp add: word_le_nat_alt)

lemma wptr_ucast: "(ucast (p :: 7 word) :: u32) = ucast q \<longleftrightarrow> p = q"
  by (metis unat_wptr_ucast word_unat_eq_iff)

lemmas net_fields = idata_numeral wptr_field erase_field full_field open_field erase_limit

lemma net_opening: "net_is_opening_new_zone p = of_bool (p_io_cmd p = 1 \<and> zone_wptr (p_bram_rdata p) = 0 \<and> \<not> zone_is_full (p_bram_rdata p))"
  by (simp add: net_is_opening_new_zone_def net_fields)

lemma rtl_opening: "is_opening_new_zone (rtl_of r) \<longleftrightarrow> net_is_opening_new_zone (ins r) \<noteq> 0"
  by (auto simp: is_opening_new_zone_def net_opening rtl_of_def)

lemma net_rules:
  assumes "unat n < 16"
  shows "zns_rules_checker (p_io_cmd p) (p_validated_target_page p) (p_addr_bound_error p \<noteq> 0)
      (p_thermal_shutdown_tripped p \<noteq> 0) (zone_wptr (p_bram_rdata p)) (zone_is_full (p_bram_rdata p))
      (zone_erase_cnt (p_bram_rdata p)) (ucast n) (net_is_opening_new_zone p \<noteq> 0)
    = (net_has_error p (net_is_opening_new_zone p) n \<noteq> 0, net_internal_error_code p (net_is_opening_new_zone p) n)"
  unfolding zns_rules_checker_def net_has_error_def net_internal_error_code_def net_opening
  by (simp add: net_fields count_field [OF assms]) 

lemma rtl_verdict:
  assumes "regs_ok r"
  shows "fsm_has_error (rtl_of r) \<longleftrightarrow> net_has_error (ins r) (net_is_opening_new_zone (ins r)) (v_open_zones_count r) \<noteq> 0"
    "Zns_Fsm.internal_error_code (rtl_of r) = net_internal_error_code (ins r) (net_is_opening_new_zone (ins r)) (v_open_zones_count r)"
  using assms net_rules [of "v_open_zones_count r" "ins r"] rtl_opening [of r]
  by (simp_all add: regs_ok_def fsm_has_error_def Zns_Fsm.internal_error_code_def check_rules_def rtl_of_def)

lemma fsm_of_idle: "fsm_of s = ST_IDLE \<longleftrightarrow> s = 0"
  by (simp add: fsm_of_def)

lemma rtl_addr:
  assumes "p_io_trigger (ins r) \<in> {0, 1}"
  shows "comb_bram_addr (rtl_of r) = net_bram_addr (ins r) (v_current_state r)"
  using assms by (auto simp: comb_bram_addr_def net_bram_addr_def rtl_of_def fsm_of_idle idata_numeral)

section \<open>Registers\<close>

lemma full_descriptor: "0xC0 OR (0xFF0000 AND w) = pack_zone (zone_erase_cnt w) True 64"
proof -
  have m: "(0xFF0000 :: u32) = push_bit 16 (mask 8)" "(0xC0 :: u32) = push_bit 7 1 OR push_bit 6 1"
    "(64 :: 7 word) = push_bit 6 1"
    by (simp_all add: mask_eq_exp_minus_1)
  show ?thesis
    unfolding m pack_zone_def zone_erase_cnt_def
    by (rule bit_word_eqI) (auto simp: bit_simps simp del: push_bit_of_1)
qed

lemma ucast_add_down:
  "LENGTH('b::len) \<le> LENGTH('a::len) \<Longrightarrow> (ucast (x + y :: 'a word) :: 'b word) = ucast x + ucast y"
  by transfer (metis min_def take_bit_add take_bit_take_bit)

lemma next_descriptor_word: "(0xFF0000 AND w) OR (0x7F AND (1 + w)) = pack_zone (zone_erase_cnt w) False (zone_wptr w + 1)"
proof -
  have m: "(0xFF0000 :: u32) = push_bit 16 (mask 8)" by (simp add: mask_eq_exp_minus_1)
  have p: "zone_wptr w + 1 = zone_wptr (1 + w)"
    by (simp add: zone_wptr_def ucast_add_down add.commute)
  show ?thesis
    unfolding p wptr_field pack_zone_def zone_erase_cnt_def m
    by (rule bit_word_eqI) (auto simp: bit_simps )
qed

lemma reset_descriptor: "0xFF0000 AND push_bit 16 (1 + drop_bit 16 w) = pack_zone (zone_erase_cnt w + 1) False 0"
proof -
  have m: "(0xFF0000 :: u32) = push_bit 16 (mask 8)" by (simp add: mask_eq_exp_minus_1)
  have p: "zone_erase_cnt w + 1 = ucast (1 + drop_bit 16 w)"
    by (simp add: zone_erase_cnt_def ucast_add_down add.commute)
  show ?thesis
    unfolding p pack_zone_def m
    by (rule bit_word_eqI) (auto simp: bit_simps )
qed

lemma rtl_sel [simp]:
  "rst (rtl_of r) \<longleftrightarrow> p_rst (ins r) \<noteq> 0" "clk (rtl_of r) \<longleftrightarrow> p_clk (ins r) \<noteq> 0" "io_trigger (rtl_of r) \<longleftrightarrow> p_io_trigger (ins r) \<noteq> 0"
  "io_cmd (rtl_of r) = p_io_cmd (ins r)" "bram_rdata (rtl_of r) = p_bram_rdata (ins r)" "bram_wdata (rtl_of r) = v_bram_wdata r"
  "current_state (rtl_of r) = fsm_of (v_current_state r)" "open_zones_count (rtl_of r) = ucast (v_open_zones_count r)"
  "prev_clk (rtl_of r) \<longleftrightarrow> v_prev_clk1 r \<noteq> 0" "prev_rst (rtl_of r) \<longleftrightarrow> v_prev_rst1 r \<noteq> 0"
  by (simp_all add: rtl_of_def)

lemma fsm_of_simps [simp]:
  "fsm_of 0 = ST_IDLE" "fsm_of 1 = ST_BRAM_READ" "fsm_of 2 = ST_BRAM_WAIT" "fsm_of 3 = ST_VALIDATE" "fsm_of 4 = ST_EXECUTE"
  "fsm_of 5 = ST_UPDATE_BRAM" "fsm_of 6 = ST_ERROR"
  by (simp_all add: fsm_of_def)

lemma state_cases:
  assumes "s \<in> {0, 1, 2, 3, 4, 5, 6 :: u8}"
  obtains "s = 0" | "s = 1" | "s = 2" | "s = 3" | "s = 4" | "s = 5" | "s = 6"
  using assms by blast

lemma delayed_state_values:
  assumes "t \<in> {0, 1}"
  shows "delayed_state 0 t e = ucast t" "delayed_state 1 t e = 2" "delayed_state 2 t e = 3"
    "delayed_state 3 t e = (if e \<noteq> 0 then 6 else 4)" "delayed_state 4 t e = 5"
    "delayed_state 5 t e = (if t = 0 then 0 else 5)" "delayed_state 6 t e = (if t = 0 then 0 else 6)"
  using assms by (auto simp: delayed_state_def)

lemma delayed_state_rtl:
  assumes "regs_ok r" "nets_ok (ins r) r"
  shows "fsm_of (ucast (delayed_state (v_current_state r) (p_io_trigger (ins r)) (v_has_error r))) = next_state (rtl_of r)
    \<and> ucast (delayed_state (v_current_state r) (p_io_trigger (ins r)) (v_has_error r)) \<in> {0, 1, 2, 3, 4, 5, 6 :: u8}"
proof -
  have t: "p_io_trigger (ins r) \<in> {0, 1}" and s: "v_current_state r \<in> {0, 1, 2, 3, 4, 5, 6}"
    using assms by (simp_all add: regs_ok_def bit_ports_def)
  have e: "fsm_has_error (rtl_of r) \<longleftrightarrow> v_has_error r \<noteq> 0" using rtl_verdict(1) [OF assms(1)] assms(2) by (simp add: nets_ok_def)
  from s show ?thesis
    by (rule state_cases) (use t in \<open>auto simp: delayed_state_values next_state_def e\<close>)
qed

lemma seq0_rst:
  "p_rst (ins r) \<noteq> 0 \<Longrightarrow> rtl_of (nba_sequent_0 r) = output_regs (rtl_of r) \<and> v_dly_current_state (nba_sequent_0 r) = 0"
  by (simp add: nba_sequent_0_def Let_def output_regs_def) (simp add: rtl_of_def)

lemma wdata_rtl:
  "io_cmd (rtl_of r) = 1 \<Longrightarrow> execute_wdata (rtl_of r) = (if 0x3F = 0x7F AND p_bram_rdata (ins r)
      then 0xC0 OR (0xFF0000 AND p_bram_rdata (ins r))
      else (0xFF0000 AND p_bram_rdata (ins r)) OR (0x7F AND (1 + p_bram_rdata (ins r))))"
  "io_cmd (rtl_of r) = 2 \<Longrightarrow> execute_wdata (rtl_of r) = 0xFF0000 AND push_bit 16 (1 + drop_bit 16 (p_bram_rdata (ins r)))"
  "io_cmd (rtl_of r) \<noteq> 1 \<Longrightarrow> io_cmd (rtl_of r) \<noteq> 2 \<Longrightarrow> execute_wdata (rtl_of r) = v_bram_wdata r"
proof -
  have "0x3F = 0x7F AND w \<longleftrightarrow> zone_wptr w = 63" for w
    unfolding wptr_field using wptr_ucast [of 63 "zone_wptr w"] by auto
  then show "io_cmd (rtl_of r) = 1 \<Longrightarrow> execute_wdata (rtl_of r) = (if 0x3F = 0x7F AND p_bram_rdata (ins r)
      then 0xC0 OR (0xFF0000 AND p_bram_rdata (ins r))
      else (0xFF0000 AND p_bram_rdata (ins r)) OR (0x7F AND (1 + p_bram_rdata (ins r))))"
    unfolding full_descriptor next_descriptor_word by (simp add: execute_wdata_def next_descriptor_def Let_def)
qed (simp_all add: execute_wdata_def next_descriptor_def reset_descriptor Let_def)

lemma seq0_run:
  assumes "regs_ok r" "nets_ok (ins r) r" "p_rst (ins r) = 0"
  shows "rtl_of (nba_sequent_0 r) = output_regs (rtl_of r)"
    "v_dly_current_state (nba_sequent_0 r) = ucast (delayed_state (v_current_state r) (p_io_trigger (ins r)) (v_has_error r))"
proof -
  have e: "v_internal_error_code r = Zns_Fsm.internal_error_code (rtl_of r)"
    using assms rtl_verdict(2) [OF assms(1)] by (simp add: nets_ok_def)
  have s: "v_current_state r \<in> {0, 1, 2, 3, 4, 5, 6}" using assms by (simp add: regs_ok_def)
  have u: "nba_sequent_0 r = put_wdata_err (v_current_state r) (put_status_we (v_current_state r)
      (r\<lparr>v_dly_current_state := ucast (delayed_state (v_current_state r) (p_io_trigger (ins r)) (v_has_error r))\<rparr>))"
    using assms(3) by (simp add: nba_sequent_0_def)
  from s show "rtl_of (nba_sequent_0 r) = output_regs (rtl_of r)"
  proof (rule state_cases)
    assume "v_current_state r = 4"
    then show ?thesis
      using assms(3) wdata_rtl [of r]
      by (simp add: u Let_def output_regs_def put_wdata_err_def put_status_we_def idata_numeral) (simp add: rtl_of_def)
  next
    assume "v_current_state r = 6"
    then show ?thesis
      using assms(3) e by (simp add: u Let_def output_regs_def put_wdata_err_def put_status_we_def) (simp add: rtl_of_def)
  qed (use assms(3) in \<open>simp add: u Let_def output_regs_def put_wdata_err_def put_status_we_def; simp add: rtl_of_def\<close>)+
  show "v_dly_current_state (nba_sequent_0 r) = ucast (delayed_state (v_current_state r) (p_io_trigger (ins r)) (v_has_error r))"
    using assms(3) by (simp add: nba_sequent_0_def Let_def put_wdata_err_def put_status_we_def)
qed

lemma ucast_sub_down:
  "LENGTH('b::len) \<le> LENGTH('a::len) \<Longrightarrow> (ucast (x - y :: 'a word) :: 'b word) = ucast x - ucast y"
  by transfer (metis min_def take_bit_diff take_bit_take_bit)

lemma nibble:
  "(ucast (ucast (0xF AND x :: u32) :: u8) :: 4 word) = ucast x" "unat (ucast (0xF AND x :: u32) :: u8) < 16"
proof -
  have m: "(0xF :: u32) = mask 4" by (simp add: mask_eq_exp_minus_1)
  show "(ucast (ucast (0xF AND x :: u32) :: u8) :: 4 word) = ucast x"
    unfolding m by (rule bit_word_eqI) (auto simp: bit_simps)
  have "ucast (0xF AND x :: u32) = (take_bit 4 (ucast x) :: u8)"
    unfolding m by (rule bit_word_eqI) (auto simp: bit_simps)
  then show "unat (ucast (0xF AND x :: u32) :: u8) < 16"
    by (simp add: unsigned_take_bit_eq take_bit_nat_less_exp [of 4, simplified])
qed

lemma ucast_idata: "(ucast (idata n) :: 4 word) = ucast n"
  by (rule bit_word_eqI) (auto simp: bit_simps)

lemma not_full_field: "(of_bool a AND NOT (drop_bit 7 w)) AND of_bool b = (of_bool (a \<and> b \<and> \<not> zone_is_full w) :: u32)"
  by (rule bit_word_eqI) (auto simp: bit_simps zone_is_full_def)

lemma count_steps:
  "(ucast (ucast (0xF AND (1 + idata n)) :: u8) :: 4 word) = ucast n + 1"
  "(ucast (ucast (0xF AND (idata n - 1)) :: u8) :: 4 word) = ucast n - 1"
  by (simp_all add: nibble ucast_add_down ucast_sub_down ucast_idata)

lemma delayed_count_rtl:
  assumes "regs_ok r"
  shows "ucast (delayed_count r) = zns_resources_tracker (rtl_of r)" "unat (delayed_count r) < 16"
proof -
  have n: "unat (v_open_zones_count r) < 16" and s: "fsm_of (v_current_state r) = ST_EXECUTE \<longleftrightarrow> v_current_state r = 4"
    using assms by (auto simp: regs_ok_def)
  have z: "0x3F = 0x7F AND w \<longleftrightarrow> zone_wptr w = 63" "0 < 0x7F AND w \<longleftrightarrow> 0 < zone_wptr w" for w
    unfolding wptr_field using wptr_ucast [of 63 "zone_wptr w"] wptr_ucast [of 0 "zone_wptr w"] by (auto simp: word_less_nat_alt)
  show "ucast (delayed_count r) = zns_resources_tracker (rtl_of r)"
    by (simp add: delayed_count_def Let_def zns_resources_tracker_def track_open_def s z net_fields(1,3) open_field
      full_field not_full_field not_full_field [of True _ True, simplified] idata_numeral count_field [OF n] count_steps conj_ac)
  show "unat (delayed_count r) < 16"
    using n by (simp add: delayed_count_def Let_def nibble)
qed

lemma seq0_frame [simp]:
  "ins (nba_sequent_0 r) = ins r" "v_current_state (nba_sequent_0 r) = v_current_state r"
  "v_open_zones_count (nba_sequent_0 r) = v_open_zones_count r" "v_nba_triggered (nba_sequent_0 r) = v_nba_triggered r"
  "v_prev_clk1 (nba_sequent_0 r) = v_prev_clk1 r" "v_prev_rst1 (nba_sequent_0 r) = v_prev_rst1 r"
  "v_ico_triggered1 (nba_sequent_0 r) = v_ico_triggered1 r" "v_ico_did_init (nba_sequent_0 r) = v_ico_did_init r"
  "v_prev0 (nba_sequent_0 r) = v_prev0 r" "v_is_opening_new_zone (nba_sequent_0 r) = v_is_opening_new_zone r"
  "v_has_error (nba_sequent_0 r) = v_has_error r" "v_internal_error_code (nba_sequent_0 r) = v_internal_error_code r"
  by (simp_all add: nba_sequent_0_def put_wdata_err_def put_status_we_def Let_def)

section \<open>One evaluation\<close>

definition fire :: "bool \<Rightarrow> vroot \<Rightarrow> vroot" where
  "fire c r = nba_sequent_2 ((if c then nba_sequent_1 else id) (nba_sequent_0 r))"

lemma seq1_frame [simp]: "v_nba_triggered (nba_sequent_1 r) = v_nba_triggered r"
  by (simp add: nba_sequent_1_def put_verdict_def)

lemma eval_nba_fires:
  assumes "bit (v_nba_triggered r) 0 \<or> bit (v_nba_triggered r) 1"
  shows "eval_nba r = fire (bit (v_nba_triggered r) 0) r"
  using assms by (auto simp: eval_nba_def Let_def mask_bits fire_def)

lemma dly_rtl:
  assumes "regs_ok r" "nets_ok (ins r) r"
  shows "fsm_of (v_dly_current_state (nba_sequent_0 r)) = (if rst (rtl_of r) then ST_IDLE else next_state (rtl_of r))"
    "v_dly_current_state (nba_sequent_0 r) \<in> {0, 1, 2, 3, 4, 5, 6}" "rtl_of (nba_sequent_0 r) = output_regs (rtl_of r)"
  using seq0_rst [of r] seq0_run [OF assms] delayed_state_rtl [OF assms] by (cases "p_rst (ins r) = 0"; simp)+

lemma fire_frame:
  "ins (fire c r) = ins r" "v_current_state (fire c r) = v_dly_current_state (nba_sequent_0 r)"
  "v_open_zones_count (fire c r) = (if c then delayed_count r else v_open_zones_count r)"
  "v_nba_triggered (fire c r) = v_nba_triggered r" "v_prev_clk1 (fire c r) = v_prev_clk1 r" "v_prev_rst1 (fire c r) = v_prev_rst1 r"
  "v_ico_triggered1 (fire c r) = v_ico_triggered1 r" "v_ico_did_init (fire c r) = v_ico_did_init r" "v_prev0 (fire c r) = v_prev0 r"
  "v_bram_addr (fire c r) = net_bram_addr (ins r) (v_dly_current_state (nba_sequent_0 r))"
  by (simp_all add: fire_def nba_sequent_2_def nba_sequent_1_def put_defs delayed_count_def Let_def)

lemma fire_nets:
  assumes "nets_ok (ins r) r"
  shows "nets_ok (ins r) (fire c r)"
  using assms by (simp add: nets_ok_def fire_frame)
    (simp add: fire_def nba_sequent_2_def nba_sequent_1_def put_defs delayed_count_def Let_def)

lemma fire_rtl:
  assumes "regs_ok r" "nets_ok (ins r) r"
  shows "rtl_of (fire c r) = settle (clocked c (rtl_of r))"
proof -
  let ?s = "nba_sequent_0 r"
  note d = dly_rtl [OF assms]
  have c: "clocked c (rtl_of r) = (rtl_of ?s)\<lparr>current_state := fsm_of (v_dly_current_state ?s),
      open_zones_count := ucast (if c then delayed_count r else v_open_zones_count r)\<rparr>"
    using delayed_count_rtl(1) [OF assms(1)] by (simp add: clocked_def d(3) d(1))
  have f: "rtl_of (fire c r) = (clocked c (rtl_of r))\<lparr>bram_addr := v_bram_addr (fire c r)\<rparr>"
    unfolding c by (simp add: rtl_of_def fire_frame)
      (simp add: fire_def nba_sequent_2_def nba_sequent_1_def put_defs)
  have "comb_bram_addr (clocked c (rtl_of r)) = comb_bram_addr (rtl_of (fire c r))"
    unfolding f by (simp add: comb_bram_addr_def)
  also have "\<dots> = v_bram_addr (fire c r)"
    using assms(1) by (subst rtl_addr) (simp_all add: fire_frame regs_ok_def bit_ports_def)
  finally show ?thesis unfolding f settle_def by simp
qed

lemma settled_rtl:
  assumes "regs_ok r"
  shows "rtl_of (settled r) = settle (rtl_of r)" "regs_ok (settled r)" "nets_ok (ins r) (settled r)"
proof -
  have "comb_bram_addr (rtl_of r) = net_bram_addr (ins r) (v_current_state r)"
    using assms by (intro rtl_addr) (simp add: regs_ok_def bit_ports_def)
  then show "rtl_of (settled r) = settle (rtl_of r)" by (simp add: settle_def) (simp add: rtl_of_def settled_def put_defs)
  show "regs_ok (settled r)" "nets_ok (ins r) (settled r)"
    using assms by (simp_all add: regs_ok_def nets_ok_def) (simp add: settled_def put_defs)
qed

lemma edges_bits: "bit (edges r) 0 \<longleftrightarrow> clk_rises r" "bit (edges r) 1 \<longleftrightarrow> rst_rises r" "edges r = 0 \<longleftrightarrow> \<not> clk_rises r \<and> \<not> rst_rises r"
  unfolding edges_def by (cases "rst_rises r"; cases "clk_rises r"; simp)+

text \<open>The state in which the clocked blocks run: the edges are recorded, the lines remembered.\<close>

definition armed :: "vroot \<Rightarrow> vroot" where
  "armed r = (seen r)\<lparr>v_act_triggered := edges r, v_nba_triggered := edges r\<rparr>"

lemma nba_round_armed:
  assumes "regs_ok r" "v_nba_triggered r = 0"
  shows "nba_round r = Some (edges r \<noteq> 0, if edges r = 0 then armed r else (fire (clk_rises r) (armed r))\<lparr>v_nba_triggered := 0\<rparr>)"
proof -
  have "until_settled (\<lambda>s. Some (eval_phase_act s)) 0 r = Some (armed r)"
    using act_phase [OF assms] by (simp add: until_once armed_def)
  moreover have "edges r \<noteq> 0 \<Longrightarrow> eval_nba (armed r) = fire (clk_rises r) (armed r)"
    using eval_nba_fires [of "armed r"] edges_bits [of r] by (simp add: armed_def)
  ultimately show ?thesis
    by (simp add: nba_round_def eval_phase_nba_def trigger_anySet_def) (simp add: armed_def)
qed

lemma armed_frame [simp]:
  "ins (armed r) = ins r" "v_current_state (armed r) = v_current_state r" "v_open_zones_count (armed r) = v_open_zones_count r"
  "v_prev_clk1 (armed r) = p_clk (ins r)" "v_prev_rst1 (armed r) = p_rst (ins r)" "v_ico_triggered1 (armed r) = v_ico_triggered1 r"
  "v_ico_did_init (armed r) = v_ico_did_init r" "v_prev0 (armed r) = v_prev0 r" "v_nba_triggered (armed r) = edges r"
  "nets_ok p (armed r) \<longleftrightarrow> nets_ok p r"
  by (simp_all add: armed_def seen_def nets_ok_def)

lemma armed_rtl: "rtl_of (armed r) = (rtl_of r)\<lparr>prev_clk := p_clk (ins r) \<noteq> 0, prev_rst := p_rst (ins r) \<noteq> 0\<rparr>"
  by (simp add: armed_def seen_def rtl_of_def)

lemma clocked_prev:
  "settle (clocked c (v\<lparr>prev_clk := a, prev_rst := b\<rparr>)) = (settle (clocked c v))\<lparr>prev_clk := a, prev_rst := b\<rparr>"
  by (cases v) (simp add: settle_def clocked_def output_regs_def next_state_def comb_bram_addr_def zns_resources_tracker_def
    fsm_has_error_def Zns_Fsm.internal_error_code_def check_rules_def is_opening_new_zone_def execute_wdata_def split: fsm_state.split)

lemma armed_ok: "regs_ok r \<Longrightarrow> regs_ok (armed r)"
  by (simp add: regs_ok_def bit_ports_def)

lemma fire_ok: "regs_ok r \<Longrightarrow> nets_ok (ins r) r \<Longrightarrow> regs_ok (fire c r)"
  using dly_rtl(2) [of r] delayed_count_rtl(2) [of r] by (simp add: regs_ok_def fire_frame)

lemma no_edges: "v_prev_clk1 r = p_clk (ins r) \<Longrightarrow> v_prev_rst1 r = p_rst (ins r) \<Longrightarrow> edges r = 0"
  by (auto simp: edges_bits clk_rises_def rst_rises_def)

lemma nba_loop:
  assumes "regs_ok r" "v_nba_triggered r = 0" "nets_ok (ins r) r"
  shows "until_settled nba_round 0 r =
    Some (if edges r = 0 then armed r else armed ((fire (clk_rises r) (armed r))\<lparr>v_nba_triggered := 0\<rparr>))"
proof (cases "edges r = 0")
  case True
  then show ?thesis by (simp add: until_once nba_round_armed [OF assms(1,2)])
next
  case False
  let ?s = "(fire (clk_rises r) (armed r))\<lparr>v_nba_triggered := 0\<rparr>"
  have "nba_round r = Some (True, ?s)" using False by (simp add: nba_round_armed [OF assms(1,2)])
  moreover have "edges ?s = 0" by (rule no_edges) (simp_all add: fire_frame)
  moreover have "regs_ok ?s" using fire_ok [OF armed_ok [OF assms(1)]] assms(3) by (simp add: regs_ok_def)
  ultimately show ?thesis using False nba_round_armed [of ?s] by (simp add: until_twice)
qed

lemma fired_rtl:
  assumes "regs_ok r" "nets_ok (ins r) r" "edges r \<noteq> 0"
  defines "s \<equiv> armed ((fire (clk_rises r) (armed r))\<lparr>v_nba_triggered := 0\<rparr>)"
  shows "rtl_of s = (settle (clocked (clk_rises r) (rtl_of r)))\<lparr>prev_clk := p_clk (ins r) \<noteq> 0, prev_rst := p_rst (ins r) \<noteq> 0\<rparr>"
    "regs_ok s" "nets_ok (ins r) s" "v_nba_triggered s = 0" "v_prev0 s = v_prev0 r" "v_ico_did_init s = v_ico_did_init r"
proof -
  let ?f = "fire (clk_rises r) (armed r)"
  have f: "rtl_of ?f = settle (clocked (clk_rises r) (rtl_of (armed r)))"
    using assms(2) by (intro fire_rtl armed_ok [OF assms(1)]) simp
  have "rtl_of s = (rtl_of ?f)\<lparr>prev_clk := p_clk (ins r) \<noteq> 0, prev_rst := p_rst (ins r) \<noteq> 0\<rparr>"
    unfolding s_def armed_rtl by (simp add: fire_frame) (simp add: rtl_of_def)
  then show "rtl_of s = (settle (clocked (clk_rises r) (rtl_of r)))\<lparr>prev_clk := p_clk (ins r) \<noteq> 0, prev_rst := p_rst (ins r) \<noteq> 0\<rparr>"
    unfolding f armed_rtl clocked_prev by simp
  show "regs_ok s" using fire_ok [OF armed_ok [OF assms(1)]] assms(2) unfolding s_def by (intro armed_ok) (simp add: regs_ok_def)
  have "nets_ok (ins r) ?f" using fire_nets [of "armed r"] assms(2) by simp
  then have "nets_ok (ins r) (?f\<lparr>v_nba_triggered := 0\<rparr>)" by (simp add: nets_ok_def)
  then show "nets_ok (ins r) s" unfolding s_def by simp
  show "v_nba_triggered s = 0" "v_prev0 s = v_prev0 r" "v_ico_did_init s = v_ico_did_init r"
    unfolding s_def by (simp_all add: no_edges fire_frame)
qed

text \<open>
  One evaluation of the C++ model is one evaluation of the Verilog model; the relation holds
  again, whatever the inputs are then set to.
\<close>

lemma bit_byte: "a \<in> {0, 1 :: u8} \<Longrightarrow> a = 1 \<longleftrightarrow> a \<noteq> 0"
  by auto

lemma root_eval_rtl:
  assumes "root_ok r"
  obtains r' where "root_eval r = Some r'" "root_ok r'" "rtl_of r' = validator_eval (rtl_of r)"
    "ins r' = ins r" "v_ico_did_init r' = 1"
proof -
  let ?s = "settled r"
  have ok: "regs_ok r" "v_nba_triggered ?s = 0" using assms by (simp_all add: root_ok_def)
  note s = settled_rtl [OF ok(1)]
  have n: "nets_ok (ins ?s) ?s" using s(3) by simp
  have e: "root_eval r = Some (if edges ?s = 0 then armed ?s else armed ((fire (clk_rises ?s) (armed ?s))\<lparr>v_nba_triggered := 0\<rparr>))"
    (is "_ = Some ?r") using nba_loop [OF s(2) ok(2) n] by (simp add: root_eval_def ico_loop [OF assms])
  have c: "clk_rises ?s \<longleftrightarrow> clk (rtl_of r) \<and> \<not> prev_clk (rtl_of r)" "rst_rises ?s \<longleftrightarrow> rst (rtl_of r) \<and> \<not> prev_rst (rtl_of r)"
    using ok(1) bit_byte [of "p_clk (ins r)"] bit_byte [of "p_rst (ins r)"]
    by (simp_all add: clk_rises_def rst_rises_def regs_ok_def bit_ports_def)
  have v: "validator_eval (rtl_of r) = (if edges ?s = 0 then rtl_of ?s else settle (clocked (clk_rises ?s) (rtl_of ?s)))
      \<lparr>prev_clk := p_clk (ins r) \<noteq> 0, prev_rst := p_rst (ins r) \<noteq> 0\<rparr>"
    unfolding validator_eval_def Let_def s(1) edges_bits c by simp
  have "root_ok ?r \<and> rtl_of ?r = validator_eval (rtl_of r) \<and> ins ?r = ins r \<and> v_ico_did_init ?r = 1"
  proof (cases "edges ?s = 0")
    case True
    have "regs_ok (armed ?s)" by (rule armed_ok [OF s(2)])
    with True n show ?thesis unfolding v root_ok_def by (simp add: armed_rtl)
  next
    case False
    with fired_rtl [OF s(2) n False] show ?thesis unfolding v root_ok_def by (simp add: fire_frame)
  qed
  with e that show thesis by blast
qed

end
