(* ===== verification/Verilated_Bridge.thy ===== *)
theory Verilated_Bridge
  imports Verilated_Facts Zns_Properties
begin

text \<open>
  The bridge of \<open>hardware_bridge.cpp\<close> over the compiled model, with the start-up of
  \<open>sim_main.cpp\<close>, and its simulation by the bridge over the Verilog model: whatever the
  firmware does through the port functions, it sees the same.
\<close>

section \<open>The model object\<close>

definition rtl_model :: "vmodel \<Rightarrow> validator" where
  "rtl_model m = (let v = rtl_of (m_root m) in
     if m_didInit m then v else v\<lparr>prev_clk := clk v, prev_rst := rst v\<rparr>)"

definition model_ok :: "vmodel \<Rightarrow> bool" where
  "model_ok m \<longleftrightarrow> root_ok (m_root m) \<and> (\<not> m_didInit m \<longrightarrow> v_ico_did_init (m_root m) = 0 \<and> v_stl_triggered (m_root m) = 0)"

lemma eval_settle_nets:
  assumes "v_stl_triggered r = 0"
  shows "eval_settle r = Some ((put_verdict (put_is_opening (put_bram_addr r)))\<lparr>v_stl_first_iteration := 0, v_stl_triggered := 0\<rparr>)"
proof -
  let ?p = "\<lambda>s. let (again, s1) = eval_phase_stl s in Some (again, s1\<lparr>v_stl_first_iteration := 0\<rparr>)"
  define n where "n = (put_verdict (put_is_opening (put_bram_addr r)))\<lparr>v_stl_first_iteration := 0, v_stl_triggered := 1\<rparr>"
  have "?p (r\<lparr>v_stl_first_iteration := 1\<rparr>) = Some (True, n)"
    by (simp add: assms eval_phase_stl_def Let_def trigger_anySet_def put_defs n_def)
  moreover have "v_stl_triggered n = 1" "v_stl_first_iteration n = 0" by (simp_all add: n_def)
  then have "?p n = Some (False, n\<lparr>v_stl_first_iteration := 0, v_stl_triggered := 0\<rparr>)"
    by (simp add: eval_phase_stl_def Let_def trigger_anySet_def)
  ultimately show ?thesis
    unfolding eval_settle_def by (subst until_twice) (simp_all add: n_def)
qed

lemma settle_again: "validator_eval ((settle v)\<lparr>prev_clk := a, prev_rst := b\<rparr>) = validator_eval (v\<lparr>prev_clk := a, prev_rst := b\<rparr>)"
proof -
  have "settle ((settle v)\<lparr>prev_clk := a, prev_rst := b\<rparr>) = settle (v\<lparr>prev_clk := a, prev_rst := b\<rparr>)"
    by (simp add: settle_def comb_bram_addr_def)
  then show ?thesis unfolding validator_eval_def Let_def by (simp add: settle_def)
qed

lemma first_settled:
  assumes "regs_ok r"
  defines "s \<equiv> (put_verdict (put_is_opening (put_bram_addr (eval_static r))))\<lparr>v_stl_first_iteration := 0, v_stl_triggered := 0\<rparr>"
  shows "regs_ok s" "rtl_of s = (settle (rtl_of r))\<lparr>prev_clk := p_clk (ins r) \<noteq> 0, prev_rst := p_rst (ins r) \<noteq> 0\<rparr>"
    "v_nba_triggered s = v_nba_triggered r" "v_ico_did_init s = v_ico_did_init r"
proof -
  have "comb_bram_addr (rtl_of r) = net_bram_addr (ins r) (v_current_state r)"
    using assms by (intro rtl_addr) (simp add: regs_ok_def bit_ports_def)
  then show "rtl_of s = (settle (rtl_of r))\<lparr>prev_clk := p_clk (ins r) \<noteq> 0, prev_rst := p_rst (ins r) \<noteq> 0\<rparr>"
    by (simp add: settle_def s_def) (simp add: rtl_of_def put_defs eval_static_def)
qed (use assms(1) in \<open>simp_all add: s_def put_defs eval_static_def regs_ok_def bit_ports_def\<close>)

lemma eval_step_rtl:
  assumes "model_ok m"
  obtains m' where "eval_step m = Some m'" "model_ok m'" "m_didInit m'"
    "rtl_of (m_root m') = validator_eval (rtl_model m)"
proof (cases "m_didInit m")
  case True
  from assms have "root_ok (m_root m)" by (simp add: model_ok_def)
  then obtain r' where "root_eval (m_root m) = Some r'" "root_ok r'" "rtl_of r' = validator_eval (rtl_of (m_root m))"
    by (rule root_eval_rtl)
  with True show thesis
    by (intro that [of "\<lparr>m_root = r', m_didInit = True\<rparr>"]) (simp_all add: eval_step_def model_ok_def rtl_model_def)
next
  case False
  let ?r = "m_root m"
  let ?s = "(put_verdict (put_is_opening (put_bram_addr (eval_static ?r))))\<lparr>v_stl_first_iteration := 0, v_stl_triggered := 0\<rparr>"
  have r: "regs_ok ?r" "v_nba_triggered ?r = 0" "v_ico_did_init ?r = 0" "v_stl_triggered ?r = 0"
    using assms False by (simp_all add: model_ok_def root_ok_def)
  note s = first_settled [OF r(1)]
  have "root_ok ?s" unfolding root_ok_def using s r by simp
  then obtain r' where r': "root_eval ?s = Some r'" "root_ok r'" "rtl_of r' = validator_eval (rtl_of ?s)"
    by (rule root_eval_rtl)
  have "eval_settle (eval_static ?r) = Some ?s" by (rule eval_settle_nets) (simp add: eval_static_def r)
  with r' False show thesis
    by (intro that [of "\<lparr>m_root = r', m_didInit = True\<rparr>"])
      (simp_all add: eval_step_def model_ok_def rtl_model_def Let_def s(2) settle_again)
qed

section \<open>The bridge over the compiled model\<close>

record chw =
  c_top :: "vmodel option"
  c_bram_storage :: "nat \<Rightarrow> u32"
  c_rdata_latch :: u32
  c_temperature :: "real option"

definition drive :: "(ports \<Rightarrow> ports) \<Rightarrow> vmodel \<Rightarrow> vmodel" where
  "drive f m = m\<lparr>m_root := (m_root m)\<lparr>ins := f (ins (m_root m))\<rparr>\<rparr>"

definition cpp_thermal :: "chw \<Rightarrow> u8" where
  "cpp_thermal h = (case c_temperature h of None \<Rightarrow> 0 | Some t \<Rightarrow> if check_thermal_shutdown t then 1 else 0)"

definition cpp_tick_hardware :: "chw \<Rightarrow> chw option" where
  "cpp_tick_hardware h = (case c_top h of None \<Rightarrow> Some h | Some m \<Rightarrow>
     (let current_addr = v_bram_addr (m_root m) in
      Option.bind (eval_step (drive (\<lambda>p. p\<lparr>
            p_bram_rdata := (if in_bram current_addr then c_rdata_latch h else 0),
            p_thermal_shutdown_tripped := cpp_thermal h, p_addr_bound_error := 0, p_clk := 1\<rparr>) m)) (\<lambda>m1.
      let latch = (if in_bram current_addr then c_bram_storage h (unat current_addr) else c_rdata_latch h);
          bram = (if v_bram_we (m_root m1) \<noteq> 0 \<and> in_bram current_addr
                  then (c_bram_storage h)(unat current_addr := v_bram_wdata (m_root m1)) else c_bram_storage h)
      in map_option (\<lambda>m2. h\<lparr>c_top := Some m2, c_rdata_latch := latch, c_bram_storage := bram\<rparr>)
           (eval_step (drive (\<lambda>p. p\<lparr>p_bram_rdata := latch, p_clk := 0\<rparr>) m1)))))"

definition cpp_port :: "(ports \<Rightarrow> ports) \<Rightarrow> chw \<Rightarrow> chw" where
  "cpp_port f h = h\<lparr>c_top := map_option (drive f) (c_top h)\<rparr>"

text \<open>\<open>main\<close> of \<open>sim_main.cpp\<close> up to the start of the server.\<close>

definition cpp_boot :: "vmodel \<Rightarrow> chw \<Rightarrow> chw option" where
  "cpp_boot m h = Option.bind (cpp_tick_hardware (cpp_port (\<lambda>p. p\<lparr>p_rst := 1\<rparr>) (h\<lparr>c_top := Some m\<rparr>)))
     (\<lambda>h1. cpp_tick_hardware (cpp_port (\<lambda>p. p\<lparr>p_rst := 0\<rparr>) h1))"

section \<open>Simulation\<close>

definition model_runs :: "vmodel \<Rightarrow> validator \<Rightarrow> bool" where
  "model_runs m v \<longleftrightarrow> model_ok m \<and> m_didInit m \<and> rtl_of (m_root m) = v"

definition bridge_runs :: "chw \<Rightarrow> hw \<Rightarrow> bool" where
  "bridge_runs ch h \<longleftrightarrow> rel_option model_runs (c_top ch) (hw_top h) \<and> c_bram_storage ch = mock_bram_storage h \<and>
     c_rdata_latch ch = bram_rdata_latch h \<and> c_temperature ch = hw_temperature h"

lemma drive_ok: "model_ok m \<Longrightarrow> bit_ports (f (ins (m_root m))) \<Longrightarrow> model_ok (drive f m)"
  by (simp add: model_ok_def root_ok_def regs_ok_def nets_ok_def drive_def)

lemma model_bits: "model_ok m \<Longrightarrow> bit_ports (ins (m_root m))"
  by (simp add: model_ok_def root_ok_def regs_ok_def)

lemma thermal_same: "c_temperature ch = hw_temperature h \<Longrightarrow> cpp_thermal ch \<noteq> 0 \<longleftrightarrow> thermal_input h"
  by (simp add: cpp_thermal_def thermal_input_def split: option.split)

text \<open>One tick, also of a model that has not been evaluated before.\<close>

lemma cpp_tick:
  assumes "c_top ch = Some m" "model_ok m" "c_bram_storage ch = mock_bram_storage h" "c_rdata_latch ch = bram_rdata_latch h"
    "c_temperature ch = hw_temperature h" "hw_top h = Some v"
    and v: "rtl_model (drive (\<lambda>p. p\<lparr>p_bram_rdata := x, p_thermal_shutdown_tripped := cpp_thermal ch, p_addr_bound_error := 0, p_clk := 1\<rparr>) m)
      = v\<lparr>bram_rdata := x, thermal_shutdown_tripped := thermal_input h, addr_bound_error := False, clk := True\<rparr>"
      "v_bram_addr (m_root m) = bram_addr v" "x = (if in_bram (bram_addr v) then bram_rdata_latch h else 0)"
  obtains ch' where "cpp_tick_hardware ch = Some ch'" "bridge_runs ch' (verilator_tick_hardware h)"
proof -
  let ?a = "bram_addr v"
  define l where "l = (if in_bram ?a then mock_bram_storage h (unat ?a) else bram_rdata_latch h)"
  let ?m = "drive (\<lambda>p. p\<lparr>p_bram_rdata := x, p_thermal_shutdown_tripped := cpp_thermal ch, p_addr_bound_error := 0, p_clk := 1\<rparr>) m"
  have "model_ok ?m" using model_bits [OF assms(2)] by (intro drive_ok [OF assms(2)]) (simp add: bit_ports_def)
  then obtain m1 where m1: "eval_step ?m = Some m1" "model_ok m1" "m_didInit m1" "rtl_of (m_root m1) = validator_eval (rtl_model ?m)"
    by (rule eval_step_rtl)
  let ?t = "validator_eval (rtl_model ?m)" and ?n = "drive (\<lambda>p. p\<lparr>p_bram_rdata := l, p_clk := 0\<rparr>) m1"
  have w: "v_bram_we (m_root m1) \<noteq> 0 \<longleftrightarrow> bram_we ?t" "v_bram_wdata (m_root m1) = bram_wdata ?t"
    unfolding m1(4) [symmetric] by (simp_all add: rtl_of_def)
  have "model_ok ?n" using model_bits [OF m1(2)] by (intro drive_ok [OF m1(2)]) (simp add: bit_ports_def)
  then obtain m2 where m2: "eval_step ?n = Some m2" "model_ok m2" "m_didInit m2" "rtl_of (m_root m2) = validator_eval (rtl_model ?n)"
    by (rule eval_step_rtl)
  have n: "rtl_model ?n = ?t\<lparr>bram_rdata := l, clk := False\<rparr>"
    using m1(3) unfolding m1(4) [symmetric] by (simp add: rtl_model_def drive_def rtl_of_def)
  let ?b = "if bram_we ?t \<and> in_bram ?a then (mock_bram_storage h)(unat ?a := bram_wdata ?t) else mock_bram_storage h"
  have "cpp_tick_hardware ch = Some (ch\<lparr>c_top := Some m2, c_rdata_latch := l, c_bram_storage := ?b\<rparr>)"
    unfolding cpp_tick_hardware_def assms(1,3,4) option.case Let_def v(2) v(3) [symmetric] l_def [symmetric] m1(1)
      Option.bind.simps m2(1) option.map w by (rule refl)
  moreover have "verilator_tick_hardware h = h\<lparr>hw_top := Some (validator_eval (?t\<lparr>bram_rdata := l, clk := False\<rparr>)),
      bram_rdata_latch := l, mock_bram_storage := ?b\<rparr>"
    unfolding verilator_tick_hardware_def assms(6) option.case Let_def v(3) [symmetric] v(1) [symmetric] l_def [symmetric] by (rule refl)
  ultimately show thesis
    using that m2 n assms(5) by (simp add: bridge_runs_def model_runs_def)
qed

lemma bridge_tick:
  assumes "bridge_runs ch h"
  obtains ch' where "cpp_tick_hardware ch = Some ch'" "bridge_runs ch' (verilator_tick_hardware h)"
proof (cases "c_top ch")
  case None
  with assms show thesis
    by (intro that [of ch]) (auto simp: bridge_runs_def cpp_tick_hardware_def verilator_tick_hardware_def)
next
  case (Some m)
  with assms obtain v where v: "hw_top h = Some v" "model_runs m v" by (auto simp: bridge_runs_def option_rel_Some1)
  show thesis
  proof (rule cpp_tick [OF Some _ _ _ _ v(1) _ _ refl])
    show "rtl_model (drive (\<lambda>p. p\<lparr>p_bram_rdata := x, p_thermal_shutdown_tripped := cpp_thermal ch,
        p_addr_bound_error := 0, p_clk := 1\<rparr>) m)
      = v\<lparr>bram_rdata := x, thermal_shutdown_tripped := thermal_input h, addr_bound_error := False, clk := True\<rparr>" for x
      using v(2) thermal_same [of ch h] assms
      by (auto simp: model_runs_def rtl_model_def drive_def rtl_of_def bridge_runs_def)
  qed (use assms v in \<open>auto simp: bridge_runs_def model_runs_def rtl_of_def intro: that\<close>)
qed

lemma bridge_port:
  assumes "bridge_runs ch h"
    and "\<And>p. bit_ports p \<Longrightarrow> bit_ports (f p)" "\<And>m. model_ok m \<Longrightarrow> m_didInit m \<Longrightarrow> rtl_of (m_root (drive f m)) = g (rtl_of (m_root m))"
  shows "bridge_runs (cpp_port f ch) (h\<lparr>hw_top := map_option g (hw_top h)\<rparr>)"
proof -
  have "rel_option model_runs (map_option (drive f) (c_top ch)) (map_option g (hw_top h))"
    using assms(1) drive_ok [of _ f] assms(2,3) model_bits
    by (auto simp: bridge_runs_def option.rel_map model_runs_def drive_def elim!: option.rel_mono_strong)
  then show ?thesis using assms(1) by (simp add: bridge_runs_def cpp_port_def)
qed

section \<open>Sequences of port operations\<close>

text \<open>What the firmware and the server do with the bridge, and what they see of it.\<close>

datatype bridge_op =
  Set_trigger u8 | Set_cmd u8 | Set_page u32 | Set_zone u32 | Store_bram nat u32 | Tick | Get_status | Get_err_code

fun rtl_op :: "bridge_op \<Rightarrow> hw \<Rightarrow> u8 list \<times> hw" where
  "rtl_op (Set_trigger x) h = ([], sim_set_io_trigger x h)"
| "rtl_op (Set_cmd x) h = ([], sim_set_io_cmd x h)"
| "rtl_op (Set_page x) h = ([], sim_set_validated_target_page x h)"
| "rtl_op (Set_zone x) h = ([], sim_set_validated_zone_id x h)"
| "rtl_op (Store_bram a w) h = ([], h\<lparr>mock_bram_storage := (mock_bram_storage h)(a := w)\<rparr>)"
| "rtl_op Tick h = ([], verilator_tick_hardware h)"
| "rtl_op Get_status h = (let (s, h1) = sim_get_out_status h in ([s], h1))"
| "rtl_op Get_err_code h = ([sim_get_out_err_code h], h)"

fun cpp_op :: "bridge_op \<Rightarrow> chw \<Rightarrow> (u8 list \<times> chw) option" where
  "cpp_op (Set_trigger x) h = Some ([], cpp_port (\<lambda>p. p\<lparr>p_io_trigger := x\<rparr>) h)"
| "cpp_op (Set_cmd x) h = Some ([], cpp_port (\<lambda>p. p\<lparr>p_io_cmd := x\<rparr>) h)"
| "cpp_op (Set_page x) h = Some ([], cpp_port (\<lambda>p. p\<lparr>p_validated_target_page := x\<rparr>) h)"
| "cpp_op (Set_zone x) h = Some ([], cpp_port (\<lambda>p. p\<lparr>p_validated_zone_id := x\<rparr>) h)"
| "cpp_op (Store_bram a w) h = Some ([], h\<lparr>c_bram_storage := (c_bram_storage h)(a := w)\<rparr>)"
| "cpp_op Tick h = map_option (\<lambda>h1. ([], h1)) (cpp_tick_hardware h)"
| "cpp_op Get_status h = map_option (\<lambda>h1. ([case c_top h1 of None \<Rightarrow> 0 | Some m \<Rightarrow> v_out_status (m_root m)], h1)) (cpp_tick_hardware h)"
| "cpp_op Get_err_code h = Some ([case c_top h of None \<Rightarrow> 0 | Some m \<Rightarrow> v_out_err_code (m_root m)], h)"

fun run_rtl :: "bridge_op list \<Rightarrow> hw \<Rightarrow> u8 list \<times> hw" where
  "run_rtl [] h = ([], h)"
| "run_rtl (op # ops) h = (let (out, h1) = rtl_op op h; (outs, h2) = run_rtl ops h1 in (out @ outs, h2))"

fun run_cpp :: "bridge_op list \<Rightarrow> chw \<Rightarrow> (u8 list \<times> chw) option" where
  "run_cpp [] h = Some ([], h)"
| "run_cpp (op # ops) h = Option.bind (cpp_op op h) (\<lambda>(out, h1).
     map_option (\<lambda>(outs, h2). (out @ outs, h2)) (run_cpp ops h1))"

lemma bridge_outputs:
  assumes "bridge_runs ch h"
  shows "(case c_top ch of None \<Rightarrow> 0 | Some m \<Rightarrow> v_out_status (m_root m)) = (case hw_top h of None \<Rightarrow> 0 | Some t \<Rightarrow> out_status t)"
    "(case c_top ch of None \<Rightarrow> 0 | Some m \<Rightarrow> v_out_err_code (m_root m)) = sim_get_out_err_code h"
  using assms by (cases "c_top ch"; cases "hw_top h"; auto simp: bridge_runs_def model_runs_def rtl_of_def sim_get_out_err_code_def)+

lemma bridge_op_runs:
  assumes "bridge_runs ch h" "\<And>x. op = Set_trigger x \<Longrightarrow> x \<in> {0, 1}"
  obtains ch' where "cpp_op op ch = Some (fst (rtl_op op h), ch')" "bridge_runs ch' (snd (rtl_op op h))"
proof (cases op)
  case (Set_trigger x)
  with assms(2) have "x \<in> {0, 1}" by blast
  with Set_trigger show thesis
    by (intro that [of "cpp_port (\<lambda>p. p\<lparr>p_io_trigger := x\<rparr>) ch"])
      (auto simp: sim_set_io_trigger_def bit_ports_def drive_def rtl_of_def intro!: bridge_port [OF assms(1)])
next
  case (Set_cmd x)
  then show thesis
    by (intro that [of "cpp_port (\<lambda>p. p\<lparr>p_io_cmd := x\<rparr>) ch"])
      (auto simp: sim_set_io_cmd_def bit_ports_def drive_def rtl_of_def intro!: bridge_port [OF assms(1)])
next
  case (Set_page x)
  then show thesis
    by (intro that [of "cpp_port (\<lambda>p. p\<lparr>p_validated_target_page := x\<rparr>) ch"])
      (auto simp: sim_set_validated_target_page_def bit_ports_def drive_def rtl_of_def intro!: bridge_port [OF assms(1)])
next
  case (Set_zone x)
  then show thesis
    by (intro that [of "cpp_port (\<lambda>p. p\<lparr>p_validated_zone_id := x\<rparr>) ch"])
      (auto simp: sim_set_validated_zone_id_def bit_ports_def drive_def rtl_of_def intro!: bridge_port [OF assms(1)])
next
  case (Store_bram a w)
  with assms(1) show thesis
    by (intro that [of "ch\<lparr>c_bram_storage := (c_bram_storage ch)(a := w)\<rparr>"]) (simp_all add: bridge_runs_def)
next
  case Get_err_code
  with assms(1) show thesis by (intro that [of ch]) (simp_all add: bridge_outputs(2))
qed (use bridge_tick [OF assms(1)] bridge_outputs(1) in \<open>auto simp: sim_get_out_status_def Let_def intro: that\<close>)

text \<open>
  C3. The compiled model behaves as the Verilog it was compiled from. Any sequence of port
  writes, clock cycles, reads of the status and error code and stores to the block RAM, with
  the one-bit trigger set to 0 or 1, runs to the end on the C++ model (no region fails to
  settle) and returns the same values as on the state machine that the Verilog source
  describes, and the two stay related.
\<close>

theorem compiled_model_refines_verilog:
  assumes "bridge_runs ch h" "\<forall>x. Set_trigger x \<in> set ops \<longrightarrow> x \<in> {0, 1}"
  shows "\<exists>ch'. run_cpp ops ch = Some (fst (run_rtl ops h), ch') \<and> bridge_runs ch' (snd (run_rtl ops h))"
  using assms
proof (induction ops arbitrary: ch h)
  case (Cons op ops)
  have "op = Set_trigger x \<Longrightarrow> x \<in> {0, 1}" for x using Cons.prems(2) by auto
  then obtain c1 where c1: "cpp_op op ch = Some (fst (rtl_op op h), c1)" "bridge_runs c1 (snd (rtl_op op h))"
    using bridge_op_runs [OF Cons.prems(1)] by blast
  with Cons.IH [OF c1(2)] Cons.prems(2) show ?case by (fastforce simp: split_beta)
qed simp

section \<open>Start-up\<close>

text \<open>\<open>VL_SCOPED_RAND_RESET_I\<close> returns a value of the width it is asked for.\<close>

definition in_width :: "(nat \<Rightarrow> nat \<Rightarrow> u32) \<Rightarrow> bool" where
  "in_width rnd \<longleftrightarrow> (\<forall>w salt. unat (rnd w salt) < 2 ^ w)"

abbreviation state_salt :: nat where "state_salt \<equiv> 6882111589295431825"
abbreviation count_salt :: nat where "count_salt \<equiv> 1751866187105926349"
abbreviation trigger_salt :: nat where "trigger_salt \<equiv> 11702515870220541776"
abbreviation we_salt :: nat where "we_salt \<equiv> 5892086736947945850"
abbreviation wdata_salt :: nat where "wdata_salt \<equiv> 5145022849444923699"

lemma in_width_bit: "in_width rnd \<Longrightarrow> ucast (rnd 1 salt) \<in> {0, 1 :: u8}"
proof -
  assume "in_width rnd"
  then have "unat (rnd 1 salt) < 2" by (metis in_width_def power_one_right)
  then have "unat (rnd 1 salt) = 0 \<or> unat (rnd 1 salt) = 1" by linarith
  then have "rnd 1 salt = 0 \<or> rnd 1 salt = 1" by (simp add: word_unat_eq_iff)
  then show ?thesis by auto
qed

lemma new_model_ok:
  assumes "in_width rnd" "rnd 3 state_salt = 0"
  shows "model_ok (Vzns_fsm_validator_new rnd junk)"
proof -
  have "unat (rnd 4 count_salt) < 2 ^ 4" using assms(1) unfolding in_width_def by blast
  then have "unat (ucast (rnd 4 count_salt) :: u8) < 16"
    by (simp add: unsigned_ucast_eq take_bit_nat_eq_self)
  then show ?thesis
    using in_width_bit [OF assms(1)] assms(2)
    by (simp add: Vzns_fsm_validator_new_def ctor_var_reset_def model_ok_def root_ok_def regs_ok_def bit_ports_def)
qed

lemma ucast_byte: "(ucast (ucast (x :: u32) :: u8) :: 4 word) = ucast x"
  by (rule bit_word_eqI) (auto simp: bit_simps)

lemma cpp_boot_runs:
  assumes "model_ok m" "\<not> m_didInit m" "c_bram_storage ch = mock_bram_storage h" "c_rdata_latch ch = bram_rdata_latch h"
    "c_temperature ch = hw_temperature h"
  obtains ch' where "cpp_boot m ch = Some ch'" "bridge_runs ch' (boot_hardware (rtl_of (m_root m)) h)"
proof -
  let ?v = "(rtl_of (m_root m))\<lparr>rst := True, prev_clk := True, prev_rst := True\<rparr>"
  let ?c = "cpp_port (\<lambda>p. p\<lparr>p_rst := 1\<rparr>) (ch\<lparr>c_top := Some m\<rparr>)"
  have ok: "model_ok (drive (\<lambda>p. p\<lparr>p_rst := 1\<rparr>) m)"
    using model_bits [OF assms(1)] by (intro drive_ok [OF assms(1)]) (simp add: bit_ports_def)
  obtain c1 where c1: "cpp_tick_hardware ?c = Some c1" "bridge_runs c1 (verilator_tick_hardware (h\<lparr>hw_top := Some ?v\<rparr>))"
  proof (rule cpp_tick [of ?c "drive (\<lambda>p. p\<lparr>p_rst := 1\<rparr>) m" "h\<lparr>hw_top := Some ?v\<rparr>" ?v])
    show "rtl_model (drive (\<lambda>p. p\<lparr>p_bram_rdata := x, p_thermal_shutdown_tripped := cpp_thermal ?c, p_addr_bound_error := 0,
          p_clk := 1\<rparr>) (drive (\<lambda>p. p\<lparr>p_rst := 1\<rparr>) m))
        = ?v\<lparr>bram_rdata := x, thermal_shutdown_tripped := thermal_input (h\<lparr>hw_top := Some ?v\<rparr>), addr_bound_error := False, clk := True\<rparr>" for x
      using assms(2,5) thermal_same [of ?c h] by (simp add: rtl_model_def drive_def rtl_of_def Let_def cpp_port_def)
  qed (use assms ok in \<open>simp_all add: cpp_port_def drive_def rtl_of_def\<close>)
  let ?h1 = "verilator_tick_hardware (h\<lparr>hw_top := Some ?v\<rparr>)"
  have "bridge_runs (cpp_port (\<lambda>p. p\<lparr>p_rst := 0\<rparr>) c1) (?h1\<lparr>hw_top := map_option (\<lambda>t. t\<lparr>rst := False\<rparr>) (hw_top ?h1)\<rparr>)"
    by (rule bridge_port [OF c1(2)]) (simp_all add: bit_ports_def drive_def rtl_of_def)
  then obtain c2 where "cpp_tick_hardware (cpp_port (\<lambda>p. p\<lparr>p_rst := 0\<rparr>) c1) = Some c2"
    "bridge_runs c2 (boot_hardware (rtl_of (m_root m)) h)"
    unfolding boot_hardware_def Let_def by (rule bridge_tick)
  with c1(1) show thesis by (intro that [of c2]) (simp_all add: cpp_boot_def)
qed

text \<open>
  C36. Start-up of the server on the compiled model. Whatever values the run-time system puts
  into the registers, as long as the state machine starts idle with its trigger and write
  enable low, the sequence ends in an idle device with the empty block RAM kept; but the count of open zones is the one
  the registers were constructed with: the first evaluation takes the raised reset line for
  its previous value, so the reset pulse is never seen.
\<close>

theorem start_up_misses_reset:
  assumes "in_width rnd" "rnd 3 state_salt = 0" "rnd 1 trigger_salt = 0" "rnd 1 we_salt = 0"
  shows "\<exists>ch' h'. cpp_boot (Vzns_fsm_validator_new rnd junk) ch = Some ch' \<and> bridge_runs ch' h' \<and>
     hw_idle h' \<lparr>zd_bram = c_bram_storage ch, zd_open = ucast (rnd 4 count_salt), zd_wdata = rnd 32 wdata_salt,
       zd_hot = (cpp_thermal ch \<noteq> 0)\<rparr>"
proof -
  let ?m = "Vzns_fsm_validator_new rnd junk"
  let ?h = "\<lparr>hw_top = None, mock_bram_storage = c_bram_storage ch, bram_rdata_latch = c_rdata_latch ch, hw_temperature = c_temperature ch\<rparr>"
  let ?v = "rtl_of (m_root ?m)"
  have v: "current_state ?v = ST_IDLE" "\<not> Zns_Fsm.io_trigger ?v" "\<not> Zns_Fsm.bram_we ?v" "open_zones_count ?v = ucast (rnd 4 count_salt)"
    "bram_wdata ?v = rnd 32 wdata_salt"
    using assms(2-4) ucast_byte [of "rnd 4 count_salt"]
    by (simp_all add: Vzns_fsm_validator_new_def ctor_var_reset_def) (simp_all add: rtl_of_def)
  obtain ch' where "cpp_boot ?m ch = Some ch'" "bridge_runs ch' (boot_hardware ?v ?h)"
    by (rule cpp_boot_runs [OF new_model_ok [OF assms(1,2)], of junk ch ?h]) (simp_all add: Vzns_fsm_validator_new_def)
  moreover have "thermal_input ?h \<longleftrightarrow> cpp_thermal ch \<noteq> 0" using thermal_same [of ch ?h] by simp
  then have "hw_idle (boot_hardware ?v ?h) \<lparr>zd_bram = c_bram_storage ch, zd_open = ucast (rnd 4 count_salt),
      zd_wdata = rnd 32 wdata_salt, zd_hot = (cpp_thermal ch \<noteq> 0)\<rparr>"
    using boot_idle [OF v(1-3), of ?h, unfolded v(4,5)] by simp
  ultimately show ?thesis by blast
qed

definition blank_chw :: chw where
  "blank_chw = \<lparr>c_top = None, c_bram_storage = (\<lambda>_. 0), c_rdata_latch = 0, c_temperature = None\<rparr>"

theorem start_up_misses_reset_witness:
  "\<exists>ch' h'. cpp_boot (Vzns_fsm_validator_new (\<lambda>w salt. if w = 4 then 5 else 0) 0) blank_chw = Some ch' \<and> bridge_runs ch' h' \<and>
     hw_idle h' \<lparr>zd_bram = (\<lambda>_. 0), zd_open = 5, zd_wdata = 0, zd_hot = False\<rparr>"
proof -
  have "in_width (\<lambda>w salt. if w = 4 then 5 else 0)" by (simp add: in_width_def)
  from start_up_misses_reset [OF this, of 0 blank_chw] show ?thesis by (simp add: blank_chw_def cpp_thermal_def)
qed

lemma compiled_booted: "\<exists>ch. bridge_runs ch booted_hw"
proof -
  let ?m = "Vzns_fsm_validator_new (\<lambda>_ _. 0) 0"
  have "model_ok ?m" by (rule new_model_ok) (simp_all add: in_width_def)
  moreover have "rtl_of (m_root ?m) = power_on"
    by (simp add: Vzns_fsm_validator_new_def ctor_var_reset_def rtl_of_def power_on_def)
  moreover have "\<not> m_didInit ?m" by (simp add: Vzns_fsm_validator_new_def)
  ultimately obtain ch where "bridge_runs ch (boot_hardware power_on (blank_hw None))"
    using cpp_boot_runs [of ?m blank_chw "blank_hw None"] by (auto simp: blank_chw_def blank_hw_def)
  then show ?thesis unfolding booted_hw_def by blast
qed

lemma status_reads:
  "hw_core h c \<Longrightarrow> fst (run_rtl (replicate n Get_status) h) = map (\<lambda>i. c_status ((core_cycle ^^ Suc i) c)) [0..<n]"
proof (induction n arbitrary: h c)
  case (Suc n)
  have "map (\<lambda>i. c_status ((core_cycle ^^ Suc i) c)) [0..<Suc n]
      = c_status (core_cycle c) # map (\<lambda>i. c_status ((core_cycle ^^ Suc i) (core_cycle c))) [0..<n]"
    by (simp only: map_upt_Suc) (simp add: funpow_swap1)
  then show ?case
    using Suc.IH [OF core_tick [OF Suc.prems]] by (simp add: core_get_status [OF Suc.prems] split_beta)
qed simp

definition write_ops :: "bridge_op list" where
  "write_ops = [Set_cmd 1, Set_zone 0, Set_page 0, Set_trigger 1, Get_status, Get_status, Get_status, Get_status, Get_status, Get_status]"

lemma write_on_rtl: "fst (run_rtl write_ops booted_hw) = [0, 2, 2, 2, 2, 3]"
proof -
  obtain c where c: "hw_core booted_hw c" "c_state c = ST_IDLE" "c_bram c = (\<lambda>_. 0)" "c_open c = 0" "\<not> c_hot c"
    using booted_idle by (auto simp: hw_idle_def dev_of_def fresh_dev_def)
  let ?c = "c\<lparr>c_cmd := 1, c_zone := 0, c_page := 0, c_trigger := True\<rparr>"
  have "hw_core (sim_set_io_trigger 1 (sim_set_validated_target_page 0 (sim_set_validated_zone_id 0 (sim_set_io_cmd 1 booted_hw)))) ?c"
    using core_set_trigger [OF core_set_page [OF core_set_zone [OF core_set_cmd [OF c(1)]]], of 1 0 0 1] by simp
  note st = status_reads [OF this, of 6]
  have r: "replicate 6 Get_status = [Get_status, Get_status, Get_status, Get_status, Get_status, Get_status]"
    by (simp add: numeral_eq_Suc)
  have u: "[0..<6] = [0, 1, 2, 3, 4, 5 :: nat]" by (simp add: upt_rec)
  have f: "(core_cycle ^^ 2) x = core_cycle (core_cycle x)" "(core_cycle ^^ 3) x = core_cycle ((core_cycle ^^ 2) x)"
    "(core_cycle ^^ 4) x = core_cycle ((core_cycle ^^ 3) x)" "(core_cycle ^^ 5) x = core_cycle ((core_cycle ^^ 4) x)" for x
    by (simp_all add: numeral_eq_Suc)
  have "map (\<lambda>i. c_status ((core_cycle ^^ Suc i) ?c)) [0..<6] = [0, 2, 2, 2, 2, 3]"
    using c(2-5) unfolding u
    by (simp add: f core_cycle_def core_regs_def core_word_def core_verdict_def zns_rules_checker_def zone_word_simps Let_def)
  then show ?thesis using st unfolding r by (simp add: write_ops_def split_beta)
qed

theorem compiled_model_refines_verilog_witness:
  "\<exists>ch ch'. bridge_runs ch booted_hw \<and> run_cpp write_ops ch = Some ([0, 2, 2, 2, 2, 3], ch')"
proof -
  obtain ch where ch: "bridge_runs ch booted_hw" using compiled_booted by blast
  from compiled_model_refines_verilog [OF ch, of write_ops] show ?thesis
    unfolding write_on_rtl using ch by (auto simp: write_ops_def)
qed

end
