(* ===== verification/Page_Ftl.thy ===== *)
theory Page_Ftl
  imports Ftl_Properties
begin

text \<open>
  The page translation layer of \<open>FTLs/page_ftl.cpp\<close>, which keeps no map: a counter of active pages decides
  when a block is erased. The number of erases is a function of the number of writes alone; a trim can
  take the counter below zero.
\<close>

section \<open>Counting\<close>

text \<open>The erases after \<open>n\<close> writes on \<open>T\<close> pages in blocks of \<open>B\<close>.\<close>

definition erases_after :: "nat \<Rightarrow> nat \<Rightarrow> nat \<Rightarrow> nat" where
  "erases_after B T n = (n - T + (B - 1)) div B"

text \<open>\<open>a\<close> pages are active and \<open>k\<close> blocks have been erased.\<close>

definition balanced :: "nat \<Rightarrow> nat \<Rightarrow> nat \<Rightarrow> nat \<Rightarrow> nat \<Rightarrow> bool" where
  "balanced B T n k a \<longleftrightarrow> a + B * k = n \<and> a \<le> T \<and> (0 < k \<longrightarrow> T < a + B)"

lemma balanced_erases:
  assumes "balanced B T n k a" "0 < B"
  shows "k = erases_after B T n"
proof (cases k)
  case 0
  then show ?thesis using assms by (simp add: balanced_def erases_after_def)
next
  case (Suc j)
  then have "n - T + (B - 1) = B * k + (a + B - 1 - T)" "a + B - 1 - T < B" using assms by (auto simp: balanced_def)
  then show ?thesis using assms(2) by (simp add: erases_after_def)
qed

lemma balanced_write:
  assumes "balanced B T n k a" "0 < B" "B \<le> T"
  shows "a = T \<Longrightarrow> balanced B T (Suc n) (Suc k) (Suc (a - B))" "a \<noteq> T \<Longrightarrow> balanced B T (Suc n) k (Suc a)"
  using assms by (auto simp: balanced_def)

section \<open>Requests of the host\<close>

fun page_ftl_run :: "'w controller_if \<Rightarrow> config \<Rightarrow> ulong \<Rightarrow> (event_type \<times> event) list \<Rightarrow> 'w ftl_state \<Rightarrow> 'w ftl_state option" where
  "page_ftl_run ci c junk [] s = Some s"
| "page_ftl_run ci c junk ((ty, e) # ops) s = do {
     (r, e1, s1) \<leftarrow> (if ty = WRITE then FtlImpl_Page_write ci c junk e s else FtlImpl_Page_read ci c e s);
     page_ftl_run ci c junk ops s1
   }"

definition writes_in :: "(event_type \<times> event) list \<Rightarrow> nat" where
  "writes_in ops = length (filter (\<lambda>(ty, e). ty = WRITE) ops)"

lemma accepts_issue:
  assumes "controller_accepts ci" "0 \<le> time_taken e"
  obtains e' w' where "ci_issue ci e w = Some (SUCCESS, e', w')" "0 \<le> time_taken e'"
  using assms unfolding controller_accepts_def by blast

lemma page_read_returns:
  assumes "controller_accepts ci" "geometry_ok c" "0 \<le> time_taken e"
  shows "\<exists>e' s'. FtlImpl_Page_read ci c e s = Some (SUCCESS, e', s') \<and> fs_ftl s' = fs_ftl s
     \<and> numFTLErase (fs_stats s') = numFTLErase (fs_stats s)"
proof -
  from Address_linear_Some [OF assms(2), of 0 PAGE] obtain a where a: "Address_linear c 0 PAGE = Some a" by blast
  from assms(3) obtain e' w' where "ci_issue ci (e\<lparr>ev_address := a, noop := True\<rparr>) (fs_world s) = Some (SUCCESS, e', w')"
    by (auto intro: accepts_issue [OF assms(1), of "e\<lparr>ev_address := a, noop := True\<rparr>" "fs_world s"])
  with a show ?thesis by (simp add: FtlImpl_Page_read_def)
qed

lemma page_erase_returns:
  assumes "controller_accepts ci" "geometry_ok c" "0 \<le> start_time e" "0 \<le> time_taken e"
  shows "\<exists>e' s'. page_ftl_erase ci c junk e s = Some (e', s') \<and> fs_ftl s' = fs_ftl s
     \<and> numFTLErase (fs_stats s') = numFTLErase (fs_stats s) + 1 \<and> 0 \<le> time_taken e'"
proof -
  from Address_linear_Some [OF assms(2), of 0 PAGE] obtain a where a: "Address_linear c 0 PAGE = Some a" by blast
  from assms(3) obtain ee where ee: "Event_new junk ERASE (logical_address e) 1 (start_time e) = Some ee" "time_taken ee = 0"
    by (simp add: Event_new_def)
  from assms(1) ee(2) obtain ee' w' where "ci_issue ci (ee\<lparr>ev_address := a\<rparr>) (fs_world s) = Some (SUCCESS, ee', w')" "0 \<le> time_taken ee'"
    unfolding controller_accepts_def by force
  with a ee assms(3,4) show ?thesis
    by (simp add: page_ftl_erase_def get_start_time_def get_time_taken_def count_erase_def incr_time_taken_def)
qed

lemma page_write_returns:
  assumes "controller_accepts ci" "geometry_ok c" "0 \<le> start_time e" "0 \<le> time_taken e"
  shows "\<exists>e' s'. FtlImpl_Page_write ci c junk e s = Some (SUCCESS, e', s')
     \<and> numPagesActive (fs_ftl s') = inc64 (if numPagesActive (fs_ftl s) = total_ftl_pages c then sub64 (numPagesActive (fs_ftl s)) (BLOCK_SIZE c)
         else numPagesActive (fs_ftl s))
     \<and> numFTLErase (fs_stats s') = numFTLErase (fs_stats s) + (if numPagesActive (fs_ftl s) = total_ftl_pages c then 1 else 0)"
proof -
  from Address_linear_Some [OF assms(2), of 1 PAGE] obtain a where a: "Address_linear c 1 PAGE = Some a" by blast
  let ?e = "e\<lparr>ev_address := a, noop := True\<rparr>"
  define s1 where "s1 = s\<lparr>fs_stats := (fs_stats s)\<lparr>numFTLWrite := numFTLWrite (fs_stats s) + 1\<rparr>\<rparr>"
  have s1: "fs_ftl s1 = fs_ftl s" "numFTLErase (fs_stats s1) = numFTLErase (fs_stats s)" by (simp_all add: s1_def)
  let ?full = "numPagesActive (fs_ftl s) = total_ftl_pages c"
  have "\<exists>e2 s2. (if ?full then page_ftl_erase ci c junk ?e (s1\<lparr>fs_ftl := (fs_ftl s1)\<lparr>numPagesActive := sub64 (numPagesActive (fs_ftl s1)) (BLOCK_SIZE c)\<rparr>\<rparr>)
        else Some (?e, s1)) = Some (e2, s2) \<and> 0 \<le> time_taken e2
      \<and> numPagesActive (fs_ftl s2) = (if ?full then sub64 (numPagesActive (fs_ftl s)) (BLOCK_SIZE c) else numPagesActive (fs_ftl s))
      \<and> numFTLErase (fs_stats s2) = numFTLErase (fs_stats s) + (if ?full then 1 else 0)"
    using page_erase_returns [OF assms(1,2), of ?e junk] assms(3,4) s1 by (cases ?full) fastforce+
  then obtain e2 s2 where b: "(if ?full then page_ftl_erase ci c junk ?e (s1\<lparr>fs_ftl := (fs_ftl s1)\<lparr>numPagesActive := sub64 (numPagesActive (fs_ftl s1)) (BLOCK_SIZE c)\<rparr>\<rparr>)
        else Some (?e, s1)) = Some (e2, s2)" "0 \<le> time_taken e2"
    "numPagesActive (fs_ftl s2) = (if ?full then sub64 (numPagesActive (fs_ftl s)) (BLOCK_SIZE c) else numPagesActive (fs_ftl s))"
    "numFTLErase (fs_stats s2) = numFTLErase (fs_stats s) + (if ?full then 1 else 0)" by blast
  let ?s3 = "s2\<lparr>fs_ftl := (fs_ftl s2)\<lparr>numPagesActive := inc64 (numPagesActive (fs_ftl s2))\<rparr>\<rparr>"
  from assms(1) b(2) obtain e3 w where i: "ci_issue ci e2 (fs_world ?s3) = Some (SUCCESS, e3, w)"
    unfolding controller_accepts_def by blast
  have "FtlImpl_Page_write ci c junk e s = Some (SUCCESS, e3, ?s3\<lparr>fs_world := w\<rparr>)"
    unfolding FtlImpl_Page_write_def a s1_def [symmetric] Let_def
    using b(1) i s1(1) by (simp add: s1_def [symmetric])
  then show ?thesis using b(3,4) by simp
qed

lemma page_ftl_run_balanced:
  assumes "controller_accepts ci" "geometry_ok c" "0 < BLOCK_SIZE c" "BLOCK_SIZE c \<le> total_ftl_pages c"
    and "list_all (\<lambda>(ty, e). 0 \<le> start_time e \<and> 0 \<le> time_taken e) ops"
    and "balanced (BLOCK_SIZE c) (total_ftl_pages c) n k (numPagesActive (fs_ftl s))" "numFTLErase (fs_stats s) = m + int k"
  shows "\<exists>s' k'. page_ftl_run ci c junk ops s = Some s'
     \<and> balanced (BLOCK_SIZE c) (total_ftl_pages c) (n + writes_in ops) k' (numPagesActive (fs_ftl s'))
     \<and> numFTLErase (fs_stats s') = m + int k'"
  using assms(5-7)
proof (induction ops arbitrary: s n k)
  case Nil
  then show ?case by (auto simp: writes_in_def)
next
  case (Cons op ops)
  obtain ty e where op: "op = (ty, e)" by fastforce
  have T: "total_ftl_pages c < 2 ^ 32" by (simp add: total_ftl_pages_def mul32_def)
  have a: "numPagesActive (fs_ftl s) \<le> total_ftl_pages c" using Cons.prems(2) by (simp add: balanced_def)
  show ?case
  proof (cases "ty = WRITE")
    case True
    from page_write_returns [OF assms(1,2), of e junk s] Cons.prems(1) op obtain e' s1 where
      w: "FtlImpl_Page_write ci c junk e s = Some (SUCCESS, e', s1)"
      "numPagesActive (fs_ftl s1) = inc64 (if numPagesActive (fs_ftl s) = total_ftl_pages c then sub64 (numPagesActive (fs_ftl s)) (BLOCK_SIZE c)
         else numPagesActive (fs_ftl s))"
      "numFTLErase (fs_stats s1) = numFTLErase (fs_stats s) + (if numPagesActive (fs_ftl s) = total_ftl_pages c then 1 else 0)" by auto
    have "\<exists>k1. balanced (BLOCK_SIZE c) (total_ftl_pages c) (Suc n) k1 (numPagesActive (fs_ftl s1)) \<and> numFTLErase (fs_stats s1) = m + int k1"
    proof (cases "numPagesActive (fs_ftl s) = total_ftl_pages c")
      case full: True
      have "numPagesActive (fs_ftl s1) = Suc (numPagesActive (fs_ftl s) - BLOCK_SIZE c)"
        using w(2) full assms(4) T by (simp add: sub64_exact)
      then show ?thesis using balanced_write(1) [OF Cons.prems(2) assms(3,4) full] w(3) full Cons.prems(3) by (intro exI [of _ "Suc k"]) simp
    next
      case False
      have "numPagesActive (fs_ftl s1) = Suc (numPagesActive (fs_ftl s))" using w(2) False a T by simp
      then show ?thesis using balanced_write(2) [OF Cons.prems(2) assms(3,4) False] w(3) False Cons.prems(3) by (intro exI [of _ k]) simp
    qed
    then obtain k1 where "balanced (BLOCK_SIZE c) (total_ftl_pages c) (Suc n) k1 (numPagesActive (fs_ftl s1))"
      "numFTLErase (fs_stats s1) = m + int k1" by blast
    from Cons.IH [OF _ this] Cons.prems(1) w(1) True op show ?thesis by (simp add: writes_in_def)
  next
    case False
    from page_read_returns [OF assms(1,2), of e s] Cons.prems(1) op obtain e' s1 where
      r: "FtlImpl_Page_read ci c e s = Some (SUCCESS, e', s1)" "fs_ftl s1 = fs_ftl s" "numFTLErase (fs_stats s1) = numFTLErase (fs_stats s)" by auto
    from Cons.IH [of n k s1] Cons.prems r False op show ?thesis by (simp add: writes_in_def)
  qed
qed

text \<open>
  C14. The wear of the page layer: on a controller that accepts events, any sequence of reads and writes from
  construction completes, and after \<open>n\<close> writes exactly \<open>\<lceil>(n - T) / B\<rceil>\<close> erases have been counted in \<open>numFTLErase\<close>, for
  \<open>T\<close> pages in blocks of \<open>B\<close>. The counter of active pages is the writes less the pages of the erased blocks
  and never exceeds \<open>T\<close>.
\<close>

theorem page_ftl_wear:
  assumes "controller_accepts ci" "geometry_ok c" "0 < BLOCK_SIZE c" "BLOCK_SIZE c \<le> total_ftl_pages c"
    and "list_all (\<lambda>(ty, e). 0 \<le> start_time e \<and> 0 \<le> time_taken e) ops"
    and "FtlImpl_Page_new c tm = Some f"
  defines "k \<equiv> erases_after (BLOCK_SIZE c) (total_ftl_pages c) (writes_in ops)"
  shows "\<exists>s'. page_ftl_run ci c junk ops \<lparr>fs_ftl = f, fs_stats = st, fs_world = w\<rparr> = Some s'
     \<and> numFTLErase (fs_stats s') = numFTLErase st + int k
     \<and> numPagesActive (fs_ftl s') + BLOCK_SIZE c * k = writes_in ops \<and> numPagesActive (fs_ftl s') \<le> total_ftl_pages c"
proof -
  have "numPagesActive f = 0" using assms(6) by (auto simp: FtlImpl_Page_new_def bind_eq_Some_conv split: if_splits)
  then obtain s' k' where r: "page_ftl_run ci c junk ops \<lparr>fs_ftl = f, fs_stats = st, fs_world = w\<rparr> = Some s'"
    "balanced (BLOCK_SIZE c) (total_ftl_pages c) (0 + writes_in ops) k' (numPagesActive (fs_ftl s'))"
    "numFTLErase (fs_stats s') = numFTLErase st + int k'"
    using page_ftl_run_balanced [OF assms(1-5), of 0 0 "\<lparr>fs_ftl = f, fs_stats = st, fs_world = w\<rparr>" "numFTLErase st" junk]
    by (auto simp: balanced_def)
  have "k' = k" using balanced_erases [OF r(2) assms(3)] by (simp add: k_def)
  with r show ?thesis by (auto simp: balanced_def)
qed

theorem page_ftl_wear_witness:
  "\<exists>s'. page_ftl_run echo_controller ftl_config 0 (replicate 21 (WRITE, host_event WRITE 3))
       \<lparr>fs_ftl = \<lparr>numPagesActive = 0, trim_map = replicate 16 False\<rparr>, fs_stats = no_stats, fs_world = ()\<rparr> = Some s'
     \<and> numFTLErase (fs_stats s') = 2 \<and> numPagesActive (fs_ftl s') = 13"
proof -
  have "FtlImpl_Page_new ftl_config (replicate 16 False) = Some \<lparr>numPagesActive = 0, trim_map = replicate 16 False\<rparr>"
    by (simp add: FtlImpl_Page_new_def)
  moreover have "writes_in (replicate 21 (WRITE, host_event WRITE 3)) = 21" by (simp add: writes_in_def)
  ultimately show ?thesis
    using page_ftl_wear [of echo_controller ftl_config "replicate 21 (WRITE, host_event WRITE 3)" "replicate 16 False" _ 0 no_stats "()"]
    by (fastforce simp: erases_after_def no_stats_def list_all_iff)
qed

section \<open>Trims\<close>

text \<open>
  Trimming every page of a block takes a whole block off the counter, whether or not as many pages are active: with
  fewer, the counter wraps to a number near \<open>2 ^ 64\<close>.
\<close>

lemma page_erase_frame: "page_ftl_erase ci c junk e s = Some (e', s') \<Longrightarrow> fs_ftl s' = fs_ftl s"
  by (auto simp: page_ftl_erase_def bind_eq_Some_conv)

lemma page_trim_underflow:
  assumes "FtlImpl_Page_trim ci c junk e s = Some (r, e', s')" "numPagesActive (fs_ftl s) < BLOCK_SIZE c" "BLOCK_SIZE c < 2 ^ 32"
    and "numFTLErase (fs_stats s') \<noteq> numFTLErase (fs_stats s)"
  shows "numPagesActive (fs_ftl s') = 2 ^ 64 + numPagesActive (fs_ftl s) - BLOCK_SIZE c"
proof -
  from assms(1,4) have "numPagesActive (fs_ftl s') = sub64 (numPagesActive (fs_ftl s)) (BLOCK_SIZE c)"
    by (auto simp: FtlImpl_Page_trim_def Let_def bind_eq_Some_conv dest!: page_erase_frame split: if_splits)
  also have "\<dots> = numPagesActive (fs_ftl s) + (2 ^ 64 - BLOCK_SIZE c)" using assms(2,3) by (simp add: sub64_def)
  finally show ?thesis using assms(3) by simp
qed

end
