(* ===== verification/Flash_Wear.thy ===== *)
theory Flash_Wear
  imports Flash_Properties
begin

text \<open>
  The erase budget of a block over the life of a device. \<open>wear\<close> is the table of the remaining
  erases of all blocks; only an erase changes it, and only at the block that it reaches. Adding
  up a log of requests and their results gives the endurance of the device.
\<close>

section \<open>The table of remaining erases\<close>

definition plane_wear :: "pln \<Rightarrow> ulong list" where
  "plane_wear p = map erases_remaining (pdata p)"

definition die_wear :: "die_unit \<Rightarrow> ulong list list" where
  "die_wear i = map plane_wear (ddata i)"

definition package_wear :: "pkg \<Rightarrow> ulong list list list" where
  "package_wear k = map die_wear (kdata k)"

definition wear :: "ssd \<Rightarrow> ulong list list list list" where
  "wear d = map package_wear (sdata d)"

text \<open>A forwarded operation that keeps a measure of the child keeps the measures of all children.\<close>

lemma forward_measure:
  assumes "forward i f us g = Some (s, e', us', g')" "\<And>u u'. f u g = Some (s, e', u', g') \<Longrightarrow> m u' = m u"
  shows "map m us' = map m us"
  using assms by (auto simp: forward_Some map_update list_update_same_conv)

lemma invalidate_erases: "invalidate_page c i b g = Some (b', g') \<Longrightarrow> erases_remaining b' = erases_remaining b"
  using invalidate_page_done(2) [of c i b g b' g'] by (auto simp: Let_def split: if_splits)

lemma Block_write_erases: "Block_write c e b g = Some (s, e', b', g') \<Longrightarrow> erases_remaining b' = erases_remaining b"
  by (cases "noop e") (auto dest: Block_write_noop Block_write_done(4))

lemma Block_exec_erases:
  "Block_exec c a e b g = Some (s, e', b', g') \<Longrightarrow> a \<noteq> UErase \<Longrightarrow> erases_remaining b' = erases_remaining b"
  using Block_read_same [of c e b g s e' b' g']
  by (cases a) (auto simp: Block_exec_def Block_replace_Some Block_write_erases dest: invalidate_erases)

lemmas block_erases = Block_exec_erases [where a = URead, unfolded Block_exec_ops, simplified]
  Block_exec_erases [where a = UWrite, unfolded Block_exec_ops, simplified]
  Block_exec_erases [where a = UReplace, unfolded Block_exec_ops, simplified]

lemma merge_write_erases:
  "merge_write c p wb bnd ms = Some ms' \<Longrightarrow> map erases_remaining (ms_blocks ms') = map erases_remaining (ms_blocks ms)"
  by (auto simp: merge_write_def bind_eq_Some_conv dest: forward_measure [OF _ block_erases(2)] split: if_splits)

lemma merge_page_erases:
  assumes "merge_page c p rb wb bnd r ms = Some ms'"
  shows "map erases_remaining (ms_blocks ms') = map erases_remaining (ms_blocks ms)"
proof (cases "ms' = ms")
  case False
  with assms obtain s re bs g b2 g2 where
    f: "forward rb (Block_read c (ms_read ms)) (ms_blocks ms) (ms_env ms) = Some (s, re, bs, g)"
    and i: "rb < length bs" "invalidate_page c r (bs ! rb) g = Some (b2, g2)"
    and w: "merge_write c p wb bnd (ms\<lparr>ms_blocks := bs[rb := b2], ms_read := re, ms_env := g2,
         ms_errors := (if s = FAILURE then inc32 (ms_errors ms) else ms_errors ms),
         ms_delay := ms_delay ms + reg_write_delay p\<rparr>) = Some ms'"
    unfolding merge_page_def by (auto simp: bind_eq_Some_conv split: if_splits)
  have "map erases_remaining (bs[rb := b2]) = map erases_remaining bs"
    using invalidate_erases [OF i(2)] i(1) by (simp add: map_update list_update_same_conv)
  then show ?thesis using merge_write_erases [OF w] forward_measure [OF f block_erases(1)] by simp
qed simp

lemma merge_loop_erases:
  "merge_loop c p rb wb bnd cnt rs ms = Some ms' \<Longrightarrow> map erases_remaining (ms_blocks ms') = map erases_remaining (ms_blocks ms)"
proof (induction rs arbitrary: ms)
  case (Cons r rs)
  then show ?case by (auto simp: bind_eq_Some_conv dest: merge_page_erases split: if_splits)
qed simp

lemma Plane_exec_wear:
  assumes "Plane_exec junk c a e p g = Some (s, e', p', g')" "a \<noteq> UErase"
  shows "plane_wear p' = plane_wear p"
proof (cases a)
  case UReplace
  with assms have "Plane_replace c e p g = Some (s, e', p', g')" by (simp add: Plane_exec_def)
  then show ?thesis by (cases rule: Plane_replace_cases) (auto simp: plane_wear_def dest: forward_measure [OF _ block_erases(3)])
next
  case UMerge
  with assms have "Plane_merge c junk e p g = Some (s, e', p', g')" by (simp add: Plane_exec_def)
  then show ?thesis by (cases rule: Plane_merge_cases) (auto simp: plane_wear_def dest: merge_loop_erases)
qed (use forward_measure [OF Plane_forward_at(2) [OF assms(1)] Block_exec_erases [OF _ assms(2)]] assms(2) in
     \<open>simp_all add: plane_wear_def\<close>)

lemma Die_exec_wear:
  "Die_exec junk c a e d g = Some (s, e', d', g') \<Longrightarrow> a \<noteq> UErase \<Longrightarrow> die_wear d' = die_wear d"
  using Die_forwards [of junk c a e d g s e' d' g'] forward_measure [of _ "Plane_exec junk c a e" "ddata d" g s e' "ddata d'" g' plane_wear] Plane_exec_wear [of junk c a e]
  by (auto simp: die_forwards_def die_wear_def)

lemma Package_exec_wear:
  "Package_exec junk c a e k g = Some (s, e', k', g') \<Longrightarrow> a \<noteq> UErase \<Longrightarrow> package_wear k' = package_wear k"
  using Package_forwards [of junk c a e k g s e' k' g'] forward_measure [of _ "Die_exec junk c a e" "kdata k" g s e' "kdata k'" g' die_wear] Die_exec_wear [of junk c a e]
  by (auto simp: package_forwards_def package_wear_def)

lemma Ssd_exec_wear:
  "Ssd_exec junk c a e d g = Some (s, e', d', g') \<Longrightarrow> a \<noteq> UErase \<Longrightarrow> wear d' = wear d"
  using Ssd_forwards [of junk c a e d g s e' d' g'] forward_measure [of _ "Package_exec junk c a e" "sdata d" g s e' "sdata d'" g' package_wear] Package_exec_wear [of junk c a e]
  by (auto simp: ssd_forwards_def wear_def)

text \<open>What an address sees of the table.\<close>

definition wear_at :: "address \<Rightarrow> ulong list list list list \<Rightarrow> ulong option" where
  "wear_at a t = do { ks \<leftarrow> aget t (package a); ds \<leftarrow> aget ks (die a); ps \<leftarrow> aget ds (plane a); aget ps (block a) }"

lemma wear_lookup:
  assumes "PLANE \<le> valid a"
  shows "map_option erases_remaining (Ssd_get_block_pointer a d) = wear_at a (wear d)"
proof -
  have aget_map: "aget (map f xs) i = map_option f (aget xs i)" for f :: "'x \<Rightarrow> 'y" and xs i
    by (simp add: aget_def)
  show ?thesis
    unfolding block_pointer_levels [OF assms]
    by (simp add: wear_at_def wear_def package_wear_def die_wear_def plane_wear_def aget_map map_option_bind option.map_comp
        bind_map_option comp_def del: aget_Some)
qed

section \<open>Endurance\<close>

text \<open>A run with the result of every request.\<close>

fun run_log :: "(unit_op \<Rightarrow> event \<Rightarrow> 'u \<Rightarrow> env \<Rightarrow> 'u outcome) \<Rightarrow> (unit_op \<times> event) list \<Rightarrow>
    'u \<Rightarrow> env \<Rightarrow> (status list \<times> 'u \<times> env) option" where
  "run_log f [] u g = Some ([], u, g)"
| "run_log f ((a, e) # rs) u g = do {
     (s, e', u', g') \<leftarrow> f a e u g;
     (ss, u'', g'') \<leftarrow> run_log f rs u' g';
     Some (s # ss, u'', g'')
   }"

definition erases_block :: "address \<Rightarrow> (unit_op \<times> event) \<times> status \<Rightarrow> bool" where
  "erases_block q r \<longleftrightarrow> (case r of ((a, e), s) \<Rightarrow>
     a = UErase \<and> \<not> noop e \<and> s = SUCCESS \<and> same_block q (ev_address e))"

text \<open>One request takes one from the budget of the block it erases and nothing from any other.\<close>

lemma same_block_pointer:
  assumes "same_block q a" "PLANE \<le> valid q" "PLANE \<le> valid a"
  shows "Ssd_get_block_pointer q d = Ssd_get_block_pointer a d"
proof -
  have f: "package q = package a" "die q = die a" "plane q = plane a" "block q = block a"
    using assms(1) by (simp_all add: same_block_def)
  have "Plane_get_block_pointer q = Plane_get_block_pointer a"
    by (rule ext) (simp only: block_pointer_levels [OF assms(2)] block_pointer_levels [OF assms(3)] f)
  then have "Die_get_block_pointer q = Die_get_block_pointer a"
    by (intro ext) (simp only: block_pointer_levels [OF assms(2)] block_pointer_levels [OF assms(3)] f)
  then have "Package_get_block_pointer q = Package_get_block_pointer a"
    by (intro ext) (simp only: block_pointer_levels [OF assms(2)] block_pointer_levels [OF assms(3)] f)
  then show ?thesis by (simp only: block_pointer_levels [OF assms(2)] block_pointer_levels [OF assms(3)] f)
qed

lemma request_wear:
  assumes x: "Ssd_exec junk c a e d g = Some (s, e', d', g')" and ok: "ssd_ok c d" and q: "PLANE \<le> valid q"
    and b: "Ssd_get_block_pointer q d' = Some b'"
  shows "\<exists>b. Ssd_get_block_pointer q d = Some b
    \<and> erases_remaining b = erases_remaining b' + (if erases_block q ((a, e), s) then 1 else 0)"
proof (cases "a = UErase")
  case False
  then have "map_option erases_remaining (Ssd_get_block_pointer q d) = Some (erases_remaining b')"
    using wear_lookup [OF q] Ssd_exec_wear [OF x] b by (metis option.simps(9))
  then show ?thesis using False by (auto simp: erases_block_def)
next
  case True
  obtain b0 b1 where r: "Ssd_get_block_pointer (ev_address e) d = Some b0" "Block_erase c e b0 g = Some (s, e', b1, g')"
    "Ssd_get_block_pointer (ev_address e) d' = Some b1" "PLANE < valid (ev_address e)"
    "\<not> same_block q (ev_address e) \<Longrightarrow> Ssd_get_block_pointer q d' = Ssd_get_block_pointer q d"
    by (rule device_reaches [OF x]) (use True q Block_exec_ops in auto)
  show ?thesis
  proof (cases "same_block q (ev_address e)")
    case same: True
    have v: "PLANE \<le> valid (ev_address e)" using r(4) by simp
    have "block_ok c b0" by (rule block_path [OF ok v r(1)])
    then have small: "erases_remaining b0 < 2 ^ 64" by (simp add: block_ok_def)
    have e: "b' = b1" "Ssd_get_block_pointer q d = Some b0"
      using same_block_pointer [OF same q v] r(1,3) b by simp_all
    show ?thesis
      using r(2) by (cases rule: Block_erase_cases) (use e small same True in \<open>auto simp: erases_block_def\<close>)
  next
    case other: False
    then show ?thesis using r(5) b by (intro exI [of _ b']) (simp add: erases_block_def)
  qed
qed

lemma run_wear:
  assumes "run_log (Ssd_exec junk c) rs d g = Some (ss, d', g')" "ssd_ok c d" "PLANE \<le> valid q"
    "Ssd_get_block_pointer q d' = Some b'"
  shows "\<exists>b. Ssd_get_block_pointer q d = Some b
    \<and> erases_remaining b = erases_remaining b' + length (filter (erases_block q) (zip rs ss))"
  using assms
proof (induction rs arbitrary: d g ss)
  case (Cons r rs)
  obtain a e where r: "r = (a, e)" by (cases r)
  from Cons.prems(1) obtain s e' d1 g1 ss1 where x: "Ssd_exec junk c a e d g = Some (s, e', d1, g1)"
    and y: "run_log (Ssd_exec junk c) rs d1 g1 = Some (ss1, d', g')" and ss: "ss = s # ss1"
    by (auto simp: r bind_eq_Some_conv)
  obtain b1 where b1: "Ssd_get_block_pointer q d1 = Some b1"
    "erases_remaining b1 = erases_remaining b' + length (filter (erases_block q) (zip rs ss1))"
    using Cons.IH [OF y Ssd_exec_ok(1) [OF x Cons.prems(2)] Cons.prems(3,4)] by blast
  show ?case using request_wear [OF x Cons.prems(2,3) b1(1)] b1(2) by (auto simp: r ss)
qed simp

lemma build_dies_wear:
  "n \<in> set ps \<Longrightarrow> ps \<in> set ds \<Longrightarrow> ds \<in> set (map die_wear (fst (build_dies c junk aj pa is ch))) \<Longrightarrow> n = BLOCK_ERASES c"
proof (induction "is" arbitrary: ch)
  case (Cons i "is")
  then show ?case
    by (auto simp: Let_def split_beta Die_new_def die_wear_def plane_wear_def Plane_new_def Block_new_def)
qed simp

lemma build_packages_wear:
  "build_packages c junk aj is b = Some (ks, b') \<Longrightarrow> n \<in> set ps \<Longrightarrow> ps \<in> set ds \<Longrightarrow> ds \<in> set ts \<Longrightarrow>
   ts \<in> set (map package_wear ks) \<Longrightarrow> n = BLOCK_ERASES c"
proof (induction "is" arbitrary: b ks)
  case (Cons i "is")
  from Cons.prems(1) obtain ch pa k b1 ks1 where k: "k = fst (Package_new c junk aj ch (PACKAGE_SIZE c) pa)" "ks = k # ks1"
    and r: "build_packages c junk aj is b1 = Some (ks1, b')"
    by (auto simp: bind_eq_Some_conv Let_def split_beta)
  have "package_wear k = map die_wear (fst (build_dies c junk aj pa [0..<PACKAGE_SIZE c] ch))"
    by (simp add: k(1) Package_new_def Let_def split_beta package_wear_def)
  then show ?case
    using Cons.IH [OF r Cons.prems(2-4)] Cons.prems(2-5) build_dies_wear [OF Cons.prems(2,3), of c junk aj pa "[0..<PACKAGE_SIZE c]" ch]
    by (auto simp: k(2))
qed simp

lemma new_wear:
  assumes "Ssd_new c junk aj sz = Some d" "PLANE \<le> valid q" "Ssd_get_block_pointer q d = Some b"
  shows "erases_remaining b = BLOCK_ERASES c"
proof -
  have "wear_at q (wear d) = Some (erases_remaining b)" using wear_lookup [OF assms(2), of d] assms(3) by simp
  then obtain ts ds ps where m: "erases_remaining b \<in> set ps" "ps \<in> set ds" "ds \<in> set ts" "ts \<in> set (wear d)"
    unfolding wear_at_def by (auto simp: bind_eq_Some_conv) (metis nth_mem)
  from assms(1) obtain b0 b1 where "build_packages c junk aj [0..<sz] b0 = Some (sdata d, b1)"
    by (auto simp: Ssd_new_def bind_eq_Some_conv split: if_splits)
  from build_packages_wear [OF this m(1-3)] m(4) show ?thesis by (simp add: wear_def)
qed

text \<open>
  C7. Endurance: whatever requests run on a constructed device, the erases that a block has left and the
  erases of it that have been reported successful add up to the configured number. So no block
  is erased more often than configured, reads, writes, replacements and merges do not wear it, and the erases of
  one block do not count for another.
\<close>

theorem device_endurance:
  assumes "sizes_ok c" "0 < sz" "Ssd_new c junk aj sz = Some d"
    and "run_log (Ssd_exec junk' c) rs d g = Some (ss, d', g')"
    and "PLANE \<le> valid q" "Ssd_get_block_pointer q d' = Some b"
  shows "erases_remaining b + length (filter (erases_block q) (zip rs ss)) = BLOCK_ERASES c"
  using run_wear [OF assms(4) ssd_ok_new [OF assms(1-3)] assms(5,6)] new_wear [OF assms(3,5)] by auto

lemma small_log:
  "\<exists>d' g' b. run_log (Ssd_exec 0 small_config) small_requests small_ssd small_env = Some ([SUCCESS, SUCCESS, SUCCESS, SUCCESS, SUCCESS], d', g')
     \<and> Ssd_get_block_pointer (page_address 1 0) d' = Some b"
  by (simp add: small_requests_def small_eval)

theorem device_endurance_witness:
  "\<exists>d' g' b. run_log (Ssd_exec 0 small_config) small_requests small_ssd small_env = Some ([SUCCESS, SUCCESS, SUCCESS, SUCCESS, SUCCESS], d', g')
     \<and> Ssd_get_block_pointer (page_address 1 0) d' = Some b \<and> erases_remaining b + 1 = 1048675"
proof -
  obtain d' g' b where r: "run_log (Ssd_exec 0 small_config) small_requests small_ssd small_env = Some ([SUCCESS, SUCCESS, SUCCESS, SUCCESS, SUCCESS], d', g')"
    "Ssd_get_block_pointer (page_address 1 0) d' = Some b" using small_log by blast
  have v: "PLANE \<le> valid (page_address 1 0)" by (simp add: page_address_def)
  have n: "length (filter (erases_block (page_address 1 0)) (zip small_requests ([SUCCESS, SUCCESS, SUCCESS, SUCCESS, SUCCESS]))) = 1"
    by (simp add: small_requests_def erases_block_def same_block_def)
  show ?thesis using device_endurance [OF _ _ small_ssd_new r(1) v r(2)] r n by auto
qed

end
