(* ===== verification/Ssd_Lifecycle.thy ===== *)
theory Ssd_Lifecycle
  imports Flash_Properties Ftl_Simple
begin

text \<open>
  The destructors of the hierarchy and what they report. \<open>Ssd::~Ssd\<close> destroys the packages,
  which destroy their dies, which disconnect from the channel of the package; the members
  follow, and with the bus its channels, each of which warns about the devices it still
  counts as connected. A die that was refused a connection by its constructor disconnects
  all the same. The second part is the RAID front end's array of devices, which share the one
  \<open>page_data\<close> area and the one result buffer of the process.
\<close>

section \<open>Destructors\<close>

definition Die_delete :: "channel \<Rightarrow> channel" where
  "Die_delete ch = snd (Channel_disconnect ch)"

definition Package_delete :: "pkg \<Rightarrow> channel \<Rightarrow> channel" where
  "Package_delete k ch = fold (\<lambda>i. Die_delete) [0..<ksize k] ch"

text \<open>What the destructor of a channel prints: the number of devices still connected.\<close>

definition Channel_delete :: "channel \<Rightarrow> uint list" where
  "Channel_delete ch = (if 0 < num_connected ch then [num_connected ch] else [])"

definition Bus_delete :: "bus \<Rightarrow> uint list option" where
  "Bus_delete b = do {
     chs \<leftarrow> those (map (aget (channels b)) [0..<num_channels b]);
     Some (concat (map Channel_delete chs))
   }"

fun delete_packages :: "pkg list \<Rightarrow> nat list \<Rightarrow> bus \<Rightarrow> bus option" where
  "delete_packages ks [] b = Some b"
| "delete_packages ks (i # is) b = do {
     k \<leftarrow> aget ks i;
     ch \<leftarrow> aget (channels b) i;
     delete_packages ks is (b\<lparr>channels := (channels b)[i := Package_delete k ch]\<rparr>)
   }"

definition Ssd_delete :: "ssd \<Rightarrow> uint list option" where
  "Ssd_delete d = do {
     b \<leftarrow> delete_packages (sdata d) [0..<ssize d] (s_bus d);
     Bus_delete b
   }"

section \<open>Connections\<close>

lemma connect_num:
  "max_connections ch < 2 ^ 32 \<Longrightarrow> num_connected ch \<le> max_connections ch \<Longrightarrow>
   num_connected (snd (Channel_connect ch)) = min (max_connections ch) (Suc (num_connected ch))
   \<and> max_connections (snd (Channel_connect ch)) = max_connections ch"
  by (auto simp: Channel_connect_def)

lemma build_dies_num:
  "max_connections ch < 2 ^ 32 \<Longrightarrow> num_connected ch \<le> max_connections ch \<Longrightarrow>
   num_connected (snd (build_dies c junk aj pa is ch)) = min (max_connections ch) (num_connected ch + length is)
   \<and> max_connections (snd (build_dies c junk aj pa is ch)) = max_connections ch"
proof (induction "is" arbitrary: ch)
  case (Cons i "is")
  then show ?case
    using Cons.IH [of "snd (Channel_connect ch)"] connect_num [of ch] by (auto simp: Die_new_def Let_def split_beta)
qed simp

lemma Die_delete_num:
  "num_connected ch < 2 ^ 32 \<Longrightarrow> num_connected (Die_delete ch) = num_connected ch - 1"
  by (simp add: Die_delete_def Channel_disconnect_def)

lemma Package_delete_num:
  assumes "num_connected ch < 2 ^ 32"
  shows "num_connected (Package_delete k ch) = num_connected ch - ksize k"
proof -
  have "num_connected (fold (\<lambda>i. Die_delete) is ch) = num_connected ch - length is" for "is" :: "nat list"
    using assms by (induction "is" arbitrary: ch) (simp_all add: Die_delete_num)
  then show ?thesis by (simp add: Package_delete_def)
qed

text \<open>
  The state of the bus that the constructor sets up and every operation keeps: each channel
  counts no more connections than its package has dies.
\<close>

definition wired :: "ssd \<Rightarrow> bool" where
  "wired d \<longleftrightarrow> length (channels (s_bus d)) = ssize d \<and> num_channels (s_bus d) = ssize d \<and> length (sdata d) = ssize d
     \<and> (\<forall>i < ssize d. num_connected (channels (s_bus d) ! i) \<le> ksize (sdata d ! i)
          \<and> num_connected (channels (s_bus d) ! i) < 2 ^ 32)"

lemma build_packages_num:
  assumes "build_packages c junk aj is b = Some (ks, b')" "distinct is"
    and "\<And>i. i \<in> set is \<Longrightarrow> num_connected (channels b ! i) = 0 \<and> max_connections (channels b ! i) < 2 ^ 32"
  shows "length (channels b') = length (channels b) \<and> num_channels b' = num_channels b \<and> length ks = length is
    \<and> (\<forall>i. i \<notin> set is \<longrightarrow> channels b' ! i = channels b ! i)
    \<and> (\<forall>j < length is. num_connected (channels b' ! (is ! j)) = min (max_connections (channels b ! (is ! j))) (PACKAGE_SIZE c)
         \<and> ksize (ks ! j) = PACKAGE_SIZE c)"
  using assms
proof (induction "is" arbitrary: b ks)
  case (Cons i "is")
  then obtain ch ks' where ch: "Bus_get_channel i b = Some ch"
    and r: "build_packages c junk aj is (b\<lparr>channels := (channels b)[i := snd (Package_new c junk aj ch (PACKAGE_SIZE c)
        (mul32 (mul32 (mul32 (mul32 (PACKAGE_SIZE c) (DIE_SIZE c)) (PLANE_SIZE c)) (BLOCK_SIZE c)) i))]\<rparr>) = Some (ks', b')"
    and ks: "ks = fst (Package_new c junk aj ch (PACKAGE_SIZE c)
        (mul32 (mul32 (mul32 (mul32 (PACKAGE_SIZE c) (DIE_SIZE c)) (PLANE_SIZE c)) (BLOCK_SIZE c)) i)) # ks'"
    by (auto simp: bind_eq_Some_conv split_beta Let_def)
  have i: "i < length (channels b)" "ch = channels b ! i" using ch by (auto simp: Bus_get_channel_def bind_eq_Some_conv split: if_splits)
  have n: "num_connected (snd (Package_new c junk aj ch (PACKAGE_SIZE c) pa)) = min (max_connections ch) (PACKAGE_SIZE c)" for pa
    using Cons.prems(3) [of i] i build_dies_num [of ch c junk aj pa "[0..<PACKAGE_SIZE c]"]
    by (simp add: Package_new_def split_beta Let_def)
  have k: "ksize (fst (Package_new c junk aj ch (PACKAGE_SIZE c) pa)) = PACKAGE_SIZE c" for pa
    by (simp add: Package_new_def split_beta Let_def)
  have d: "j \<in> set is \<Longrightarrow> j \<noteq> i" for j using Cons.prems(2) by auto
  have dj: "j < length is \<Longrightarrow> is ! j \<noteq> i" for j using d by simp
  let ?ch = "snd (Package_new c junk aj ch (PACKAGE_SIZE c)
        (mul32 (mul32 (mul32 (mul32 (PACKAGE_SIZE c) (DIE_SIZE c)) (PLANE_SIZE c)) (BLOCK_SIZE c)) i))"
  have IH: "length (channels b') = length (channels b) \<and> num_channels b' = num_channels b \<and> length ks' = length is
    \<and> (\<forall>j. j \<notin> set is \<longrightarrow> channels b' ! j = (channels b)[i := ?ch] ! j)
    \<and> (\<forall>j < length is. num_connected (channels b' ! (is ! j)) = min (max_connections ((channels b)[i := ?ch] ! (is ! j))) (PACKAGE_SIZE c)
         \<and> ksize (ks' ! j) = PACKAGE_SIZE c)"
  proof -
    have "distinct is" using Cons.prems(2) by simp
    moreover have "num_connected ((channels b)[i := ?ch] ! j) = 0 \<and> max_connections ((channels b)[i := ?ch] ! j) < 2 ^ 32"
      if "j \<in> set is" for j using Cons.prems(3) [of j] d [OF that] that by simp
    ultimately show ?thesis using Cons.IH [OF r] by simp
  qed
  have at_i: "channels b' ! i = ?ch" using IH Cons.prems(2) i by simp
  have "num_connected (channels b' ! ((i # is) ! j)) = min (max_connections (channels b ! ((i # is) ! j))) (PACKAGE_SIZE c)
         \<and> ksize (ks ! j) = PACKAGE_SIZE c" if "j < length (i # is)" for j
  proof (cases j)
    case 0
    then show ?thesis using at_i n k i by (simp add: ks)
  next
    case (Suc l)
    then show ?thesis using IH that dj [of l] by (simp add: ks)
  qed
  moreover have "channels b' ! j = channels b ! j" if "j \<notin> set (i # is)" for j using IH that by simp
  ultimately show ?case using IH by (simp add: ks)
qed simp

lemma wired_new:
  assumes "Ssd_new c junk aj sz = Some d" "BUS_MAX_CONNECT c < 2 ^ 32"
  shows "wired d" "\<And>i. i < sz \<Longrightarrow> num_connected (channels (s_bus d) ! i) = min (BUS_MAX_CONNECT c) (PACKAGE_SIZE c)"
    "ssize d = sz"
proof -
  from assms(1) obtain b ks b' where b: "Bus_new sz (BUS_CTRL_DELAY c) (BUS_DATA_DELAY c) (BUS_TABLE_SIZE c) (BUS_MAX_CONNECT c) = Some b"
    and k: "build_packages c junk aj [0..<sz] b = Some (ks, b')" and d: "s_bus d = b'" "sdata d = ks" "ssize d = sz"
    by (auto simp: Ssd_new_def bind_eq_Some_conv split: if_splits)
  have c0: "num_channels b = sz" "length (channels b) = sz"
      "i < sz \<Longrightarrow> num_connected (channels b ! i) = 0 \<and> max_connections (channels b ! i) = BUS_MAX_CONNECT c" for i
    using b by (auto simp: Bus_new_def Channel_new_def bind_eq_Some_conv Let_def split: if_splits)
  note B = build_packages_num [OF k]
  then show "wired d" "\<And>i. i < sz \<Longrightarrow> num_connected (channels (s_bus d) ! i) = min (BUS_MAX_CONNECT c) (PACKAGE_SIZE c)" "ssize d = sz"
    using c0 assms(2) by (auto simp: wired_def d min_def)
qed

lemma Ssd_exec_bus:
  assumes "Ssd_exec junk c a e d g = Some (s, e', d', g')"
  shows "s_bus d' = s_bus d"
proof (cases a)
  case UErase
  have u: "Ssd_update_wear_stats x y = Some y' \<Longrightarrow> s_bus y' = s_bus y" for x y y'
    by (auto simp: Ssd_update_wear_stats_def bind_eq_Some_conv Let_def)
  show ?thesis using assms UErase
    by (auto simp: Ssd_exec_def Ssd_erase_def bind_eq_Some_conv Let_def dest!: u split: if_splits)
qed (use assms in \<open>auto simp: Ssd_exec_def Ssd_read_def Ssd_write_def Ssd_replace_def Ssd_merge_def bind_eq_Some_conv split: if_splits\<close>)

lemma forward_ksize:
  assumes "forward i (Package_exec junk c a e) ks g = Some (s, e', ks', g')"
  shows "length ks' = length ks \<and> map ksize ks' = map ksize ks"
proof -
  from assms obtain k' where k: "i < length ks" "Package_exec junk c a e (ks ! i) g = Some (s, e', k', g')" "ks' = ks[i := k']"
    by (auto simp: forward_Some)
  have "ksize k' = ksize (ks ! i)" using Package_forwards [OF k(2)] by (simp add: package_forwards_def)
  then show ?thesis using k by (simp add: map_update list_update_same_conv)
qed

lemma Ssd_exec_wired:
  assumes "Ssd_exec junk c a e d g = Some (s, e', d', g')" "wired d"
  shows "wired d'"
proof -
  have "ssize d' = ssize d" "length (sdata d') = length (sdata d) \<and> map ksize (sdata d') = map ksize (sdata d)"
    using Ssd_forwards [OF assms(1)] by (auto simp: ssd_forwards_def dest: forward_ksize)
  moreover from this have "i < length (sdata d) \<Longrightarrow> ksize (sdata d' ! i) = ksize (sdata d ! i)" for i
    by (metis nth_map)
  ultimately show ?thesis using assms(2) Ssd_exec_bus [OF assms(1)] by (simp add: wired_def)
qed

lemma run_wired:
  "run_requests (Ssd_exec junk c) rs d g = Some (d', g') \<Longrightarrow> wired d \<Longrightarrow> wired d' \<and> s_bus d' = s_bus d \<and> ssize d' = ssize d"
proof (induction "Ssd_exec junk c" rs d g rule: run_requests.induct)
  case (2 a e rs d g)
  then obtain s e' d1 g1 where x: "Ssd_exec junk c a e d g = Some (s, e', d1, g1)"
    "run_requests (Ssd_exec junk c) rs d1 g1 = Some (d', g')"
    by (auto simp: bind_eq_Some_conv)
  have "ssize d1 = ssize d" using Ssd_forwards [OF x(1)] by (simp add: ssd_forwards_def)
  then show ?case using 2(1) [OF x(1) refl refl refl x(2)] Ssd_exec_wired [OF x(1) 2(3)] Ssd_exec_bus [OF x(1)] by simp
qed simp

section \<open>Teardown\<close>

lemma delete_packages_num:
  assumes "distinct is" "\<And>i. i \<in> set is \<Longrightarrow> i < length ks \<and> i < length (channels b)
      \<and> num_connected (channels b ! i) \<le> ksize (ks ! i) \<and> num_connected (channels b ! i) < 2 ^ 32"
  shows "\<exists>b'. delete_packages ks is b = Some b' \<and> num_channels b' = num_channels b \<and> length (channels b') = length (channels b)
    \<and> (\<forall>i. i \<notin> set is \<longrightarrow> channels b' ! i = channels b ! i) \<and> (\<forall>i \<in> set is. num_connected (channels b' ! i) = 0)"
  using assms
proof (induction "is" arbitrary: b)
  case (Cons i "is")
  let ?b = "b\<lparr>channels := (channels b)[i := Package_delete (ks ! i) (channels b ! i)]\<rparr>"
  have i: "i < length ks" "i < length (channels b)" "num_connected (channels b ! i) \<le> ksize (ks ! i)" "num_connected (channels b ! i) < 2 ^ 32"
    using Cons.prems(2) [of i] by simp_all
  have n: "num_connected (Package_delete (ks ! i) (channels b ! i)) = 0" using i Package_delete_num by simp
  have d: "j \<in> set is \<Longrightarrow> j \<noteq> i" for j using Cons.prems(1) by auto
  have "\<exists>b'. delete_packages ks is ?b = Some b' \<and> num_channels b' = num_channels ?b \<and> length (channels b') = length (channels ?b)
    \<and> (\<forall>j. j \<notin> set is \<longrightarrow> channels b' ! j = channels ?b ! j) \<and> (\<forall>j \<in> set is. num_connected (channels b' ! j) = 0)"
    by (rule Cons.IH) (use Cons.prems d in \<open>auto simp: nth_list_update\<close>)
  then show ?case using i n Cons.prems(1) by (auto simp: aget_nth)
qed simp

lemma those_aget: "n \<le> length xs \<Longrightarrow> those (map (aget xs) [0..<n]) = Some (take n xs)"
proof (induction n)
  case (Suc n)
  have a: "those ys = Some zs \<Longrightarrow> those (ys @ [Some y]) = Some (zs @ [y])" for ys :: "'a option list" and zs y
    by (induction ys arbitrary: zs) (auto split: option.splits)
  show ?case using Suc a [of "map (aget xs) [0..<n]" "take n xs" "xs ! n"] by (simp add: aget_nth take_Suc_conv_app_nth)
qed simp

text \<open>
  C15. The life of a device: the constructor connects to each channel as many dies of its
  package as the channel admits, no sequence of reads, writes, erases, replacements and
  merges changes that count, and the destructors of the packages take back every connection,
  so that no channel is destroyed with a device connected, even when the channel admits fewer
  devices than the package has dies.
\<close>

theorem device_teardown_silent:
  assumes "Ssd_new c junk aj sz = Some d" "BUS_MAX_CONNECT c < 2 ^ 32"
    and "run_requests (Ssd_exec junk' c) rs d g = Some (d', g')"
  shows "(\<forall>i < sz. num_connected (channels (s_bus d') ! i) = min (BUS_MAX_CONNECT c) (PACKAGE_SIZE c)) \<and> Ssd_delete d' = Some []"
proof -
  have w: "wired d'" "s_bus d' = s_bus d" "ssize d' = sz"
    using run_wired [OF assms(3) wired_new(1) [OF assms(1,2)]] wired_new(3) [OF assms(1,2)] by simp_all
  obtain b where b: "delete_packages (sdata d') [0..<ssize d'] (s_bus d') = Some b" "num_channels b = ssize d'"
    "length (channels b) = ssize d'" "\<forall>i < ssize d'. num_connected (channels b ! i) = 0"
    using delete_packages_num [of "[0..<ssize d']" "sdata d'" "s_bus d'"] w(1) by (auto simp: wired_def)
  have "Channel_delete ch = []" if "ch \<in> set (channels b)" for ch
    using that b(3,4) by (auto simp: Channel_delete_def in_set_conv_nth)
  then have "Bus_delete b = Some []" using b(2,3) by (simp add: Bus_delete_def those_aget)
  then show ?thesis using b(1) wired_new(2) [OF assms(1,2)] w(2,3) by (simp add: Ssd_delete_def)
qed

theorem device_teardown_silent_witness:
  "\<exists>d' g'. run_requests (Ssd_exec 0 small_config)
       [(UWrite, small_event WRITE (page_address 1 0) (Some (UserBuf [3, 4])))] small_ssd small_env = Some (d', g')
     \<and> Ssd_delete d' = Some []"
proof -
  obtain e' d' g' where w: "Ssd_write small_config (small_event WRITE (page_address 1 0) (Some (UserBuf [3, 4])))
    small_ssd small_env = Some (SUCCESS, e', d', g')" by (rule small_write)
  have r: "run_requests (Ssd_exec 0 small_config)
       [(UWrite, small_event WRITE (page_address 1 0) (Some (UserBuf [3, 4])))] small_ssd small_env = Some (d', g')"
    using w by (simp add: Ssd_exec_def)
  have "BUS_MAX_CONNECT small_config < 2 ^ 32" by (simp add: small_config_def default_config_def)
  from device_teardown_silent [OF small_ssd_new this r] show ?thesis using r by blast
qed

section \<open>The array of a RAID\<close>

text \<open>\<open>new Ssd[RAID_NUMBER_OF_PHYSICAL_SSDS]\<close>, each with the default size \<open>SSD_SIZE\<close>.\<close>

definition RaidSsd_new :: "config \<Rightarrow> time \<Rightarrow> ulong \<Rightarrow> ssd list option" where
  "RaidSsd_new c junk aj = those (map (\<lambda>i. Ssd_new c junk aj (SSD_SIZE c)) [0..<RAID_NUMBER_OF_PHYSICAL_SSDS c])"

definition RaidSsd_get_result_buffer :: "env \<Rightarrow> nat option" where
  "RaidSsd_get_result_buffer g = global_buffer g"

lemma those_nth: "those xs = Some ys \<Longrightarrow> length ys = length xs \<and> (\<forall>i < length ys. xs ! i = Some (ys ! i))"
  by (induction xs arbitrary: ys) (auto simp: nth_Cons split: option.splits nat.splits)

lemma raid_ssd_ok:
  assumes "RaidSsd_new c junk aj = Some ds" "i < length ds" "sizes_ok c" "0 < SSD_SIZE c"
  shows "ssd_ok c (ds ! i)"
proof -
  have "Ssd_new c junk aj (SSD_SIZE c) = Some (ds ! i)"
    using those_nth [OF assms(1) [unfolded RaidSsd_new_def]] assms(2) by auto
  then show ?thesis by (rule ssd_ok_new [OF assms(3,4)])
qed

text \<open>
  C34. The devices of an array share their page data: when one device writes a page and
  another device then writes the page of the same address, which is what striping does, a
  read from the first device returns the bytes of the second.
\<close>

theorem raid_devices_share_pages:
  assumes "RaidSsd_new c junk aj = Some ds" "i < length ds" "sizes_ok c" "0 < SSD_SIZE c" "PAGE_ENABLE_DATA c"
    and "Ssd_write c e0 (ds ! i) g = Some (s0, e0', d0, g0)" "\<not> noop e0"
    and "Ssd_write c e1 (ds ! j) g0 = Some (s1, e1', d1, g1)" "\<not> noop e1" "ev_payload e1 = Some (UserBuf bs)"
    and "ev_address e1 = ev_address e0" "ev_address e2 = ev_address e0" "\<not> noop e2"
    and "Ssd_get_block_pointer (ev_address e0) (ds ! i) = Some b" "0 \<le> pg_read_delay (bdata b ! page (ev_address e0))"
  shows "\<exists>e2' d2 g2. Ssd_read c e2 d0 g1 = Some (SUCCESS, e2', d2, g2)
     \<and> RaidSsd_get_result_buffer g2 = Some (real_address (ev_address e0))
     \<and> page_data g2 (real_address (ev_address e0)) = take (PAGE_SIZE c) bs"
proof -
  have ok0: "ssd_ok c (ds ! i)" by (rule raid_ssd_ok [OF assms(1-4)])
  obtain b' where bw: "Block_write c e0 b g = Some (s0, e0', b', g0)" and b': "Ssd_get_block_pointer (ev_address e2) d0 = Some b'"
    and v: "PLANE < valid (ev_address e2)"
    by (rule Ssd_write_reaches [OF assms(6)]) (use assms(12,14) in auto)
  obtain b1 b1' where bw1: "Block_write c e1 b1 g0 = Some (s1, e1', b1', g1)"
    by (rule Ssd_write_reaches [OF assms(8)])
  have ok: "ssd_ok c d0"
    using Ssd_exec_ok(1) [where a = UWrite and junk = 0, unfolded Ssd_exec_write, OF assms(6) ok0] .
  have pg: "page (ev_address e2) < length (bdata b')" "0 \<le> pg_read_delay (bdata b' ! page (ev_address e2))"
    using Block_write_done [OF bw assms(7)] assms(12,15) by simp_all
  obtain e2' d2 g2 where r: "Ssd_read c e2 d0 g1 = Some (SUCCESS, e2', d2, g2)" "Block_read c e2 b' g1 = Some (SUCCESS, e2', b', g2)"
    by (rule Ssd_read_total [OF ok v b' pg])
  have "global_buffer g2 = Some (real_address (ev_address e0))" "page_data g2 = page_data g1"
    using r(2) assms(5,12,13)
    by (auto simp: Block_read_def Page_read_def get_linear_address_def Let_def bind_eq_Some_conv split: if_splits)
  then show ?thesis using r(1) Block_write_data [OF bw1 assms(9,10,5)] assms(11) by (simp add: RaidSsd_get_result_buffer_def)
qed

definition mirrored_config :: config where
  "mirrored_config = small_config\<lparr>RAID_NUMBER_OF_PHYSICAL_SSDS := 2\<rparr>"

lemma mirrored_config_simps [simp]:
  "SSD_SIZE mirrored_config = 1" "PAGE_SIZE mirrored_config = 2" "PAGE_ENABLE_DATA mirrored_config"
  "sizes_ok mirrored_config" "RAID_NUMBER_OF_PHYSICAL_SSDS mirrored_config = 2"
  by (simp_all add: mirrored_config_def small_config_def default_config_def sizes_ok_def geometry_ok_def)

lemma mirrored_ssd_new: "Ssd_new mirrored_config 0 0 1 = Some small_ssd"
  by (simp add: mirrored_config_def small_ssd_def construct_defs Let_def split_beta aget_def Plane_new_def Block_new_def)

lemma mirrored_raid_new: "RaidSsd_new mirrored_config 0 0 = Some [small_ssd, small_ssd]"
  using mirrored_ssd_new by (simp add: RaidSsd_new_def upt_rec)

lemma mirrored_writable:
  assumes "length (active_cost g) = 2" "2 \<le> length bs"
  shows "page_writable mirrored_config (small_event WRITE (page_address 1 0) (Some (UserBuf bs)))
     (Block_new small_config 2 1048675 (1 / 1000) 2) g"
  using assms by (simp add: page_writable_def mirrored_config_def page_address_def Block_new_def Page_new_def total_pages_def
      payload_bytes_def)

lemma mirrored_write:
  assumes "length (active_cost g) = 2" "2 \<le> length bs"
  obtains e' d' g' where "Ssd_write mirrored_config (small_event WRITE (page_address 1 0) (Some (UserBuf bs))) small_ssd g =
    Some (SUCCESS, e', d', g')" "length (active_cost g') = 2"
proof -
  have ok: "ssd_ok mirrored_config small_ssd" by (rule ssd_ok_new [OF _ _ mirrored_ssd_new]) simp_all
  obtain e' d' g' where w: "Ssd_write mirrored_config (small_event WRITE (page_address 1 0) (Some (UserBuf bs))) small_ssd g =
    Some (SUCCESS, e', d', g')"
    using Ssd_write_total [OF ok _ _ mirrored_writable [OF assms]] small_block [of 1 0] by (simp add: page_address_def) blast
  moreover have "length (active_cost g') = length (active_cost g)"
    using Ssd_exec_ok(3) [where a = UWrite and junk = 0, unfolded Ssd_exec_write, OF w ok] .
  ultimately show thesis using that assms by simp
qed

theorem raid_devices_share_pages_witness:
  "\<exists>ds d0 g0 g1 e2' d2 g2. RaidSsd_new mirrored_config 0 0 = Some ds
     \<and> (\<exists>e'. Ssd_write mirrored_config (small_event WRITE (page_address 1 0) (Some (UserBuf [3, 4]))) (ds ! 0) small_env =
          Some (SUCCESS, e', d0, g0))
     \<and> (\<exists>e' d1. Ssd_write mirrored_config (small_event WRITE (page_address 1 0) (Some (UserBuf [5, 6]))) (ds ! 1) g0 =
          Some (SUCCESS, e', d1, g1))
     \<and> Ssd_read mirrored_config (small_event READ (page_address 1 0) None) d0 g1 = Some (SUCCESS, e2', d2, g2)
     \<and> page_data g2 2 = [5, 6]"
proof -
  obtain e0 d0 g0 where w0: "Ssd_write mirrored_config (small_event WRITE (page_address 1 0) (Some (UserBuf [3, 4]))) small_ssd
      small_env = Some (SUCCESS, e0, d0, g0)" "length (active_cost g0) = 2"
    by (rule mirrored_write [of small_env "[3, 4]"]) (simp_all add: small_env_def)
  obtain e1 d1 g1 where w1: "Ssd_write mirrored_config (small_event WRITE (page_address 1 0) (Some (UserBuf [5, 6]))) small_ssd
      g0 = Some (SUCCESS, e1, d1, g1)"
    by (rule mirrored_write [OF w0(2), of "[5, 6]"]) simp_all
  have p: "real_address (page_address 1 0) = 2" "page (page_address 1 0) = 0" by (simp_all add: page_address_def)
  have "\<exists>e2' d2 g2. Ssd_read mirrored_config (small_event READ (page_address 1 0) None) d0 g1 = Some (SUCCESS, e2', d2, g2)
     \<and> RaidSsd_get_result_buffer g2 = Some (real_address (page_address 1 0))
     \<and> page_data g2 (real_address (page_address 1 0)) = take (PAGE_SIZE mirrored_config) [5, 6]"
  proof (rule raid_devices_share_pages [OF mirrored_raid_new, where i = 0 and j = 1 and g = small_env and bs = "[5, 6]"
        and b = "Block_new small_config 2 1048675 (1 / 1000) 2"
        and ?e0.0 = "small_event WRITE (page_address 1 0) (Some (UserBuf [3, 4]))"
        and ?e1.0 = "small_event WRITE (page_address 1 0) (Some (UserBuf [5, 6]))", unfolded small_event_simps])
    show "Ssd_write mirrored_config (small_event WRITE (page_address 1 0) (Some (UserBuf [3, 4]))) ([small_ssd, small_ssd] ! 0)
      small_env = Some (SUCCESS, e0, d0, g0)" using w0(1) by simp
    show "Ssd_write mirrored_config (small_event WRITE (page_address 1 0) (Some (UserBuf [5, 6]))) ([small_ssd, small_ssd] ! 1)
      g0 = Some (SUCCESS, e1, d1, g1)" using w1 by simp
  qed (use small_block [of 1 0] p in \<open>simp_all add: Block_new_def Page_new_def\<close>)
  then obtain e2' d2 g2 where r: "Ssd_read mirrored_config (small_event READ (page_address 1 0) None) d0 g1 =
      Some (SUCCESS, e2', d2, g2)" "page_data g2 2 = [5, 6]" using p by auto
  show ?thesis
    by (intro exI [of _ "[small_ssd, small_ssd]"] exI [of _ d0] exI [of _ g0] exI [of _ g1] exI [of _ e2'] exI [of _ d2] exI [of _ g2])
       (simp add: mirrored_raid_new w0(1) [simplified] w1 [simplified] r [simplified])
qed

end
