(* ===== verification/Driver_Bench.thy ===== *)
theory Driver_Bench
  imports Zns_Properties
begin

text \<open>
  \<open>main.c\<close>, the bench of the NVMe driver: a register file of its own with a routine that
  answers in place of the hardware, the decoding of a completion status, and the three
  commands it issues. The driver of the repository does not read the register file: it calls
  the bridge, which is where the bench runs here, with a validator attached or without one.
\<close>

unbundle bit_operations_syntax

section \<open>The bench\<close>

type_synonym mock_regs = "u32 list"

definition mock_reg_space :: mock_regs where
  "mock_reg_space = replicate 64 0"

definition simulate_hardware_response :: "mock_regs \<Rightarrow> mock_regs" where
  "simulate_hardware_response m =
     (if m ! 7 = 1 then
        (let opcode = m ! 2; lba_lo = m ! 4; m1 = m[8 := 2] in
         if opcode = 1 then
           (if lba_lo = 0 then m1[8 := 3, 9 := 0] else if lba_lo = 5 then m1[8 := 1, 9 := 1] else m1)
         else if opcode = 2 then m1[8 := 3, 9 := 0] else m1)
      else m)"

text \<open>What is printed: status code type, status code and whether the line reads SUCCESS.\<close>

definition print_nvme_completion_status :: "nvme_cqe \<Rightarrow> u16 \<times> u16 \<times> bool" where
  "print_nvme_completion_status cqe =
     (drop_bit 9 (cqe_status cqe) AND 0x7, drop_bit 1 (cqe_status cqe) AND 0xFF, cqe_status cqe = 0)"

definition clear_sqe :: nvme_sqe where
  "clear_sqe = \<lparr>sqe_opcode = 0, sqe_flags = 0, sqe_cid = 0, sqe_nsid = 0, sqe_rsvd1 = 0, sqe_mptr = 0, sqe_prp1 = 0,
     sqe_prp2 = 0, sqe_slba = 0, sqe_nlb = 0, sqe_zsa = 0, sqe_rsvd2 = 0\<rparr>"

definition clear_cqe :: nvme_cqe where
  "clear_cqe = \<lparr>cqe_cdw0 = 0, cqe_rsvd = 0, cqe_sq_head = 0, cqe_sq_id = 0, cqe_cid = 0, cqe_status = 0\<rparr>"

definition bench_main :: "mock_regs \<Rightarrow> driver \<Rightarrow> ((u16 \<times> u16 \<times> bool) list \<times> mock_regs \<times> driver) option" where
  "bench_main m D = do {
     let D0 = zns_controller_init D;
     let m1 = m[7 := 0, 8 := 3, 9 := 0];
     (cqe1, D1) \<leftarrow> zns_process_nvme_command
       (clear_sqe\<lparr>sqe_cid := 101, sqe_opcode := NVME_CMD_WRITE, sqe_slba := 0, sqe_nlb := 0\<rparr>) clear_cqe D0;
     let m2 = m1[8 := 1, 9 := 1];
     (cqe2, D2) \<leftarrow> zns_process_nvme_command
       (clear_sqe\<lparr>sqe_cid := 102, sqe_opcode := NVME_CMD_WRITE, sqe_slba := 5\<rparr>) clear_cqe D1;
     let m3 = m2[8 := 3, 9 := 0];
     (cqe3, D3) \<leftarrow> zns_process_nvme_command
       (clear_sqe\<lparr>sqe_cid := 103, sqe_opcode := NVME_CMD_ZONE_MGMT, sqe_zsa := NVME_ZONE_ACTION_RESET,
          sqe_slba := 64\<rparr>) clear_cqe D2;
     Some (map print_nvme_completion_status [cqe1, cqe2, cqe3], m3, D3)
   }"

section \<open>Decoding\<close>

text \<open>The printed codes are the ones the driver encoded, for every error of the hardware.\<close>

lemma status_decodes:
  "print_nvme_completion_status (cqe\<lparr>cqe_status := nvme_status st err\<rparr>) =
     (if st = 3 then (0, 0, True) else (1, nvme_sc err, False))"
  by (simp add: print_nvme_completion_status_def nvme_status_def nvme_sc_def)

lemma init_idle:
  assumes "hw_idle (drv_hw D) d"
  shows "hw_idle (drv_hw (zns_controller_init D)) d"
proof -
  from assms obtain c where c: "hw_core (drv_hw D) c" "c_state c = ST_IDLE" "dev_of c = d" by (auto simp: hw_idle_def)
  have "hw_core (drv_hw (zns_controller_init D)) (c\<lparr>c_trigger := False, c_cmd := 0, c_page := 0, c_zone := 0\<rparr>)"
    using core_set_zone [OF core_set_page [OF core_set_cmd [OF core_set_trigger [OF c(1), of 0], of 0], of 0], of 0]
    by (simp add: zns_controller_init_def)
  then show ?thesis using c(2,3) by (auto simp: hw_idle_def dev_of_def)
qed

text \<open>The hand-written answers of the bench are those of a fresh device, where the bench gives one.\<close>

lemma mock_matches_device:
  assumes "length m = 64" "m ! 7 = 1" "(cmd, lba) \<in> {(1, 0), (1, 5), (2, 0)}" "m ! 2 = ucast cmd" "m ! 4 = lba"
  shows "fst (zns_command cmd 0 lba fresh_dev) =
    (ucast (simulate_hardware_response m ! 8), ucast (simulate_hardware_response m ! 9))"
  using assms fresh_dev_ok(3)
  by (auto simp: simulate_hardware_response_def Let_def zns_command_inside in_bram_def BRAM_CELLS_def write_verdict
      reset_verdict fresh_dev_def zone_word_simps)

section \<open>The three commands\<close>

lemma bench_write_first:
  assumes "zone_ok (zd_bram d 0)" "zone_wptr (zd_bram d 0) = 0" "\<not> zd_hot d" "unat (zd_open d) < 4"
  shows "zns_command 1 0 0 d = ((3, 0), d\<lparr>zd_bram := (zd_bram d)(0 := next_descriptor 1 (zd_bram d 0) (zd_wdata d)),
    zd_wdata := next_descriptor 1 (zd_bram d 0) (zd_wdata d), zd_open := track_open 1 (zd_bram d 0) (zd_open d)\<rparr>)"
  using assms write_verdict [OF assms(1,3), of 0]
  by (simp add: zns_command_inside in_bram_def BRAM_CELLS_def Let_def)

text \<open>
  C32. The driver bench on an idle, cool device whose first zone is empty, whose second zone has
  resets left and which has room for an open zone: all three commands return, and the bench prints
  success for the write of page 0, status code 0x82 (the unaligned write it expects) for the
  write of page 5, and success for the reset of zone 1. The device ends idle, with one page
  written in zone 0.
\<close>

theorem bench_outcome:
  assumes "hw_idle (drv_hw D) d" "dev_ok d" "zone_wptr (zd_bram d 0) = 0" "\<not> zd_hot d" "unat (zd_open d) < 4"
    and "unat (zone_erase_cnt (zd_bram d 1)) < 10" "length m = 64"
  shows "\<exists>m' D' d'. bench_main m D = Some ([(0, 0, True), (1, 0x82, False), (0, 0, True)], m', D')
     \<and> hw_idle (drv_hw D') d' \<and> unat (zone_wptr (zd_bram d' 0)) = 1 \<and> zone_wptr (zd_bram d' 1) = 0
     \<and> (\<forall>z. 1 < z \<longrightarrow> zd_bram d' z = zd_bram d z)"
proof -
  have z: "lba_zone 0 = 0" "lba_page 0 = 0" "lba_zone 5 = 0" "lba_page 5 = 5" "lba_zone 64 = 1" "lba_page 64 = 0"
    by (simp_all add: lba_zone_def lba_page_def)
  have b: "in_bram 0" "in_bram 1" by (simp_all add: in_bram_def BRAM_CELLS_def)
  have w0: "zone_ok (zd_bram d 0)" using dev_ok_zone [OF assms(2), of 0] b by (simp add: zone_word_def)
  define d1 where "d1 = snd (zns_command 1 0 0 d)"
  have c1: "fst (zns_command 1 0 0 d) = (3, 0)" and b1: "zd_bram d1 = (zd_bram d)(0 := next_descriptor 1 (zd_bram d 0) (zd_wdata d))"
    and h1: "\<not> zd_hot d1"
    using bench_write_first [OF w0 assms(3-5)] assms(4) by (simp_all add: d1_def)
  have p1: "unat (zone_wptr (zd_bram d1 0)) = 1" using assms(3) by (simp add: b1 next_descriptor_def zone_word_simps)
  have "dev_ok d1" using zns_command_dev_ok [OF assms(2)] by (simp add: d1_def)
  then have "zone_ok (zd_bram d1 0)" using dev_ok_zone [of d1 0] b by (simp add: zone_word_def)
  then have c2: "zns_command 1 0 5 d1 = ((1, 1), d1)"
    using write_verdict [OF _ h1, of "zd_bram d1 0" 5] p1 b by (simp add: zns_command_inside Let_def)
  define d3 where "d3 = snd (zns_command 2 1 0 d1)"
  have c3: "fst (zns_command 2 1 0 d1) = (3, 0)" "zd_bram d3 = (zd_bram d1)(1 := next_descriptor 2 (zd_bram d1 1) (zd_wdata d1))"
    using reset_verdict [OF h1, of 0 "zd_bram d1 1"] b assms(6) by (simp_all add: d3_def zns_command_inside Let_def b1)
  define q1 where "q1 = clear_sqe\<lparr>sqe_cid := 101, sqe_opcode := NVME_CMD_WRITE, sqe_slba := 0, sqe_nlb := 0\<rparr>"
  define q2 where "q2 = clear_sqe\<lparr>sqe_cid := 102, sqe_opcode := NVME_CMD_WRITE, sqe_slba := 5\<rparr>"
  define q3 where "q3 = clear_sqe\<lparr>sqe_cid := 103, sqe_opcode := NVME_CMD_ZONE_MGMT, sqe_zsa := NVME_ZONE_ACTION_RESET,
          sqe_slba := 64\<rparr>"
  note qs = q1_def q2_def q3_def
  have k: "hardware_cmd q1 = Inr 1" "hardware_cmd q2 = Inr 1" "hardware_cmd q3 = Inr 2"
      "sqe_slba q1 = 0" "sqe_slba q2 = 5" "sqe_slba q3 = 64"
    by (simp_all add: qs hardware_cmd_def NVME_CMD_READ_def NVME_CMD_WRITE_def NVME_CMD_ZONE_MGMT_def NVME_ZONE_ACTION_RESET_def)
  obtain D1 where D1: "zns_process_nvme_command q1 clear_cqe (zns_controller_init D) = Some (cqe_outcome q1 (3, 0) clear_cqe, D1)"
    "hw_idle (drv_hw D1) d1"
    using driver_command [OF init_idle [OF assms(1)] k(1), of clear_cqe] c1 by (auto simp: k z d1_def)
  obtain D2 where D2: "zns_process_nvme_command q2 clear_cqe D1 = Some (cqe_outcome q2 (1, 1) clear_cqe, D2)" "hw_idle (drv_hw D2) d1"
    using driver_command [OF D1(2) k(2), of clear_cqe] c2 by (auto simp: k z)
  obtain D3 where D3: "zns_process_nvme_command q3 clear_cqe D2 = Some (cqe_outcome q3 (3, 0) clear_cqe, D3)" "hw_idle (drv_hw D3) d3"
    using driver_command [OF D2(2) k(3), of clear_cqe] c3 by (auto simp: k z d3_def)
  have "bench_main m D = Some ([(0, 0, True), (1, 0x82, False), (0, 0, True)], m[7 := 0, 8 := 3, 9 := 0, 8 := 1, 9 := 1, 8 := 3, 9 := 0], D3)"
    unfolding bench_main_def qs [symmetric] Let_def
    by (simp add: D1(1) D2(1) D3(1) cqe_outcome_def status_decodes nvme_sc_def)
  moreover have "unat (zone_wptr (zd_bram d3 0)) = 1" "zone_wptr (zd_bram d3 1) = 0" "\<forall>z. 1 < z \<longrightarrow> zd_bram d3 z = zd_bram d z"
    using p1 by (simp_all add: c3(2) b1 next_descriptor_def zone_word_simps)
  ultimately show ?thesis using D3(2) by blast
qed

theorem bench_outcome_witness:
  "\<exists>m' D'. bench_main mock_reg_space booted_driver = Some ([(0, 0, True), (1, 0x82, False), (0, 0, True)], m', D')"
proof -
  have i: "hw_idle (drv_hw booted_driver) fresh_dev" by (simp add: booted_driver_def booted_idle)
  show ?thesis
    using bench_outcome [OF i fresh_dev_ok(1) _ fresh_dev_ok(3), of mock_reg_space]
    by (auto simp: fresh_dev_def zone_word_simps mock_reg_space_def)
qed

lemma detached_ports:
  "hw_top h = None \<Longrightarrow> hw_top (sim_set_io_trigger a h) = None" "hw_top h = None \<Longrightarrow> hw_top (sim_set_io_cmd a h) = None"
  "hw_top h = None \<Longrightarrow> hw_top (sim_set_validated_target_page p h) = None"
  "hw_top h = None \<Longrightarrow> hw_top (sim_set_validated_zone_id p h) = None"
  by (simp_all add: sim_set_io_trigger_def sim_set_io_cmd_def sim_set_validated_target_page_def sim_set_validated_zone_id_def)

text \<open>
  With no validator attached to the bridge the bench never gets past its first command, whatever
  it has put into its own registers: the driver polls the bridge, which reports 0 for ever.
\<close>

theorem bench_hangs_detached:
  assumes "hw_top (drv_hw D) = None"
  shows "bench_main m D = None"
proof -
  have "hw_top (drv_hw (zns_controller_init D)) = None" using assms
    by (simp add: zns_controller_init_def detached_ports)
  then have "hw_top (drv_hw (issue_writes q cmd (zns_controller_init D))) = None" for q cmd
    by (simp add: issue_writes_def csr_write32_def present_lba_def detached_ports)
  note off = poll_status_detached [OF this]
  have "zns_process_nvme_command q cqe (zns_controller_init D) = None" if "hardware_cmd q = Inr cmd" for q cqe cmd
    using off [of q cmd] by (simp add: zns_process_nvme_command_def that Let_def issue_writes_def)
  then show ?thesis
    by (simp add: bench_main_def Let_def hardware_cmd_def NVME_CMD_READ_def NVME_CMD_WRITE_def)
qed

theorem bench_hangs_detached_witness:
  "bench_main mock_reg_space (booted_driver\<lparr>drv_hw := blank_hw None\<rparr>) = None"
  by (rule bench_hangs_detached) (simp add: blank_hw_def)

end
