(* ===== verification/Spec2Isabelle.thy ===== *)
theory Spec2Isabelle
  imports Replay_Properties Nbd_Session Log_Properties Zns_Acceptance Verilated_Bridge Page_Ftl Flash_Wear Ssd_Lifecycle Driver_Bench
begin

text \<open>
  \<^bold>\<open>TestFlashSim\<close>: a verification of the flash and ZNS simulator under
  \<open>src/OriginalFlashSim\<close>.

  \<^bold>\<open>The program.\<close> Two systems share the repository. The first is FlashSim, an
  event-driven simulator of a solid state disk: pages, blocks, planes, dies and packages
  (\<open>ssd_page.cpp\<close> to \<open>ssd_package.cpp\<close>) under a device (\<open>ssd_ssd.cpp\<close>) with a bus of
  channels (\<open>ssd_bus.cpp\<close>, \<open>ssd_channel.cpp\<close>), a buffer RAM, a block manager
  (\<open>ssd_bm.cpp\<close>) and flash translation layers (\<open>FTLs/\<close>). The second is a co-simulated
  zoned device: a Verilog state machine that validates zone commands
  (\<open>zns_fsm_validator.v\<close> with \<open>zns_rules_checker.v\<close> and \<open>zns_resources_tracker.v\<close>), the
  C++ bridge that clocks it and holds its block RAM (\<open>hardware_bridge.cpp\<close>), the firmware
  driver that polls it (\<open>zns_driver.c\<close>), the controller's gate (\<open>ssd_controller.cpp\<close>) with
  a software copy of the zone table (\<open>zns_manager.cpp\<close>), and a network block device server
  (\<open>nbd_server.cpp\<close>, \<open>nbd_negotiation.cpp\<close>, \<open>sim_main.cpp\<close>) in front of it.

  \<^bold>\<open>Theories and what they model.\<close>
  \<^item> \<open>Flash_Prelude\<close>: 32- and 64-bit unsigned arithmetic on \<open>nat\<close> with the wrap written
    out, \<open>aget\<close> and \<open>cassert\<close> (array access and \<open>assert\<close>, \<open>None\<close> when they fail),
    \<open>count_if\<close>, \<open>std::map\<close> as a sorted association list (\<open>smap_put\<close>, \<open>smap_erase\<close>), the
    wear-statistics loop, and the \<open>status\<close> values. Simulated time, a
    \<open>double\<close> in the source, is a real number. The \<open>float\<close> comparison
    in \<open>insert_events\<close> is rounded as in the source (\<open>gc_needed\<close>); counts of blocks are taken as exact, which
    they are below \<open>2 ^ 24\<close>.
  \<^item> \<open>Flash_Config\<close>: \<open>ssd_config.cpp\<close>, the configuration record, the scanner of
    \<open>ssd.conf\<close> and \<open>load_config\<close>.
  \<^item> \<open>Ssd_Address\<close>, \<open>Ssd_Event\<close>: \<open>ssd_address.cpp\<close>; \<open>ssd_event.cpp\<close>, \<open>ssd_stats.cpp\<close> and
    \<open>ssd_ram.cpp\<close>.
  \<^item> \<open>Ssd_Channel\<close>: \<open>ssd_channel.cpp\<close> and \<open>ssd_bus.cpp\<close>.
  \<^item> \<open>Flash_Unit\<close>: the contract \<open>storage_unit\<close> of a level of the hierarchy and how a level
    forwards an event to the child its address selects. It is interpreted in \<open>Ssd_Block\<close>,
    \<open>Ssd_Plane\<close>, \<open>Ssd_Die\<close>, \<open>Ssd_Package\<close> and \<open>Ssd_Device\<close>, the models of
    \<open>ssd_page.cpp\<close>/\<open>ssd_block.cpp\<close>, \<open>ssd_plane.cpp\<close>, \<open>ssd_die.cpp\<close>, \<open>ssd_package.cpp\<close> and
    \<open>ssd_ssd.cpp\<close>.
  \<^item> \<open>Block_Manager\<close>, \<open>Ftl_Simple\<close>: \<open>ssd_bm.cpp\<close>; \<open>FTLs/page_ftl.cpp\<close>,
    \<open>FTLs/zns_ftl.cpp\<close>, \<open>ssd_raidssd.cpp\<close>, \<open>ssd_wl.cpp\<close>, \<open>ssd_gc.cpp\<close>.
  \<^item> \<open>Ftl_Dftl\<close>: \<open>FTLs/dftl_parent.cpp\<close> and \<open>FTLs/dftl_ftl.cpp\<close>, the translation layer with a
    cached mapping table. The Boost container is a list and an argument for the first element
    of its index by last visit; the locale \<open>lru_index\<close> in \<open>Dftl_Cache\<close> states what that
    index promises, leaves ties open, and holds the lemmas on eviction and lookup. The
    eviction loop terminates by the measure of the entries above the limit. \<open>Dftl_Write\<close>:
    sequential allocation and sequences of writes.
  \<^item> \<open>Ftl_Bdftl\<close>, \<open>Bdftl_Facts\<close>: \<open>FTLs/bdftl_ftl.cpp\<close>, block mapping on top of \<open>Ftl_Dftl\<close>.
  \<^item> \<open>Ftl_Log\<close>: \<open>LogPageBlock\<close>, the parent class (\<open>ssd_ftlparent.cpp\<close>) and the steps the log-block
    layers share; \<open>Ftl_Bast\<close>, \<open>Bast_Facts\<close>: \<open>FTLs/bast_ftl.cpp\<close>, with the reachable states
    \<open>bast_reaches\<close> and the locale \<open>next_free_page\<close>, which the queries of \<open>Ssd_Device\<close> satisfy
    (\<open>Log_Properties\<close>); \<open>Ftl_Fast\<close>, \<open>Fast_Facts\<close>: \<open>FTLs/fast_ftl.cpp\<close>, whose linked list of log
    blocks is a list.
  \<^item> \<open>Zns_Fsm\<close>: the three Verilog modules, one register record and one function per
    clocked or combinational block; \<open>Zns_Bridge\<close>: \<open>hardware_bridge.cpp\<close>, and the atomic
    command \<open>zns_command\<close> that the cycles of the state machine implement.
  \<^item> \<open>Zns_Verilated\<close>: the C++ under \<open>obj_dir/\<close> that was compiled from the Verilog and that the
    simulation links, with its cached nets, trigger words and evaluation regions; the loops
    carry the bound of 10000 rounds of the source, and two rounds are shown to be enough.
    \<open>Verilated_Facts\<close> relates one evaluation to \<open>validator_eval\<close>, \<open>Verilated_Bridge\<close> the bridge over the
    compiled model to the bridge over the Verilog model, start-up included.
  \<^item> \<open>Zns_Driver\<close>: \<open>zns_driver.c\<close>; its polling loop is a \<open>partial_function\<close> in the option
    monad, so that not returning is \<open>None\<close>. The locale \<open>polled_device\<close> states what a
    polling client needs of the device.
  \<^item> \<open>Zone_Contract\<close>: the locale \<open>append_zone\<close>, a zone written in order, interpreted by the
    hardware zone (\<open>Zns_Device\<close>, with the abstract device \<open>zns_spec\<close>) and by the software
    zone (\<open>Zns_Controller\<close>: \<open>ssd_controller.cpp\<close>, \<open>zns_manager.cpp\<close>, \<open>crypto_engine.cpp\<close>,
    \<open>thermal_manager.cpp\<close>, \<open>flashsim_stubs.cpp\<close>).
  \<^item> \<open>Nbd_Server\<close>: \<open>nbd_protocol.h\<close>, \<open>nbd_server.cpp\<close>, \<open>nbd_negotiation.cpp\<close>, and the
    management channel and start-up of \<open>sim_main.cpp\<close>. \<open>Nbd_Session\<close>: connections, one after the other,
    against the specification \<open>visits_spec\<close>: the reads, trims and management requests of the server
    end before the device has finished, and the specification says in which of four phases
    (\<open>phase\<close>) the device is left and what the next request sees of it.
  \<^item> \<open>Page_Ftl\<close>: sequences of requests to the page layer. \<open>Flash_Wear\<close>: the erase budget of a block over a
    run of the device. \<open>Ssd_Lifecycle\<close>: the destructors of the
    hierarchy and the array of devices of \<open>ssd_raidssd.cpp\<close>. \<open>Driver_Bench\<close>: \<open>main.c\<close>, run over the
    bridge.
  \<^item> \<open>Zns_Tests\<close>: the acceptance tests \<open>tests/test_*.cpp\<close>, their main program \<open>run_test.cpp\<close>
    and \<open>eeprom_manager.cpp\<close>, as programs over the operations they call. The locale
    \<open>related_testers\<close> carries their outcome from one implementation of these operations to
    another; \<open>Zns_Acceptance\<close> interprets it with the controller stack and the atomic device.
    The theorem there is for a controller attached to an idle device: \<open>run_test.cpp\<close> itself does not
    create the clocked model.
  \<^item> \<open>Trace_Drivers\<close>: the host programs \<open>SSDSim.cpp\<close>, \<open>run_test2.cpp\<close>, \<open>run_raid.cpp\<close>,
    \<open>run_correctness.cpp\<close>, \<open>run_bimodal.cpp\<close> and \<open>verification.cpp\<close>, over any disk. The locale
    \<open>disk\<close> (no request takes negative time) is interpreted by \<open>Ssd_event_arrive\<close> with any controller,
    \<open>serving_disk\<close> by the controller that is built. The loops whose counters may wrap are
    \<open>partial_function\<close>s, and are shown to be runs over a finite list of pages.
  \<^item> \<open>Trace_Replay\<close>: \<open>run_ufliptrace.cpp\<close> with its line scanner, and \<open>run_debug.cpp\<close>, whose loop
    terminates because every command shortens the input. \<open>sscanf\<close>, \<open>atof\<close>, \<open>std::string\<close> and the
    stream extractions are modelled as far as the programs use them.
  \<^item> \<open>Zns_Properties\<close>, \<open>Nbd_Properties\<close>, \<open>Flash_Properties\<close>, \<open>Ftl_Properties\<close>,
    \<open>Log_Properties\<close>, \<open>Driver_Properties\<close>, \<open>Replay_Properties\<close>, the theories of the last two items above and
    this theory state the properties, each after a block that names it, with a witness on
    concrete states.

  \<^bold>\<open>Conventions.\<close> An operation returns \<open>None\<close> where the source aborts or its behaviour
  is undefined (a failed \<open>assert\<close>, an index outside an array, a null pointer, a conversion
  out of range). Members that the source leaves uninitialised are arguments (\<open>junk\<close>).
  Object identity is positional: a child is its index in the parent's array, a block pointer
  is the block's physical address. What the translation layers call on the controller
  (\<open>issue\<close>, \<open>get_block_pointer\<close>, \<open>get_num_valid\<close>, \<open>get_free_page\<close>, \<open>get_state\<close>), of which the
  repository has stubs or no definition, is an argument over a world of any type
  (\<open>controller_if\<close>, \<open>block_heap\<close>, \<open>log_controller\<close>); \<open>random()\<close> is a sequence in the state.

  \<^bold>\<open>What is shown.\<close> For the zoned device: the compiled model
  returns what the Verilog source describes under every sequence of port operations; from an idle state every driver command returns
  after 5 cycles when refused and 6 when accepted (\<open>command_cycles\<close>), with the status of the
  atomic command, and leaves the machine idle; sequences of writes and resets refine the
  abstract device with its write pointers, erase counts and limit of four open zones; the
  descriptors stay well formed under every command; zones accept their pages in order, on
  hardware and in software. The server's write loop polls ten times, which is enough for
  the six cycles, and a written range reads back on the wire; every sequence of connections is
  answered byte for byte as the specification of the server says. The driver bench runs to the end on an
  idle device and prints the status codes it expects. The fourteen acceptance tests
  run to the end on the whole stack, and all pass when the bridge holds a controller. For the simulator: from
  construction every sequence of operations keeps the invariant that ties a block's counters
  and state to its pages; a write changes exactly one page of one block and reads back, a
  page is not written twice, an erase empties one block; a channel never double-books;
  addresses are in bijection with pages; allocation hands out the blocks of the device in order; the erases
  a block has left and those it has had add up to the configured number; a device that is
  destroyed has given back every connection to its channels. For the
  translation layers: from an empty table every sequence of page writes of the demand-paged
  layer below the garbage collection threshold completes and is read back from where the last
  write went; for a table of whole translation pages its lookups return, keep the cache within its limit and evict a least
  recently visited entry. The page layer counts exactly the erases that its number of writes
  makes necessary. The block-associative layer never has more log blocks than
  configured, reads a page where it wrote it, and a switch merge changes no address that is
  read. An in-order write of the bimodal layer is read back from its block. A rewrite in the
  fully associative layer appends to the log, and a read finds the first copy there. For the host
  programs: the correctness program visits every page of its file once per pass, in order; the
  benchmark's report has a row of eight non-negative times for every page it trims;
  the interactive program prints the number that was written.

  \<^bold>\<open>Where the code does not do what it says.\<close> Several theorems describe behaviour that
  comments or interfaces contradict: a read command rewrites the zone's descriptor with a
  stale word; a write outside the array is accepted; a server read and trim never wait for
  the device, so that from an idle device a read is never refused and a trim never resets; rewriting the first page of
  a zone through the server is lost after four times though acknowledged, and so is a write that
  follows two reads, unless the second is below the write pointer of the zone of the first; the negotiation of the server is never called; the devices of an array share
  one data area; a trim of the page layer can wrap its counter; the driver bench presets registers
  that nothing reads and hangs without a validator; a reset through the
  gate leaves 65536 in the software write pointer; a management reset clears every descriptor;
  merging two different blocks aborts; the wear statistics follow the first block; the cost
  table is never filled, so page writes cannot complete; a channel is never saturated; \<open>ready_at\<close> is a minimum;
  the bridge of the server is never given a controller, so that the thermal shutdown cannot trip,
  and the test of it passes all the same; the start-up reset pulse is never seen as an edge. In the
  translation layers: a trim of a mapped page writes outside the reverse table; evicting a
  dirty entry of a partial translation page reads past the table; the bimodal layer loses the
  pages of a block that leaves block mapping; the fully associative layer reads a rewritten
  page from its oldest log copy, and its full merge skips the first page of every log block. In the
  host programs: the emulation interface sends every page of a range to the first address; the
  verification program draws addresses outside the device and aborts, and prints a standard deviation
  as variance; an unreadable trace line repeats the request before it; the benchmark names a column that it does not fill; on the controller that is built the
  correctness program compares nothing.

  \<^bold>\<open>Not modelled.\<close> The walk of \<open>insert_events\<close> over the cost table, which starts by
  stepping back from the end of an empty container and is undefined: the model stops there,
  and \<open>cleanup_block\<close> of the layers, which only that walk calls, is modelled by itself. The
  statistics printers and \<open>Event::print\<close>; the assignment from \<open>ioreq_event\<close>, which is disabled
  in the source; the old class in \<open>ssd_ftl.cpp\<close>, which is in no build and declared in no
  header, so that the types of its members cannot be read; sockets and console output; the
  interleaving of the management thread with a request in progress (connections are served
  one after the other); the Verilog modules that the co-simulation does not instantiate; code
  generated by LiteX. The repository has no controller that passes the events of a translation
  layer on to the flash (\<open>issue\<close> is a stub), so the layers and the device are not composed.
\<close>

section \<open>A session on the wire\<close>

text \<open>
  C5. On the wire: a client that sends a write request with its payload and then a read of
  the same range, to an idle device that admits the write, receives a success reply for
  the write, then a success reply for the read followed by the bytes it wrote.
\<close>

theorem nbd_session_round_trip:
  assumes "hw_idle (nbd_hw s) d" "served w" "write_admitted w d"
    and "rq_from rd = rq_from w" "rq_len rd = rq_len w" "length payload = unat (rq_len w)"
    and "rq_magic w = ZNS_NBD_REQUEST_MAGIC" "rq_type w = NBD_CMD_LOCAL_WRITE" "length (rq_handle w) = 8"
    and "rq_magic rd = ZNS_NBD_REQUEST_MAGIC" "rq_type rd = NBD_CMD_LOCAL_READ" "length (rq_handle rd) = 8"
  shows "map_option fst (transmission_loop pad buf (encode_request w @ payload @ encode_request rd) s) =
      Some (reply_to w 0 @ reply_to rd 0 @ payload)"
proof -
  from nbd_round_trip [OF assms(1-6)] obtain s1 s2 where
    w: "nbd_write w payload s = Some (reply_to w 0, s1)" and rd: "nbd_read rd s1 = Some (reply_to rd 0 @ payload, s2)" .
  have "transmission_loop pad b (encode_request rd @ []) s1 = Some (reply_to rd 0 @ payload, s2)" for b
    using assms(10-12) rd transmission_loop.simps [of pad "encode_request rd @ drop 28 b" "[]" s2]
    by (subst loop_serves) (simp_all add: serve_request_def NBD_CMD_LOCAL_READ_def NBD_CMD_LOCAL_DISCONNECT_def)
  then show ?thesis
    using assms(6-9) w
    by (subst loop_serves) (simp_all add: serve_request_def recv_payload_def NBD_CMD_LOCAL_READ_def
        NBD_CMD_LOCAL_WRITE_def NBD_CMD_LOCAL_DISCONNECT_def)
qed

theorem nbd_session_round_trip_witness:
  "map_option fst (transmission_loop (\<lambda>_. 0) [] (encode_request (small_request 1 4096) @ [9, 8, 7, 6] @
       encode_request (small_request 0 4096)) booted_nbd) =
     Some (reply_to (small_request 1 4096) 0 @ reply_to (small_request 0 4096) 0 @ [9, 8, 7, 6])"
  by (rule nbd_session_round_trip [OF booted_nbd_idle small_served fresh_admits])
     (simp_all add: small_request_def NBD_CMD_LOCAL_READ_def NBD_CMD_LOCAL_WRITE_def)

end
